(* ===== verification/Prelude.thy ===== *)
theory Prelude
  imports Main
    "HOL-Library.AList" "HOL-Library.List_Lexorder" "HOL-Library.Char_ord"
    "HOL-Library.Multiset" "HOL-Library.Word"
begin

text \<open>
  What every component of trish shares: Go errors as values, Go strings as lists of bytes with
  the functions of packages strings and strconv that the sources call, Go maps as association
  lists whose iteration order is an argument, instants of package time as integers of
  nanoseconds, and the generic lemmas about all of these.

  Lemmas go to one of these collections: \<open>go_string\<close> (unfolding of string functions on
  concrete texts), \<open>gomap\<close> (lookup, update and deletion in Go maps).
\<close>

named_theorems go_string
named_theorems gomap

section \<open>Errors\<close>

text \<open>
  A Go error is a value. The sources build most of them with fmt.Errorf and tell only two
  kinds apart, with os.IsNotExist and os.IsExist; the text of the error is what Error() returns.
\<close>

datatype go_error = Errorf string | ErrNotExist string | ErrExist string

fun error_text :: "go_error \<Rightarrow> string" where
  "error_text (Errorf s) = s"
| "error_text (ErrNotExist s) = s"
| "error_text (ErrExist s) = s"

fun is_not_exist :: "go_error \<Rightarrow> bool" where
  "is_not_exist (ErrNotExist s) = True"
| "is_not_exist _ = False"

fun is_exist :: "go_error \<Rightarrow> bool" where
  "is_exist (ErrExist s) = True"
| "is_exist _ = False"

type_synonym 'a result = "go_error + 'a"

section \<open>Strings: bytes, prefixes, joins\<close>

text \<open>A Go string is a sequence of bytes; \<^typ>\<open>char\<close> is a byte.\<close>

definition HasPrefix :: "string \<Rightarrow> string \<Rightarrow> bool" where
  [go_string]: "HasPrefix s p \<longleftrightarrow> take (length p) s = p"

definition TrimPrefix :: "string \<Rightarrow> string \<Rightarrow> string" where
  [go_string]: "TrimPrefix s p = (if HasPrefix s p then drop (length p) s else s)"

definition HasSuffix :: "string \<Rightarrow> string \<Rightarrow> bool" where
  [go_string]: "HasSuffix s p \<longleftrightarrow> length p \<le> length s \<and> drop (length s - length p) s = p"

lemma HasPrefix_append [simp]: "HasPrefix (p @ s) p"
  by (simp add: HasPrefix_def)

lemma TrimPrefix_append [simp]: "TrimPrefix (p @ s) p = s"
  by (simp add: TrimPrefix_def)

lemma HasPrefix_iff: "HasPrefix s p \<longleftrightarrow> (\<exists>r. s = p @ r)"
  unfolding HasPrefix_def
  by (metis append_eq_conv_conj append_take_drop_id)

fun Contains :: "string \<Rightarrow> string \<Rightarrow> bool" where
  "Contains [] p \<longleftrightarrow> p = []"
| "Contains (c # s) p \<longleftrightarrow> HasPrefix (c # s) p \<or> Contains s p"

text \<open>strings.Join.\<close>

fun join :: "string \<Rightarrow> string list \<Rightarrow> string" where
  "join sep [] = []"
| "join sep [s] = s"
| "join sep (s # t # ss) = s @ sep @ join sep (t # ss)"

text \<open>strings.ReplaceAll for a pattern of one byte.\<close>

definition replace_char :: "char \<Rightarrow> string \<Rightarrow> string \<Rightarrow> string" where
  "replace_char c w s = concat (map (\<lambda>x. if x = c then w else [x]) s)"

lemma replace_char_simps [simp]:
  "replace_char c w [] = []"
  "replace_char c w (x # s) = (if x = c then w else [x]) @ replace_char c w s"
  "replace_char c w (s @ t) = replace_char c w s @ replace_char c w t"
  by (simp_all add: replace_char_def)

section \<open>White space: TrimSpace and Fields\<close>

text \<open>
  unicode.IsSpace on UTF-8 bytes. The encodings of the white-space runes are listed; none of
  them is a prefix of another, a lead byte never occurs inside a rune, so scanning the bytes
  for these sequences finds exactly the white-space runes that utf8.DecodeRune finds.
\<close>

definition space_seqs :: "string list" where
  "space_seqs =
     [ [CHR 0x09], [CHR 0x0A], [CHR 0x0B], [CHR 0x0C], [CHR 0x0D], [CHR 0x20],
      [CHR 0xC2, CHR 0x85], [CHR 0xC2, CHR 0xA0], [CHR 0xE1, CHR 0x9A, CHR 0x80],
      [CHR 0xE2, CHR 0x80, CHR 0x80], [CHR 0xE2, CHR 0x80, CHR 0x81],
      [CHR 0xE2, CHR 0x80, CHR 0x82], [CHR 0xE2, CHR 0x80, CHR 0x83],
      [CHR 0xE2, CHR 0x80, CHR 0x84], [CHR 0xE2, CHR 0x80, CHR 0x85],
      [CHR 0xE2, CHR 0x80, CHR 0x86], [CHR 0xE2, CHR 0x80, CHR 0x87],
      [CHR 0xE2, CHR 0x80, CHR 0x88], [CHR 0xE2, CHR 0x80, CHR 0x89],
      [CHR 0xE2, CHR 0x80, CHR 0x8A], [CHR 0xE2, CHR 0x80, CHR 0xA8],
      [CHR 0xE2, CHR 0x80, CHR 0xA9], [CHR 0xE2, CHR 0x80, CHR 0xAF],
      [CHR 0xE2, CHR 0x81, CHR 0x9F], [CHR 0xE3, CHR 0x80, CHR 0x80] ]"

text \<open>
  Length of the white-space rune at the head of \<open>s\<close>, 0 if there is none; the first argument
  is the list of encodings, so that the same scan serves both ends of a string.
\<close>

fun seq_len :: "string list \<Rightarrow> string \<Rightarrow> nat" where
  "seq_len [] s = 0"
| "seq_len (q # qs) s = (if HasPrefix s q then length q else seq_len qs s)"

function trim_head :: "string list \<Rightarrow> string \<Rightarrow> string" where
  "trim_head qs s =
     (if s = [] \<or> seq_len qs s = 0 then s else trim_head qs (drop (seq_len qs s) s))"
  by pat_completeness auto
termination
  by (relation "measure (\<lambda>(qs, s). length s)") auto

declare trim_head.simps [simp del]

definition TrimSpace :: "string \<Rightarrow> string" where
  "TrimSpace s = rev (trim_head (map rev space_seqs) (rev (trim_head space_seqs s)))"

lemma trim_head_Nil [simp]: "trim_head qs [] = []"
  by (simp add: trim_head.simps)

lemma trim_head_fix: "seq_len qs s = 0 \<Longrightarrow> trim_head qs s = s"
  by (simp add: trim_head.simps)

lemma seq_len_trim_head: "trim_head qs s \<noteq> [] \<Longrightarrow> seq_len qs (trim_head qs s) = 0"
proof (induction qs s rule: trim_head.induct)
  case (1 qs s)
  show ?case
  proof (cases "s = [] \<or> seq_len qs s = 0")
    case True
    with "1.prems" show ?thesis by (auto simp: trim_head.simps [of qs s])
  next
    case False
    with "1.IH" "1.prems" show ?thesis by (simp add: trim_head.simps [of qs s])
  qed
qed

lemma trim_head_suffix: "\<exists>p. s = p @ trim_head qs s"
proof (induction qs s rule: trim_head.induct)
  case (1 qs s)
  show ?case
  proof (cases "s = [] \<or> seq_len qs s = 0")
    case True
    then show ?thesis by (auto simp: trim_head.simps [of qs s])
  next
    case False
    with "1.IH" obtain p where "drop (seq_len qs s) s = p @ trim_head qs s"
      by (auto simp: trim_head.simps [of qs s])
    then have "s = (take (seq_len qs s) s @ p) @ trim_head qs s"
      by (metis append.assoc append_take_drop_id)
    then show ?thesis by blast
  qed
qed

lemma seq_len_append: "seq_len qs (s @ t) = 0 \<Longrightarrow> s \<noteq> [] \<Longrightarrow> seq_len qs s = 0"
  by (induction qs) (auto simp: HasPrefix_iff split: if_splits)

text \<open>Trimming the tail never exposes white space at the head.\<close>

lemma TrimSpace_head: "seq_len space_seqs (TrimSpace s) = 0"
proof (cases "TrimSpace s = []")
  case True
  then show ?thesis by (simp add: space_seqs_def HasPrefix_def)
next
  case False
  let ?h = "trim_head space_seqs s"
  obtain p where "rev ?h = p @ trim_head (map rev space_seqs) (rev ?h)"
    using trim_head_suffix by blast
  then have h: "?h = TrimSpace s @ rev p"
    unfolding TrimSpace_def by (metis rev_append rev_rev_ident)
  with False have "?h \<noteq> []" by auto
  then have "seq_len space_seqs ?h = 0" by (rule seq_len_trim_head)
  with h False show ?thesis by (metis seq_len_append)
qed

lemma TrimSpace_tail: "seq_len (map rev space_seqs) (rev (TrimSpace s)) = 0"
proof (cases "TrimSpace s = []")
  case True
  then show ?thesis by (simp add: space_seqs_def HasPrefix_def)
next
  case False
  then show ?thesis
    unfolding TrimSpace_def by (simp add: seq_len_trim_head)
qed

theorem TrimSpace_idem [simp]: "TrimSpace (TrimSpace s) = TrimSpace s"
  by (subst (1) TrimSpace_def)
    (simp add: trim_head_fix TrimSpace_head TrimSpace_tail)

lemma TrimSpace_Nil [simp]: "TrimSpace [] = []"
  by (simp add: TrimSpace_def)

text \<open>strings.Fields: the maximal runs of bytes that hold no white-space rune.\<close>

function fields_from :: "string \<Rightarrow> string \<Rightarrow> string list" where
  "fields_from cur s =
     (case s of
        [] \<Rightarrow> (if cur = [] then [] else [cur])
      | c # r \<Rightarrow>
          (let n = seq_len space_seqs s in
           if n = 0 then fields_from (cur @ [c]) r
           else (if cur = [] then [] else [cur]) @ fields_from [] (drop (n - 1) r)))"
  by pat_completeness auto
termination
  by (relation "measure (\<lambda>(cur, s). length s)") auto

declare fields_from.simps [simp del]

definition Fields :: "string \<Rightarrow> string list" where
  "Fields s = fields_from [] s"

lemma fields_from_nonempty: "f \<in> set (fields_from cur s) \<Longrightarrow> f \<noteq> []"
proof (induction cur s rule: fields_from.induct)
  case (1 cur s)
  then show ?case
    by (auto simp: fields_from.simps [of cur s] Let_def split: list.splits if_splits)
qed

lemma Fields_nonempty: "f \<in> set (Fields s) \<Longrightarrow> f \<noteq> []"
  unfolding Fields_def by (rule fields_from_nonempty)

section \<open>Letter case\<close>

text \<open>
  strings.ToLower, as far as a comparison with an ASCII text can see it: ASCII capitals become
  small letters, and the two other runes whose lower case is ASCII (U+0130 and U+212A) become
  \<open>i\<close> and \<open>k\<close>. All other bytes are kept: their runes stay outside ASCII whatever their
  case, and the sources only ever compare the result of ToLower with ASCII constants.
\<close>

definition lower_char :: "char \<Rightarrow> char" where
  "lower_char c =
     (if 65 \<le> (of_char c :: nat) \<and> (of_char c :: nat) \<le> 90 then char_of ((of_char c :: nat) + 32) else c)"

fun ToLower :: "string \<Rightarrow> string" where
  "ToLower [] = []"
| "ToLower (c # s) =
     (if c = CHR 0xC4 \<and> take 1 s = [CHR 0xB0] then CHR ''i'' # ToLower (drop 1 s)
      else if c = CHR 0xE2 \<and> take 2 s = [CHR 0x84, CHR 0xAA] then CHR ''k'' # ToLower (drop 2 s)
      else lower_char c # ToLower s)"

section \<open>Numbers in text: strconv.Atoi and strconv.Itoa\<close>

definition digit_of :: "char \<Rightarrow> nat option" where
  "digit_of c = (let n = (of_char c :: nat) in if 48 \<le> n \<and> n \<le> 57 then Some (n - 48) else None)"

definition digit_char :: "nat \<Rightarrow> char" where
  "digit_char d = char_of (48 + d)"

fun digits_val :: "nat \<Rightarrow> string \<Rightarrow> nat option" where
  "digits_val a [] = Some a"
| "digits_val a (c # s) =
     (case digit_of c of None \<Rightarrow> None | Some d \<Rightarrow> digits_val (10 * a + d) s)"

text \<open>The type int has 64 bits: a value out of its range is an error.\<close>

definition int64 :: "int \<Rightarrow> bool" where
  "int64 v \<longleftrightarrow> - (2 ^ 63) \<le> v \<and> v < 2 ^ 63"

definition Atoi :: "string \<Rightarrow> int option" where
  "Atoi s =
     (let neg = (take 1 s = ''-'');
          ds = (if take 1 s = ''-'' \<or> take 1 s = ''+'' then drop 1 s else s)
      in if ds = [] then None
         else case digits_val 0 ds of
                None \<Rightarrow> None
              | Some n \<Rightarrow>
                  (let v = (if neg then - int n else int n) in
                   if int64 v then Some v else None))"

fun nat_digits :: "nat \<Rightarrow> string" where
  "nat_digits n =
     (if n < 10 then [digit_char n] else nat_digits (n div 10) @ [digit_char (n mod 10)])"

declare nat_digits.simps [simp del]

definition Itoa :: "int \<Rightarrow> string" where
  "Itoa v = (if v < 0 then CHR ''-'' # nat_digits (nat (- v)) else nat_digits (nat v))"

lemma digit_of_digit_char: "d < 10 \<Longrightarrow> digit_of (digit_char d) = Some d"
  by (simp add: digit_of_def digit_char_def Let_def)

lemma digit_of_minus [simp]: "digit_of CHR ''-'' = None" and digit_of_plus [simp]: "digit_of CHR ''+'' = None"
  by (simp_all add: digit_of_def)

lemma digits_val_append:
  "digits_val a (s @ t) = (case digits_val a s of None \<Rightarrow> None | Some b \<Rightarrow> digits_val b t)"
  by (induction s arbitrary: a) (auto split: option.splits)

lemma nat_digits_nonempty [simp]: "nat_digits n \<noteq> []"
  by (subst nat_digits.simps) simp

lemma digits_val_nat_digits: "digits_val 0 (nat_digits n) = Some n"
proof (induction n rule: nat_digits.induct)
  case (1 n)
  show ?case
  proof (cases "n < 10")
    case True
    then show ?thesis by (simp add: nat_digits.simps [of n] digit_of_digit_char)
  next
    case False
    with "1" have "digits_val 0 (nat_digits (n div 10)) = Some (n div 10)" by simp
    with False show ?thesis
      by (simp add: nat_digits.simps [of n] digits_val_append digit_of_digit_char)
  qed
qed

lemma nat_digits_no_sign: "take 1 (nat_digits n) \<noteq> ''-'' \<and> take 1 (nat_digits n) \<noteq> ''+''"
proof -
  obtain c r where c: "nat_digits n = c # r" by (cases "nat_digits n") auto
  then have "digit_of c \<noteq> None" using digits_val_nat_digits [of n] by (auto split: option.splits)
  then have "c \<noteq> CHR ''-''" "c \<noteq> CHR ''+''" by auto
  with c show ?thesis by simp
qed

theorem Atoi_Itoa: "int64 v \<Longrightarrow> Atoi (Itoa v) = Some v"
  using nat_digits_no_sign [of "nat v"]
  by (simp add: Atoi_def Itoa_def Let_def digits_val_nat_digits)

lemma Itoa_inj: "int64 v \<Longrightarrow> int64 w \<Longrightarrow> Itoa v = Itoa w \<Longrightarrow> v = w"
  by (metis Atoi_Itoa option.inject)

lemma Itoa_nonempty [simp]: "Itoa v \<noteq> []"
  by (simp add: Itoa_def)

section \<open>Instants and durations\<close>

text \<open>
  An instant of package time is the number of nanoseconds since year 1 on the wall clock, a
  duration a number of nanoseconds. time.Unix adds the offset of year 1 in 64-bit arithmetic,
  which wraps; Sub saturates at the ends of the type Duration.
\<close>

type_synonym instant = int
type_synonym duration = int

definition second :: duration where
  "second = 1000000000"

definition time_Unix :: "64 word \<Rightarrow> instant" where
  "time_Unix s = sint (s + 62135596800) * second"

definition time_Sub :: "instant \<Rightarrow> instant \<Rightarrow> duration" where
  "time_Sub t u = max (- (2 ^ 63)) (min (2 ^ 63 - 1) (t - u))"

lemma time_Sub_greater: "d < 2 ^ 63 - 1 \<Longrightarrow> - (2 ^ 63) \<le> d \<Longrightarrow> time_Sub t u > d \<longleftrightarrow> t - u > d"
  by (auto simp: time_Sub_def)

section \<open>Lists updated by index\<close>

lemma nth_update: "xs[i := x] ! j = (if i = j \<and> j < length xs then x else xs ! j)"
  by (cases "i < length xs") (auto simp: nth_list_update list_update_beyond)

section \<open>Go maps\<close>

text \<open>
  A Go map with text keys is an association list with distinct keys. The order in which
  \<open>range\<close> visits it is unspecified in Go, so every loop over a map takes the order as an
  argument: a function that permutes the list of keys.
\<close>

type_synonym 'v gomap = "(string \<times> 'v) list"
type_synonym map_order = "string list \<Rightarrow> string list"

abbreviation map_ok :: "'v gomap \<Rightarrow> bool" where
  "map_ok m \<equiv> distinct (map fst m)"

definition is_order :: "map_order \<Rightarrow> bool" where
  "is_order ord \<longleftrightarrow> (\<forall>ks. mset (ord ks) = mset ks)"

definition map_range :: "map_order \<Rightarrow> 'v gomap \<Rightarrow> (string \<times> 'v) list" where
  "map_range ord m = List.map_filter (\<lambda>k. map_option (Pair k) (map_of m k)) (ord (map fst m))"

definition map_keys :: "map_order \<Rightarrow> 'v gomap \<Rightarrow> string list" where
  "map_keys ord m = map fst (map_range ord m)"

definition map_values :: "map_order \<Rightarrow> 'v gomap \<Rightarrow> 'v list" where
  "map_values ord m = map snd (map_range ord m)"

lemma is_order_id [simp]: "is_order (\<lambda>ks. ks)" and is_order_rev [simp]: "is_order rev"
  by (simp_all add: is_order_def)

lemma is_order_mset: "is_order ord \<Longrightarrow> mset (ord ks) = mset ks"
  by (simp add: is_order_def)

lemma mset_map_filter_cong: "mset xs = mset ys \<Longrightarrow> mset (List.map_filter f xs) = mset (List.map_filter f ys)"
  by (simp add: map_filter_def mset_filter)

lemma map_filter_keys:
  "map_ok m \<Longrightarrow> List.map_filter (\<lambda>k. map_option (Pair k) (map_of m k)) (map fst m) = m"
proof -
  have "map_ok m \<Longrightarrow> set xs \<subseteq> set m \<Longrightarrow>
    List.map_filter (\<lambda>k. map_option (Pair k) (map_of m k)) (map fst xs) = xs" for xs
    by (induction xs) (auto simp: map_filter_simps)
  then show "map_ok m \<Longrightarrow> ?thesis" by simp
qed

lemma mset_map_range: "is_order ord \<Longrightarrow> map_ok m \<Longrightarrow> mset (map_range ord m) = mset m"
  unfolding map_range_def
  by (metis is_order_mset map_filter_keys mset_map_filter_cong)

lemma set_map_range: "is_order ord \<Longrightarrow> map_ok m \<Longrightarrow> set (map_range ord m) = set m"
  by (metis mset_map_range set_mset_mset)

lemma mset_map_keys: "is_order ord \<Longrightarrow> map_ok m \<Longrightarrow> mset (map_keys ord m) = mset (map fst m)"
  by (simp add: map_keys_def mset_map_range)

lemma mset_map_values: "is_order ord \<Longrightarrow> map_ok m \<Longrightarrow> mset (map_values ord m) = mset (map snd m)"
  by (simp add: map_values_def mset_map_range)

lemma set_map_keys: "is_order ord \<Longrightarrow> map_ok m \<Longrightarrow> set (map_keys ord m) = dom (map_of m)"
  by (metis mset_map_keys dom_map_of_conv_image_fst set_map set_mset_mset)

lemma distinct_map_keys: "is_order ord \<Longrightarrow> map_ok m \<Longrightarrow> distinct (map_keys ord m)"
  by (metis mset_map_keys mset_eq_imp_distinct_iff)

lemma set_map_values: "is_order ord \<Longrightarrow> map_ok m \<Longrightarrow> set (map_values ord m) = ran (map_of m)"
  by (simp add: map_values_def set_map_range ran_distinct)

lemma map_range_id [simp]: "map_ok m \<Longrightarrow> map_range (\<lambda>ks. ks) m = m"
  by (simp add: map_range_def map_filter_keys)

lemmas [gomap] = update_conv' delete_conv' distinct_update distinct_delete

section \<open>Sorting\<close>

text \<open>sort.Strings is \<^const>\<open>sort\<close> on the lexicographic order of bytes.\<close>

lemma sort_mset_cong: "mset xs = mset ys \<Longrightarrow> sort xs = sort (ys :: 'a :: linorder list)"
  by (metis mset_sort properties_for_sort sorted_sort)

lemma sort_key_mset_cong:
  assumes "mset xs = mset ys" and "inj_on f (set ys)"
  shows "sort_key f xs = sort_key f ys"
proof (rule sort_key_inj_key_eq)
  show "mset xs = mset (sort_key f ys)" using assms(1) by simp
  show "inj_on f (set xs)" using assms by (metis set_mset_mset)
  show "sorted (map f (sort_key f ys))" by simp
qed

text \<open>
  A stable sort in descending order. sort.Slice is not stable, but the results agree wherever
  no two keys are equal.
\<close>

definition sort_desc :: "('a \<Rightarrow> 'k :: linorder) \<Rightarrow> 'a list \<Rightarrow> 'a list" where
  "sort_desc f xs = rev (sort_key f (rev xs))"

lemma set_sort_desc [simp]: "set (sort_desc f xs) = set xs"
  by (simp add: sort_desc_def)

lemma sort_desc_sorted: "sorted (rev (map f (sort_desc f xs)))"
  by (simp add: sort_desc_def rev_map)

text \<open>The loop that appends the names it has not seen yet.\<close>

fun add_new :: "string list \<Rightarrow> string list \<Rightarrow> string list" where
  "add_new names [] = names"
| "add_new names (x # xs) = add_new (if x \<in> set names then names else names @ [x]) xs"

lemma set_add_new [simp]: "set (add_new names xs) = set names \<union> set xs"
  by (induction xs arbitrary: names) auto

lemma distinct_add_new: "distinct names \<Longrightarrow> distinct (add_new names xs)"
  by (induction xs arbitrary: names) auto

lemma sort_add_new: "sort (add_new [] xs) = sorted_list_of_set (set xs)"
  using distinct_add_new [of "[]" xs]
  by (metis distinct.simps(1) set_add_new sorted_list_of_set_sort_remdups distinct_remdups_id
      empty_set sup_bot_left)

end
