(* ===== verification/Wire.thy ===== *)
theory Wire
  imports Prelude
begin

text \<open>
  The data that server, agent and CLI exchange, and the interface of package core to the files
  of it that the repository does not hold. Its .gitignore keeps new files of core/ out of the
  repository, so protocol.go, registry.go, the plugin package format, the signature scheme and
  SessionState are absent. Their struct types appear here with the fields the readable sources
  use; their functions are components of the records \<open>core_lib\<close> and \<open>registry_lib\<close>,
  which every definition that calls them takes as an argument. What callers may rely on is
  stated as a predicate on these records, never as an axiom.
\<close>

section \<open>Struct types of package core\<close>

record entry = \<comment> \<open>core.AgentRegistryEntry\<close>
  e_ID :: string
  e_MachineID :: string
  e_Hostname :: string
  e_IPAddress :: string
  e_Port :: int
  e_Version :: string
  e_Status :: string
  e_Connected :: bool
  e_Commands :: "string list"
  e_Tags :: "string list"
  e_Groups :: "string list"
  e_LastSeen :: instant

record plugin_command = \<comment> \<open>core.DynamicPluginCommand\<close>
  pc_Name :: string

record plugin_file = \<comment> \<open>core.DynamicPluginFile\<close>
  pf_Path :: string
  pf_ContentBase64 :: string

record manifest = \<comment> \<open>core.DynamicPluginManifest\<close>
  mf_Name :: string
  mf_Version :: string
  mf_Entry :: string
  mf_Shell :: string
  mf_OS :: "string list"
  mf_Permissions :: "string list"
  mf_Commands :: "plugin_command list"
  mf_Disabled :: bool
  mf_Source :: string
  mf_ChecksumSHA256 :: string

record package = \<comment> \<open>core.DynamicPluginPackage\<close>
  pk_Manifest :: manifest
  pk_Files :: "plugin_file list"

text \<open>
  The message types, one constructor per constant core.MessageType... that the sources name;
  \<open>MT_Other\<close> is any other text. That different constants are different texts is checked by the
  Go compiler, which refuses a switch with two equal constant cases.
\<close>

datatype mtype =
    CLIList | CLIInfo | CLIExec | CLIPing | CLIAgentControl
  | CLIPluginList | CLIPluginInstall | CLIPluginEnable | CLIPluginDisable
  | CLIPluginVersions | CLIPluginRollback | CLIPluginRemove
  | CLIGroupList | CLIGroupCreate | CLIGroupDelete | CLIGroupAdd | CLIGroupRemove
  | CLITagSet | CLITagAdd | CLITagRemove
  | AgentRegister | AgentHeartbeat | AgentExecResult
  | ServerError | ServerRegisterOK | ServerListResult | ServerInfoResult | ServerExec
  | ServerExecResult | ServerPing | ServerPingResult | ServerControl | ServerPluginList
  | MT_Other string

record message = \<comment> \<open>core.Message\<close>
  m_Type :: mtype
  m_RequestID :: string
  m_CommandID :: string
  m_AgentID :: string
  m_Agent :: "entry option"
  m_Agents :: "entry list"
  m_Command :: string
  m_Args :: "string list"
  m_Commands :: "string list"
  m_Result :: string
  m_Error :: string
  m_Success :: bool
  m_Status :: string
  m_Control :: string
  m_Tags :: "string list"
  m_Groups :: "string list"
  m_GroupName :: string
  m_Plugin :: "package option"
  m_Plugins :: "manifest list"
  m_PluginName :: string
  m_PluginVersion :: string
  m_TrustedAdmin :: bool
  m_Timestamp :: instant
  m_AuthClientID :: string
  m_AuthTimestamp :: "64 word"
  m_AuthNonce :: string
  m_AuthSignature :: string

text \<open>A composite literal that sets nothing but the type: all other fields are zero values.\<close>

definition new_message :: "mtype \<Rightarrow> message" where
  "new_message t =
     \<lparr>m_Type = t, m_RequestID = [], m_CommandID = [], m_AgentID = [], m_Agent = None,
      m_Agents = [], m_Command = [], m_Args = [], m_Commands = [], m_Result = [], m_Error = [],
      m_Success = False, m_Status = [], m_Control = [], m_Tags = [], m_Groups = [],
      m_GroupName = [], m_Plugin = None, m_Plugins = [], m_PluginName = [],
      m_PluginVersion = [], m_TrustedAdmin = False, m_Timestamp = 0, m_AuthClientID = [],
      m_AuthTimestamp = 0, m_AuthNonce = [], m_AuthSignature = []\<rparr>"

lemma new_message_simps [simp]:
  "m_Type (new_message t) = t" "m_CommandID (new_message t) = []"
  "m_AgentID (new_message t) = []" "m_Error (new_message t) = []"
  "m_Success (new_message t) = False" "m_Status (new_message t) = []"
  "m_TrustedAdmin (new_message t) = False" "m_Result (new_message t) = []"
  "m_Command (new_message t) = []" "m_Args (new_message t) = []"
  "m_Control (new_message t) = []" "m_RequestID (new_message t) = []"
  "m_Agent (new_message t) = None" "m_Plugin (new_message t) = None"
  by (simp_all add: new_message_def)

section \<open>Functions of package core that are not in the repository\<close>

record core_lib =
  type_text :: "mtype \<Rightarrow> string" \<comment> \<open>the text of a message type\<close>
  max_skew :: duration \<comment> \<open>core.DefaultAuthMaxSkew\<close>
  compute_signature :: "message \<Rightarrow> string \<Rightarrow> string result" \<comment> \<open>core.ComputeMessageSignature\<close>
  sign_message :: "message \<Rightarrow> string \<Rightarrow> message result" \<comment> \<open>core.SignMessage, which sets AuthSignature\<close>
  validate :: "package \<Rightarrow> package result"
    \<comment> \<open>(*DynamicPluginPackage).Validate: the package as it leaves it, or an error\<close>
  validate_nil :: go_error \<comment> \<open>what Validate reports on a nil package; install relies on it\<close>
  command_names :: "manifest \<Rightarrow> string list" \<comment> \<open>DynamicPluginManifest.CommandNames\<close>
  supports_os :: "manifest \<Rightarrow> string \<Rightarrow> bool" \<comment> \<open>DynamicPluginManifest.SupportsOS\<close>

text \<open>
  core.AgentRegistry: a persistent inventory of agents. Every operation may fail (it writes a
  file), and the operations that stamp an entry read the clock, whose value is an argument.
\<close>

record 'r registry_lib =
  reg_List :: "'r \<Rightarrow> entry list"
  reg_Get :: "'r \<Rightarrow> string \<Rightarrow> entry result"
  reg_Register :: "instant \<Rightarrow> entry \<Rightarrow> 'r \<Rightarrow> 'r \<times> go_error option"
  reg_UpdateStatus :: "instant \<Rightarrow> string \<Rightarrow> bool \<Rightarrow> 'r \<Rightarrow> 'r \<times> go_error option"
  reg_AddGroup :: "string \<Rightarrow> string \<Rightarrow> 'r \<Rightarrow> 'r \<times> go_error option"
  reg_RemoveGroup :: "string \<Rightarrow> string \<Rightarrow> 'r \<Rightarrow> 'r \<times> go_error option"
  reg_SetTags :: "string \<Rightarrow> string list \<Rightarrow> 'r \<Rightarrow> 'r \<times> go_error option"
  reg_AddTags :: "string \<Rightarrow> string list \<Rightarrow> 'r \<Rightarrow> 'r \<times> go_error option"
  reg_RemoveTags :: "string \<Rightarrow> string list \<Rightarrow> 'r \<Rightarrow> 'r \<times> go_error option"

section \<open>What callers rely on\<close>

text \<open>docs/PHASE_1_ARCHITECTURE.md: the types of the messages a CLI sends start with cli.\<close>

definition is_cli_type :: "mtype \<Rightarrow> bool" where
  "is_cli_type t \<longleftrightarrow> t \<in>
     {CLIList, CLIInfo, CLIExec, CLIPing, CLIAgentControl, CLIPluginList, CLIPluginInstall,
      CLIPluginEnable, CLIPluginDisable, CLIPluginVersions, CLIPluginRollback, CLIPluginRemove,
      CLIGroupList, CLIGroupCreate, CLIGroupDelete, CLIGroupAdd, CLIGroupRemove, CLITagSet,
      CLITagAdd, CLITagRemove}"

definition type_text_ok :: "core_lib \<Rightarrow> bool" where
  "type_text_ok L \<longleftrightarrow>
     (\<forall>t. is_cli_type t \<longrightarrow> HasPrefix (type_text L t) ''cli.'') \<and>
     type_text L AgentRegister = ''agent.register''"

text \<open>
  A signed message carries the signature the server computes, and signing changes no other
  field (server/server_auth_test.go relies on it).
\<close>

definition signing_ok :: "core_lib \<Rightarrow> bool" where
  "signing_ok L \<longleftrightarrow>
     (\<forall>m s m'. sign_message L m s = Inr m' \<longrightarrow>
        compute_signature L m' s = Inr (m_AuthSignature m') \<and> TrimSpace (m_AuthSignature m') \<noteq> [] \<and>
        m' = m\<lparr>m_AuthSignature := m_AuthSignature m'\<rparr>)"

text \<open>
  The registry stores what it is given under the entry's identifier and leaves the other
  entries alone; UpdateStatus sets the connection flag of one entry (docs/PHASE_2).
\<close>

definition registry_ok :: "'r registry_lib \<Rightarrow> bool" where
  "registry_ok R \<longleftrightarrow>
     (\<forall>now e r r'. reg_Register R now e r = (r', None) \<longrightarrow>
        reg_Get R r' (e_ID e) = Inr e \<and>
        (\<forall>i. i \<noteq> e_ID e \<longrightarrow> reg_Get R r' i = reg_Get R r i)) \<and>
     (\<forall>now i c r r' e. reg_UpdateStatus R now i c r = (r', None) \<longrightarrow> reg_Get R r i = Inr e \<longrightarrow>
        (\<exists>e'. reg_Get R r' i = Inr e' \<and> e_Connected e' = c) \<and>
        (\<forall>j. j \<noteq> i \<longrightarrow> reg_Get R r' j = reg_Get R r j)) \<and>
     (\<forall>r i e. reg_Get R r i = Inr e \<longrightarrow> e_ID e = i)"

text \<open>CommandNames lists the names of the manifest's commands (helloWorld/README.md).\<close>

definition command_names_ok :: "core_lib \<Rightarrow> bool" where
  "command_names_ok L \<longleftrightarrow> (\<forall>mf. set (command_names L mf) = pc_Name ` set (mf_Commands mf))"

section \<open>Sample instances\<close>

text \<open>
  Concrete values of the parameters, for the theorems that show a hypothesis can be met. They
  are not a claim about the code that is absent.
\<close>

definition sample_sign :: "message \<Rightarrow> string \<Rightarrow> string" where
  "sample_sign m s = s @ ''/'' @ m_AuthClientID m @ ''/'' @ m_AuthNonce m"

definition sample_lib :: core_lib where
  "sample_lib =
     \<lparr>type_text = (\<lambda>t. if t = AgentRegister then ''agent.register''
                       else if is_cli_type t then ''cli.x'' else ''server.x''),
      max_skew = 300 * second,
      compute_signature = (\<lambda>m s. Inr (sample_sign m s)),
      sign_message = (\<lambda>m s. if TrimSpace (sample_sign m s) = [] then Inl (Errorf ''empty signature'')
                            else Inr (m\<lparr>m_AuthSignature := sample_sign m s\<rparr>)),
      validate = (\<lambda>p. if mf_Name (pk_Manifest p) = [] \<or> TrimSpace (mf_Version (pk_Manifest p)) = [] \<or>
                         TrimSpace (mf_Name (pk_Manifest p)) \<noteq> mf_Name (pk_Manifest p)
                      then Inl (Errorf ''invalid plugin'') else Inr p),
      validate_nil = Errorf ''plugin package is required'',
      command_names = (\<lambda>mf. map pc_Name (mf_Commands mf)),
      supports_os = (\<lambda>mf os. os \<in> set (mf_OS mf))\<rparr>"

definition sample_registry :: "entry gomap registry_lib" where
  "sample_registry =
     (let upd = (\<lambda>i f r. case map_of r i of
                   None \<Rightarrow> (r, Some (Errorf (''agent '' @ i @ '' not found'')))
                 | Some e \<Rightarrow> (AList.update i (f e) r, None))
      in \<lparr>reg_List = map snd,
          reg_Get = (\<lambda>r i. case map_of r i of
             None \<Rightarrow> Inl (Errorf (''agent '' @ i @ '' not found''))
           | Some e \<Rightarrow> Inr (e\<lparr>e_ID := i\<rparr>)),
          reg_Register = (\<lambda>now e r. (AList.update (e_ID e) e r, None)),
          reg_UpdateStatus = (\<lambda>now i c. upd i (\<lambda>e. e\<lparr>e_Connected := c,
             e_Status := (if c then ''online'' else ''offline'')\<rparr>)),
          reg_AddGroup = (\<lambda>i g. upd i (\<lambda>e. e\<lparr>e_Groups := e_Groups e @ [g]\<rparr>)),
          reg_RemoveGroup = (\<lambda>i g. upd i (\<lambda>e. e\<lparr>e_Groups := removeAll g (e_Groups e)\<rparr>)),
          reg_SetTags = (\<lambda>i ts. upd i (\<lambda>e. e\<lparr>e_Tags := ts\<rparr>)),
          reg_AddTags = (\<lambda>i ts. upd i (\<lambda>e. e\<lparr>e_Tags := e_Tags e @ ts\<rparr>)),
          reg_RemoveTags = (\<lambda>i ts. upd i (\<lambda>e. e\<lparr>e_Tags := filter (\<lambda>t. t \<notin> set ts) (e_Tags e)\<rparr>))\<rparr>)"

lemma sample_lib_ok:
  "type_text_ok sample_lib" "signing_ok sample_lib"
  "command_names_ok sample_lib"
proof -
  show "command_names_ok sample_lib"
    by (simp add: command_names_ok_def sample_lib_def)
  show "type_text_ok sample_lib"
    by (simp add: type_text_ok_def sample_lib_def is_cli_type_def HasPrefix_def)
  show "signing_ok sample_lib"
    by (auto simp: signing_ok_def sample_lib_def sample_sign_def split: if_splits)
qed

lemma sample_registry_ok: "registry_ok sample_registry"
  unfolding registry_ok_def sample_registry_def Let_def
  by (auto simp: update_conv' split: option.splits)

end
