(* ===== verification/Go_Format.thy ===== *)
theory Go_Format
  imports Prelude
begin

text \<open>
  fmt.Errorf applied to a text and no operands, as core/client.go and agent/agent.go use it on
  error texts that come from the network: \<open>fmt.Errorf(resp.Error)\<close>. The text is a format
  for fmt, so every percent sign in it starts a directive. The functions below follow doPrintf
  of package fmt for an empty operand list: \<open>scan_number\<close> is its parsenum, \<open>scan_index\<close> its
  argNumber, \<open>scan_verb\<close> what it does from the flags to the verb.
\<close>

definition is_digit :: "char \<Rightarrow> bool" where
  "is_digit c \<longleftrightarrow> digit_of c \<noteq> None"

text \<open>Value, presence and rest; a number above one million consumes the whole text.\<close>

fun scan_digits :: "nat \<Rightarrow> bool \<Rightarrow> string \<Rightarrow> (nat \<times> bool) \<times> string" where
  "scan_digits n b [] = ((n, b), [])"
| "scan_digits n b (c # s) =
     (case digit_of c of
        None \<Rightarrow> ((n, b), c # s)
      | Some d \<Rightarrow> (if n > 1000000 then ((0, False), []) else scan_digits (10 * n + d) True s))"

definition scan_number :: "string \<Rightarrow> bool \<times> string" where
  "scan_number s = (case scan_digits 0 False s of ((n, b), r) \<Rightarrow> (b, r))"

text \<open>
  argNumber: an index in brackets. No index is valid without operands, so the result tells
  whether there was a bracket, whether it held a number, and what follows.
\<close>

definition scan_index :: "string \<Rightarrow> (bool \<times> bool) \<times> string" where
  "scan_index s =
     (case s of
        [] \<Rightarrow> ((False, False), s)
      | c # r \<Rightarrow>
          (if c \<noteq> CHR ''['' then ((False, False), s)
           else if length s < 3 \<or> CHR '']'' \<notin> set r then ((True, False), r)
           else let inner = takeWhile (\<lambda>x. x \<noteq> CHR '']'') r; rest = drop (length inner + 1) r;
                    (isnum, left) = scan_number inner
                in ((True, isnum \<and> left = []), rest)))"

definition is_cont :: "char \<Rightarrow> bool" where
  "is_cont c \<longleftrightarrow> 128 \<le> (of_char c :: nat) \<and> (of_char c :: nat) < 192"

text \<open>utf8.DecodeRune: the length of the rune at the head of a non-empty text, 0 if invalid.\<close>

definition rune_size :: "string \<Rightarrow> nat" where
  "rune_size s =
     (let b = (\<lambda>i. if i < length s then (of_char (s ! i) :: nat) else 0);
          ok = (\<lambda>n lo hi. lo \<le> b 1 \<and> b 1 \<le> hi \<and> (\<forall>i \<in> set [2..<n]. i < length s \<and> is_cont (s ! i)))
      in if s = [] then 0
         else if b 0 < 128 then 1
         else if 194 \<le> b 0 \<and> b 0 \<le> 223 \<and> ok 2 128 191 then 2
         else if b 0 = 224 \<and> ok 3 160 191 then 3
         else if b 0 = 237 \<and> ok 3 128 159 then 3
         else if 225 \<le> b 0 \<and> b 0 \<le> 239 \<and> b 0 \<noteq> 237 \<and> ok 3 128 191 then 3
         else if b 0 = 240 \<and> ok 4 144 191 then 4
         else if 241 \<le> b 0 \<and> b 0 \<le> 243 \<and> ok 4 128 191 then 4
         else if b 0 = 244 \<and> ok 4 128 143 then 4
         else 0)"

definition verb_text :: "string \<Rightarrow> string" where
  "verb_text s = (if rune_size s = 0 then [CHR 0xEF, CHR 0xBF, CHR 0xBD] else take (rune_size s) s)"

fun skip_flags :: "string \<Rightarrow> string" where
  "skip_flags [] = []"
| "skip_flags (c # s) = (if c \<in> set ''#0+- '' then skip_flags s else c # s)"

text \<open>
  The three parts of a directive: the width, the precision, the verb. Each takes what is known
  so far (a bad index was seen, an index was the last thing seen) and returns what it prints,
  what is known after it, and the rest.
\<close>

definition scan_width :: "bool \<times> bool \<Rightarrow> string \<Rightarrow> string \<times> (bool \<times> bool) \<times> string" where
  "scan_width k s =
     (if take 1 s = ''*'' then (''%!(BADWIDTH)'', (fst k, False), drop 1 s)
      else ([], (fst k \<or> (snd k \<and> fst (scan_number s)), snd k), snd (scan_number s)))"

definition scan_prec :: "bool \<times> bool \<Rightarrow> string \<Rightarrow> string \<times> (bool \<times> bool) \<times> string" where
  "scan_prec k s =
     (if take 1 s = ''.''
      then (let i = scan_index (drop 1 s); bad = (fst k \<or> snd k \<or> fst (fst i)) in
            if take 1 (snd i) = ''*'' then (''%!(BADPREC)'', (bad, False), drop 1 (snd i))
            else ([], (bad, snd (fst i)), snd (scan_number (snd i))))
      else ([], k, s))"

definition print_verb :: "bool \<Rightarrow> string \<Rightarrow> string \<times> string" where
  "print_verb bad s =
     (if s = [] then (''%!(NOVERB)'', [])
      else if take 1 s = ''%'' then (''%'', drop 1 s)
      else (''%!'' @ verb_text s @ (if bad then ''(BADINDEX)'' else ''(MISSING)''), drop (max 1 (rune_size s)) s))"

text \<open>Everything between the percent sign and the next plain text: what is printed, the rest.\<close>

definition scan_verb :: "string \<Rightarrow> string \<times> string" where
  "scan_verb s =
     (let i = scan_index (skip_flags s);
          (out1, k1, s1) = scan_width (fst i) (snd i);
          (out2, k2, s2) = scan_prec k1 s1;
          j = (if snd k2 then ((False, True), s2) else scan_index s2);
          (out3, rest) = print_verb (fst k2 \<or> fst (fst j)) (snd j)
      in (out1 @ out2 @ out3, rest))"

lemma scan_digits_le: "length (snd (scan_digits n b s)) \<le> length s"
  by (induction n b s rule: scan_digits.induct) (auto split: option.splits)

lemma scan_number_le: "length (snd (scan_number s)) \<le> length s"
  using scan_digits_le [of 0 False s] by (auto simp: scan_number_def split: prod.splits)

lemma scan_index_le: "length (snd (scan_index s)) \<le> length s"
  by (auto simp: scan_index_def Let_def split: list.splits prod.splits)

lemma skip_flags_le: "length (skip_flags s) \<le> length s"
  by (induction s) auto

lemma scan_width_le: "scan_width k s = (out, k', r) \<Longrightarrow> length r \<le> length s"
  using scan_number_le [of s] by (auto simp: scan_width_def split: if_splits)

lemma scan_prec_le: "scan_prec k s = (out, k', r) \<Longrightarrow> length r \<le> length s"
  using scan_index_le [of "drop 1 s"] scan_number_le [of "snd (scan_index (drop 1 s))"]
  by (auto simp: scan_prec_def Let_def split: if_splits)

lemma print_verb_le: "print_verb bad s = (out, r) \<Longrightarrow> length r \<le> length s"
  by (auto simp: print_verb_def split: if_splits)

lemma scan_verb_le: "length (snd (scan_verb s)) \<le> length s"
proof -
  let ?i = "scan_index (skip_flags s)"
  obtain out1 k1 s1 where w: "scan_width (fst ?i) (snd ?i) = (out1, k1, s1)" by (metis surj_pair)
  obtain out2 k2 s2 where p: "scan_prec k1 s1 = (out2, k2, s2)" by (metis surj_pair)
  let ?j = "if snd k2 then ((False, True), s2) else scan_index s2"
  obtain out3 r where v: "print_verb (fst k2 \<or> fst (fst ?j)) (snd ?j) = (out3, r)" by (metis surj_pair)
  have "length (snd ?j) \<le> length s2" using scan_index_le [of s2] by simp
  with print_verb_le [OF v] scan_prec_le [OF p] scan_width_le [OF w]
    scan_index_le [of "skip_flags s"] skip_flags_le [of s]
  have "length r \<le> length s" by linarith
  then show ?thesis by (simp only: scan_verb_def Let_def w p v prod.case snd_conv)
qed

text \<open>fmt.Errorf of a text without operands.\<close>

function errorf0_text :: "string \<Rightarrow> string" where
  "errorf0_text [] = []"
| "errorf0_text (c # s) =
     (if c \<noteq> CHR ''%'' then c # errorf0_text s
      else fst (scan_verb s) @ errorf0_text (snd (scan_verb s)))"
  by pat_completeness auto
termination
  by (relation "measure length") (auto simp: less_Suc_eq_le scan_verb_le)

definition Errorf0 :: "string \<Rightarrow> go_error" where
  "Errorf0 s = Errorf (errorf0_text s)"

lemma errorf0_plain: "CHR ''%'' \<notin> set s \<Longrightarrow> errorf0_text s = s"
  by (induction s) auto

text \<open>A progress report loses its percent sign, and two signs become one.\<close>

lemma errorf0_samples:
  "errorf0_text ''disk 100% full'' = ''disk 100%!f(MISSING)ull''"
  "errorf0_text ''100%'' = ''100%!(NOVERB)''"
  "errorf0_text ''a%%b'' = ''a%b''"
  by code_simp+

end
