(* ===== verification/Core_Client.thy ===== *)
theory Core_Client
  imports Wire Go_Format
begin

text \<open>
  core/client.go: the client of the administrator. A request opens a connection, is signed and
  sent, and one message comes back. What the clock, the nonce generator, the network and the
  server do is the environment of the call, the record \<open>do_env\<close>.
\<close>

record client =
  cl_ID :: string
  cl_ServerAddr :: string
  cl_ServerPort :: int
  cl_Timeout :: duration
  cl_AdminSecret :: string

text \<open>NewClient: the clock in nanoseconds and the secret the build or a flag has set.\<close>

definition NewClient :: "int \<Rightarrow> string \<Rightarrow> string \<Rightarrow> int \<Rightarrow> client" where
  "NewClient nano secret serverAddr serverPort =
     \<lparr>cl_ID = ''client-'' @ Itoa nano,
      cl_ServerAddr = (if serverAddr = [] then ''127.0.0.1'' else serverAddr),
      cl_ServerPort = (if serverPort = 0 then 9999 else serverPort),
      cl_Timeout = 5 * second, cl_AdminSecret = secret\<rparr>"

text \<open>Time.Unix: the seconds since 1970, in 64 bits.\<close>

definition unix_seconds :: "instant \<Rightarrow> 64 word" where
  "unix_seconds t = word_of_int (t div second - 62135596800)"

definition cl_signMessage ::
  "core_lib \<Rightarrow> string result \<Rightarrow> instant \<Rightarrow> client \<Rightarrow> message \<Rightarrow> message result" where
  "cl_signMessage L nonce now c msg =
     (if TrimSpace (cl_AdminSecret c) = [] then Inl (Errorf ''admin secret is not configured'')
      else case nonce of
             Inl e \<Rightarrow> Inl e
           | Inr n \<Rightarrow>
               sign_message L (msg\<lparr>m_AuthClientID := cl_ID c, m_AuthTimestamp := unix_seconds now,
                                    m_AuthNonce := n\<rparr>) (cl_AdminSecret c))"

record do_env =
  env_dial :: "go_error option"
  env_deadline :: "go_error option"
  env_request_id :: string \<comment> \<open>core.NewRequestID\<close>
  env_nonce :: "string result" \<comment> \<open>core.NewAuthNonce\<close>
  env_now :: instant
  env_encode :: "message \<Rightarrow> go_error option" \<comment> \<open>(*core.Encoder).Encode\<close>
  env_decode :: "message \<Rightarrow> message result" \<comment> \<open>the reply to a message that was sent\<close>

text \<open>The message that went out, if any, and the result.\<close>

definition cl_do :: "core_lib \<Rightarrow> do_env \<Rightarrow> client \<Rightarrow> message \<Rightarrow> message option \<times> message result" where
  "cl_do L env c msg0 =
     (case env_dial env of
        Some e \<Rightarrow> (None, Inl e)
      | None \<Rightarrow>
          (case env_deadline env of
             Some e \<Rightarrow> (None, Inl e)
           | None \<Rightarrow>
               (let msg = (if m_RequestID msg0 = [] then msg0\<lparr>m_RequestID := env_request_id env\<rparr> else msg0) in
                case cl_signMessage L (env_nonce env) (env_now env) c msg of
                  Inl e \<Rightarrow> (None, Inl e)
                | Inr req \<Rightarrow>
                    (case env_encode env req of
                       Some e \<Rightarrow> (None, Inl e)
                     | None \<Rightarrow>
                         (Some req,
                          case env_decode env req of
                            Inl e \<Rightarrow> Inl e
                          | Inr resp \<Rightarrow>
                              (if m_Error resp \<noteq> [] then Inl (Errorf0 (m_Error resp)) else Inr resp))))))"

text \<open>
  What a request gives: the message that went out, if any, and the value or the error. Most of
  them return a field of the reply.
\<close>

type_synonym 'a asked = "message option \<times> 'a result"

definition cl_ask :: "core_lib \<Rightarrow> do_env \<Rightarrow> client \<Rightarrow> message \<Rightarrow> (message \<Rightarrow> 'a) \<Rightarrow> 'a asked" where
  "cl_ask L env c msg f =
     (case cl_do L env c msg of
        (sent, Inl e) \<Rightarrow> (sent, Inl e)
      | (sent, Inr resp) \<Rightarrow> (sent, Inr (f resp)))"

section \<open>The requests\<close>

definition ListAgents :: "core_lib \<Rightarrow> do_env \<Rightarrow> client \<Rightarrow> entry list asked" where
  "ListAgents L env c = cl_ask L env c (new_message CLIList) m_Agents"

definition GetAgent :: "core_lib \<Rightarrow> do_env \<Rightarrow> client \<Rightarrow> string \<Rightarrow> (entry option \<times> string list) asked" where
  "GetAgent L env c agentID =
     cl_ask L env c ((new_message CLIInfo)\<lparr>m_AgentID := agentID\<rparr>) (\<lambda>resp. (m_Agent resp, m_Commands resp))"

definition ExecuteOnAgent ::
  "core_lib \<Rightarrow> do_env \<Rightarrow> client \<Rightarrow> string \<Rightarrow> string \<Rightarrow> string list \<Rightarrow> string asked" where
  "ExecuteOnAgent L env c agentID cmdName args =
     (case cl_do L env c ((new_message CLIExec)
              \<lparr>m_AgentID := agentID, m_Command := cmdName, m_Args := args\<rparr>) of
        (sent, Inl e) \<Rightarrow> (sent, Inl e)
      | (sent, Inr resp) \<Rightarrow>
          (sent, if m_Error resp \<noteq> [] then Inl (Errorf0 (m_Error resp)) else Inr (m_Result resp)))"

definition PingAgent :: "core_lib \<Rightarrow> do_env \<Rightarrow> client \<Rightarrow> string \<Rightarrow> string asked" where
  "PingAgent L env c agentID = cl_ask L env c ((new_message CLIPing)\<lparr>m_AgentID := agentID\<rparr>) m_Result"

definition ControlAgent :: "core_lib \<Rightarrow> do_env \<Rightarrow> client \<Rightarrow> string \<Rightarrow> string \<Rightarrow> string asked" where
  "ControlAgent L env c agentID control =
     cl_ask L env c ((new_message CLIAgentControl)\<lparr>m_AgentID := agentID, m_Control := control\<rparr>) m_Result"

definition ListPlugins :: "core_lib \<Rightarrow> do_env \<Rightarrow> client \<Rightarrow> manifest list asked" where
  "ListPlugins L env c = cl_ask L env c (new_message CLIPluginList) m_Plugins"

definition InstallPlugin :: "core_lib \<Rightarrow> do_env \<Rightarrow> client \<Rightarrow> package option \<Rightarrow> string asked" where
  "InstallPlugin L env c pkg = cl_ask L env c ((new_message CLIPluginInstall)\<lparr>m_Plugin := pkg\<rparr>) m_Result"

definition RemovePlugin :: "core_lib \<Rightarrow> do_env \<Rightarrow> client \<Rightarrow> string \<Rightarrow> string asked" where
  "RemovePlugin L env c name = cl_ask L env c ((new_message CLIPluginRemove)\<lparr>m_PluginName := name\<rparr>) m_Result"

definition EnablePlugin :: "core_lib \<Rightarrow> do_env \<Rightarrow> client \<Rightarrow> string \<Rightarrow> string asked" where
  "EnablePlugin L env c name = cl_ask L env c ((new_message CLIPluginEnable)\<lparr>m_PluginName := name\<rparr>) m_Result"

definition DisablePlugin :: "core_lib \<Rightarrow> do_env \<Rightarrow> client \<Rightarrow> string \<Rightarrow> string asked" where
  "DisablePlugin L env c name = cl_ask L env c ((new_message CLIPluginDisable)\<lparr>m_PluginName := name\<rparr>) m_Result"

definition ListPluginVersions :: "core_lib \<Rightarrow> do_env \<Rightarrow> client \<Rightarrow> string \<Rightarrow> manifest list asked" where
  "ListPluginVersions L env c name =
     cl_ask L env c ((new_message CLIPluginVersions)\<lparr>m_PluginName := name\<rparr>) m_Plugins"

definition RollbackPlugin :: "core_lib \<Rightarrow> do_env \<Rightarrow> client \<Rightarrow> string \<Rightarrow> string \<Rightarrow> string asked" where
  "RollbackPlugin L env c name version =
     cl_ask L env c ((new_message CLIPluginRollback)\<lparr>m_PluginName := name, m_PluginVersion := version\<rparr>) m_Result"

definition ListGroups :: "core_lib \<Rightarrow> do_env \<Rightarrow> client \<Rightarrow> string list asked" where
  "ListGroups L env c = cl_ask L env c (new_message CLIGroupList) m_Groups"

definition CreateGroup :: "core_lib \<Rightarrow> do_env \<Rightarrow> client \<Rightarrow> string \<Rightarrow> string asked" where
  "CreateGroup L env c name = cl_ask L env c ((new_message CLIGroupCreate)\<lparr>m_GroupName := name\<rparr>) m_Result"

definition DeleteGroup :: "core_lib \<Rightarrow> do_env \<Rightarrow> client \<Rightarrow> string \<Rightarrow> string asked" where
  "DeleteGroup L env c name = cl_ask L env c ((new_message CLIGroupDelete)\<lparr>m_GroupName := name\<rparr>) m_Result"

definition AddAgentToGroup :: "core_lib \<Rightarrow> do_env \<Rightarrow> client \<Rightarrow> string \<Rightarrow> string \<Rightarrow> string asked" where
  "AddAgentToGroup L env c agentID grp =
     cl_ask L env c ((new_message CLIGroupAdd)\<lparr>m_AgentID := agentID, m_GroupName := grp\<rparr>) m_Result"

definition RemoveAgentFromGroup :: "core_lib \<Rightarrow> do_env \<Rightarrow> client \<Rightarrow> string \<Rightarrow> string \<Rightarrow> string asked" where
  "RemoveAgentFromGroup L env c agentID grp =
     cl_ask L env c ((new_message CLIGroupRemove)\<lparr>m_AgentID := agentID, m_GroupName := grp\<rparr>) m_Result"

definition SetAgentTags :: "core_lib \<Rightarrow> do_env \<Rightarrow> client \<Rightarrow> string \<Rightarrow> string list \<Rightarrow> string asked" where
  "SetAgentTags L env c agentID tags =
     cl_ask L env c ((new_message CLITagSet)\<lparr>m_AgentID := agentID, m_Tags := tags\<rparr>) m_Result"

definition AddAgentTags :: "core_lib \<Rightarrow> do_env \<Rightarrow> client \<Rightarrow> string \<Rightarrow> string list \<Rightarrow> string asked" where
  "AddAgentTags L env c agentID tags =
     cl_ask L env c ((new_message CLITagAdd)\<lparr>m_AgentID := agentID, m_Tags := tags\<rparr>) m_Result"

definition RemoveAgentTags :: "core_lib \<Rightarrow> do_env \<Rightarrow> client \<Rightarrow> string \<Rightarrow> string list \<Rightarrow> string asked" where
  "RemoveAgentTags L env c agentID tags =
     cl_ask L env c ((new_message CLITagRemove)\<lparr>m_AgentID := agentID, m_Tags := tags\<rparr>) m_Result"

section \<open>Time stamps\<close>

text \<open>The server reads the client's time stamp as the beginning of the second it was taken in.\<close>

lemma time_Unix_unix_seconds:
  assumes "- (2 ^ 63) \<le> t div second" and "t div second < 2 ^ 63"
  shows "time_Unix (unix_seconds t) = t div second * second"
proof -
  have "unix_seconds t + 62135596800 = (word_of_int (t div second) :: 64 word)"
    by (simp add: unix_seconds_def)
  moreover have "sint (word_of_int (t div second) :: 64 word) = t div second"
    using assms by (simp add: int_word_sint)
  ultimately show ?thesis by (simp add: time_Unix_def)
qed

lemma second_pos [simp]: "second > 0"
  by (simp add: second_def)

lemma second_neq [simp]: "second \<noteq> 0"
  by (simp add: second_def)

lemma floor_second: "t div second * second \<le> t \<and> t < t div second * second + second"
proof -
  have "t = t div second * second + t mod second" by simp
  moreover have "0 \<le> t mod second" "t mod second < second" by simp_all
  ultimately show ?thesis by linarith
qed

end
