(* ===== verification/Cli_Style.thy ===== *)
theory Cli_Style
  imports Prelude
begin

text \<open>
  cli/style.go: colours, and tables whose columns are laid out by the visible length of the
  cells. Whether colours are used is the argument \<open>nc\<close>, the value of noColor(). What is
  printed with several calls of fmt.Print is one text here.
\<close>

abbreviation NL :: string where
  "NL \<equiv> [CHR 0x0A]"

abbreviation ESC :: char where
  "ESC \<equiv> CHR 0x1B"

section \<open>Colours\<close>

definition noColor :: "string \<Rightarrow> bool" where
  "noColor env_NO_COLOR \<longleftrightarrow> TrimSpace env_NO_COLOR \<noteq> []"

definition ansi :: "string \<Rightarrow> string" where
  "ansi code = ESC # ''['' @ code @ ''m''"

definition color :: "bool \<Rightarrow> string \<Rightarrow> string \<Rightarrow> string" where
  "color nc code v = (if nc \<or> v = [] then v else code @ v @ ansi ''0'')"

definition bold :: "bool \<Rightarrow> string \<Rightarrow> string" where "bold nc = color nc (ansi ''1'')"
definition dim :: "bool \<Rightarrow> string \<Rightarrow> string" where "dim nc = color nc (ansi ''2'')"
definition red :: "bool \<Rightarrow> string \<Rightarrow> string" where "red nc = color nc (ansi ''31'')"
definition green :: "bool \<Rightarrow> string \<Rightarrow> string" where "green nc = color nc (ansi ''32'')"
definition yellow :: "bool \<Rightarrow> string \<Rightarrow> string" where "yellow nc = color nc (ansi ''33'')"
definition cyan :: "bool \<Rightarrow> string \<Rightarrow> string" where "cyan nc = color nc (ansi ''36'')"

lemmas color_defs = bold_def dim_def red_def green_def yellow_def cyan_def

section \<open>stripANSI\<close>

definition is_letter :: "char \<Rightarrow> bool" where
  "is_letter c \<longleftrightarrow> (let n = (of_char c :: nat) in (65 \<le> n \<and> n \<le> 90) \<or> (97 \<le> n \<and> n \<le> 122))"

text \<open>The loop of stripANSI; the first argument is inEscape.\<close>

fun strip_from :: "bool \<Rightarrow> string \<Rightarrow> string" where
  "strip_from esc [] = []"
| "strip_from esc (c # s) =
     (if esc then strip_from (\<not> is_letter c) s
      else if c = ESC then strip_from True s
      else c # strip_from False s)"

definition stripANSI :: "string \<Rightarrow> string" where
  "stripANSI s = strip_from False s"

definition visibleLen :: "string \<Rightarrow> nat" where
  "visibleLen s = length (stripANSI s)"

text \<open>Whether the loop ends inside an escape sequence.\<close>

fun open_after :: "bool \<Rightarrow> string \<Rightarrow> bool" where
  "open_after esc [] = esc"
| "open_after esc (c # s) = open_after (if esc then \<not> is_letter c else c = ESC) s"

definition escapes_closed :: "string \<Rightarrow> bool" where
  "escapes_closed s \<longleftrightarrow> \<not> open_after False s"

lemma strip_from_append: "strip_from b (s @ t) = strip_from b s @ strip_from (open_after b s) t"
  by (induction s arbitrary: b) simp_all

lemma open_after_append: "open_after b (s @ t) = open_after (open_after b s) t"
  by (induction s arbitrary: b) simp_all

lemma stripANSI_append: "escapes_closed s \<Longrightarrow> stripANSI (s @ t) = stripANSI s @ stripANSI t"
  by (simp add: stripANSI_def strip_from_append escapes_closed_def)

lemma escapes_closed_append: "escapes_closed s \<Longrightarrow> escapes_closed t \<Longrightarrow> escapes_closed (s @ t)"
  by (simp add: escapes_closed_def open_after_append)

lemma stripANSI_Nil [simp]: "stripANSI [] = []" and escapes_closed_Nil [simp]: "escapes_closed []"
  by (simp_all add: stripANSI_def escapes_closed_def)

lemma strip_plain: "ESC \<notin> set s \<Longrightarrow> strip_from False s = s \<and> \<not> open_after False s"
  by (induction s) auto

lemma stripANSI_plain: "ESC \<notin> set s \<Longrightarrow> stripANSI s = s"
  and escapes_closed_plain: "ESC \<notin> set s \<Longrightarrow> escapes_closed s"
  by (simp_all add: stripANSI_def escapes_closed_def strip_plain)

lemma strip_from_no_escape: "ESC \<notin> set (strip_from b s)"
  by (induction s arbitrary: b) auto

lemma stripANSI_idem: "stripANSI (stripANSI s) = stripANSI s"
  by (rule stripANSI_plain) (simp add: stripANSI_def strip_from_no_escape)

lemma replicate_space_plain [simp]:
  "stripANSI (replicate n CHR '' '') = replicate n CHR '' ''" "escapes_closed (replicate n CHR '' '')"
  by (simp_all add: stripANSI_plain escapes_closed_plain)

text \<open>Colours change nothing that is visible, and close what they open.\<close>

definition is_ansi :: "string \<Rightarrow> bool" where
  "is_ansi code \<longleftrightarrow> escapes_closed code \<and> stripANSI code = []"

lemma is_ansi_codes [simp]:
  "is_ansi (ansi ''0'')" "is_ansi (ansi ''1'')" "is_ansi (ansi ''2'')" "is_ansi (ansi ''31'')"
  "is_ansi (ansi ''32'')" "is_ansi (ansi ''33'')" "is_ansi (ansi ''36'')"
  by (simp_all add: is_ansi_def escapes_closed_def stripANSI_def ansi_def is_letter_def)

lemma stripANSI_color: "is_ansi code \<Longrightarrow> escapes_closed v \<Longrightarrow> stripANSI (color nc code v) = stripANSI v"
  using is_ansi_codes(1) by (auto simp: color_def is_ansi_def stripANSI_append)

lemma escapes_closed_color: "is_ansi code \<Longrightarrow> escapes_closed v \<Longrightarrow> escapes_closed (color nc code v)"
  using is_ansi_codes(1) by (auto simp: color_def is_ansi_def intro!: escapes_closed_append)

section \<open>Tables\<close>

definition cell :: "string list \<Rightarrow> nat \<Rightarrow> string" where
  "cell row i = (if i < length row then row ! i else [])"

definition widen :: "string list \<Rightarrow> nat list \<Rightarrow> nat list" where
  "widen row widths = map (\<lambda>i. max (widths ! i) (length (stripANSI (cell row i)))) [0..<length widths]"

definition table_widths :: "string list \<Rightarrow> string list list \<Rightarrow> nat list" where
  "table_widths headers rows = fold widen rows (map (\<lambda>h. length (stripANSI h)) headers)"

definition row_cell :: "bool \<Rightarrow> string list \<Rightarrow> bool \<Rightarrow> nat \<Rightarrow> string" where
  "row_cell nc values header i = (if header then bold nc (cell values i) else cell values i)"

definition row_column :: "bool \<Rightarrow> string list \<Rightarrow> nat list \<Rightarrow> bool \<Rightarrow> nat \<Rightarrow> string" where
  "row_column nc values widths header i =
     (let v = row_cell nc values header i in
      (if i > 0 then ''  '' else []) @ v @ replicate (widths ! i - visibleLen v) CHR '' '')"

definition printTableRow :: "bool \<Rightarrow> string list \<Rightarrow> nat list \<Rightarrow> bool \<Rightarrow> string" where
  "printTableRow nc values widths header =
     concat (map (row_column nc values widths header) [0..<length widths]) @ NL"

definition table_rows :: "string list \<Rightarrow> string list list \<Rightarrow> (string list \<times> bool) list" where
  "table_rows headers rows =
     (headers, True) # (map (\<lambda>w. replicate w CHR ''-'') (table_widths headers rows), False) #
     map (\<lambda>row. (row, False)) rows"

definition printTable :: "bool \<Rightarrow> string list \<Rightarrow> string list list \<Rightarrow> string" where
  "printTable nc headers rows =
     concat (map (\<lambda>(row, header). printTableRow nc row (table_widths headers rows) header) (table_rows headers rows))"

section \<open>Status labels\<close>

definition defaultStatus :: "string \<Rightarrow> string" where
  "defaultStatus status = (if status = [] then ''unknown'' else status)"

definition statusLabel :: "bool \<Rightarrow> string \<Rightarrow> bool \<Rightarrow> string" where
  "statusLabel nc status connected =
     (let normalized = defaultStatus status; l = ToLower normalized in
      if l = ''online'' then (if connected then green nc normalized else yellow nc normalized)
      else if l = ''offline'' then red nc normalized
      else if l = ''frozen'' \<or> l = ''restarting'' \<or> l = ''stopping'' then yellow nc normalized
      else dim nc normalized)"

definition yesNo :: "bool \<Rightarrow> bool \<Rightarrow> string" where
  "yesNo nc v = (if v then green nc ''yes'' else red nc ''no'')"

definition shortChecksum :: "string \<Rightarrow> string" where
  "shortChecksum v = (if length v \<le> 12 then v else take 12 v)"

section \<open>The columns of a table\<close>

lemma length_widen [simp]: "length (widen row ws) = length ws"
  by (simp add: widen_def)

lemma length_fold_widen [simp]: "length (fold widen rows ws) = length ws"
  by (induction rows arbitrary: ws) simp_all

lemma length_table_widths [simp]: "length (table_widths headers rows) = length headers"
  by (simp add: table_widths_def)

lemma fold_widen_ge: "i < length ws \<Longrightarrow> ws ! i \<le> fold widen rows ws ! i \<and>
  (\<forall>row \<in> set rows. length (stripANSI (cell row i)) \<le> fold widen rows ws ! i)"
proof (induction rows arbitrary: ws)
  case (Cons row rows)
  then have "i < length (widen row ws)" by simp
  from Cons.IH [OF this] Cons.prems show ?case by (auto simp: widen_def)
qed simp

text \<open>No cell that is printed is wider than its column.\<close>

lemma table_widths_fit:
  assumes "(row, header) \<in> set (table_rows headers rows)" and "i < length headers"
  shows "length (stripANSI (cell row i)) \<le> table_widths headers rows ! i"
proof -
  have *: "length (stripANSI (cell headers i)) \<le> table_widths headers rows ! i"
    "\<forall>row \<in> set rows. length (stripANSI (cell row i)) \<le> table_widths headers rows ! i"
    using fold_widen_ge [of i "map (\<lambda>h. length (stripANSI h)) headers" rows] assms(2)
    by (auto simp: table_widths_def cell_def)
  have "length (stripANSI (cell (map (\<lambda>w. replicate w CHR ''-'') (table_widths headers rows)) i)) =
      table_widths headers rows ! i"
    using assms(2) by (simp add: cell_def stripANSI_plain)
  with * assms(1) show ?thesis unfolding table_rows_def by auto
qed

lemma row_cell_visible:
  assumes "escapes_closed (cell values i)"
  shows "stripANSI (row_cell nc values header i) = stripANSI (cell values i)"
    "escapes_closed (row_cell nc values header i)"
  using assms by (simp_all add: row_cell_def color_defs stripANSI_color escapes_closed_color)

lemma row_column_visible:
  assumes "escapes_closed (cell values i)"
  shows "escapes_closed (row_column nc values widths header i)"
    "stripANSI (row_column nc values widths header i) =
       (if i > 0 then ''  '' else []) @ stripANSI (cell values i) @
       replicate (widths ! i - length (stripANSI (cell values i))) CHR '' ''"
proof -
  have sp: "stripANSI (''  '' @ t) = ''  '' @ stripANSI t" for t
    by (subst stripANSI_append) (simp_all add: escapes_closed_plain stripANSI_plain)
  show "escapes_closed (row_column nc values widths header i)"
    using row_cell_visible(2) [OF assms, of nc header]
    by (auto simp: row_column_def Let_def escapes_closed_plain intro!: escapes_closed_append
        simp flip: append_Cons)
  show "stripANSI (row_column nc values widths header i) =
       (if i > 0 then ''  '' else []) @ stripANSI (cell values i) @
       replicate (widths ! i - length (stripANSI (cell values i))) CHR '' ''"
  proof -
    have "stripANSI (row_cell nc values header i @ replicate n CHR '' '') =
        stripANSI (cell values i) @ replicate n CHR '' ''" for n
      using row_cell_visible [OF assms, of nc header] by (simp add: stripANSI_append)
    with sp row_cell_visible(1) [OF assms, of nc header] show ?thesis
      by (cases "i = 0") (simp_all add: row_column_def Let_def visibleLen_def)
  qed
qed

lemma stripANSI_concat:
  assumes "\<forall>s \<in> set ss. escapes_closed s"
  shows "stripANSI (concat ss @ t) = concat (map stripANSI ss) @ stripANSI t"
  using assms by (induction ss) (simp_all add: stripANSI_append)

text \<open>The column at which cell \<open>i\<close> of every row begins.\<close>

definition column_start :: "nat list \<Rightarrow> nat \<Rightarrow> nat" where
  "column_start widths i = (\<Sum>j<i. widths ! j) + 2 * i"

lemma column_start_Suc: "column_start widths (Suc i) = column_start widths i + widths ! i + 2"
  by (simp add: column_start_def)

lemma columns_length:
  assumes "\<forall>i < k. length (f i) = (if i > 0 then 2 else 0) + widths ! i"
  shows "length (concat (map f [0..<k])) = column_start widths k - (if k > 0 then 2 else 0)"
  using assms
proof (induction k)
  case (Suc k)
  then have "length (concat (map f [0..<k])) = column_start widths k - (if k > 0 then 2 else 0)" by simp
  moreover have "length (f k) = (if k > 0 then 2 else 0) + widths ! k" using Suc.prems by simp
  moreover have "k > 0 \<Longrightarrow> column_start widths k \<ge> 2" by (simp add: column_start_def)
  ultimately show ?case by (simp add: column_start_Suc)
qed (simp add: column_start_def)

lemma column_cut:
  assumes "k < n"
  shows "drop (length (concat (map f [0..<k]))) (concat (map f [0..<n]) @ t) =
    f k @ concat (map f [Suc k..<n]) @ t"
proof -
  have "[0..<n] = [0..<k] @ k # [Suc k..<n]"
    using assms by (metis le0 less_imp_le upt_add_eq_append le_add_diff_inverse upt_conv_Cons)
  then show ?thesis by simp
qed

section \<open>Property\<close>

text \<open>
  The columns of a table line up: if no cell leaves an escape sequence open, every row, the
  header and the separator show their cell \<open>i\<close> from the same column on, padded with spaces up
  to the width of the column, and all lines have the same visible length.
\<close>

theorem table_aligned:
  assumes "\<forall>row \<in> set (headers # rows). \<forall>s \<in> set row. escapes_closed s"
    and "(row, header) \<in> set (table_rows headers rows)" and "i < length headers"
  shows "let w = table_widths headers rows; line = stripANSI (printTableRow nc row w header) in
    length line = column_start w (length headers) - 1 \<and>
    take (w ! i) (drop (column_start w i) line) =
      stripANSI (cell row i) @ replicate (w ! i - length (stripANSI (cell row i))) CHR '' ''"
proof -
  let ?w = "table_widths headers rows"
  let ?c = "\<lambda>i. row_column nc row ?w header i" and ?n = "length headers"
  have "\<forall>s \<in> set row. escapes_closed s"
    using assms(1,2) by (auto simp: table_rows_def escapes_closed_plain)
  then have closed: "escapes_closed (cell row j)" for j by (simp add: cell_def)
  have len: "length (stripANSI (?c j)) = (if j > 0 then 2 else 0) + ?w ! j" if "j < ?n" for j
    using table_widths_fit [OF assms(2) that] by (simp add: row_column_visible(2) [OF closed])
  have line: "stripANSI (printTableRow nc row ?w header) =
      concat (map (\<lambda>j. stripANSI (?c j)) [0..<?n]) @ NL"
    using row_column_visible(1) [OF closed]
    by (simp add: printTableRow_def stripANSI_concat stripANSI_plain comp_def)
  have l: "length (concat (map (\<lambda>j. stripANSI (?c j)) [0..<k])) = column_start ?w k - (if k > 0 then 2 else 0)"
    if "k \<le> ?n" for k
    by (rule columns_length) (use that len in auto)
  have "column_start ?w ?n \<ge> 2" "headers \<noteq> []" using assms(3) by (auto simp: column_start_def Suc_le_eq)
  with line l [of ?n] assms(3) have "length (stripANSI (printTableRow nc row ?w header)) = column_start ?w ?n - 1"
    by simp
  moreover have "take (?w ! i) (drop (column_start ?w i) (stripANSI (printTableRow nc row ?w header))) =
      stripANSI (cell row i) @ replicate (?w ! i - length (stripANSI (cell row i))) CHR '' ''"
  proof -
    let ?p = "concat (map (\<lambda>j. stripANSI (?c j)) [0..<i])"
    let ?t = "stripANSI (cell row i) @ replicate (?w ! i - length (stripANSI (cell row i))) CHR '' ''"
    have ge: "i > 0 \<Longrightarrow> column_start ?w i \<ge> 2" by (simp add: column_start_def)
    then have s: "column_start ?w i = (if i > 0 then 2 else 0) + length ?p"
      using l [of i] assms(3) by (simp add: column_start_def)
    have "drop (length ?p) (stripANSI (printTableRow nc row ?w header)) =
        stripANSI (?c i) @ concat (map (\<lambda>j. stripANSI (?c j)) [Suc i..<?n]) @ NL"
      unfolding line by (rule column_cut [OF assms(3)])
    then have "drop (column_start ?w i) (stripANSI (printTableRow nc row ?w header)) =
        ?t @ concat (map (\<lambda>j. stripANSI (?c j)) [Suc i..<?n]) @ NL"
      unfolding s by (simp add: row_column_visible(2) [OF closed] flip: drop_drop)
    moreover have "length ?t = ?w ! i" using table_widths_fit [OF assms(2,3)] by simp
    ultimately show ?thesis by simp
  qed
  ultimately show ?thesis by (simp add: Let_def)
qed

theorem table_aligned_witness:
  "stripANSI (printTable False [''Agent'', ''Up''] [[cyan False ''web-01'', yesNo False True]]) =
     ''Agent   Up '' @ NL @ ''------  ---'' @ NL @ ''web-01  yes'' @ NL \<and>
   take 6 (drop 0 (stripANSI (printTableRow False [''Agent'', ''Up'']
     (table_widths [''Agent'', ''Up''] [[cyan False ''web-01'', yesNo False True]]) True))) = ''Agent ''"
proof -
  let ?rows = "[[cyan False ''web-01'', yesNo False True]]"
  have w: "table_widths [''Agent'', ''Up''] ?rows = [6, 3]" by code_simp
  have c: "\<forall>row \<in> set ([''Agent'', ''Up''] # ?rows). \<forall>s \<in> set row. escapes_closed s" by code_simp
  have "([''Agent'', ''Up''], True) \<in> set (table_rows [''Agent'', ''Up''] ?rows)" by (simp add: table_rows_def)
  from table_aligned [OF c this, of 0 False] have "take 6 (drop 0 (stripANSI (printTableRow False [''Agent'', ''Up'']
     (table_widths [''Agent'', ''Up''] ?rows) True))) = ''Agent ''"
    by (simp add: w column_start_def cell_def stripANSI_plain Let_def)
  moreover have "stripANSI (printTable False [''Agent'', ''Up''] ?rows) =
     ''Agent   Up '' @ NL @ ''------  ---'' @ NL @ ''web-01  yes'' @ NL" by code_simp
  ultimately show ?thesis by blast
qed

end
