(* ===== verification/Cli_World.thy ===== *)
theory Cli_World
  imports Core_Client Cli_Style "HOL-Library.State_Monad"
begin

text \<open>
  What the commands of package cli work on: the terminal, the requests they make through
  core/client.go, the secret in package buildcfg that a flag can overwrite, and the temporary
  directories of plugin sources. A command is a computation in the state monad over \<open>world\<close>;
  what it returns is the exit code, or the panic that ends the process.
\<close>

datatype printed = Stdout string | Stderr string

datatype exit = Code int | Panic

record world =
  w_requests :: nat \<comment> \<open>requests made so far\<close>
  w_clients :: nat \<comment> \<open>clients made so far\<close>
  w_sent :: "message list" \<comment> \<open>what went out, in the order of the requests\<close>
  w_out :: "printed list"
  w_stdin :: "string list" \<comment> \<open>the lines that are still to be read\<close>
  w_secret :: string \<comment> \<open>buildcfg.DefaultAdminSecret\<close>
  w_temps :: "string list" \<comment> \<open>the temporary directories that exist\<close>

type_synonym 'a cli = "(world, 'a) state"

text \<open>
  What the commands meet outside: the clock and the network of every request and client, the
  variables of the environment and of the build, the order in which concurrent requests
  finish, and what the tools for plugin sources do. Directories of temporary files get a
  name that no existing one has.
\<close>

record cli_env =
  ce_lib :: core_lib
  ce_do :: "nat \<Rightarrow> do_env" \<comment> \<open>clock, nonces and network of the n-th request\<close>
  ce_nano :: "nat \<Rightarrow> int" \<comment> \<open>time.Now().UnixNano() at the n-th NewClient\<close>
  ce_NO_COLOR :: string
  ce_server_addr :: string \<comment> \<open>buildcfg.DefaultServerAddr\<close>
  ce_server_port :: string \<comment> \<open>buildcfg.DefaultServerPort\<close>
  ce_time_text :: "instant \<Rightarrow> string" \<comment> \<open>Time.Format in the zone the time carries\<close>
  ce_finish :: "nat \<Rightarrow> nat list" \<comment> \<open>the order in which n concurrent requests end\<close>
  ce_mkdir_temp :: "string list \<Rightarrow> string result" \<comment> \<open>os.MkdirTemp, given the existing ones\<close>
  ce_git_clone :: "string list \<Rightarrow> string \<times> go_error option" \<comment> \<open>arguments; output, error\<close>
  ce_abs :: "string \<Rightarrow> string result" \<comment> \<open>filepath.Abs\<close>
  ce_is_dir :: "string \<Rightarrow> bool result" \<comment> \<open>os.Stat and IsDir\<close>
  ce_load :: "string \<Rightarrow> string \<Rightarrow> package result" \<comment> \<open>core.LoadDynamicPluginPackage\<close>
  ce_listen :: "string \<Rightarrow> go_error option" \<comment> \<open>http.ListenAndServe of the graphical interface\<close>

abbreviation nocolor :: "cli_env \<Rightarrow> bool" where
  "nocolor E \<equiv> noColor (ce_NO_COLOR E)"

section \<open>Steps\<close>

abbreviation return :: "'a \<Rightarrow> 'a cli" where
  "return \<equiv> State_Monad.return"

definition fmt_Print :: "string \<Rightarrow> unit cli" where
  "fmt_Print s = State (\<lambda>w. ((), w\<lparr>w_out := w_out w @ [Stdout s]\<rparr>))"

definition fmt_Println :: "string \<Rightarrow> unit cli" where
  "fmt_Println s = fmt_Print (s @ NL)"

definition err_Println :: "string \<Rightarrow> unit cli" where
  "err_Println s = State (\<lambda>w. ((), w\<lparr>w_out := w_out w @ [Stderr (s @ NL)]\<rparr>))"

fun print_lines :: "string list \<Rightarrow> unit cli" where
  "print_lines [] = return ()"
| "print_lines (l # ls) = do { fmt_Println l; print_lines ls }"

text \<open>A request of the client.\<close>

definition ask :: "cli_env \<Rightarrow> (core_lib \<Rightarrow> do_env \<Rightarrow> 'a asked) \<Rightarrow> 'a result cli" where
  "ask E f = State (\<lambda>w.
     case f (ce_lib E) (ce_do E (w_requests w)) of
       (sent, r) \<Rightarrow>
         (r, w\<lparr>w_requests := Suc (w_requests w),
               w_sent := w_sent w @ (case sent of None \<Rightarrow> [] | Some m \<Rightarrow> [m])\<rparr>))"

text \<open>The two ends that most commands share: the error in red, and exit code 1.\<close>

definition fail_with :: "cli_env \<Rightarrow> string \<Rightarrow> exit cli" where
  "fail_with E text = do { err_Println text; return (Code 1) }"

definition fail_err :: "cli_env \<Rightarrow> go_error \<Rightarrow> exit cli" where
  "fail_err E e = fail_with E (red (nocolor E) (error_text e))"

definition usage :: "cli_env \<Rightarrow> string \<Rightarrow> exit cli" where
  "usage E text = fail_with E (yellow (nocolor E) text)"

text \<open>printResult of cli/agent_groups.go.\<close>

definition printResult :: "cli_env \<Rightarrow> string result \<Rightarrow> exit cli" where
  "printResult E r =
     (case r of
        Inl e \<Rightarrow> fail_err E e
      | Inr text \<Rightarrow> do { fmt_Println (green (nocolor E) text); return (Code 0) })"

section \<open>What a computation leaves alone\<close>

text \<open>
  Most commands touch neither the input, the secret nor the temporary directories. A
  computation keeps a relation between the world before and after it if every run does.
\<close>

definition keeps :: "(world \<Rightarrow> world \<Rightarrow> bool) \<Rightarrow> 'a cli \<Rightarrow> bool" where
  "keeps R m \<longleftrightarrow> (\<forall>w. R w (snd (run_state m w)))"

definition preorder_on_worlds :: "(world \<Rightarrow> world \<Rightarrow> bool) \<Rightarrow> bool" where
  "preorder_on_worlds R \<longleftrightarrow> (\<forall>w. R w w) \<and> (\<forall>w1 w2 w3. R w1 w2 \<longrightarrow> R w2 w3 \<longrightarrow> R w1 w3)"

lemma keeps_return: "preorder_on_worlds R \<Longrightarrow> keeps R (return x)"
  by (simp add: keeps_def preorder_on_worlds_def)

lemma keeps_bind:
  "preorder_on_worlds R \<Longrightarrow> keeps R m \<Longrightarrow> (\<And>x. keeps R (f x)) \<Longrightarrow> keeps R (State_Monad.bind m f)"
  unfolding keeps_def preorder_on_worlds_def
  by (metis (mono_tags, lifting) run_state_bind case_prod_unfold)

lemma keepsD: "keeps R m \<Longrightarrow> run_state m w = (x, w') \<Longrightarrow> R w w'"
  unfolding keeps_def by (metis snd_conv)

text \<open>Input, secret and temporary directories are the same, and nothing that went out is lost.\<close>

definition quiet :: "world \<Rightarrow> world \<Rightarrow> bool" where
  "quiet w w' \<longleftrightarrow> w_stdin w' = w_stdin w \<and> w_secret w' = w_secret w \<and> w_temps w' = w_temps w \<and>
     w_clients w' = w_clients w \<and> (\<exists>ms. w_sent w' = w_sent w @ ms)"

lemma quiet_preorder: "preorder_on_worlds quiet"
  by (auto simp: preorder_on_worlds_def quiet_def)

lemma quiet_print: "keeps quiet (fmt_Print s)" and quiet_println: "keeps quiet (fmt_Println s)"
  and quiet_err: "keeps quiet (err_Println s)" and quiet_return: "keeps quiet (return x)"
  by (simp_all add: keeps_def quiet_def fmt_Print_def fmt_Println_def err_Println_def)

lemmas quiet_bind = keeps_bind [OF quiet_preorder]

lemma quiet_ask: "keeps quiet (ask E f)"
  by (auto simp: keeps_def quiet_def ask_def split: prod.splits)

lemma quiet_lines: "keeps quiet (print_lines ls)"
  by (induction ls) (simp_all add: quiet_return quiet_bind quiet_println)

lemma quiet_fail_with: "keeps quiet (fail_with E s)"
  by (simp add: fail_with_def quiet_bind quiet_err quiet_return)

lemma quiet_fail_err: "keeps quiet (fail_err E e)" and quiet_usage: "keeps quiet (usage E s)"
  by (simp_all add: fail_err_def usage_def quiet_fail_with)

lemma quiet_result: "keeps quiet (printResult E r)"
  by (simp add: printResult_def quiet_fail_err quiet_bind quiet_println quiet_return split: sum.split)

lemmas quiet_rules = quiet_bind quiet_print quiet_println quiet_err quiet_return quiet_ask quiet_lines
  quiet_fail_with quiet_fail_err quiet_usage quiet_result

section \<open>Runs of the steps\<close>

lemma run_print [simp]:
  "run_state (fmt_Print s) w = ((), w\<lparr>w_out := w_out w @ [Stdout s]\<rparr>)"
  "run_state (fmt_Println s) w = ((), w\<lparr>w_out := w_out w @ [Stdout (s @ NL)]\<rparr>)"
  "run_state (err_Println s) w = ((), w\<lparr>w_out := w_out w @ [Stderr (s @ NL)]\<rparr>)"
  by (simp_all add: fmt_Print_def fmt_Println_def err_Println_def)

lemma run_fail [simp]:
  "run_state (fail_with E s) w = (Code 1, w\<lparr>w_out := w_out w @ [Stderr (s @ NL)]\<rparr>)"
  "run_state (fail_err E e) w =
     (Code 1, w\<lparr>w_out := w_out w @ [Stderr (red (nocolor E) (error_text e) @ NL)]\<rparr>)"
  "run_state (usage E s) w = (Code 1, w\<lparr>w_out := w_out w @ [Stderr (yellow (nocolor E) s @ NL)]\<rparr>)"
  by (simp_all add: fail_with_def fail_err_def usage_def)

lemma run_printResult:
  "run_state (printResult E r) w =
     (case r of
        Inl e \<Rightarrow> (Code 1, w\<lparr>w_out := w_out w @ [Stderr (red (nocolor E) (error_text e) @ NL)]\<rparr>)
      | Inr t \<Rightarrow> (Code 0, w\<lparr>w_out := w_out w @ [Stdout (green (nocolor E) t @ NL)]\<rparr>))"
  by (simp add: printResult_def split: sum.split)

text \<open>The answer to the n-th request and what went out with it.\<close>

definition answer :: "cli_env \<Rightarrow> nat \<Rightarrow> (core_lib \<Rightarrow> do_env \<Rightarrow> 'a asked) \<Rightarrow> 'a result" where
  "answer E n f = snd (f (ce_lib E) (ce_do E n))"

definition sent_by :: "cli_env \<Rightarrow> nat \<Rightarrow> (core_lib \<Rightarrow> do_env \<Rightarrow> 'a asked) \<Rightarrow> message list" where
  "sent_by E n f = (case fst (f (ce_lib E) (ce_do E n)) of None \<Rightarrow> [] | Some m \<Rightarrow> [m])"

lemma run_ask:
  "run_state (ask E f) w =
     (answer E (w_requests w) f, w\<lparr>w_requests := Suc (w_requests w), w_sent := w_sent w @ sent_by E (w_requests w) f\<rparr>)"
  by (simp add: ask_def answer_def sent_by_def split: prod.split)

text \<open>What a request sends, if it sends anything: the message, signed.\<close>

definition body_of :: "message \<Rightarrow> message" where
  "body_of m = m\<lparr>m_RequestID := [], m_AuthClientID := [], m_AuthTimestamp := 0, m_AuthNonce := [], m_AuthSignature := []\<rparr>"

lemma cl_do_body:
  assumes "signing_ok L" and "cl_do L env c msg = (Some req, r)"
  shows "body_of req = body_of msg"
proof -
  let ?m = "if m_RequestID msg = [] then msg\<lparr>m_RequestID := env_request_id env\<rparr> else msg"
  have "cl_signMessage L (env_nonce env) (env_now env) c ?m = Inr req"
    using assms(2)
    by (cases "env_dial env"; cases "env_deadline env"; cases "cl_signMessage L (env_nonce env) (env_now env) c ?m")
      (simp_all add: cl_do_def Let_def del: if_split split: option.splits)
  then obtain n where "sign_message L (?m\<lparr>m_AuthClientID := cl_ID c,
      m_AuthTimestamp := unix_seconds (env_now env), m_AuthNonce := n\<rparr>) (cl_AdminSecret c) = Inr req"
    by (auto simp: cl_signMessage_def split: if_splits sum.splits)
  with assms(1) have "req = ?m\<lparr>m_AuthClientID := cl_ID c, m_AuthTimestamp := unix_seconds (env_now env),
      m_AuthNonce := n, m_AuthSignature := m_AuthSignature req\<rparr>"
    unfolding signing_ok_def by fastforce
  then have "body_of req = body_of (?m\<lparr>m_AuthClientID := cl_ID c, m_AuthTimestamp := unix_seconds (env_now env),
      m_AuthNonce := n, m_AuthSignature := m_AuthSignature req\<rparr>)" by (rule arg_cong)
  then show ?thesis by (simp add: body_of_def)
qed

lemma cl_do_silent: "fst (cl_do L env c msg) = None \<Longrightarrow> \<exists>e. snd (cl_do L env c msg) = Inl e"
  unfolding cl_do_def Let_def by (auto split del: if_split split: option.split sum.split)

lemma cl_ask_body: "signing_ok L \<Longrightarrow> fst (cl_ask L env c msg f) = Some req \<Longrightarrow> body_of req = body_of msg"
  by (auto simp: cl_ask_def split: prod.splits sum.splits dest: cl_do_body)

lemma cl_ask_silent: "fst (cl_ask L env c msg f) = None \<Longrightarrow> \<exists>e. snd (cl_ask L env c msg f) = Inl e"
  using cl_do_silent [of L env c msg] by (auto simp: cl_ask_def split: prod.splits sum.splits)

section \<open>The contract of a request\<close>

text \<open>
  What the commands rely on when they call the client: a request sends its message, signed, or
  nothing; when it sends nothing it reports an error, and when the server cannot be reached
  that is the error of the connection. Every request of core/client.go keeps this contract.
\<close>

locale client_request =
  fixes op :: "core_lib \<Rightarrow> do_env \<Rightarrow> 'a asked" and msg :: message
  assumes sends: "signing_ok L \<Longrightarrow> fst (op L d) = Some req \<Longrightarrow> body_of req = body_of msg"
    and silent: "fst (op L d) = None \<Longrightarrow> isl (snd (op L d))"
    and unreachable: "env_dial d = Some e \<Longrightarrow> op L d = (None, Inl e)"
begin

lemma ask_unreachable:
  "env_dial (ce_do E (w_requests w)) = Some e \<Longrightarrow>
   run_state (ask E op) w = (Inl e, w\<lparr>w_requests := Suc (w_requests w)\<rparr>)"
  by (simp add: ask_def unreachable)

lemma sent_body: "signing_ok (ce_lib E) \<Longrightarrow> req \<in> set (sent_by E n op) \<Longrightarrow> body_of req = body_of msg"
  by (auto simp: sent_by_def split: option.splits intro: sends)

lemma sent_at_most_one: "length (sent_by E n op) \<le> 1"
  by (simp add: sent_by_def split: option.split)

lemma answered_sent: "\<not> isl (answer E n op) \<Longrightarrow> \<exists>req. sent_by E n op = [req]"
  using silent by (auto simp: answer_def sent_by_def split: option.splits)

end

lemma cl_ask_request: "client_request (\<lambda>L d. cl_ask L d c msg f) msg"
proof
  fix L d req
  show "body_of req = body_of msg" if "signing_ok L" "fst (cl_ask L d c msg f) = Some req"
    using that by (rule cl_ask_body)
  show "isl (snd (cl_ask L d c msg f))" if "fst (cl_ask L d c msg f) = None"
    using cl_ask_silent [OF that] by auto
  show "cl_ask L d c msg f = (None, Inl e)" if "env_dial d = Some e" for e
    using that by (simp add: cl_ask_def cl_do_def)
qed

lemma ExecuteOnAgent_request:
  "client_request (\<lambda>L d. ExecuteOnAgent L d c i cmd args)
     ((new_message CLIExec)\<lparr>m_AgentID := i, m_Command := cmd, m_Args := args\<rparr>)"
proof
  fix L d req
  let ?m = "(new_message CLIExec)\<lparr>m_AgentID := i, m_Command := cmd, m_Args := args\<rparr>"
  have e: "fst (ExecuteOnAgent L d c i cmd args) = fst (cl_do L d c ?m)"
    by (auto simp: ExecuteOnAgent_def split: prod.split sum.split)
  show "body_of req = body_of ?m" if "signing_ok L" "fst (ExecuteOnAgent L d c i cmd args) = Some req"
    using cl_do_body [OF that(1), of d c ?m req "snd (cl_do L d c ?m)"] that(2) unfolding e
    by (metis prod.collapse)
  show "isl (snd (ExecuteOnAgent L d c i cmd args))" if "fst (ExecuteOnAgent L d c i cmd args) = None"
    using cl_do_silent [of L d c ?m] that unfolding e
    by (cases "cl_do L d c ?m") (auto simp: ExecuteOnAgent_def)
  show "ExecuteOnAgent L d c i cmd args = (None, Inl e)" if "env_dial d = Some e" for e
    using that by (simp add: ExecuteOnAgent_def cl_do_def)
qed

interpretation ListAgents: client_request "\<lambda>L d. ListAgents L d c" "new_message CLIList" for c
  unfolding ListAgents_def by (rule cl_ask_request)

interpretation GetAgent: client_request "\<lambda>L d. GetAgent L d c agentID" "(new_message CLIInfo)\<lparr>m_AgentID := agentID\<rparr>" for c agentID
  unfolding GetAgent_def by (rule cl_ask_request)

interpretation PingAgent: client_request "\<lambda>L d. PingAgent L d c agentID" "(new_message CLIPing)\<lparr>m_AgentID := agentID\<rparr>" for c agentID
  unfolding PingAgent_def by (rule cl_ask_request)

interpretation ControlAgent: client_request "\<lambda>L d. ControlAgent L d c agentID control" "(new_message CLIAgentControl)\<lparr>m_AgentID := agentID, m_Control := control\<rparr>" for c agentID control
  unfolding ControlAgent_def by (rule cl_ask_request)

interpretation ListPlugins: client_request "\<lambda>L d. ListPlugins L d c" "new_message CLIPluginList" for c
  unfolding ListPlugins_def by (rule cl_ask_request)

interpretation InstallPlugin: client_request "\<lambda>L d. InstallPlugin L d c pkg" "(new_message CLIPluginInstall)\<lparr>m_Plugin := pkg\<rparr>" for c pkg
  unfolding InstallPlugin_def by (rule cl_ask_request)

interpretation RemovePlugin: client_request "\<lambda>L d. RemovePlugin L d c name" "(new_message CLIPluginRemove)\<lparr>m_PluginName := name\<rparr>" for c name
  unfolding RemovePlugin_def by (rule cl_ask_request)

interpretation EnablePlugin: client_request "\<lambda>L d. EnablePlugin L d c name" "(new_message CLIPluginEnable)\<lparr>m_PluginName := name\<rparr>" for c name
  unfolding EnablePlugin_def by (rule cl_ask_request)

interpretation DisablePlugin: client_request "\<lambda>L d. DisablePlugin L d c name" "(new_message CLIPluginDisable)\<lparr>m_PluginName := name\<rparr>" for c name
  unfolding DisablePlugin_def by (rule cl_ask_request)

interpretation ListPluginVersions: client_request "\<lambda>L d. ListPluginVersions L d c name" "(new_message CLIPluginVersions)\<lparr>m_PluginName := name\<rparr>" for c name
  unfolding ListPluginVersions_def by (rule cl_ask_request)

interpretation RollbackPlugin: client_request "\<lambda>L d. RollbackPlugin L d c name version" "(new_message CLIPluginRollback)\<lparr>m_PluginName := name, m_PluginVersion := version\<rparr>" for c name version
  unfolding RollbackPlugin_def by (rule cl_ask_request)

interpretation ListGroups: client_request "\<lambda>L d. ListGroups L d c" "new_message CLIGroupList" for c
  unfolding ListGroups_def by (rule cl_ask_request)

interpretation CreateGroup: client_request "\<lambda>L d. CreateGroup L d c name" "(new_message CLIGroupCreate)\<lparr>m_GroupName := name\<rparr>" for c name
  unfolding CreateGroup_def by (rule cl_ask_request)

interpretation DeleteGroup: client_request "\<lambda>L d. DeleteGroup L d c name" "(new_message CLIGroupDelete)\<lparr>m_GroupName := name\<rparr>" for c name
  unfolding DeleteGroup_def by (rule cl_ask_request)

interpretation AddAgentToGroup: client_request "\<lambda>L d. AddAgentToGroup L d c agentID grp" "(new_message CLIGroupAdd)\<lparr>m_AgentID := agentID, m_GroupName := grp\<rparr>" for c agentID grp
  unfolding AddAgentToGroup_def by (rule cl_ask_request)

interpretation RemoveAgentFromGroup: client_request "\<lambda>L d. RemoveAgentFromGroup L d c agentID grp" "(new_message CLIGroupRemove)\<lparr>m_AgentID := agentID, m_GroupName := grp\<rparr>" for c agentID grp
  unfolding RemoveAgentFromGroup_def by (rule cl_ask_request)

interpretation SetAgentTags: client_request "\<lambda>L d. SetAgentTags L d c agentID tags" "(new_message CLITagSet)\<lparr>m_AgentID := agentID, m_Tags := tags\<rparr>" for c agentID tags
  unfolding SetAgentTags_def by (rule cl_ask_request)

interpretation AddAgentTags: client_request "\<lambda>L d. AddAgentTags L d c agentID tags" "(new_message CLITagAdd)\<lparr>m_AgentID := agentID, m_Tags := tags\<rparr>" for c agentID tags
  unfolding AddAgentTags_def by (rule cl_ask_request)

interpretation RemoveAgentTags: client_request "\<lambda>L d. RemoveAgentTags L d c agentID tags" "(new_message CLITagRemove)\<lparr>m_AgentID := agentID, m_Tags := tags\<rparr>" for c agentID tags
  unfolding RemoveAgentTags_def by (rule cl_ask_request)

interpretation ExecuteOnAgent: client_request "\<lambda>L d. ExecuteOnAgent L d c i cmd args"
    "(new_message CLIExec)\<lparr>m_AgentID := i, m_Command := cmd, m_Args := args\<rparr>" for c i cmd args
  by (rule ExecuteOnAgent_request)

section \<open>A sample environment\<close>

text \<open>A network that answers every request with what a function of the message says.\<close>

definition sample_do :: "(message \<Rightarrow> message result) \<Rightarrow> nat \<Rightarrow> do_env" where
  "sample_do reply n =
     \<lparr>env_dial = None, env_deadline = None, env_request_id = ''r'', env_nonce = Inr (''n'' @ Itoa (int n)),
      env_now = 0, env_encode = (\<lambda>m. None), env_decode = reply\<rparr>"

definition sample_cli :: "(message \<Rightarrow> message result) \<Rightarrow> cli_env" where
  "sample_cli reply =
     \<lparr>ce_lib = sample_lib, ce_do = sample_do reply, ce_nano = int, ce_NO_COLOR = ''1'',
      ce_server_addr = ''127.0.0.1'', ce_server_port = ''9999'', ce_time_text = (\<lambda>t. ''never''),
      ce_finish = (\<lambda>n. rev [0..<n]),
      ce_mkdir_temp = (\<lambda>ds. Inr (join ''/'' (''tmp'' # ds))),
      ce_git_clone = (\<lambda>args. ([], None)), ce_abs = Inr, ce_is_dir = (\<lambda>p. Inr True),
      ce_load = (\<lambda>dir src. Inl (Errorf ''no manifest'')), ce_listen = (\<lambda>addr. None)\<rparr>"

definition sample_world :: "string list \<Rightarrow> world" where
  "sample_world stdin =
     \<lparr>w_requests = 0, w_clients = 0, w_sent = [], w_out = [], w_stdin = stdin, w_secret = ''k'', w_temps = []\<rparr>"

definition sample_client :: client where
  "sample_client = NewClient 1 ''k'' [] 0"

end
