(* ===== verification/Cli_Commands.thy ===== *)
theory Cli_Commands
  imports Cli_World
begin

text \<open>
  The commands of cli/terminal.go and cli/agent_groups.go that talk to the server: list, info,
  exec, ping, agent control, groups and tags, and the execution on many agents at once. Each
  takes the environment and the client, and returns the exit code.
\<close>

section \<open>list, info, exec, ping and agent of cli/terminal.go\<close>

definition address_text :: "entry \<Rightarrow> string" where
  "address_text a = e_IPAddress a @ '':'' @ Itoa (e_Port a)"

definition list_row :: "bool \<Rightarrow> entry \<Rightarrow> string list" where
  "list_row nc a =
     [cyan nc (e_ID a), e_Hostname a, address_text a, yesNo nc (e_Connected a),
      statusLabel nc (e_Status a) (e_Connected a), join '', '' (e_Tags a), join '', '' (e_Groups a)]"

definition runList :: "cli_env \<Rightarrow> client \<Rightarrow> exit cli" where
  "runList E c = do {
     r \<leftarrow> ask E (\<lambda>L d. ListAgents L d c);
     case r of
       Inl e \<Rightarrow> fail_err E e
     | Inr agents \<Rightarrow>
         if agents = [] then do { fmt_Println (dim (nocolor E) ''No agents registered''); return (Code 0) }
         else do {
           fmt_Print (printTable (nocolor E)
             [''Agent'', ''Hostname'', ''Address'', ''Connected'', ''Status'', ''Tags'', ''Groups'']
             (map (list_row (nocolor E)) (sort_key e_ID agents)));
           return (Code 0) } }"

definition info_rows :: "cli_env \<Rightarrow> entry \<Rightarrow> string list list" where
  "info_rows E a =
     [[''Hostname'', e_Hostname a], [''Address'', address_text a],
      [''Connected'', yesNo (nocolor E) (e_Connected a)],
      [''Status'', statusLabel (nocolor E) (e_Status a) (e_Connected a)],
      [''Tags'', join '', '' (e_Tags a)], [''Groups'', join '', '' (e_Groups a)],
      [''Last Seen'', ce_time_text E (e_LastSeen a)]]"

definition command_lines :: "cli_env \<Rightarrow> string list \<Rightarrow> string list" where
  "command_lines E commands = map (\<lambda>n. ''  '' @ cyan (nocolor E) n) (sort commands)"

text \<open>A reply without an agent is a nil pointer, and reading its fields panics.\<close>

definition runInfo :: "cli_env \<Rightarrow> client \<Rightarrow> string \<Rightarrow> exit cli" where
  "runInfo E c agentID = do {
     r \<leftarrow> ask E (\<lambda>L d. GetAgent L d c agentID);
     case r of
       Inl e \<Rightarrow> fail_err E e
     | Inr (None, commands) \<Rightarrow> return Panic
     | Inr (Some a, commands) \<Rightarrow> do {
         fmt_Println (bold (nocolor E) (cyan (nocolor E) (e_ID a)));
         fmt_Print (printTable (nocolor E) [''Field'', ''Value''] (info_rows E a));
         if commands = [] then do { fmt_Println (dim (nocolor E) ''Commands: none''); return (Code 0) }
         else do {
           fmt_Println [];
           fmt_Println (bold (nocolor E) ''Commands'');
           print_lines (command_lines E commands);
           return (Code 0) } } }"

definition runExec :: "cli_env \<Rightarrow> client \<Rightarrow> string \<Rightarrow> string \<Rightarrow> string list \<Rightarrow> exit cli" where
  "runExec E c agentID command args = do {
     r \<leftarrow> ask E (\<lambda>L d. ExecuteOnAgent L d c agentID command args);
     case r of
       Inl e \<Rightarrow> fail_err E e
     | Inr text \<Rightarrow> do { fmt_Println text; return (Code 0) } }"

definition runPing :: "cli_env \<Rightarrow> client \<Rightarrow> string \<Rightarrow> exit cli" where
  "runPing E c agentID = do { r \<leftarrow> ask E (\<lambda>L d. PingAgent L d c agentID); printResult E r }"

definition runAgentControl :: "cli_env \<Rightarrow> client \<Rightarrow> string \<Rightarrow> string \<Rightarrow> exit cli" where
  "runAgentControl E c control agentID =
     (if control \<notin> {''freeze'', ''unfreeze'', ''stop'', ''restart''}
      then fail_with E (red (nocolor E) ''unsupported agent control:'' @ '' '' @ control)
      else do { r \<leftarrow> ask E (\<lambda>L d. ControlAgent L d c agentID control); printResult E r })"

section \<open>Many agents at once, cli/agent_groups.go\<close>

text \<open>
  Every goroutine of runExecMany makes one request and sends its result on a channel that has
  room for all of them; they share nothing but the client, which none of them writes. So the
  k-th request has its own environment, and what is left open is the order in which the
  results arrive.
\<close>

fun exec_each :: "cli_env \<Rightarrow> client \<Rightarrow> string \<Rightarrow> string list \<Rightarrow> string list \<Rightarrow> (string \<times> string result) list cli" where
  "exec_each E c command args [] = return []"
| "exec_each E c command args (i # ids) = do {
     r \<leftarrow> ask E (\<lambda>L d. ExecuteOnAgent L d c i command args);
     rs \<leftarrow> exec_each E c command args ids;
     return ((i, r) # rs) }"

definition in_finish_order :: "cli_env \<Rightarrow> 'a list \<Rightarrow> 'a list" where
  "in_finish_order E xs = map ((!) xs) (ce_finish E (length xs))"

text \<open>What is printed for one result.\<close>

definition result_block :: "cli_env \<Rightarrow> string \<times> string result \<Rightarrow> printed list" where
  "result_block E = (\<lambda>(i, r).
     [Stdout (bold (nocolor E) (cyan (nocolor E) i) @ NL)] @
     (case r of
        Inl e \<Rightarrow> [Stdout (red (nocolor E) (error_text e) @ NL)]
      | Inr t \<Rightarrow> Stdout t # (if HasSuffix t NL then [] else [Stdout NL])) @
     [Stdout NL])"

fun report_results :: "cli_env \<Rightarrow> (string \<times> string result) list \<Rightarrow> int \<Rightarrow> int cli" where
  "report_results E [] exitCode = return exitCode"
| "report_results E ((i, r) # rs) exitCode = do {
     fmt_Println (bold (nocolor E) (cyan (nocolor E) i));
     exitCode' \<leftarrow>
       (case r of
          Inl e \<Rightarrow> do { fmt_Println (red (nocolor E) (error_text e)); return 1 }
        | Inr t \<Rightarrow> do {
            fmt_Print t;
            (if HasSuffix t NL then return () else fmt_Println []);
            return exitCode });
     fmt_Println [];
     report_results E rs exitCode' }"

definition runExecMany :: "cli_env \<Rightarrow> client \<Rightarrow> string list \<Rightarrow> string \<Rightarrow> string list \<Rightarrow> exit cli" where
  "runExecMany E c agentIDs command args =
     (if agentIDs = [] then do { fmt_Println (yellow (nocolor E) ''No online agents matched''); return (Code 1) }
      else do {
        rs \<leftarrow> exec_each E c command args (sort agentIDs);
        n \<leftarrow> report_results E (in_finish_order E rs) 0;
        return (Code n) })"

definition runExecAll :: "cli_env \<Rightarrow> client \<Rightarrow> string \<Rightarrow> string list \<Rightarrow> exit cli" where
  "runExecAll E c command args = do {
     r \<leftarrow> ask E (\<lambda>L d. ListAgents L d c);
     case r of
       Inl e \<Rightarrow> fail_err E e
     | Inr agents \<Rightarrow> runExecMany E c (map e_ID (filter e_Connected agents)) command args }"

fun containsString :: "string list \<Rightarrow> string \<Rightarrow> bool" where
  "containsString [] target = False"
| "containsString (v # vs) target = (if v = target then True else containsString vs target)"

lemma containsString_set [simp]: "containsString values target \<longleftrightarrow> target \<in> set values"
  by (induction "values") auto

definition group_members :: "string \<Rightarrow> entry list \<Rightarrow> string list" where
  "group_members grp agents = map e_ID (filter (\<lambda>a. e_Connected a \<and> containsString (e_Groups a) grp) agents)"

definition runExecGroup :: "cli_env \<Rightarrow> client \<Rightarrow> string \<Rightarrow> string \<Rightarrow> string list \<Rightarrow> exit cli" where
  "runExecGroup E c grp command args = do {
     r \<leftarrow> ask E (\<lambda>L d. ListAgents L d c);
     case r of
       Inl e \<Rightarrow> fail_err E e
     | Inr agents \<Rightarrow>
         (let ids = group_members grp agents in
          if ids = [] then do { fmt_Println (yellow (nocolor E) (''No online agents in group '' @ grp)); return (Code 1) }
          else runExecMany E c ids command args) }"

section \<open>group and tag\<close>

definition group_row :: "bool \<Rightarrow> entry list \<Rightarrow> string \<Rightarrow> string list" where
  "group_row nc agents g =
     (let members = filter (\<lambda>a. containsString (e_Groups a) g) agents
      in [cyan nc g, Itoa (int (length members)), Itoa (int (length (filter e_Connected members)))])"

definition runGroupList :: "cli_env \<Rightarrow> client \<Rightarrow> exit cli" where
  "runGroupList E c = do {
     r \<leftarrow> ask E (\<lambda>L d. ListGroups L d c);
     case r of
       Inl e \<Rightarrow> fail_err E e
     | Inr grps \<Rightarrow> do {
         r2 \<leftarrow> ask E (\<lambda>L d. ListAgents L d c);
         case r2 of
           Inl e \<Rightarrow> fail_err E e
         | Inr agents \<Rightarrow>
             if grps = [] then do { fmt_Println (dim (nocolor E) ''No groups''); return (Code 0) }
             else do {
               fmt_Print (printTable (nocolor E) [''Group'', ''Agents'', ''Online'']
                 (map (group_row (nocolor E) agents) grps));
               return (Code 0) } } }"

definition help_line :: "cli_env \<Rightarrow> string \<times> string \<Rightarrow> string" where
  "help_line E = (\<lambda>(cmd, rest). ''  '' @ cyan (nocolor E) cmd @ rest)"

definition printGroupHelp :: "cli_env \<Rightarrow> unit cli" where
  "printGroupHelp E = print_lines (bold (nocolor E) ''Group commands'' # map (help_line E)
     [(''trish group list'', []), (''trish group create'', '' <name>''),
      (''trish group delete'', '' <name>''), (''trish group add'', '' <name> <agent-id>''),
      (''trish group remove-agent'', '' <name> <agent-id>''),
      (''trish group exec'', '' <name> <command> [args...]'')])"

definition printTagHelp :: "cli_env \<Rightarrow> unit cli" where
  "printTagHelp E = print_lines (bold (nocolor E) ''Tag commands'' # map (help_line E)
     [(''trish tag'', '' <agent-id> list''), (''trish tag'', '' <agent-id> set <tag...>''),
      (''trish tag'', '' <agent-id> add <tag...>''), (''trish tag'', '' <agent-id> remove <tag...>'')])"

definition runGroup :: "cli_env \<Rightarrow> client \<Rightarrow> string list \<Rightarrow> exit cli" where
  "runGroup E c args =
     (case args of
        [] \<Rightarrow> do { printGroupHelp E; return (Code 1) }
      | cmd # rest \<Rightarrow>
          if cmd = ''list'' then runGroupList E c
          else if cmd = ''create'' then
            (case rest of
               [name] \<Rightarrow> do { r \<leftarrow> ask E (\<lambda>L d. CreateGroup L d c name); printResult E r }
             | _ \<Rightarrow> usage E ''usage: trish group create <name>'')
          else if cmd \<in> {''delete'', ''remove''} then
            (case rest of
               [name] \<Rightarrow> do { r \<leftarrow> ask E (\<lambda>L d. DeleteGroup L d c name); printResult E r }
             | _ \<Rightarrow> usage E ''usage: trish group delete <name>'')
          else if cmd = ''add'' then
            (case rest of
               [name, agentID] \<Rightarrow> do { r \<leftarrow> ask E (\<lambda>L d. AddAgentToGroup L d c agentID name); printResult E r }
             | _ \<Rightarrow> usage E ''usage: trish group add <name> <agent-id>'')
          else if cmd = ''remove-agent'' then
            (case rest of
               [name, agentID] \<Rightarrow> do { r \<leftarrow> ask E (\<lambda>L d. RemoveAgentFromGroup L d c agentID name); printResult E r }
             | _ \<Rightarrow> usage E ''usage: trish group remove-agent <name> <agent-id>'')
          else if cmd = ''exec'' then
            (case rest of
               name # command # cargs \<Rightarrow> runExecGroup E c name command cargs
             | _ \<Rightarrow> usage E ''usage: trish group exec <name> <command> [args...]'')
          else if cmd \<in> {''help'', ''-h'', ''--help''} then do { printGroupHelp E; return (Code 0) }
          else do {
            err_Println (red (nocolor E) ''unknown group command:'' @ '' '' @ cmd);
            printGroupHelp E;
            return (Code 1) })"

definition runTag :: "cli_env \<Rightarrow> client \<Rightarrow> string list \<Rightarrow> exit cli" where
  "runTag E c args =
     (case args of
        agentID # action # vals \<Rightarrow>
          if action = ''list'' then do {
            r \<leftarrow> ask E (\<lambda>L d. GetAgent L d c agentID);
            case r of
              Inl e \<Rightarrow> fail_err E e
            | Inr (None, _) \<Rightarrow> return Panic
            | Inr (Some a, _) \<Rightarrow>
                if e_Tags a = [] then do { fmt_Println (dim (nocolor E) ''No tags''); return (Code 0) }
                else do { fmt_Println (join '', '' (e_Tags a)); return (Code 0) } }
          else if action = ''set'' then do { r \<leftarrow> ask E (\<lambda>L d. SetAgentTags L d c agentID vals); printResult E r }
          else if action = ''add'' then
            (if vals = [] then usage E ''usage: trish tag <agent-id> add <tag...>''
             else do { r \<leftarrow> ask E (\<lambda>L d. AddAgentTags L d c agentID vals); printResult E r })
          else if action = ''remove'' then
            (if vals = [] then usage E ''usage: trish tag <agent-id> remove <tag...>''
             else do { r \<leftarrow> ask E (\<lambda>L d. RemoveAgentTags L d c agentID vals); printResult E r })
          else if action \<in> {''help'', ''-h'', ''--help''} then do { printTagHelp E; return (Code 0) }
          else do {
            err_Println (red (nocolor E) ''unknown tag command:'' @ '' '' @ action);
            printTagHelp E;
            return (Code 1) }
      | _ \<Rightarrow> do { printTagHelp E; return (Code 1) })"

end
