(* ===== verification/Storage.thy ===== *)
theory Storage
  imports Prelude
begin

text \<open>
  Files as the stores of the server use them. os.WriteFile truncates the file before it writes,
  so a failed write leaves the file with some other content or none; which of the outcomes
  occurs is an argument of the operations. json.MarshalIndent and json.Unmarshal are a codec:
  a pair of functions, with the values that survive the round trip given by a predicate
  (encoding/json replaces invalid UTF-8, so not every Go string does). The functions of
  path/filepath depend on the operating system the program is built for and are arguments too.
\<close>

type_synonym disk = "string \<Rightarrow> string option"

datatype write_outcome = WriteOk | WriteFail go_error "string option"

fun write_file :: "write_outcome \<Rightarrow> string \<Rightarrow> string \<Rightarrow> disk \<Rightarrow> disk \<times> go_error option" where
  "write_file WriteOk p d fs = (fs(p := Some d), None)"
| "write_file (WriteFail e c) p d fs = (fs(p := c), Some e)"

definition read_file :: "string \<Rightarrow> disk \<Rightarrow> string result" where
  "read_file p fs =
     (case fs p of None \<Rightarrow> Inl (ErrNotExist (''open '' @ p @ '': no such file'')) | Some d \<Rightarrow> Inr d)"

record 'a codec =
  Marshal :: "'a \<Rightarrow> string result"
  Unmarshal :: "string \<Rightarrow> 'a result"

text \<open>The values of \<open>P\<close> can be written, and reading them back returns them.\<close>

definition codec_ok :: "('a \<Rightarrow> bool) \<Rightarrow> 'a codec \<Rightarrow> bool" where
  "codec_ok P J \<longleftrightarrow> (\<forall>x. P x \<longrightarrow> (\<exists>d. Marshal J x = Inr d \<and> Unmarshal J d = Inr x))"

lemma codec_okE:
  assumes "codec_ok P J" and "P x"
  obtains d where "Marshal J x = Inr d" and "Unmarshal J d = Inr x"
  using assms by (auto simp: codec_ok_def)

record filepath_lib =
  fp_Dir :: "string \<Rightarrow> string"
  fp_Join :: "string list \<Rightarrow> string"
  fp_IsAbs :: "string \<Rightarrow> bool"
  fp_Clean :: "string \<Rightarrow> string"
  fp_ToSlash :: "string \<Rightarrow> string"

text \<open>The pattern that both stores of the server share: marshal the snapshot, write the file.\<close>

definition save_json :: "'a codec \<Rightarrow> write_outcome \<Rightarrow> string \<Rightarrow> 'a \<Rightarrow> disk \<Rightarrow> disk \<times> go_error option" where
  "save_json J w p x fs =
     (case Marshal J x of
        Inl e \<Rightarrow> (fs, Some e)
      | Inr d \<Rightarrow> write_file w p d fs)"

lemma save_json_ok:
  assumes "codec_ok P J" and "P x"
  shows "\<exists>d. save_json J WriteOk p x fs = (fs(p := Some d), None) \<and> Unmarshal J d = Inr x"
  using assms by (elim codec_okE) (auto simp: save_json_def)

lemma save_json_other:
  "save_json J w p x fs = (fs', e) \<Longrightarrow> q \<noteq> p \<Longrightarrow> fs' q = fs q"
  by (cases w) (auto simp: save_json_def split: sum.splits)

text \<open>
  A codec of text lists for the theorems that show a hypothesis can be met: every text is
  followed by a line feed.
\<close>

fun lines_dec :: "string \<Rightarrow> string \<Rightarrow> string list" where
  "lines_dec acc [] = []"
| "lines_dec acc (c # s) =
     (if c = CHR 0x0A then acc # lines_dec [] s else lines_dec (acc @ [c]) s)"

definition lines_codec :: "string list codec" where
  "lines_codec =
     \<lparr>Marshal = (\<lambda>xs. Inr (concat (map (\<lambda>x. x @ [CHR 0x0A]) xs))),
      Unmarshal = (\<lambda>d. Inr (lines_dec [] d))\<rparr>"

definition one_line :: "string \<Rightarrow> bool" where
  "one_line s \<longleftrightarrow> CHR 0x0A \<notin> set s"

lemma lines_dec_one:
  "one_line x \<Longrightarrow> lines_dec acc (x @ CHR 0x0A # s) = (acc @ x) # lines_dec [] s"
  by (induction x arbitrary: acc) (auto simp: one_line_def)

lemma lines_codec_ok: "codec_ok (\<lambda>xs. \<forall>x \<in> set xs. one_line x) lines_codec"
proof -
  have "\<forall>x \<in> set xs. one_line x \<Longrightarrow> lines_dec [] (concat (map (\<lambda>x. x @ [CHR 0x0A]) xs)) = xs" for xs
    by (induction xs) (auto simp: lines_dec_one)
  then show ?thesis by (simp add: codec_ok_def lines_codec_def)
qed

end
