(* ===== verification/Plugin_Store.thy ===== *)
theory Plugin_Store
  imports Wire Storage
begin

text \<open>
  server/plugin_store.go without the generated script (see Power_Shell): the installed plugins,
  each with all the versions that were ever installed, the active one and a switch. The map of
  records and the slices of packages become values; the clones the code makes to keep its
  slices from being shared are identities on values. Every operation takes the codec of the
  file, the iteration order of the map and the outcome of the write.
\<close>

record plugin_record =
  pr_Name :: string
  pr_ActiveVersion :: string
  pr_Disabled :: bool
  pr_Versions :: "package list"

record plugin_store =
  ps_path :: string
  ps_records :: "plugin_record gomap"

type_synonym plugin_state = "plugin_store \<times> disk"

abbreviation pk_Name :: "package \<Rightarrow> string" where
  "pk_Name p \<equiv> mf_Name (pk_Manifest p)"

abbreviation pk_Version :: "package \<Rightarrow> string" where
  "pk_Version p \<equiv> mf_Version (pk_Manifest p)"

section \<open>Records and versions\<close>

definition clonePluginPackage :: "package \<Rightarrow> package" where
  "clonePluginPackage p =
     p\<lparr>pk_Manifest := (pk_Manifest p)
         \<lparr>mf_OS := [] @ mf_OS (pk_Manifest p),
          mf_Permissions := [] @ mf_Permissions (pk_Manifest p),
          mf_Commands := [] @ mf_Commands (pk_Manifest p)\<rparr>,
       pk_Files := [] @ pk_Files p\<rparr>"

definition clonePluginRecord :: "plugin_record \<Rightarrow> plugin_record" where
  "clonePluginRecord r = r\<lparr>pr_Versions := map clonePluginPackage (pr_Versions r)\<rparr>"

lemma clone_id [simp]: "clonePluginPackage p = p" "clonePluginRecord r = r"
proof -
  show p: "clonePluginPackage p = p" for p by (simp add: clonePluginPackage_def)
  show "clonePluginRecord r = r" by (simp add: clonePluginRecord_def p cong: map_cong)
qed

definition recordFromPackage :: "package \<Rightarrow> plugin_record" where
  "recordFromPackage p =
     (let cloned = clonePluginPackage p
      in \<lparr>pr_Name = pk_Name cloned, pr_ActiveVersion = pk_Version cloned,
          pr_Disabled = mf_Disabled (pk_Manifest cloned), pr_Versions = [cloned]\<rparr>)"

fun recordHasVersion_in :: "package list \<Rightarrow> string \<Rightarrow> bool" where
  "recordHasVersion_in [] v = False"
| "recordHasVersion_in (p # ps) v = (if pk_Version p = v then True else recordHasVersion_in ps v)"

definition recordHasVersion :: "plugin_record \<Rightarrow> string \<Rightarrow> bool" where
  "recordHasVersion r v = recordHasVersion_in (pr_Versions r) v"

text \<open>upsertPluginVersion: replace the first package of the same version, or append.\<close>

fun upsert_versions :: "package list \<Rightarrow> package \<Rightarrow> package list" where
  "upsert_versions [] p = [p]"
| "upsert_versions (q # qs) p =
     (if pk_Version q = pk_Version p then p # qs else q # upsert_versions qs p)"

definition upsertPluginVersion :: "plugin_record \<Rightarrow> package \<Rightarrow> plugin_record" where
  "upsertPluginVersion r p =
     r\<lparr>pr_Versions := upsert_versions (pr_Versions r) (clonePluginPackage p)\<rparr>"

text \<open>activePluginPackage: the active version, or the last one when the active one is missing.\<close>

definition activePluginPackage :: "plugin_record \<Rightarrow> package option" where
  "activePluginPackage r =
     (let mark = (\<lambda>p. let c = clonePluginPackage p
                      in c\<lparr>pk_Manifest := (pk_Manifest c)\<lparr>mf_Disabled := pr_Disabled r\<rparr>\<rparr>)
      in case List.find (\<lambda>p. pk_Version p = pr_ActiveVersion r) (pr_Versions r) of
           Some p \<Rightarrow> Some (mark p)
         | None \<Rightarrow> (if pr_Versions r = [] then None else Some (mark (last (pr_Versions r)))))"

text \<open>The loop of normalizePluginRecord: validate every version, check that it has the name.\<close>

fun normalize_versions :: "core_lib \<Rightarrow> string \<Rightarrow> package list \<Rightarrow> package list result" where
  "normalize_versions L name [] = Inr []"
| "normalize_versions L name (p # ps) =
     (case validate L p of
        Inl e \<Rightarrow> Inl e
      | Inr q \<Rightarrow>
          (if pk_Name q \<noteq> name
           then Inl (Errorf (''plugin record '' @ name @ '' contains package '' @ pk_Name q))
           else (case normalize_versions L name ps of Inl e \<Rightarrow> Inl e | Inr qs \<Rightarrow> Inr (q # qs))))"

definition normalizePluginRecord :: "core_lib \<Rightarrow> plugin_record \<Rightarrow> plugin_record result" where
  "normalizePluginRecord L r0 =
     (let r = r0\<lparr>pr_Name := TrimSpace (pr_Name r0)\<rparr> in
      if pr_Name r = [] then Inl (Errorf ''plugin record name is required'')
      else if pr_Versions r = [] then Inl (Errorf (''plugin '' @ pr_Name r @ '' has no versions''))
      else case normalize_versions L (pr_Name r) (pr_Versions r) of
             Inl e \<Rightarrow> Inl e
           | Inr vs \<Rightarrow>
               (let r1 = r\<lparr>pr_Versions := vs\<rparr> in
                if TrimSpace (pr_ActiveVersion r1) = [] \<or> \<not> recordHasVersion r1 (pr_ActiveVersion r1)
                then Inr (r1\<lparr>pr_ActiveVersion := pk_Version (last vs)\<rparr>)
                else Inr r1))"

section \<open>Operations\<close>

definition ps_snapshotLocked :: "map_order \<Rightarrow> plugin_store \<Rightarrow> plugin_record list" where
  "ps_snapshotLocked ord s = sort_key pr_Name (map clonePluginRecord (map_values ord (ps_records s)))"

definition ps_save ::
  "plugin_record list codec \<Rightarrow> write_outcome \<Rightarrow> plugin_store \<Rightarrow> plugin_record list \<Rightarrow> disk \<Rightarrow> disk \<times> go_error option" where
  "ps_save J w s rs fs = save_json J w (ps_path s) rs fs"

text \<open>The tail that the operations share: snapshot, unlock, save.\<close>

definition ps_commit ::
  "plugin_record list codec \<Rightarrow> map_order \<Rightarrow> write_outcome \<Rightarrow> plugin_store \<Rightarrow> disk \<Rightarrow> plugin_state \<times> go_error option" where
  "ps_commit J ord w s fs =
     (let snapshot = ps_snapshotLocked ord s; (fs', e) = ps_save J w s snapshot fs in ((s, fs'), e))"

definition ps_put :: "string \<Rightarrow> plugin_record \<Rightarrow> plugin_store \<Rightarrow> plugin_store" where
  "ps_put name r s = s\<lparr>ps_records := AList.update name r (ps_records s)\<rparr>"

definition ps_install ::
  "core_lib \<Rightarrow> plugin_record list codec \<Rightarrow> map_order \<Rightarrow> write_outcome \<Rightarrow> package option \<Rightarrow>
   plugin_state \<Rightarrow> plugin_state \<times> go_error option" where
  "ps_install L J ord w pkg = (\<lambda>(s, fs).
     case (case pkg of None \<Rightarrow> Inl (validate_nil L) | Some p \<Rightarrow> validate L p) of
       Inl e \<Rightarrow> ((s, fs), Some e)
     | Inr p \<Rightarrow>
         (let s' = (case map_of (ps_records s) (pk_Name p) of
                      None \<Rightarrow> (let r = recordFromPackage p in ps_put (pr_Name r) r s)
                    | Some r \<Rightarrow>
                        ps_put (pk_Name p)
                          ((upsertPluginVersion r p)\<lparr>pr_ActiveVersion := pk_Version p, pr_Disabled := False\<rparr>) s)
          in ps_commit J ord w s' fs))"

definition ps_remove ::
  "plugin_record list codec \<Rightarrow> map_order \<Rightarrow> write_outcome \<Rightarrow> string \<Rightarrow> plugin_state \<Rightarrow> plugin_state \<times> go_error option" where
  "ps_remove J ord w nm = (\<lambda>(s, fs).
     let name = TrimSpace nm in
     if name = [] then ((s, fs), Some (Errorf ''plugin name is required''))
     else if map_of (ps_records s) name = None
          then ((s, fs), Some (Errorf (''plugin '' @ name @ '' not found'')))
     else ps_commit J ord w (s\<lparr>ps_records := AList.delete name (ps_records s)\<rparr>) fs)"

definition ps_setEnabled ::
  "plugin_record list codec \<Rightarrow> map_order \<Rightarrow> write_outcome \<Rightarrow> string \<Rightarrow> bool \<Rightarrow> plugin_state \<Rightarrow> plugin_state \<times> go_error option" where
  "ps_setEnabled J ord w nm enabled = (\<lambda>(s, fs).
     let name = TrimSpace nm in
     if name = [] then ((s, fs), Some (Errorf ''plugin name is required''))
     else case map_of (ps_records s) name of
            None \<Rightarrow> ((s, fs), Some (Errorf (''plugin '' @ name @ '' not found'')))
          | Some r \<Rightarrow> ps_commit J ord w (ps_put name (r\<lparr>pr_Disabled := \<not> enabled\<rparr>) s) fs)"

definition ps_rollback ::
  "plugin_record list codec \<Rightarrow> map_order \<Rightarrow> write_outcome \<Rightarrow> string \<Rightarrow> string \<Rightarrow> plugin_state \<Rightarrow> plugin_state \<times> go_error option" where
  "ps_rollback J ord w nm ver = (\<lambda>(s, fs).
     let name = TrimSpace nm; version = TrimSpace ver in
     if name = [] \<or> version = [] then ((s, fs), Some (Errorf ''plugin name and version are required''))
     else case map_of (ps_records s) name of
            None \<Rightarrow> ((s, fs), Some (Errorf (''plugin '' @ name @ '' not found'')))
          | Some r \<Rightarrow>
              (if \<not> recordHasVersion r version
               then ((s, fs), Some (Errorf (''plugin '' @ name @ '' version '' @ version @ '' not found'')))
               else ps_commit J ord w
                      (ps_put name (r\<lparr>pr_ActiveVersion := version, pr_Disabled := False\<rparr>) s) fs))"

text \<open>list: one manifest per record that has an active package, sorted by name.\<close>

definition ps_list :: "map_order \<Rightarrow> plugin_store \<Rightarrow> manifest list" where
  "ps_list ord s =
     sort_key mf_Name (List.map_filter (\<lambda>r.
       map_option (\<lambda>pkg. (pk_Manifest pkg)\<lparr>mf_Disabled := pr_Disabled r\<rparr>) (activePluginPackage r))
       (map_values ord (ps_records s)))"

definition ps_versions :: "plugin_store \<Rightarrow> string \<Rightarrow> manifest list result" where
  "ps_versions s nm =
     (let name = TrimSpace nm in
      if name = [] then Inl (Errorf ''plugin name is required'')
      else case map_of (ps_records s) name of
             None \<Rightarrow> Inl (Errorf (''plugin '' @ name @ '' not found''))
           | Some r \<Rightarrow>
               Inr (sort_desc mf_Version (map (\<lambda>pkg. (pk_Manifest pkg)
                 \<lparr>mf_Disabled := pr_Disabled r \<or> pk_Version pkg \<noteq> pr_ActiveVersion r\<rparr>)
                 (pr_Versions r))))"

definition ps_commandNames :: "core_lib \<Rightarrow> map_order \<Rightarrow> plugin_store \<Rightarrow> string list" where
  "ps_commandNames L ord s =
     sort (add_new [] (concat (map (command_names L) (filter (\<lambda>m. \<not> mf_Disabled m) (ps_list ord s)))))"

text \<open>findCommand: the first match in the iteration order of the map.\<close>

fun find_command_in :: "string \<Rightarrow> plugin_record list \<Rightarrow> package option" where
  "find_command_in c [] = None"
| "find_command_in c (r # rs) =
     (if pr_Disabled r then find_command_in c rs
      else case activePluginPackage r of
             None \<Rightarrow> find_command_in c rs
           | Some pkg \<Rightarrow>
               (if c \<in> set (map pc_Name (mf_Commands (pk_Manifest pkg)))
                then Some (clonePluginPackage pkg) else find_command_in c rs))"

definition ps_findCommand :: "map_order \<Rightarrow> plugin_store \<Rightarrow> string \<Rightarrow> package option" where
  "ps_findCommand ord s c = find_command_in c (map_values ord (ps_records s))"

section \<open>Loading\<close>

text \<open>
  load: the file holds records, or packages in the older format; the second reading is tried
  when the first fails, finds nothing or finds a first record without a name.
\<close>

fun ps_load_records :: "core_lib \<Rightarrow> plugin_record list \<Rightarrow> plugin_store \<Rightarrow> plugin_store \<times> go_error option" where
  "ps_load_records L [] s = (s, None)"
| "ps_load_records L (r # rs) s =
     (case normalizePluginRecord L r of
        Inl e \<Rightarrow> (s, Some e)
      | Inr r' \<Rightarrow> ps_load_records L rs (ps_put (pr_Name r') r' s))"

fun ps_load_packages :: "core_lib \<Rightarrow> package list \<Rightarrow> plugin_store \<Rightarrow> plugin_store \<times> go_error option" where
  "ps_load_packages L [] s = (s, None)"
| "ps_load_packages L (p # ps) s =
     (case validate L p of
        Inl e \<Rightarrow> (s, Some e)
      | Inr q \<Rightarrow> ps_load_packages L ps (let r = recordFromPackage q in ps_put (pr_Name r) r s))"

definition ps_load ::
  "core_lib \<Rightarrow> plugin_record list codec \<Rightarrow> package list codec \<Rightarrow> string result \<Rightarrow> plugin_store \<Rightarrow>
   plugin_store \<times> go_error option" where
  "ps_load L J JP data s =
     (case data of
        Inl e \<Rightarrow> (s, Some e)
      | Inr d \<Rightarrow>
          (case (case Unmarshal J d of
                   Inr rs \<Rightarrow> (if rs \<noteq> [] \<and> pr_Name (hd rs) \<noteq> [] then Some rs else None)
                 | Inl e \<Rightarrow> None) of
             Some rs \<Rightarrow> ps_load_records L rs s
           | None \<Rightarrow>
               (case Unmarshal JP d of
                  Inl e \<Rightarrow> (s, Some e)
                | Inr ps \<Rightarrow> ps_load_packages L ps s)))"

definition newPluginStore ::
  "core_lib \<Rightarrow> filepath_lib \<Rightarrow> plugin_record list codec \<Rightarrow> package list codec \<Rightarrow> go_error option \<Rightarrow>
   string \<Rightarrow> disk \<Rightarrow> plugin_store result" where
  "newPluginStore L fp J JP mk path fs =
     (let store = \<lparr>ps_path = path, ps_records = []\<rparr>; dir = fp_Dir fp path in
      case (if dir \<noteq> ''.'' \<and> dir \<noteq> [] then mk else None) of
        Some e \<Rightarrow> Inl e
      | None \<Rightarrow>
          (case ps_load L J JP (read_file path fs) store of
             (s, None) \<Rightarrow> Inr s
           | (s, Some e) \<Rightarrow> (if \<not> is_not_exist e then Inl e else Inr s)))"

section \<open>The invariant\<close>

text \<open>
  A record is filed under its name; it has a version, all its packages have passed Validate and
  carry the name, and the active version is one of them. Nothing is asked of Validate, which is
  not part of the repository: a package has passed it when it is a result of it.
\<close>

definition validated :: "core_lib \<Rightarrow> package \<Rightarrow> bool" where
  "validated L p \<longleftrightarrow> (\<exists>p0. validate L p0 = Inr p)"

definition rec_ok :: "core_lib \<Rightarrow> string \<Rightarrow> plugin_record \<Rightarrow> bool" where
  "rec_ok L k r \<longleftrightarrow> pr_Name r = k \<and> pr_Versions r \<noteq> [] \<and>
     (\<forall>p \<in> set (pr_Versions r). pk_Name p = k \<and> validated L p) \<and>
     pr_ActiveVersion r \<in> pk_Version ` set (pr_Versions r)"

definition ps_ok :: "core_lib \<Rightarrow> plugin_store \<Rightarrow> bool" where
  "ps_ok L s \<longleftrightarrow> map_ok (ps_records s) \<and> (\<forall>k r. map_of (ps_records s) k = Some r \<longrightarrow> rec_ok L k r)"

lemma ps_ok_map: "ps_ok L s \<Longrightarrow> map_ok (ps_records s)"
  by (simp add: ps_ok_def)

lemma ps_ok_rec: "ps_ok L s \<Longrightarrow> map_of (ps_records s) k = Some r \<Longrightarrow> rec_ok L k r"
  unfolding ps_ok_def by blast

lemma recordHasVersion_iff: "recordHasVersion r v \<longleftrightarrow> v \<in> pk_Version ` set (pr_Versions r)"
proof -
  have "recordHasVersion_in ps v \<longleftrightarrow> v \<in> pk_Version ` set ps" for ps
    by (induction ps) auto
  then show ?thesis by (simp add: recordHasVersion_def)
qed

lemma upsert_versions_set:
  "set (upsert_versions vs p) \<subseteq> insert p (set vs)" "p \<in> set (upsert_versions vs p)"
  by (induction vs) auto

lemma upsert_versions_versions:
  "map pk_Version (upsert_versions vs p) =
     (if pk_Version p \<in> pk_Version ` set vs then map pk_Version vs else map pk_Version vs @ [pk_Version p])"
  by (induction vs) auto

lemma rec_ok_put: "ps_ok L s \<Longrightarrow> rec_ok L k r \<Longrightarrow> ps_ok L (ps_put k r s)"
  unfolding ps_ok_def ps_put_def
  by (auto simp: distinct_update update_conv' simp del: map_of_eq_Some_iff split: if_splits)

lemma ps_ok_delete: "ps_ok L s \<Longrightarrow> ps_ok L (s\<lparr>ps_records := AList.delete k (ps_records s)\<rparr>)"
  unfolding ps_ok_def
  by (auto simp: distinct_delete delete_conv' simp del: map_of_eq_Some_iff split: if_splits)

lemma validatedI: "validate L p0 = Inr p \<Longrightarrow> validated L p"
  unfolding validated_def by blast

lemma rec_ok_package: "validate L p0 = Inr p \<Longrightarrow> rec_ok L (pk_Name p) (recordFromPackage p)"
  by (simp add: rec_ok_def recordFromPackage_def Let_def validatedI)

lemma rec_ok_upsert:
  assumes "validate L p0 = Inr p" and r: "rec_ok L (pk_Name p) r"
  shows "rec_ok L (pk_Name p)
    ((upsertPluginVersion r p)\<lparr>pr_ActiveVersion := pk_Version p, pr_Disabled := False\<rparr>)"
proof -
  have p: "validated L p" using assms(1) by (rule validatedI)
  have "p \<in> set (upsert_versions (pr_Versions r) p)" by (rule upsert_versions_set)
  with p r upsert_versions_set(1) [of "pr_Versions r" p] show ?thesis
    by (fastforce simp: rec_ok_def upsertPluginVersion_def)
qed

lemma rec_ok_enabled: "rec_ok L k r \<Longrightarrow> rec_ok L k (r\<lparr>pr_Disabled := d\<rparr>)"
  by (simp add: rec_ok_def)

lemma rec_ok_rollback:
  "rec_ok L k r \<Longrightarrow> recordHasVersion r v \<Longrightarrow> rec_ok L k (r\<lparr>pr_ActiveVersion := v, pr_Disabled := False\<rparr>)"
  by (simp add: rec_ok_def recordHasVersion_iff)

lemma ps_commit_state: "ps_commit J ord w s fs = (st, e) \<Longrightarrow> fst st = s"
  by (auto simp: ps_commit_def Let_def split: prod.splits)

section \<open>Every operation keeps the invariant\<close>

datatype plugin_op =
    OpInstall "package option"
  | OpRemove string
  | OpSetEnabled string bool
  | OpRollback string string

fun ps_apply ::
  "core_lib \<Rightarrow> plugin_record list codec \<Rightarrow> map_order \<Rightarrow> write_outcome \<Rightarrow> plugin_op \<Rightarrow>
   plugin_state \<Rightarrow> plugin_state \<times> go_error option" where
  "ps_apply L J ord w (OpInstall p) = ps_install L J ord w p"
| "ps_apply L J ord w (OpRemove n) = ps_remove J ord w n"
| "ps_apply L J ord w (OpSetEnabled n b) = ps_setEnabled J ord w n b"
| "ps_apply L J ord w (OpRollback n v) = ps_rollback J ord w n v"

text \<open>
  An operation either returns early with an error and changes nothing, or commits a new store.
\<close>

definition ps_target :: "core_lib \<Rightarrow> plugin_op \<Rightarrow> plugin_store \<Rightarrow> plugin_store result" where
  "ps_target L op s =
     (let mem = (\<lambda>s'. (s', \<lambda>p. None)); J = \<lparr>Marshal = (\<lambda>x. Inr []), Unmarshal = (\<lambda>d. Inr [])\<rparr>
      in case ps_apply L J (\<lambda>ks. ks) WriteOk op (mem s) of
           ((s', fs'), None) \<Rightarrow> Inr s'
         | (_, Some e) \<Rightarrow> Inl e)"

lemma ps_commit_triv:
  "ps_commit \<lparr>Marshal = (\<lambda>x. Inr []), Unmarshal = (\<lambda>d. Inr [])\<rparr> ord WriteOk s fs =
     ((s, fs(ps_path s := Some [])), None)"
  by (simp add: ps_commit_def ps_save_def save_json_def Let_def)

lemma ps_apply_target:
  "ps_apply L J ord w op (s, fs) =
     (case ps_target L op s of Inl e \<Rightarrow> ((s, fs), Some e) | Inr s' \<Rightarrow> ps_commit J ord w s' fs)"
  by (cases op)
    (auto simp: ps_target_def ps_install_def ps_remove_def ps_setEnabled_def ps_rollback_def
      ps_commit_triv Let_def split: option.splits sum.splits)

lemma ps_target_path: "ps_target L op s = Inr s' \<Longrightarrow> ps_path s' = ps_path s"
  by (cases op)
    (auto simp: ps_target_def ps_install_def ps_remove_def ps_setEnabled_def ps_rollback_def
      ps_commit_triv ps_put_def Let_def split: option.splits sum.splits if_splits)

lemma ps_target_installE:
  assumes "ps_target L (OpInstall pkg) s = Inr s'"
  obtains (new) p0 p where "pkg = Some p0" "validate L p0 = Inr p"
      "map_of (ps_records s) (pk_Name p) = None" "s' = ps_put (pk_Name p) (recordFromPackage p) s"
  | (update) p0 p r where "pkg = Some p0" "validate L p0 = Inr p"
      "map_of (ps_records s) (pk_Name p) = Some r"
      "s' = ps_put (pk_Name p)
         ((upsertPluginVersion r p)\<lparr>pr_ActiveVersion := pk_Version p, pr_Disabled := False\<rparr>) s"
proof -
  from assms obtain p0 p where p: "pkg = Some p0" "validate L p0 = Inr p"
    by (auto simp: ps_target_def ps_install_def split: option.splits sum.splits)
  show thesis
  proof (cases "map_of (ps_records s) (pk_Name p)")
    case None
    with assms p have s': "s' = ps_put (pk_Name p) (recordFromPackage p) s"
      by (auto simp: ps_target_def ps_install_def ps_commit_triv recordFromPackage_def Let_def)
    from p None s' show thesis by (rule new)
  next
    case (Some r)
    with assms p have s': "s' = ps_put (pk_Name p)
        ((upsertPluginVersion r p)\<lparr>pr_ActiveVersion := pk_Version p, pr_Disabled := False\<rparr>) s"
      by (auto simp: ps_target_def ps_install_def ps_commit_triv Let_def)
    from p Some s' show thesis by (rule update)
  qed
qed

lemma ps_target_removeE:
  assumes "ps_target L (OpRemove n) s = Inr s'"
  obtains r where "map_of (ps_records s) (TrimSpace n) = Some r"
    "s' = s\<lparr>ps_records := AList.delete (TrimSpace n) (ps_records s)\<rparr>"
  using assms by (auto simp: ps_target_def ps_remove_def ps_commit_triv Let_def split: if_splits)

lemma ps_target_setEnabledE:
  assumes "ps_target L (OpSetEnabled n b) s = Inr s'"
  obtains r where "map_of (ps_records s) (TrimSpace n) = Some r"
    "s' = ps_put (TrimSpace n) (r\<lparr>pr_Disabled := \<not> b\<rparr>) s"
  using assms
  by (auto simp: ps_target_def ps_setEnabled_def ps_commit_triv Let_def split: if_splits option.splits)

lemma ps_target_rollbackE:
  assumes "ps_target L (OpRollback n v) s = Inr s'"
  obtains r where "map_of (ps_records s) (TrimSpace n) = Some r" "recordHasVersion r (TrimSpace v)"
    "s' = ps_put (TrimSpace n) (r\<lparr>pr_ActiveVersion := TrimSpace v, pr_Disabled := False\<rparr>) s"
  using assms
  by (auto simp: ps_target_def ps_rollback_def ps_commit_triv Let_def split: if_splits option.splits)

lemma ps_target_ok:
  assumes s: "ps_ok L s" and t: "ps_target L op s = Inr s'"
  shows "ps_ok L s'"
proof (cases op)
  case (OpInstall pkg)
  with t have "ps_target L (OpInstall pkg) s = Inr s'" by simp
  then show ?thesis
    by (cases rule: ps_target_installE)
      (auto intro: rec_ok_put [OF s] rec_ok_package rec_ok_upsert ps_ok_rec [OF s])
next
  case (OpRemove n)
  with t show ?thesis by (auto elim: ps_target_removeE intro: ps_ok_delete [OF s])
next
  case (OpSetEnabled n b)
  with t show ?thesis
    by (auto elim!: ps_target_setEnabledE intro: rec_ok_put [OF s] rec_ok_enabled ps_ok_rec [OF s])
next
  case (OpRollback n v)
  with t show ?thesis
    by (auto elim!: ps_target_rollbackE intro: rec_ok_put [OF s] rec_ok_rollback ps_ok_rec [OF s])
qed

lemma ps_apply_ok:
  assumes "ps_ok L s" and "ps_apply L J ord w op (s, fs) = (st, e)"
  shows "ps_ok L (fst st)"
  using assms ps_target_ok [OF assms(1)]
  by (auto simp: ps_apply_target dest: ps_commit_state split: sum.splits)

section \<open>Listings and lookups do not depend on the iteration order\<close>

lemma active_ok:
  assumes "rec_ok L k r"
  obtains p where "p \<in> set (pr_Versions r)" and "pk_Version p = pr_ActiveVersion r"
    and "activePluginPackage r = Some (p\<lparr>pk_Manifest := (pk_Manifest p)\<lparr>mf_Disabled := pr_Disabled r\<rparr>\<rparr>)"
proof -
  from assms obtain q where "q \<in> set (pr_Versions r)" "pk_Version q = pr_ActiveVersion r"
    by (auto simp: rec_ok_def)
  then obtain p where p: "List.find (\<lambda>p. pk_Version p = pr_ActiveVersion r) (pr_Versions r) = Some p"
    by (metis (mono_tags, lifting) find_None_iff2 option.exhaust)
  then have "p \<in> set (pr_Versions r)" "pk_Version p = pr_ActiveVersion r"
    by (auto simp: find_Some_iff in_set_conv_nth)
  with p that show ?thesis by (simp add: activePluginPackage_def Let_def)
qed

lemma active_name:
  assumes "rec_ok L k r"
  shows "\<exists>p. activePluginPackage r = Some p \<and> pk_Name p = k \<and> pk_Version p = pr_ActiveVersion r \<and>
    mf_Disabled (pk_Manifest p) = pr_Disabled r"
  using assms by (rule active_ok) (use assms in \<open>auto simp: rec_ok_def\<close>)

lemma map_values_rec_ok:
  "ps_ok L s \<Longrightarrow> is_order ord \<Longrightarrow> r \<in> set (map_values ord (ps_records s)) \<Longrightarrow>
   \<exists>k. map_of (ps_records s) k = Some r \<and> rec_ok L k r"
  unfolding ran_def by (simp add: set_map_values ps_ok_map ran_def del: map_of_eq_Some_iff) (blast dest: ps_ok_rec)

lemma map_values_mset_id:
  "ps_ok L s \<Longrightarrow> is_order ord \<Longrightarrow>
   mset (map_values ord (ps_records s)) = mset (map_values (\<lambda>ks. ks) (ps_records s))"
  by (simp add: mset_map_values ps_ok_map)

definition listed :: "plugin_record \<Rightarrow> manifest option" where
  "listed r = map_option (\<lambda>pkg. (pk_Manifest pkg)\<lparr>mf_Disabled := pr_Disabled r\<rparr>) (activePluginPackage r)"

lemma listed_name: "rec_ok L k r \<Longrightarrow> \<exists>m. listed r = Some m \<and> mf_Name m = k \<and> mf_Disabled m = pr_Disabled r"
  by (drule active_name) (auto simp: listed_def)

lemma ps_list_eq: "ps_list ord s = sort_key mf_Name (List.map_filter listed (map_values ord (ps_records s)))"
  by (simp add: ps_list_def listed_def [abs_def])

lemma set_map_filter: "set (List.map_filter f xs) = {y. \<exists>x \<in> set xs. f x = Some y}"
  by (induction xs) (auto simp: map_filter_simps split: option.splits)

lemma set_ps_list:
  "ps_ok L s \<Longrightarrow> is_order ord \<Longrightarrow>
   set (ps_list ord s) = {m. \<exists>k r. map_of (ps_records s) k = Some r \<and> listed r = Some m}"
  by (auto simp: ps_list_eq set_map_filter set_map_values ps_ok_map ran_def)

lemma listed_inj:
  assumes "ps_ok L s"
  shows "inj_on mf_Name {m. \<exists>k r. map_of (ps_records s) k = Some r \<and> listed r = Some m}"
proof (rule inj_onI)
  fix m m'
  assume "m \<in> {m. \<exists>k r. map_of (ps_records s) k = Some r \<and> listed r = Some m}"
    and "m' \<in> {m. \<exists>k r. map_of (ps_records s) k = Some r \<and> listed r = Some m}"
    and eq: "mf_Name m = mf_Name m'"
  then obtain k r k' r' where k: "map_of (ps_records s) k = Some r" "listed r = Some m"
    "map_of (ps_records s) k' = Some r'" "listed r' = Some m'" by auto
  then have "mf_Name m = k" "mf_Name m' = k'"
    using listed_name [OF ps_ok_rec [OF assms k(1)]] listed_name [OF ps_ok_rec [OF assms k(3)]] by auto
  with eq k show "m = m'" by auto
qed

lemma ps_list_order:
  assumes "ps_ok L s" and "is_order ord"
  shows "ps_list ord s = ps_list (\<lambda>ks. ks) s"
  unfolding ps_list_eq
proof (rule sort_key_mset_cong)
  show "mset (List.map_filter listed (map_values ord (ps_records s))) =
      mset (List.map_filter listed (map_values (\<lambda>ks. ks) (ps_records s)))"
    using map_values_mset_id [OF assms] by (rule mset_map_filter_cong)
  show "inj_on mf_Name (set (List.map_filter listed (map_values (\<lambda>ks. ks) (ps_records s))))"
    using listed_inj [OF assms(1)] set_ps_list [OF assms(1) is_order_id]
    by (simp add: ps_list_eq)
qed

lemma values_inj_name:
  assumes "ps_ok L s" and "is_order ord"
  shows "inj_on pr_Name (set (map_values ord (ps_records s)))"
proof (rule inj_onI)
  fix r r'
  assume "r \<in> set (map_values ord (ps_records s))" "r' \<in> set (map_values ord (ps_records s))" "pr_Name r = pr_Name r'"
  then show "r = r'"
    using map_values_rec_ok [OF assms, of r] map_values_rec_ok [OF assms, of r'] by (auto simp: rec_ok_def)
qed

lemma ps_snapshot_order:
  assumes "ps_ok L s" and "is_order ord"
  shows "ps_snapshotLocked ord s = ps_snapshotLocked (\<lambda>ks. ks) s"
  using sort_key_mset_cong [OF map_values_mset_id [OF assms] values_inj_name [OF assms(1) is_order_id]]
  by (simp add: ps_snapshotLocked_def cong: map_cong)

lemma find_command_in_Some:
  "find_command_in c rs = Some p \<Longrightarrow>
   \<exists>r \<in> set rs. \<not> pr_Disabled r \<and> activePluginPackage r = Some p \<and> c \<in> pc_Name ` set (mf_Commands (pk_Manifest p))"
  by (induction rs) (auto split: if_splits option.splits)

lemma find_command_in_None:
  "find_command_in c rs = None \<Longrightarrow> r \<in> set rs \<Longrightarrow> \<not> pr_Disabled r \<Longrightarrow> activePluginPackage r = Some p \<Longrightarrow>
   c \<notin> pc_Name ` set (mf_Commands (pk_Manifest p))"
  by (induction rs) (auto split: if_splits option.splits)

lemma mf_Disabled_same: "mf_Disabled m = d \<Longrightarrow> m\<lparr>mf_Disabled := d\<rparr> = m"
  by (cases m) simp

lemma set_commandNames:
  assumes "ps_ok L s" and "is_order ord"
  shows "set (ps_commandNames L ord s) = {c. \<exists>k r p. map_of (ps_records s) k = Some r \<and> \<not> pr_Disabled r \<and>
     activePluginPackage r = Some p \<and> c \<in> set (command_names L (pk_Manifest p))}"
proof -
  have "(\<exists>m. listed r = Some m \<and> \<not> mf_Disabled m \<and> c \<in> set (command_names L m)) \<longleftrightarrow>
      (\<not> pr_Disabled r \<and> (\<exists>p. activePluginPackage r = Some p \<and> c \<in> set (command_names L (pk_Manifest p))))"
    if k: "map_of (ps_records s) k = Some r" for k r c
  proof -
    obtain p where "activePluginPackage r = Some p" "mf_Disabled (pk_Manifest p) = pr_Disabled r"
      using active_name [OF ps_ok_rec [OF assms(1) k]] by blast
    then show ?thesis by (simp add: listed_def mf_Disabled_same)
  qed
  then show ?thesis
    using set_ps_list [OF assms] by (auto simp: ps_commandNames_def) blast+
qed

section \<open>The contract of the server: a catalogue of commands\<close>

locale command_catalog =
  fixes good :: "'s \<Rightarrow> bool"
    and names :: "'s \<Rightarrow> string list"
    and find :: "'s \<Rightarrow> string \<Rightarrow> package option"
  assumes names_sorted: "sorted (names s) \<and> distinct (names s)"
    and find_names: "good s \<Longrightarrow> find s c \<noteq> None \<longleftrightarrow> c \<in> set (names s)"
    and find_command: "good s \<Longrightarrow> find s c = Some p \<Longrightarrow> c \<in> pc_Name ` set (mf_Commands (pk_Manifest p))"
    and find_enabled: "good s \<Longrightarrow> find s c = Some p \<Longrightarrow> \<not> mf_Disabled (pk_Manifest p)"
begin

lemma found_is_listed: "good s \<Longrightarrow> find s c = Some p \<Longrightarrow> c \<in> set (names s)"
  using find_names [of s c] by simp

lemma listed_is_found: "good s \<Longrightarrow> c \<in> set (names s) \<Longrightarrow> \<exists>p. find s c = Some p"
  using find_names [of s c] by auto

lemma not_listed: "good s \<Longrightarrow> c \<notin> set (names s) \<Longrightarrow> find s c = None"
  using find_names [of s c] by auto

end

lemma findCommand_SomeD:
  assumes "ps_ok L s" and "is_order ord" and "ps_findCommand ord s c = Some p"
  shows "\<exists>r. map_of (ps_records s) (pk_Name p) = Some r \<and> \<not> pr_Disabled r \<and>
    activePluginPackage r = Some p \<and> c \<in> pc_Name ` set (mf_Commands (pk_Manifest p))"
proof -
  from assms(3) obtain r where r: "r \<in> set (map_values ord (ps_records s))" "\<not> pr_Disabled r"
    "activePluginPackage r = Some p" "c \<in> pc_Name ` set (mf_Commands (pk_Manifest p))"
    unfolding ps_findCommand_def using find_command_in_Some by blast
  obtain k where k: "map_of (ps_records s) k = Some r" "rec_ok L k r"
    using map_values_rec_ok [OF assms(1,2) r(1)] by blast
  then have "k = pk_Name p" using active_name [OF k(2)] r(3) by auto
  with k r show ?thesis by auto
qed

lemma findCommand_NoneD:
  assumes "ps_ok L s" and "is_order ord" and "ps_findCommand ord s c = None"
    and "map_of (ps_records s) k = Some r" and "\<not> pr_Disabled r" and "activePluginPackage r = Some p"
  shows "c \<notin> pc_Name ` set (mf_Commands (pk_Manifest p))"
proof -
  have "r \<in> set (map_values ord (ps_records s))"
    using assms(4) set_map_values [OF assms(2) ps_ok_map [OF assms(1)]] by (auto simp: ran_def)
  then show ?thesis
    using find_command_in_None [OF assms(3) [unfolded ps_findCommand_def]] assms(5,6) by blast
qed

lemma findCommand_commandNames:
  assumes "command_names_ok L" and "ps_ok L s" and "is_order ord" and "is_order ord'"
  shows "ps_findCommand ord s c \<noteq> None \<longleftrightarrow> c \<in> set (ps_commandNames L ord' s)"
proof
  assume "ps_findCommand ord s c \<noteq> None"
  then obtain p where "ps_findCommand ord s c = Some p" by blast
  from findCommand_SomeD [OF assms(2,3) this] obtain r where
    "map_of (ps_records s) (pk_Name p) = Some r" "\<not> pr_Disabled r" "activePluginPackage r = Some p"
    "c \<in> set (command_names L (pk_Manifest p))"
    using assms(1) by (auto simp: command_names_ok_def)
  then show "c \<in> set (ps_commandNames L ord' s)"
    unfolding set_commandNames [OF assms(2,4)] by blast
next
  assume "c \<in> set (ps_commandNames L ord' s)"
  then obtain k r p where "map_of (ps_records s) k = Some r" "\<not> pr_Disabled r" "activePluginPackage r = Some p"
    "c \<in> pc_Name ` set (mf_Commands (pk_Manifest p))"
    unfolding set_commandNames [OF assms(2,4)] using assms(1) by (auto simp: command_names_ok_def)
  then show "ps_findCommand ord s c \<noteq> None" using findCommand_NoneD [OF assms(2,3)] by blast
qed

lemma commandNames_sorted: "sorted (ps_commandNames L ord s) \<and> distinct (ps_commandNames L ord s)"
  by (simp add: ps_commandNames_def sort_add_new)

interpretation catalog: command_catalog
  "\<lambda>s. command_names_ok L \<and> ps_ok L s \<and> is_order ord \<and> is_order ord'"
  "ps_commandNames L ord'" "ps_findCommand ord"
  for L ord ord'
proof unfold_locales
  show "sorted (ps_commandNames L ord' s) \<and> distinct (ps_commandNames L ord' s)" for s
    by (rule commandNames_sorted)
  fix s c p
  assume g: "command_names_ok L \<and> ps_ok L s \<and> is_order ord \<and> is_order ord'"
  then show "ps_findCommand ord s c \<noteq> None \<longleftrightarrow> c \<in> set (ps_commandNames L ord' s)"
    by (intro findCommand_commandNames) auto
  assume "ps_findCommand ord s c = Some p"
  with g have "\<exists>r. map_of (ps_records s) (pk_Name p) = Some r \<and> \<not> pr_Disabled r \<and>
    activePluginPackage r = Some p \<and> c \<in> pc_Name ` set (mf_Commands (pk_Manifest p))"
    by (intro findCommand_SomeD) auto
  then obtain r where r: "map_of (ps_records s) (pk_Name p) = Some r" "\<not> pr_Disabled r"
    "activePluginPackage r = Some p" "c \<in> pc_Name ` set (mf_Commands (pk_Manifest p))" by blast
  then show "c \<in> pc_Name ` set (mf_Commands (pk_Manifest p))" by simp
  have "rec_ok L (pk_Name p) r" using ps_ok_rec r(1) g by blast
  then show "\<not> mf_Disabled (pk_Manifest p)" using active_name r(2,3) by fastforce
qed

section \<open>Loading keeps and restores the invariant\<close>

lemma normalize_versions_ok:
  "normalize_versions L name ps = Inr qs \<Longrightarrow> length qs = length ps \<and>
    (\<forall>q \<in> set qs. pk_Name q = name \<and> validated L q)"
  by (induction ps arbitrary: qs) (auto split: sum.splits if_splits intro: validatedI)

lemma normalize_versions_id:
  "\<forall>q \<in> set qs. pk_Name q = name \<and> validate L q = Inr q \<Longrightarrow> normalize_versions L name qs = Inr qs"
  by (induction qs) auto

lemma normalizePluginRecord_ok:
  assumes n: "normalizePluginRecord L r0 = Inr r"
  shows "rec_ok L (pr_Name r) r"
proof -
  let ?k = "TrimSpace (pr_Name r0)"
  from n obtain vs where k: "?k \<noteq> []" "pr_Versions r0 \<noteq> []"
    and vs: "normalize_versions L ?k (pr_Versions r0) = Inr vs"
    and r: "r = (let r1 = r0\<lparr>pr_Name := ?k, pr_Versions := vs\<rparr> in
         if TrimSpace (pr_ActiveVersion r1) = [] \<or> \<not> recordHasVersion r1 (pr_ActiveVersion r1)
         then r1\<lparr>pr_ActiveVersion := pk_Version (last vs)\<rparr> else r1)"
    by (auto simp: normalizePluginRecord_def Let_def split: if_splits sum.splits)
  have "vs \<noteq> []" "\<forall>q \<in> set vs. pk_Name q = ?k \<and> validated L q"
    using normalize_versions_ok [OF vs] k(2) by auto
  with k(1) show ?thesis
    unfolding r by (auto simp: rec_ok_def recordHasVersion_iff Let_def)
qed

text \<open>
  What load checks again: Validate accepts the package as it is, and its name and its version
  are not blank, the name without blanks at its ends. A record of such packages is loaded as it is.
\<close>

definition settled :: "core_lib \<Rightarrow> package \<Rightarrow> bool" where
  "settled L p \<longleftrightarrow> validate L p = Inr p \<and> TrimSpace (pk_Name p) = pk_Name p \<and> pk_Name p \<noteq> [] \<and>
     TrimSpace (pk_Version p) \<noteq> []"

lemma normalizePluginRecord_id:
  assumes "rec_ok L k r" and "\<forall>p \<in> set (pr_Versions r). settled L p"
  shows "normalizePluginRecord L r = Inr r"
proof -
  have r: "pr_Name r = k" "TrimSpace k = k" "k \<noteq> []" "pr_Versions r \<noteq> []"
    using assms by (auto simp: rec_ok_def settled_def neq_Nil_conv)
  have "normalize_versions L k (pr_Versions r) = Inr (pr_Versions r)"
    using assms by (intro normalize_versions_id) (auto simp: rec_ok_def settled_def)
  moreover have "TrimSpace (pr_ActiveVersion r) \<noteq> []" "recordHasVersion r (pr_ActiveVersion r)"
    using assms by (auto simp: rec_ok_def settled_def recordHasVersion_iff)
  moreover have "r\<lparr>pr_Name := k, pr_Versions := pr_Versions r\<rparr> = r" using r(1) by (cases r) simp
  ultimately show ?thesis using r(2,3,4)
    by (simp add: normalizePluginRecord_def recordHasVersion_def r(1) Let_def)
qed

lemma ps_load_records_ok:
  "ps_ok L s \<Longrightarrow> ps_load_records L rs s = (s', e) \<Longrightarrow> ps_ok L s'"
  by (induction rs arbitrary: s)
    (auto dest: normalizePluginRecord_ok intro: rec_ok_put split: sum.splits)

lemma ps_load_packages_ok:
  "ps_ok L s \<Longrightarrow> ps_load_packages L ps s = (s', e) \<Longrightarrow> ps_ok L s'"
proof (induction ps arbitrary: s)
  case (Cons p ps)
  show ?case
  proof (cases "validate L p")
    case (Inr q)
    have "ps_ok L (ps_put (pk_Name q) (recordFromPackage q) s)"
      using rec_ok_put [OF Cons.prems(1) rec_ok_package [OF Inr]] .
    with Cons Inr show ?thesis by (auto simp: recordFromPackage_def Let_def)
  qed (use Cons in auto)
qed simp

lemma newPluginStore_ok:
  assumes "newPluginStore L fp J JP mk path fs = Inr s"
  shows "ps_ok L s"
proof -
  have e: "ps_ok L \<lparr>ps_path = path, ps_records = []\<rparr>" by (simp add: ps_ok_def)
  have "ps_ok L (fst (ps_load L J JP data \<lparr>ps_path = path, ps_records = []\<rparr>))" for data
    using ps_load_records_ok [OF e] ps_load_packages_ok [OF e] e
    unfolding ps_load_def by (auto split: sum.splits option.splits if_splits) (metis prod.collapse)+
  then show ?thesis using assms
    by (auto simp: newPluginStore_def Let_def split: option.splits prod.splits if_splits) (metis fst_conv)+
qed

end
