(* ===== verification/Power_Shell.thy ===== *)
theory Power_Shell
  imports Plugin_Store
begin

text \<open>
  buildPluginPowerShell and escapePowerShellSingleQuoted of server/plugin_store.go: the script
  that carries a plugin to an agent and runs it there, with encoding/base64 (StdEncoding) as
  the code uses it. The lemmas at the end say what PowerShell makes of the quoted texts. Its
  reader of single-quoted literals is not part of the repository: it is an argument of the
  theorems, and a hypothesis states the rules of the language for it.
\<close>

section \<open>encoding/base64\<close>

definition b64_char :: "nat \<Rightarrow> char" where
  "b64_char n =
     (if n < 26 then char_of (65 + n)
      else if n < 52 then char_of (71 + n)
      else if n < 62 then char_of (n - 4)
      else if n = 62 then CHR ''+'' else CHR ''/'')"

definition b64_val :: "char \<Rightarrow> nat option" where
  "b64_val c =
     (let n = (of_char c :: nat) in
      if 65 \<le> n \<and> n \<le> 90 then Some (n - 65)
      else if 97 \<le> n \<and> n \<le> 122 then Some (n - 71)
      else if 48 \<le> n \<and> n \<le> 57 then Some (n + 4)
      else if c = CHR ''+'' then Some 62
      else if c = CHR ''/'' then Some 63 else None)"

abbreviation byte :: "char \<Rightarrow> nat" where
  "byte c \<equiv> of_char c"

abbreviation chr :: "nat \<Rightarrow> char" where
  "chr n \<equiv> char_of n"

fun EncodeToString :: "string \<Rightarrow> string" where
  "EncodeToString [] = []"
| "EncodeToString [a] = [b64_char (byte a div 4), b64_char (byte a mod 4 * 16), CHR ''='', CHR ''='']"
| "EncodeToString [a, b] =
     [b64_char (byte a div 4), b64_char (byte a mod 4 * 16 + byte b div 16),
      b64_char (byte b mod 16 * 4), CHR ''='']"
| "EncodeToString (a # b # c # s) =
     b64_char (byte a div 4) # b64_char (byte a mod 4 * 16 + byte b div 16) #
     b64_char (byte b mod 16 * 4 + byte c div 64) # b64_char (byte c mod 64) # EncodeToString s"

text \<open>
  DecodeString skips line feeds and carriage returns; the last group may be padded, and nothing
  follows the padding. The unused low bits of a padded group are ignored (the encoding is not
  Strict). The position in the error message is left out of the model's error text.
\<close>

definition b64_corrupt :: go_error where
  "b64_corrupt = Errorf ''illegal base64 data''"

fun decode_groups :: "string \<Rightarrow> string result" where
  "decode_groups [] = Inr []"
| "decode_groups (w # x # y # z # s) =
     (case (b64_val w, b64_val x) of
        (Some p, Some q) \<Rightarrow>
          (if y = CHR ''='' then
             (if z = CHR ''='' \<and> s = [] then Inr [chr (p * 4 + q div 16)] else Inl b64_corrupt)
           else (case b64_val y of
                   None \<Rightarrow> Inl b64_corrupt
                 | Some r \<Rightarrow>
                     (if z = CHR ''='' then
                        (if s = [] then Inr [chr (p * 4 + q div 16), chr (q mod 16 * 16 + r div 4)]
                         else Inl b64_corrupt)
                      else (case b64_val z of
                              None \<Rightarrow> Inl b64_corrupt
                            | Some t \<Rightarrow>
                                (case decode_groups s of
                                   Inl e \<Rightarrow> Inl e
                                 | Inr d \<Rightarrow> Inr (chr (p * 4 + q div 16) # chr (q mod 16 * 16 + r div 4) #
                                                chr (r mod 4 * 64 + t) # d))))))
      | _ \<Rightarrow> Inl b64_corrupt)"
| "decode_groups s = Inl b64_corrupt"

definition DecodeString :: "string \<Rightarrow> string result" where
  "DecodeString s = decode_groups (filter (\<lambda>c. c \<noteq> CHR 0x0A \<and> c \<noteq> CHR 0x0D) s)"

lemma b64_val_char_val: "n < 64 \<Longrightarrow> b64_val (b64_char n) = Some n"
proof -
  assume n: "n < 64"
  have c: "b64_val (char_of m) = (if 65 \<le> m \<and> m \<le> 90 then Some (m - 65)
      else if 97 \<le> m \<and> m \<le> 122 then Some (m - 71) else Some (m + 4))"
    if "m \<in> {65..90} \<union> {97..122} \<union> {48..57}" for m :: nat
    using that by (auto simp: b64_val_def Let_def)
  consider "n < 26" | "26 \<le> n" "n < 52" | "52 \<le> n" "n < 62" | "n = 62" | "n = 63" using n by linarith
  then show ?thesis
    by cases (simp_all add: b64_char_def c, auto simp: b64_val_def Let_def)
qed

lemma b64_val_others: "b64_val CHR ''='' = None" "b64_val CHR 0x0A = None" "b64_val CHR 0x0D = None"
    "b64_val CHR 0x27 = None"
  by (simp_all add: b64_val_def)

lemma b64_val_char: "n < 64 \<Longrightarrow> b64_val (b64_char n) = Some n \<and> b64_char n \<noteq> CHR ''='' \<and>
    b64_char n \<noteq> CHR 0x0A \<and> b64_char n \<noteq> CHR 0x0D \<and> b64_char n \<noteq> CHR 0x27"
  using b64_val_char_val [of n] b64_val_others by auto

lemma byte_less: "byte c < 256"
  by (metis of_char_mod_256 mod_less_divisor zero_less_numeral)

lemma b64_parts:
  "byte a div 4 < 64" "byte a mod 4 * 16 + byte b div 16 < 64" "byte a mod 4 * 16 < 64"
  "byte b mod 16 * 4 + byte c div 64 < 64" "byte b mod 16 * 4 < 64" "byte c mod 64 < 64"
  using byte_less [of a] byte_less [of b] byte_less [of c] by linarith+

lemma b64_merge:
  "byte b div 16 div 16 = 0" "byte c div 64 div 4 = 0"
  "byte b div 16 mod 16 = byte b div 16" "byte c div 64 mod 4 = byte c div 64"
proof -
  have "byte b div 16 < 16" "byte c div 64 < 4" using byte_less [of b] byte_less [of c] by linarith+
  then show "byte b div 16 div 16 = 0" "byte c div 64 div 4 = 0"
    "byte b div 16 mod 16 = byte b div 16" "byte c div 64 mod 4 = byte c div 64" by simp_all
qed

lemma decode_groups_encode: "decode_groups (EncodeToString s) = Inr s"
proof (induction s rule: EncodeToString.induct)
  case (4 a b c s)
  then show ?case using b64_val_char b64_parts by (simp add: b64_merge)
qed (use b64_val_char b64_parts in \<open>simp_all add: b64_merge\<close>)

lemma encode_chars: "c \<in> set (EncodeToString s) \<Longrightarrow> c \<noteq> CHR 0x0A \<and> c \<noteq> CHR 0x0D \<and> c \<noteq> CHR 0x27"
  by (induction s rule: EncodeToString.induct) (use b64_val_char b64_parts in auto)

lemma Decode_Encode: "DecodeString (EncodeToString s) = Inr s"
proof -
  have "filter (\<lambda>c. c \<noteq> CHR 0x0A \<and> c \<noteq> CHR 0x0D) (EncodeToString s) = EncodeToString s"
    using encode_chars by (auto simp: filter_id_conv)
  then show ?thesis by (simp add: DecodeString_def decode_groups_encode)
qed

section \<open>The script\<close>

abbreviation quote :: string where
  "quote \<equiv> [CHR 0x27]"

abbreviation newline :: string where
  "newline \<equiv> [CHR 0x0A]"

definition escapePowerShellSingleQuoted :: "string \<Rightarrow> string" where
  "escapePowerShellSingleQuoted value = replace_char CHR 0x27 (quote @ quote) value"

text \<open>The loop over the files of the package.\<close>

fun script_files :: "filepath_lib \<Rightarrow> plugin_file list \<Rightarrow> string result" where
  "script_files fp [] = Inr []"
| "script_files fp (f # fs) =
     (case DecodeString (pf_ContentBase64 f) of
        Inl e \<Rightarrow> Inl e
      | Inr decoded \<Rightarrow>
          (case script_files fp fs of
             Inl e \<Rightarrow> Inl e
           | Inr rest \<Rightarrow>
               Inr (''  $file = Join-Path $pluginDir '' @ quote @
                      escapePowerShellSingleQuoted (fp_ToSlash fp (pf_Path f)) @ quote @ newline @
                    ''  New-Item -ItemType Directory -Force -Path (Split-Path -Parent $file) | Out-Null'' @ newline @
                    ''  [IO.File]::WriteAllBytes($file, [Convert]::FromBase64String('' @ quote @
                      EncodeToString decoded @ quote @ ''))'' @ newline @ rest)))"

text \<open>The loop over the arguments: quoted, separated by commas.\<close>

fun script_args :: "nat \<Rightarrow> string list \<Rightarrow> string" where
  "script_args i [] = []"
| "script_args i (a # as) =
     (if i > 0 then '', '' else []) @ quote @ escapePowerShellSingleQuoted a @ quote @ script_args (Suc i) as"

definition buildPluginPowerShell ::
  "core_lib \<Rightarrow> filepath_lib \<Rightarrow> package \<Rightarrow> string list \<Rightarrow> string result" where
  "buildPluginPowerShell L fp pkg0 args =
     (case validate L pkg0 of
        Inl e \<Rightarrow> Inl e
      | Inr pkg \<Rightarrow>
          (if \<not> supports_os L (pk_Manifest pkg) ''windows''
           then Inl (Errorf (''plugin '' @ pk_Name pkg @ '' does not support windows agents''))
           else case script_files fp (pk_Files pkg) of
                  Inl e \<Rightarrow> Inl e
                | Inr files \<Rightarrow>
                    Inr (''$ErrorActionPreference = '' @ quote @ ''Stop'' @ quote @ newline @
                         ''$pluginDir = Join-Path $env:TEMP ('' @ quote @ ''trish-plugin-'' @ quote @
                           '' + [guid]::NewGuid().ToString('' @ quote @ ''N'' @ quote @ ''))'' @ newline @
                         ''New-Item -ItemType Directory -Force -Path $pluginDir | Out-Null'' @ newline @
                         ''try {'' @ newline @
                         files @
                         ''  $entry = Join-Path $pluginDir '' @ quote @
                           escapePowerShellSingleQuoted (mf_Entry (pk_Manifest pkg)) @ quote @ newline @
                         ''  $pluginArgs = @('' @ script_args 0 args @ '')'' @ newline @
                         (if mf_Shell (pk_Manifest pkg) = ''cmd''
                          then ''  & cmd.exe @('' @ quote @ ''/C'' @ quote @ '', $entry) $pluginArgs'' @ newline
                          else ''  & powershell.exe -NoProfile -NonInteractive -ExecutionPolicy Bypass -File $entry @pluginArgs'' @ newline) @
                         ''} finally {'' @ newline @
                         ''  Remove-Item -LiteralPath $pluginDir -Recurse -Force -ErrorAction SilentlyContinue'' @ newline @
                         ''}'' @ newline)))"

section \<open>Single-quoted literals\<close>

text \<open>
  The language specification of PowerShell (single-quoted string literals) names five characters
  that quote: the apostrophe, and the typographic ones U+2018 to U+201B, here in UTF-8. Within
  a literal two of them stand for the second one, a single one ends it, and every other character
  is itself. \<open>rd\<close> is a reader that has passed the opening quote: it returns the value of
  the literal and the text after it.
\<close>

definition smart_quotes :: "string list" where
  "smart_quotes = map (\<lambda>c. [CHR 0xE2, CHR 0x80, c]) [CHR 0x98, CHR 0x99, CHR 0x9A, CHR 0x9B]"

definition ps_quotes :: "string list" where
  "ps_quotes = quote # smart_quotes"

definition reader_ok :: "(string \<Rightarrow> (string \<times> string) option) \<Rightarrow> bool" where
  "reader_ok rd \<longleftrightarrow>
     (\<forall>c s. seq_len ps_quotes (c # s) = 0 \<longrightarrow> rd (c # s) = map_option (\<lambda>(v, r). (c # v, r)) (rd s)) \<and>
     (\<forall>q \<in> set ps_quotes. \<forall>t. seq_len ps_quotes t = 0 \<longrightarrow> rd (q @ t) = Some ([], t)) \<and>
     (\<forall>q \<in> set ps_quotes. \<forall>q' \<in> set ps_quotes. \<forall>t.
        rd (q @ q' @ t) = map_option (\<lambda>(v, r). (q' @ v, r)) (rd t))"

text \<open>A text without typographic quotes.\<close>

fun no_smart :: "string \<Rightarrow> bool" where
  "no_smart [] \<longleftrightarrow> True"
| "no_smart (c # s) \<longleftrightarrow> seq_len smart_quotes (c # s) = 0 \<and> no_smart s"

lemma reader_plain: "reader_ok rd \<Longrightarrow> seq_len ps_quotes (c # s) = 0 \<Longrightarrow>
  rd (c # s) = map_option (\<lambda>(v, r). (c # v, r)) (rd s)"
  unfolding reader_ok_def by blast

lemma reader_end: "reader_ok rd \<Longrightarrow> seq_len ps_quotes t = 0 \<Longrightarrow> rd (quote @ t) = Some ([], t)"
  unfolding reader_ok_def ps_quotes_def by fastforce

lemma reader_smart_end: "reader_ok rd \<Longrightarrow> q \<in> set smart_quotes \<Longrightarrow> seq_len ps_quotes t = 0 \<Longrightarrow>
  rd (q @ t) = Some ([], t)"
  unfolding reader_ok_def ps_quotes_def by (metis list.set_intros(2))

lemma reader_double: "reader_ok rd \<Longrightarrow>
  rd (CHR 0x27 # CHR 0x27 # t) = map_option (\<lambda>(v, r). (CHR 0x27 # v, r)) (rd t)"
  unfolding reader_ok_def ps_quotes_def by fastforce

lemma escape_simps [simp]:
  "escapePowerShellSingleQuoted [] = []"
  "escapePowerShellSingleQuoted (c # s) =
     (if c = CHR 0x27 then quote @ quote else [c]) @ escapePowerShellSingleQuoted s"
  by (simp_all add: escapePowerShellSingleQuoted_def)

lemma seq_len_smart: "seq_len smart_quotes s =
  (if \<exists>c \<in> {CHR 0x98, CHR 0x99, CHR 0x9A, CHR 0x9B}. take 3 s = [CHR 0xE2, CHR 0x80, c] then 3 else 0)"
  by (simp add: smart_quotes_def HasPrefix_def numeral_3_eq_3)

text \<open>Escaping and the closing quote make no typographic quote out of other bytes.\<close>

lemma escaped_head: "take 3 (escapePowerShellSingleQuoted v @ quote @ t) = [CHR 0xE2, CHR 0x80, c] \<Longrightarrow>
  c \<noteq> CHR 0x27 \<Longrightarrow> take 3 v = [CHR 0xE2, CHR 0x80, c]"
proof -
  assume a: "take 3 (escapePowerShellSingleQuoted v @ quote @ t) = [CHR 0xE2, CHR 0x80, c]" "c \<noteq> CHR 0x27"
  have "escapePowerShellSingleQuoted w = [] \<longleftrightarrow> w = []" for w by (cases w) auto
  with a show ?thesis
    by (cases v; cases "tl v"; cases "tl (tl v)") (auto simp: numeral_3_eq_3 split: if_splits)
qed

lemma no_smart_escaped:
  assumes "seq_len smart_quotes v = 0"
  shows "seq_len smart_quotes (escapePowerShellSingleQuoted v @ quote @ t) = 0"
proof -
  have "c \<noteq> CHR 0x27" if "c \<in> {CHR 0x98, CHR 0x99, CHR 0x9A, CHR 0x9B}" for c using that by auto
  then show ?thesis using assms escaped_head [of v t] unfolding seq_len_smart by (metis zero_neq_numeral)
qed

lemma read_escaped:
  assumes "reader_ok rd" and "no_smart v" and "seq_len ps_quotes t = 0"
  shows "rd (escapePowerShellSingleQuoted v @ quote @ t) = Some (v, t)"
  using assms(2)
proof (induction v)
  case Nil
  then show ?case using reader_end [OF assms(1,3)] by simp
next
  case (Cons c v)
  show ?case
  proof (cases "c = CHR 0x27")
    case True
    with Cons reader_double [OF assms(1)] show ?thesis by simp
  next
    case False
    have "seq_len smart_quotes (c # escapePowerShellSingleQuoted v @ quote @ t) = 0"
      using no_smart_escaped [of "c # v" t] Cons.prems False by simp
    then have "seq_len ps_quotes (c # escapePowerShellSingleQuoted v @ quote @ t) = 0"
      using False by (simp add: ps_quotes_def HasPrefix_def)
    from reader_plain [OF assms(1) this] Cons False show ?thesis by simp
  qed
qed

text \<open>A literal of the script is one that reads as its value, whatever follows but a quote.\<close>

definition literal_of :: "(string \<Rightarrow> (string \<times> string) option) \<Rightarrow> string \<Rightarrow> string \<Rightarrow> bool" where
  "literal_of rd v l \<longleftrightarrow> (\<exists>x. l = quote @ x \<and> (\<forall>t. seq_len ps_quotes t = 0 \<longrightarrow> rd (x @ t) = Some (v, t)))"

lemma literal_escaped: "reader_ok rd \<Longrightarrow> no_smart v \<Longrightarrow>
  literal_of rd v (quote @ escapePowerShellSingleQuoted v @ quote)"
  unfolding literal_of_def
  by (intro exI [of _ "escapePowerShellSingleQuoted v @ quote"]) (simp add: read_escaped [simplified])

lemma script_args_join: "script_args i as =
  (if i > 0 \<and> as \<noteq> [] then '', '' else []) @ join '', '' (map (\<lambda>a. quote @ escapePowerShellSingleQuoted a @ quote) as)"
proof (induction as arbitrary: i)
  case (Cons a as)
  then show ?case by (cases as) auto
qed simp

text \<open>A sample of a reader that follows the rules, for the witnesses.\<close>

function read_quoted :: "string list \<Rightarrow> string \<Rightarrow> (string \<times> string) option" where
  "read_quoted qs s =
     (if s = [] then None
      else let n = seq_len qs s in
        if n = 0 then map_option (\<lambda>(v, r). (hd s # v, r)) (read_quoted qs (tl s))
        else let r = drop n s; k = seq_len qs r in
          if k = 0 then Some ([], r)
          else map_option (\<lambda>(v, t). (take k r @ v, t)) (read_quoted qs (drop k r)))"
  by pat_completeness auto
termination
  by (relation "measure (\<lambda>(qs, s). length s)") auto

declare read_quoted.simps [simp del]

lemma seq_len_ps: "q \<in> set ps_quotes \<Longrightarrow> seq_len ps_quotes (q @ t) = length q \<and> length q > 0"
  by (auto simp: ps_quotes_def smart_quotes_def HasPrefix_def)

lemma sample_reader_ok: "reader_ok (read_quoted ps_quotes)"
  unfolding reader_ok_def
proof (intro conjI allI ballI impI)
  show "read_quoted ps_quotes (c # s) = map_option (\<lambda>(v, r). (c # v, r)) (read_quoted ps_quotes s)"
    if "seq_len ps_quotes (c # s) = 0" for c s
    by (subst read_quoted.simps) (simp add: that)
  show "read_quoted ps_quotes (q @ t) = Some ([], t)" if "q \<in> set ps_quotes" "seq_len ps_quotes t = 0" for q t
    using seq_len_ps [OF that(1), of t] that(2) by (subst read_quoted.simps) (auto simp: Let_def)
  show "read_quoted ps_quotes (q @ q' @ t) = map_option (\<lambda>(v, r). (q' @ v, r)) (read_quoted ps_quotes t)"
    if "q \<in> set ps_quotes" "q' \<in> set ps_quotes" for q q' t
    using seq_len_ps [OF that(1), of "q' @ t"] seq_len_ps [OF that(2), of t]
    by (subst read_quoted.simps) (auto simp: Let_def)
qed

section \<open>Properties\<close>

definition file_block :: "string" where
  "file_block = newline @ ''  New-Item -ItemType Directory -Force -Path (Split-Path -Parent $file) | Out-Null'' @
     newline @ ''  [IO.File]::WriteAllBytes($file, [Convert]::FromBase64String(''"

text \<open>
  Every file of the package arrives as it is: the script names it in a literal
  that reads as its path, when no path has a typographic quote in it, and writes what a base64
  literal without quotes decodes to, which is the content.
\<close>

theorem script_files_intact:
  assumes "reader_ok rd" and "no_smart (fp_ToSlash fp (pf_Path f))"
    and "script_files fp fs = Inr script" and "f \<in> set fs"
  shows "\<exists>pre x l post. script = pre @ ''  $file = Join-Path $pluginDir '' @ quote @ x \<and>
    rd x = Some (fp_ToSlash fp (pf_Path f), file_block @ quote @ l @ quote @ post) \<and>
    DecodeString l = DecodeString (pf_ContentBase64 f) \<and> CHR 0x27 \<notin> set l"
  using assms(3,4)
proof (induction fs arbitrary: script)
  case (Cons g fs)
  obtain d rest where d: "DecodeString (pf_ContentBase64 g) = Inr d" and rest: "script_files fp fs = Inr rest"
    using Cons.prems(1) by (auto split: sum.splits)
  let ?p = "fp_ToSlash fp (pf_Path g)"
  let ?post = "''))'' @ newline @ rest"
  let ?x = "escapePowerShellSingleQuoted ?p @ quote @ file_block @ quote @ EncodeToString d @ quote @ ?post"
  have script: "script = ''  $file = Join-Path $pluginDir '' @ quote @ ?x"
    using Cons.prems(1) by (simp add: d rest file_block_def)
  show ?case
  proof (cases "f = g")
    case True
    have "rd ?x = Some (?p, file_block @ quote @ EncodeToString d @ quote @ ?post)"
      using True assms(2) by (intro read_escaped [OF assms(1)]) (simp_all add: file_block_def ps_quotes_def seq_len_smart HasPrefix_def)
    moreover have "CHR 0x27 \<notin> set (EncodeToString d)" using encode_chars by blast
    ultimately show ?thesis
      using script True d Decode_Encode
      by (intro exI [of _ "[]"] exI [of _ ?x] exI [of _ "EncodeToString d"] exI [of _ ?post]) simp
  next
    case False
    with Cons.prems(2) have "f \<in> set fs" by simp
    from Cons.IH [OF rest this] obtain pre x l post where
      ih: "rest = pre @ ''  $file = Join-Path $pluginDir '' @ quote @ x"
      "rd x = Some (fp_ToSlash fp (pf_Path f), file_block @ quote @ l @ quote @ post)"
      "DecodeString l = DecodeString (pf_ContentBase64 f)" "CHR 0x27 \<notin> set l" by blast
    let ?pre = "''  $file = Join-Path $pluginDir '' @ quote @ escapePowerShellSingleQuoted ?p @ quote @
      file_block @ quote @ EncodeToString d @ quote @ ''))'' @ newline @ pre"
    have "script = ?pre @ ''  $file = Join-Path $pluginDir '' @ quote @ x" using script ih(1) by simp
    with ih(2-4) show ?thesis
      by (intro exI [of _ ?pre] exI [of _ x] exI [of _ l] exI [of _ post]) blast
  qed
qed simp

theorem script_files_intact_witness:
  "\<exists>script x l post. script_files (undefined\<lparr>fp_ToSlash := \<lambda>p. p\<rparr>) [\<lparr>pf_Path = ''a.ps1'', pf_ContentBase64 = ''SGk=''\<rparr>] = Inr script \<and>
     read_quoted ps_quotes x = Some (''a.ps1'', file_block @ quote @ l @ quote @ post) \<and> DecodeString l = Inr ''Hi''"
proof -
  let ?f = "\<lparr>pf_Path = ''a.ps1'', pf_ContentBase64 = ''SGk=''\<rparr>" and ?fp = "undefined\<lparr>fp_ToSlash := \<lambda>p. p\<rparr> :: filepath_lib"
  have d: "DecodeString ''SGk='' = Inr ''Hi''" by code_simp
  obtain script where t: "script_files ?fp [?f] = Inr script" by (simp add: d)
  have "no_smart (fp_ToSlash ?fp (pf_Path ?f))" by (simp add: seq_len_smart)
  from script_files_intact [OF sample_reader_ok this t] t d show ?thesis by auto
qed

text \<open>
  Property C28. The quoting of arguments is exact for PowerShell as long as no argument has one of
  the four typographic quotes in it: for every reader of single-quoted literals that follows the
  rules of the language, the list in the script is a list of literals, separated by commas, one for
  each argument, that read as exactly the arguments given, whatever else they hold.
\<close>

theorem script_args_exact:
  assumes "reader_ok rd" and "list_all no_smart as"
  shows "\<exists>ls. script_args 0 as = join '', '' ls \<and> list_all2 (literal_of rd) as ls"
proof (intro exI conjI)
  show "script_args 0 as = join '', '' (map (\<lambda>a. quote @ escapePowerShellSingleQuoted a @ quote) as)"
    by (simp add: script_args_join)
  show "list_all2 (literal_of rd) as (map (\<lambda>a. quote @ escapePowerShellSingleQuoted a @ quote) as)"
    using assms literal_escaped [OF assms(1)] by (auto simp: list_all2_conv_all_nth list_all_length)
qed

theorem script_args_exact_witness:
  "\<exists>x y. script_args 0 [''it'' @ quote @ ''s'', ''b''] = quote @ x @ '', '' @ y \<and>
     read_quoted ps_quotes (x @ '', '' @ y) = Some (''it'' @ quote @ ''s'', '', '' @ y)"
proof -
  let ?a = "''it'' @ quote @ ''s''"
  have "list_all no_smart [?a, ''b'']" by (simp add: seq_len_smart)
  from script_args_exact [OF sample_reader_ok this] obtain l m where
    l: "script_args 0 [?a, ''b''] = join '', '' [l, m]" "literal_of (read_quoted ps_quotes) ?a l"
    by (auto simp: list_all2_Cons1)
  then obtain x where "l = quote @ x"
    "\<forall>t. seq_len ps_quotes t = 0 \<longrightarrow> read_quoted ps_quotes (x @ t) = Some (?a, t)"
    unfolding literal_of_def by blast
  moreover have "seq_len ps_quotes ('', '' @ m) = 0"
    by (simp add: ps_quotes_def seq_len_smart HasPrefix_def)
  ultimately show ?thesis using l(1) by (intro exI [of _ x] exI [of _ m]) simp
qed

text \<open>
  The condition is needed: whatever reader follows the rules, here is an argument with U+2019
  that ends its own literal, so that the rest of it is left outside as code.
\<close>

theorem script_quote_escape:
  assumes "reader_ok rd"
  shows "\<exists>arg rest. rd (escapePowerShellSingleQuoted arg @ quote @ '')'') = Some ([], rest) \<and>
    take 5 rest = ''; cmd'' \<and> arg \<noteq> []"
proof -
  let ?q = "[CHR 0xE2, CHR 0x80, CHR 0x99]" and ?t = "''; cmd #'' @ quote @ '')''"
  have "?q \<in> set smart_quotes" by (simp add: smart_quotes_def)
  moreover have "seq_len ps_quotes ?t = 0" by (simp add: ps_quotes_def seq_len_smart HasPrefix_def)
  ultimately have "rd (?q @ ?t) = Some ([], ?t)" by (rule reader_smart_end [OF assms])
  then show ?thesis by (intro exI [of _ "?q @ ''; cmd #''"] exI [of _ ?t]) simp
qed

text \<open>
  The arguments enter the script nowhere else: around their list it is fixed by the plugin.
\<close>

definition around :: "('a \<Rightarrow> string) \<Rightarrow> ('a \<Rightarrow> string) \<Rightarrow> bool" where
  "around g f \<longleftrightarrow> (\<exists>pre post. \<forall>a. f a = pre @ g a @ post)"

lemma around_here: "around g (\<lambda>a. g a @ y)"
  unfolding around_def by (intro exI [of _ "[]"] exI [of _ y]) simp

lemma around_after: "around g f \<Longrightarrow> around g (\<lambda>a. x @ f a)"
  unfolding around_def by (metis append_assoc)

lemma script_around_args:
  assumes "buildPluginPowerShell L fp pkg args = Inr script"
  shows "\<exists>pre post. \<forall>args'. buildPluginPowerShell L fp pkg args' = Inr (pre @ script_args 0 args' @ post)"
proof -
  obtain q files where q: "validate L pkg = Inr q" "supports_os L (pk_Manifest q) ''windows''"
    "script_files fp (pk_Files q) = Inr files"
    using assms by (auto simp: buildPluginPowerShell_def split: sum.splits if_splits)
  have os: "(\<not> supports_os L (pk_Manifest q) ''windows'') = False" using q(2) by simp
  have "\<exists>f. around (script_args 0) f \<and> buildPluginPowerShell L fp pkg = (\<lambda>args'. Inr (f args'))"
    unfolding buildPluginPowerShell_def q sum.case os if_False
    by (rule exI, rule conjI, rule_tac [2] refl) (rule around_here | rule around_after)+
  then show ?thesis unfolding around_def by metis
qed

end
