(* ===== verification/Gui_Server.thy ===== *)
theory Gui_Server
  imports Cli_World Power_Shell
begin

text \<open>
  cli/gui.go: the graphical interface is a small web server whose handlers ask agents through
  the client. The page itself (guiHTML) is an asset; JSON, quoting and the writer of the
  response are the environment \<open>gui_env\<close>. The scripts that run on the agent are texts here.
\<close>

section \<open>Responses\<close>

record http_resp =
  hr_headers :: "(string \<times> string) list"
  hr_status :: "int option" \<comment> \<open>None until the first write\<close>
  hr_body :: string

definition new_resp :: http_resp where
  "new_resp = \<lparr>hr_headers = [], hr_status = None, hr_body = []\<rparr>"

record browse_entry =
  be_Name :: string
  be_Path :: string
  be_Type :: string
  be_Size :: "64 word"
  be_Error :: string

record browse_response =
  br_AgentID :: string
  br_Path :: string
  br_Parent :: string
  br_Entries :: "browse_entry list"

record download_info =
  di_Name :: string
  di_Path :: string
  di_Size :: "64 word"

record download_chunk =
  dc_Offset :: "64 word"
  dc_Read :: "64 word"
  dc_Base64 :: string

text \<open>
  encoding/json on the types above, the page, the Quote of strconv and PathEscape of net/url,
  the clock of the log, and how many bytes of a write the connection takes.
\<close>

record gui_env =
  ge_page :: string
  ge_agents :: "entry list \<Rightarrow> string"
  ge_browse :: "browse_response \<Rightarrow> string"
  ge_error :: "string \<Rightarrow> string" \<comment> \<open>an object with the field error\<close>
  ge_read_browse :: "string \<Rightarrow> browse_response result"
  ge_read_entries :: "string \<Rightarrow> browse_entry list result"
  ge_read_entry :: "string \<Rightarrow> browse_entry result"
  ge_read_info :: "string \<Rightarrow> download_info result"
  ge_read_chunk :: "string \<Rightarrow> download_chunk result"
  ge_quote :: "string \<Rightarrow> string"
  ge_path_escape :: "string \<Rightarrow> string"
  ge_time :: "nat \<Rightarrow> string"
  ge_write :: "http_resp \<Rightarrow> string \<Rightarrow> nat \<times> go_error option"

text \<open>http.ResponseWriter: headers and status are fixed by the first write.\<close>

definition hr_Set :: "string \<Rightarrow> string \<Rightarrow> http_resp \<Rightarrow> http_resp" where
  "hr_Set k v r = (if hr_status r = None then r\<lparr>hr_headers := AList.update k v (hr_headers r)\<rparr> else r)"

definition hr_WriteHeader :: "int \<Rightarrow> http_resp \<Rightarrow> http_resp" where
  "hr_WriteHeader status r = (if hr_status r = None then r\<lparr>hr_status := Some status\<rparr> else r)"

definition hr_Write :: "gui_env \<Rightarrow> string \<Rightarrow> http_resp \<Rightarrow> http_resp \<times> go_error option" where
  "hr_Write G data r0 =
     (let r = hr_WriteHeader 200 r0 in
      case ge_write G r data of
        (n, e) \<Rightarrow> (r\<lparr>hr_body := hr_body r @ (if e = None then data else take n data)\<rparr>, e))"

definition writeJSON :: "gui_env \<Rightarrow> string \<Rightarrow> http_resp \<Rightarrow> http_resp" where
  "writeJSON G text r = fst (hr_Write G text (hr_Set ''Content-Type'' ''application/json; charset=utf-8'' r))"

definition writeJSONError :: "gui_env \<Rightarrow> go_error \<Rightarrow> int \<Rightarrow> http_resp \<Rightarrow> http_resp" where
  "writeJSONError G e status r =
     fst (hr_Write G (ge_error G (error_text e))
       (hr_WriteHeader status (hr_Set ''Content-Type'' ''application/json; charset=utf-8'' r)))"

definition guiLog :: "gui_env \<Rightarrow> string \<Rightarrow> unit cli" where
  "guiLog G text = State (\<lambda>w.
     ((), w\<lparr>w_out := w_out w @ [Stdout (''['' @ ge_time G (length (w_out w)) @ ''] gui: '' @ text @ NL)]\<rparr>))"

text \<open>browseEntries accepts an array, one object, or nothing.\<close>

definition browseEntries_UnmarshalJSON :: "gui_env \<Rightarrow> string \<Rightarrow> browse_entry list result" where
  "browseEntries_UnmarshalJSON G data =
     (let trimmed = TrimSpace data in
      if trimmed = [] \<or> trimmed = ''null'' then Inr []
      else if HasPrefix trimmed ''['' then ge_read_entries G data
      else case ge_read_entry G data of Inl e \<Rightarrow> Inl e | Inr x \<Rightarrow> Inr [x])"

section \<open>Scripts for the agent\<close>

text \<open>In the texts of the scripts a backquote stands for the apostrophe.\<close>

definition ps_text :: "string list \<Rightarrow> string" where
  "ps_text ls = replace_char (CHR ''`'') quote (concat (map (\<lambda>l. l @ NL) ls))"

definition literal_line :: "string \<Rightarrow> string \<Rightarrow> string" where
  "literal_line lhs value = lhs @ '' = '' @ quote @ escapePowerShellSingleQuoted value @ quote @ NL"

definition info_script :: "string \<Rightarrow> string" where
  "info_script path =
     NL @ literal_line ''$path'' path @ ps_text
     [''if (-not (Test-Path -LiteralPath $path)) { throw \"Path not found: $path\" }'',
      ''$item = Get-Item -LiteralPath $path'',
      ''if ($item.PSIsContainer) { throw \"Path is a directory: $path\" }'',
      ''[PSCustomObject]@'' @ ''{'',
      ''  name = $item.Name'',
      ''  path = $item.FullName'',
      ''  size = [int64]$item.Length'',
      ''} | ConvertTo-Json -Compress'']"

text \<open>
  The scripts of downloadRemoteFileChunk (cli/gui.go, lines 217 to 255) and of browseRemotePath
  (lines 149 to 190) are raw string literals of Go; the closing braces in the first column, of
  lines 242 and 171, belong to these literals and do not end the functions.
\<close>

definition chunk_script :: "string \<Rightarrow> int \<Rightarrow> int \<Rightarrow> string" where
  "chunk_script path offset cnt =
     NL @ literal_line ''$path'' path @
     ''$offset = [int64]'' @ Itoa offset @ NL @ ''$count = [int]'' @ Itoa cnt @ NL @ ps_text
     [''if (-not (Test-Path -LiteralPath $path)) { throw \"Path not found: $path\" }'',
      ''$item = Get-Item -LiteralPath $path'',
      ''if ($item.PSIsContainer) { throw \"Path is a directory: $path\" }'',
      ''$fs = [IO.File]::Open($item.FullName, [IO.FileMode]::Open, [IO.FileAccess]::Read, [IO.FileShare]::ReadWrite)'',
      ''try {'',
      ''  [void]$fs.Seek($offset, [IO.SeekOrigin]::Begin)'',
      ''  $buffer = New-Object byte[] $count'',
      ''  $read = $fs.Read($buffer, 0, $count)'',
      ''  if ($read -lt $count) {'',
      ''    $actual = New-Object byte[] $read'',
      ''    if ($read -gt 0) { [Array]::Copy($buffer, 0, $actual, 0, $read) }'',
      ''    $buffer = $actual'',
      ''  }'',
      ''  [PSCustomObject]@'' @ ''{'',
      ''    offset = $offset'',
      ''    read = $read'',
      ''    base64 = [Convert]::ToBase64String($buffer)'',
      ''  } | ConvertTo-Json -Compress'',
      ''} finally {'',
      ''  $fs.Dispose()'',
      ''}'']"

definition browse_script :: "string \<Rightarrow> string \<Rightarrow> string" where
  "browse_script path agentID =
     NL @ literal_line ''$path'' path @ ps_text
     [''if (-not (Test-Path -LiteralPath $path)) { throw \"Path not found: $path\" }'',
      ''$item = Get-Item -LiteralPath $path'',
      ''$entries = @()'',
      ''if ($item.PSIsContainer) {'',
      ''  $entries = @(Get-ChildItem -LiteralPath $path | Sort-Object PSIsContainer, Name | ForEach-Object {'',
      ''    [PSCustomObject]@'' @ ''{'',
      ''      name = $_.Name'',
      ''      path = $_.FullName'',
      ''      type = $(if ($_.PSIsContainer) { `dir` } else { `file` })'',
      ''      size = $(if ($_.PSIsContainer) { 0 } else { [int64]$_.Length })'',
      ''    }'',
      ''  })'',
      ''} else {'',
      ''  $entries = @([PSCustomObject]@'' @ ''{'',
      ''    name = $item.Name'',
      ''    path = $item.FullName'',
      ''    type = `file`'',
      ''    size = [int64]$item.Length'',
      ''  })'',
      ''}'',
      ''[PSCustomObject]@'' @ ''{''] @
     literal_line ''  agent_id'' agentID @ ps_text
     [''  path = $item.FullName'',
      ''  parent = $(if ($item.Parent) { $item.Parent.FullName } else { `` })'',
      ''  entries = @($entries)'',
      ''} | ConvertTo-Json -Depth 4 -Compress'']"

section \<open>Requests to the agent\<close>

text \<open>
  The call of ExecuteOnAgent after the script: line 180 in browseRemotePath, and the same in
  downloadRemoteFileInfo and downloadRemoteFileChunk (lines 205 and 245).
\<close>

definition superexec_request :: "client \<Rightarrow> string \<Rightarrow> string \<Rightarrow> core_lib \<Rightarrow> do_env \<Rightarrow> string asked" where
  "superexec_request c agentID script = (\<lambda>L d. ExecuteOnAgent L d c agentID ''superexec'' [''powershell'', script])"

text \<open>The script, and the reading of its answer.\<close>

definition run_script ::
  "cli_env \<Rightarrow> client \<Rightarrow> string \<Rightarrow> string \<Rightarrow> string \<Rightarrow> (string \<Rightarrow> 'a result) \<Rightarrow> 'a result cli" where
  "run_script E c agentID script what rd = do {
     r \<leftarrow> ask E (superexec_request c agentID script);
     return (case r of
       Inl e \<Rightarrow> Inl e
     | Inr text \<Rightarrow>
         (case rd (TrimSpace text) of
            Inl e \<Rightarrow> Inl (Errorf (''failed to parse '' @ what @ '': '' @ error_text e @ '': '' @ text))
          | Inr v \<Rightarrow> Inr v)) }"

definition browseRemotePath :: "cli_env \<Rightarrow> gui_env \<Rightarrow> client \<Rightarrow> string \<Rightarrow> string \<Rightarrow> browse_response result cli" where
  "browseRemotePath E G c agentID path =
     run_script E c agentID (browse_script path agentID) ''browse result'' (ge_read_browse G)"

definition downloadRemoteFileInfo :: "cli_env \<Rightarrow> gui_env \<Rightarrow> client \<Rightarrow> string \<Rightarrow> string \<Rightarrow> download_info result cli" where
  "downloadRemoteFileInfo E G c agentID path =
     run_script E c agentID (info_script path) ''download info'' (ge_read_info G)"

definition downloadRemoteFileChunk ::
  "cli_env \<Rightarrow> gui_env \<Rightarrow> client \<Rightarrow> string \<Rightarrow> string \<Rightarrow> int \<Rightarrow> int \<Rightarrow> download_chunk result cli" where
  "downloadRemoteFileChunk E G c agentID path offset cnt =
     run_script E c agentID (chunk_script path offset cnt) ''download chunk'' (ge_read_chunk G)"

definition contentDisposition :: "gui_env \<Rightarrow> string \<Rightarrow> string" where
  "contentDisposition G name =
     (let clean0 = replace_char (CHR 0x22) quote name;
          clean = (if TrimSpace clean0 = [] then ''download.bin'' else clean0)
      in ''attachment; filename='' @ [CHR 0x22] @ clean @ [CHR 0x22] @ ''; filename*=UTF-8'' @ quote @ quote @
         ge_path_escape G clean)"

section \<open>The download\<close>

definition chunkSize :: int where
  "chunkSize = 256 * 1024"

definition count_at :: "64 word \<Rightarrow> 64 word \<Rightarrow> int" where
  "count_at len offset = (let remaining = sint (len - offset) in if remaining < chunkSize then remaining else chunkSize)"

definition log_progress :: "gui_env \<Rightarrow> string \<Rightarrow> 64 word \<Rightarrow> 64 word \<Rightarrow> unit cli" where
  "log_progress G name offset len =
     guiLog G (''download: '' @ ge_quote G name @ '' '' @ Itoa (sint offset) @ ''/'' @ Itoa (sint len) @ '' bytes'')"

text \<open>
  The loop of streamRemoteFile: the first argument bounds the rounds, and the result is None if
  it was not enough, else the response and the error, if any.
\<close>

fun stream_loop ::
  "nat \<Rightarrow> cli_env \<Rightarrow> gui_env \<Rightarrow> client \<Rightarrow> string \<Rightarrow> string \<Rightarrow> download_info \<Rightarrow> 64 word \<Rightarrow> http_resp \<Rightarrow>
   (http_resp \<times> go_error option) option cli" where
  "stream_loop 0 E G c agentID path info offset r = return None"
| "stream_loop (Suc n) E G c agentID path info offset r =
     (if \<not> sint offset < sint (di_Size info) then return (Some (r, None))
      else do {
        a \<leftarrow> downloadRemoteFileChunk E G c agentID path (sint offset) (count_at (di_Size info) offset);
        case a of
          Inl e \<Rightarrow> return (Some (r, Some e))
        | Inr chunk \<Rightarrow>
            if dc_Offset chunk \<noteq> offset then
              return (Some (r, Some (Errorf (''unexpected chunk offset: got '' @ Itoa (sint (dc_Offset chunk)) @
                '', want '' @ Itoa (sint offset)))))
            else if sint (dc_Read chunk) \<le> 0 then
              return (Some (r, Some (Errorf (''download stopped at byte '' @ Itoa (sint offset) @ '' of '' @
                Itoa (sint (di_Size info))))))
            else (case DecodeString (dc_Base64 chunk) of
              Inl e \<Rightarrow> return (Some (r, Some (Errorf (''failed to decode download chunk at byte '' @
                Itoa (sint offset) @ '': '' @ error_text e))))
            | Inr data \<Rightarrow>
                if int (length data) \<noteq> sint (dc_Read chunk) then
                  return (Some (r, Some (Errorf (''bad chunk size at byte '' @ Itoa (sint offset) @ '': got '' @
                    Itoa (int (length data)) @ '', want '' @ Itoa (sint (dc_Read chunk))))))
                else (case hr_Write G data r of
                  (r', Some e) \<Rightarrow> return (Some (r', Some e))
                | (r', None) \<Rightarrow> do {
                    log_progress G (di_Name info) (offset + dc_Read chunk) (di_Size info);
                    stream_loop n E G c agentID path info (offset + dc_Read chunk) r' })) })"

definition download_headers :: "gui_env \<Rightarrow> download_info \<Rightarrow> http_resp \<Rightarrow> http_resp" where
  "download_headers G info =
     hr_Set ''X-Content-Type-Options'' ''nosniff'' \<circ> hr_Set ''Content-Length'' (Itoa (sint (di_Size info))) \<circ>
     hr_Set ''Content-Disposition'' (contentDisposition G (di_Name info)) \<circ>
     hr_Set ''Content-Type'' ''application/octet-stream''"

definition streamRemoteFile ::
  "nat \<Rightarrow> cli_env \<Rightarrow> gui_env \<Rightarrow> client \<Rightarrow> string \<Rightarrow> string \<Rightarrow> http_resp \<Rightarrow> (http_resp \<times> go_error option) option cli" where
  "streamRemoteFile fuel E G c agentID path r0 = do {
     a \<leftarrow> downloadRemoteFileInfo E G c agentID path;
     case a of
       Inl e \<Rightarrow> return (Some (r0, Some e))
     | Inr info \<Rightarrow>
         (let r = download_headers G info r0 in
          if di_Size info = 0 then do {
            guiLog G (''download: complete name='' @ ge_quote G (di_Name info) @ '' size=0'');
            return (Some (r, None)) }
          else do {
            x \<leftarrow> stream_loop fuel E G c agentID path info 0 r;
            (case x of
               Some (r', None) \<Rightarrow> guiLog G (''download: complete name='' @ ge_quote G (di_Name info) @
                 '' size='' @ Itoa (sint (di_Size info)))
             | _ \<Rightarrow> return ());
            return x }) }"

section \<open>The handlers\<close>

definition gui_client :: "client \<Rightarrow> client" where
  "gui_client c = (if cl_Timeout c < 60 * second then c\<lparr>cl_Timeout := 60 * second\<rparr> else c)"

definition gui_root :: "gui_env \<Rightarrow> http_resp \<Rightarrow> http_resp" where
  "gui_root G r = fst (hr_Write G (ge_page G) (hr_Set ''Content-Type'' ''text/html; charset=utf-8'' r))"

definition gui_agents :: "cli_env \<Rightarrow> gui_env \<Rightarrow> client \<Rightarrow> http_resp \<Rightarrow> http_resp cli" where
  "gui_agents E G c r = do {
     guiLog G ''agents: listing'';
     a \<leftarrow> ask E (\<lambda>L d. ListAgents L d c);
     case a of
       Inl e \<Rightarrow> do {
         guiLog G (''agents: error: '' @ error_text e);
         return (writeJSONError G e 502 r) }
     | Inr agents \<Rightarrow> do {
         guiLog G (''agents: '' @ Itoa (int (length agents)) @ '' found'');
         return (writeJSON G (ge_agents G agents) r) } }"

text \<open>The parameters of the query: what Query().Get returns for agent and path.\<close>

definition gui_browse :: "cli_env \<Rightarrow> gui_env \<Rightarrow> client \<Rightarrow> string \<Rightarrow> string \<Rightarrow> http_resp \<Rightarrow> http_resp cli" where
  "gui_browse E G c agent path r =
     (let agentID = TrimSpace agent; target0 = TrimSpace path in
      if agentID = [] then return (writeJSONError G (Errorf ''missing agent'') 400 r)
      else (let target = (if target0 = [] then ''C:'' @ [CHR 0x5C] else target0) in do {
        guiLog G (''browse: agent='' @ agentID @ '' path='' @ ge_quote G target);
        a \<leftarrow> browseRemotePath E G c agentID target;
        case a of
          Inl e \<Rightarrow> do {
            guiLog G (''browse: error: '' @ error_text e);
            return (writeJSONError G e 502 r) }
        | Inr resp \<Rightarrow> do {
            guiLog G (''browse: ok path='' @ ge_quote G (br_Path resp) @ '' entries='' @
              Itoa (int (length (br_Entries resp))));
            return (writeJSON G (ge_browse G resp) r) } }))"

definition gui_download :: "nat \<Rightarrow> cli_env \<Rightarrow> gui_env \<Rightarrow> client \<Rightarrow> string \<Rightarrow> string \<Rightarrow> http_resp \<Rightarrow> http_resp option cli" where
  "gui_download fuel E G c agent path r =
     (let agentID = TrimSpace agent; target = TrimSpace path in
      if agentID = [] \<or> target = [] then return (Some (writeJSONError G (Errorf ''missing agent or path'') 400 r))
      else do {
        guiLog G (''download: start agent='' @ agentID @ '' path='' @ ge_quote G target);
        x \<leftarrow> streamRemoteFile fuel E G c agentID target r;
        case x of
          None \<Rightarrow> return None
        | Some (r', None) \<Rightarrow> return (Some r')
        | Some (r', Some e) \<Rightarrow> do {
            guiLog G (''download: error: '' @ error_text e);
            return (Some (writeJSONError G e 502 r')) } })"

text \<open>runGUI up to the point where it serves; the loop over the arguments keeps the last address.\<close>

fun listen_addr :: "string list \<Rightarrow> string \<Rightarrow> string" where
  "listen_addr [] addr = addr"
| "listen_addr (a # as) addr =
     listen_addr as
       (if HasPrefix a ''-listen='' then TrimPrefix a ''-listen=''
        else if HasPrefix a ''--listen='' then TrimPrefix a ''--listen='' else addr)"

definition runGUI :: "cli_env \<Rightarrow> client \<Rightarrow> string list \<Rightarrow> exit cli" where
  "runGUI E c args =
     (let addr = listen_addr args ''127.0.0.1:8088'' in do {
        fmt_Println (''GUI listening on http://'' @ addr);
        case ce_listen E addr of
          Some e \<Rightarrow> fail_with E (error_text e)
        | None \<Rightarrow> return (Code 0) })"

end
