(* ===== verification/Group_Store.thy ===== *)
theory Group_Store
  imports Wire Storage
begin

text \<open>
  server/group_store.go: the set of agent groups the server knows, kept in memory and written
  to groups.json after every change. The map of the code becomes \<open>gs_groups\<close>; create and
  delete return the new store, the new disk and the error. The locale \<open>name_set\<close> is the
  contract the server's handlers rely on: a set of normalised names with a sorted listing.
  The last section splits an operation into its two critical sections, the change under the
  mutex and the write after it, and shows what concurrent calls can do to the file.
\<close>

record group_store =
  gs_path :: string
  gs_groups :: "bool gomap"

type_synonym group_state = "group_store \<times> disk"

definition gs_snapshotLocked :: "map_order \<Rightarrow> group_store \<Rightarrow> string list" where
  "gs_snapshotLocked ord s = sort (map_keys ord (gs_groups s))"

definition gs_list :: "map_order \<Rightarrow> group_store \<Rightarrow> string list" where
  "gs_list ord s = sort (map_keys ord (gs_groups s))"

definition gs_save ::
  "string list codec \<Rightarrow> write_outcome \<Rightarrow> group_store \<Rightarrow> string list \<Rightarrow> disk \<Rightarrow> disk \<times> go_error option" where
  "gs_save J w s groups fs = save_json J w (gs_path s) groups fs"

definition gs_create ::
  "string list codec \<Rightarrow> map_order \<Rightarrow> write_outcome \<Rightarrow> string \<Rightarrow> group_state \<Rightarrow> group_state \<times> go_error option" where
  "gs_create J ord w nm = (\<lambda>(s, fs).
     let name = TrimSpace nm in
     if name = [] then ((s, fs), Some (Errorf ''group name is required''))
     else let s' = s\<lparr>gs_groups := AList.update name True (gs_groups s)\<rparr>;
              (fs', e) = gs_save J w s' (gs_snapshotLocked ord s') fs
          in ((s', fs'), e))"

definition gs_delete ::
  "string list codec \<Rightarrow> map_order \<Rightarrow> write_outcome \<Rightarrow> string \<Rightarrow> group_state \<Rightarrow> group_state \<times> go_error option" where
  "gs_delete J ord w nm = (\<lambda>(s, fs).
     let name = TrimSpace nm in
     if name = [] then ((s, fs), Some (Errorf ''group name is required''))
     else if map_of (gs_groups s) name \<noteq> Some True
          then ((s, fs), Some (Errorf (''group '' @ name @ '' not found'')))
     else let s' = s\<lparr>gs_groups := AList.delete name (gs_groups s)\<rparr>;
              (fs', e) = gs_save J w s' (gs_snapshotLocked ord s') fs
          in ((s', fs'), e))"

text \<open>load: the outcome of os.ReadFile is an argument; the loop trims and drops empty names.\<close>

fun gs_load_names :: "string list \<Rightarrow> bool gomap \<Rightarrow> bool gomap" where
  "gs_load_names [] m = m"
| "gs_load_names (g # gs) m =
     gs_load_names gs (if TrimSpace g \<noteq> [] then AList.update (TrimSpace g) True m else m)"

definition gs_load :: "string list codec \<Rightarrow> string result \<Rightarrow> group_store \<Rightarrow> group_store \<times> go_error option" where
  "gs_load J data s =
     (case data of
        Inl e \<Rightarrow> (s, Some e)
      | Inr d \<Rightarrow>
          (case Unmarshal J d of
             Inl e \<Rightarrow> (s, Some e)
           | Inr groups \<Rightarrow> (s\<lparr>gs_groups := gs_load_names groups (gs_groups s)\<rparr>, None)))"

text \<open>newGroupStore; \<open>mk\<close> is the outcome of os.MkdirAll.\<close>

definition newGroupStore ::
  "filepath_lib \<Rightarrow> string list codec \<Rightarrow> go_error option \<Rightarrow> string \<Rightarrow> disk \<Rightarrow> group_store result" where
  "newGroupStore fp J mk path fs =
     (let store = \<lparr>gs_path = path, gs_groups = []\<rparr>; dir = fp_Dir fp path in
      case (if dir \<noteq> ''.'' \<and> dir \<noteq> [] then mk else None) of
        Some e \<Rightarrow> Inl e
      | None \<Rightarrow>
          (case gs_load J (read_file path fs) store of
             (s, None) \<Rightarrow> Inr s
           | (s, Some e) \<Rightarrow> (if \<not> is_not_exist e then Inl e else Inr s)))"

section \<open>The invariant\<close>

definition gs_ok :: "group_store \<Rightarrow> bool" where
  "gs_ok s \<longleftrightarrow> map_ok (gs_groups s) \<and>
     (\<forall>g. map_of (gs_groups s) g \<noteq> Some False) \<and>
     (\<forall>g \<in> dom (map_of (gs_groups s)). g \<noteq> [] \<and> TrimSpace g = g)"

definition gs_set :: "group_store \<Rightarrow> string set" where
  "gs_set s = dom (map_of (gs_groups s))"

lemma gs_set_finite [simp]: "finite (gs_set s)"
  by (simp add: gs_set_def finite_dom_map_of)

lemma gs_ok_member: "gs_ok s \<Longrightarrow> map_of (gs_groups s) g = Some True \<longleftrightarrow> g \<in> gs_set s"
  unfolding gs_ok_def gs_set_def by (metis (full_types) domD domI)

lemma gs_list_sorted_set:
  assumes "is_order ord" and "gs_ok s"
  shows "gs_list ord s = sorted_list_of_set (gs_set s)"
proof -
  have m: "map_ok (gs_groups s)" using assms(2) by (simp add: gs_ok_def)
  have "set (map_keys ord (gs_groups s)) = gs_set s"
    using set_map_keys [OF assms(1) m] by (simp add: gs_set_def)
  moreover have "distinct (map_keys ord (gs_groups s))"
    using distinct_map_keys [OF assms(1) m] .
  ultimately show ?thesis
    unfolding gs_list_def by (metis sorted_list_of_set_sort_remdups distinct_remdups_id)
qed

lemma gs_snapshot_eq_list: "gs_snapshotLocked = gs_list"
  by (rule ext)+ (simp add: gs_snapshotLocked_def gs_list_def)

lemma gs_ok_update: "gs_ok s \<Longrightarrow> g \<noteq> [] \<Longrightarrow> TrimSpace g = g \<Longrightarrow>
  gs_ok (s\<lparr>gs_groups := AList.update g True (gs_groups s)\<rparr>)"
  by (auto simp: gs_ok_def distinct_update update_conv' simp del: map_of_eq_Some_iff split: if_splits)

lemma gs_ok_remove: "gs_ok s \<Longrightarrow> gs_ok (s\<lparr>gs_groups := AList.delete g (gs_groups s)\<rparr>)"
  by (auto simp: gs_ok_def distinct_delete delete_conv' simp del: map_of_eq_Some_iff split: if_splits)

lemma gs_set_update: "gs_set (s\<lparr>gs_groups := AList.update g b (gs_groups s)\<rparr>) = insert g (gs_set s)"
  by (auto simp: gs_set_def update_conv')

lemma gs_set_remove: "gs_set (s\<lparr>gs_groups := AList.delete g (gs_groups s)\<rparr>) = gs_set s - {g}"
  by (auto simp: gs_set_def delete_conv')

lemma gs_create_cases:
  assumes "gs_create J ord w nm (s, fs) = ((s', fs'), e)"
  obtains (empty) "TrimSpace nm = []" "s' = s" "fs' = fs" "e = Some (Errorf ''group name is required'')"
  | (added) "TrimSpace nm \<noteq> []"
      "s' = s\<lparr>gs_groups := AList.update (TrimSpace nm) True (gs_groups s)\<rparr>"
      "save_json J w (gs_path s) (gs_snapshotLocked ord s') fs = (fs', e)"
  using assms
  by (cases "TrimSpace nm = []")
    (auto simp: gs_create_def gs_save_def Let_def split: prod.splits)

lemma gs_delete_cases:
  assumes "gs_delete J ord w nm (s, fs) = ((s', fs'), e)"
  obtains (refused) "TrimSpace nm = [] \<or> map_of (gs_groups s) (TrimSpace nm) \<noteq> Some True"
      "s' = s" "fs' = fs" "e \<noteq> None"
  | (removed) "TrimSpace nm \<noteq> []" "map_of (gs_groups s) (TrimSpace nm) = Some True"
      "s' = s\<lparr>gs_groups := AList.delete (TrimSpace nm) (gs_groups s)\<rparr>"
      "save_json J w (gs_path s) (gs_snapshotLocked ord s') fs = (fs', e)"
  using assms
  by (cases "TrimSpace nm = [] \<or> map_of (gs_groups s) (TrimSpace nm) \<noteq> Some True")
    (auto simp: gs_delete_def gs_save_def Let_def split: prod.splits if_splits)

lemma gs_create_ok: "gs_ok s \<Longrightarrow> gs_create J ord w nm (s, fs) = ((s', fs'), e) \<Longrightarrow> gs_ok s'"
  by (erule gs_create_cases) (auto intro: gs_ok_update)

lemma gs_delete_ok: "gs_ok s \<Longrightarrow> gs_delete J ord w nm (s, fs) = ((s', fs'), e) \<Longrightarrow> gs_ok s'"
  by (erule gs_delete_cases) (auto intro: gs_ok_remove)

lemma gs_load_names_ok:
  "gs_ok (s\<lparr>gs_groups := m\<rparr>) \<Longrightarrow> gs_ok (s\<lparr>gs_groups := gs_load_names gs m\<rparr>)"
proof (induction gs arbitrary: m)
  case (Cons g gs)
  then show ?case
    using gs_ok_update [of "s\<lparr>gs_groups := m\<rparr>" "TrimSpace g"] by simp
qed simp

lemma gs_load_names_dom:
  "dom (map_of (gs_load_names gs m)) = dom (map_of m) \<union> (TrimSpace ` set gs - {[]})"
  by (induction gs arbitrary: m) (auto simp: update_conv' split: if_splits)

section \<open>The contract: a set of normalised names\<close>

datatype name_op = AddName string | DelName string

text \<open>What a run of operations makes of a set of names.\<close>

fun names_after :: "name_op list \<Rightarrow> string set \<Rightarrow> string set" where
  "names_after [] A = A"
| "names_after (AddName n # ops) A =
     names_after ops (if TrimSpace n = [] then A else insert (TrimSpace n) A)"
| "names_after (DelName n # ops) A = names_after ops (A - {TrimSpace n})"

definition name_step ::
  "(string \<Rightarrow> 's \<Rightarrow> 's \<times> go_error option) \<Rightarrow> (string \<Rightarrow> 's \<Rightarrow> 's \<times> go_error option) \<Rightarrow>
   name_op \<Rightarrow> 's \<Rightarrow> 's" where
  "name_step add del op s =
     (case op of AddName n \<Rightarrow> fst (add n s) | DelName n \<Rightarrow> fst (del n s))"

locale name_set =
  fixes good :: "'s \<Rightarrow> bool"
    and members :: "'s \<Rightarrow> string set"
    and add :: "string \<Rightarrow> 's \<Rightarrow> 's \<times> go_error option"
    and del :: "string \<Rightarrow> 's \<Rightarrow> 's \<times> go_error option"
    and enum :: "'s \<Rightarrow> string list"
  assumes add_good: "good s \<Longrightarrow> good (fst (add n s))"
    and del_good: "good s \<Longrightarrow> good (fst (del n s))"
    and add_members: "good s \<Longrightarrow> members (fst (add n s)) =
          (if TrimSpace n = [] then members s else insert (TrimSpace n) (members s))"
    and del_members: "good s \<Longrightarrow> members (fst (del n s)) = members s - {TrimSpace n}"
    and del_unknown: "good s \<Longrightarrow> TrimSpace n \<notin> members s \<Longrightarrow> snd (del n s) \<noteq> None \<and> fst (del n s) = s"
    and enum_members: "good s \<Longrightarrow> enum s = sorted_list_of_set (members s)"
    and finite_members: "finite (members s)"
begin

lemma step_good: "good s \<Longrightarrow> good (name_step add del op s)"
  by (cases op) (simp_all add: name_step_def add_good del_good)

lemma step_members: "good s \<Longrightarrow> members (name_step add del op s) = names_after [op] (members s)"
  by (cases op) (simp_all add: name_step_def add_members del_members)

lemma run_good: "good s \<Longrightarrow> good (fold (name_step add del) ops s)"
  by (induction ops arbitrary: s) (simp_all add: step_good)

lemma run_members:
  "good s \<Longrightarrow> members (fold (name_step add del) ops s) = names_after ops (members s)"
proof (induction ops arbitrary: s)
  case (Cons op ops)
  then show ?case by (cases op) (simp_all add: step_good step_members)
qed simp

lemma run_enum: "good s \<Longrightarrow> enum (fold (name_step add del) ops s) = sorted_list_of_set (names_after ops (members s))"
  by (simp add: enum_members run_good run_members)

lemma enum_sorted: "good s \<Longrightarrow> sorted (enum s) \<and> distinct (enum s) \<and> set (enum s) = members s"
  by (simp add: enum_members finite_members)

lemma del_after_add: "good s \<Longrightarrow> TrimSpace n \<noteq> [] \<Longrightarrow> TrimSpace n \<in> members (fst (add n s))"
  by (simp add: add_members)

end

lemma gs_create_set:
  assumes "gs_create J ord w nm (s, fs) = ((s', fs'), e)"
  shows "gs_set s' = (if TrimSpace nm = [] then gs_set s else insert (TrimSpace nm) (gs_set s))"
  using assms by (rule gs_create_cases) (auto simp: gs_set_update)

lemma gs_delete_set:
  assumes "gs_ok s" and "gs_delete J ord w nm (s, fs) = ((s', fs'), e)"
  shows "gs_set s' = gs_set s - {TrimSpace nm}"
  using assms(2)
proof (rule gs_delete_cases)
  assume "TrimSpace nm = [] \<or> map_of (gs_groups s) (TrimSpace nm) \<noteq> Some True" and "s' = s"
  moreover have "[] \<notin> gs_set s" using assms(1) by (auto simp: gs_ok_def gs_set_def)
  ultimately have "TrimSpace nm \<notin> gs_set s" by (metis gs_ok_member assms(1))
  with \<open>s' = s\<close> show ?thesis by simp
next
  assume "s' = s\<lparr>gs_groups := AList.delete (TrimSpace nm) (gs_groups s)\<rparr>"
  then show ?thesis by (simp add: gs_set_remove)
qed

interpretation groups: name_set
  "\<lambda>(s, fs). gs_ok s" "\<lambda>(s, fs). gs_set s"
  "gs_create J ord w" "gs_delete J ord w" "\<lambda>(s, fs). sorted_list_of_set (gs_set s)"
  for J ord w
proof unfold_locales
  fix st :: group_state and n
  obtain s fs where st: "st = (s, fs)" by fastforce
  obtain s' fs' e where c: "gs_create J ord w n (s, fs) = ((s', fs'), e)"
    by (cases "gs_create J ord w n (s, fs)") auto
  obtain s2 fs2 e2 where d: "gs_delete J ord w n (s, fs) = ((s2, fs2), e2)"
    by (cases "gs_delete J ord w n (s, fs)") auto
  show "finite (case st of (s, fs) \<Rightarrow> gs_set s)" by (simp add: st)
  assume "case st of (s, fs) \<Rightarrow> gs_ok s"
  then have ok: "gs_ok s" by (simp add: st)
  show "case fst (gs_create J ord w n st) of (s, fs) \<Rightarrow> gs_ok s"
    using gs_create_ok [OF ok c] by (simp add: st c)
  show "case fst (gs_delete J ord w n st) of (s, fs) \<Rightarrow> gs_ok s"
    using gs_delete_ok [OF ok d] by (simp add: st d)
  show "(case fst (gs_create J ord w n st) of (s, fs) \<Rightarrow> gs_set s) =
      (if TrimSpace n = [] then case st of (s, fs) \<Rightarrow> gs_set s
       else insert (TrimSpace n) (case st of (s, fs) \<Rightarrow> gs_set s))"
    using gs_create_set [OF c] by (simp add: st c)
  show "(case fst (gs_delete J ord w n st) of (s, fs) \<Rightarrow> gs_set s) =
      (case st of (s, fs) \<Rightarrow> gs_set s) - {TrimSpace n}"
    using gs_delete_set [OF ok d] by (simp add: st d)
  show "(case st of (s, fs) \<Rightarrow> sorted_list_of_set (gs_set s)) =
      sorted_list_of_set (case st of (s, fs) \<Rightarrow> gs_set s)" by (simp add: st)
  assume "TrimSpace n \<notin> (case st of (s, fs) \<Rightarrow> gs_set s)"
  then have "map_of (gs_groups s) (TrimSpace n) \<noteq> Some True"
    using gs_ok_member [OF ok] by (simp add: st)
  then show "snd (gs_delete J ord w n st) \<noteq> None \<and> fst (gs_delete J ord w n st) = st"
    by (auto simp: st gs_delete_def Let_def)
qed

section \<open>Memory and file agree\<close>

definition gs_synced :: "(string \<Rightarrow> bool) \<Rightarrow> string list codec \<Rightarrow> string \<Rightarrow> group_state \<Rightarrow> bool" where
  "gs_synced Q J path = (\<lambda>(s, fs).
     gs_path s = path \<and> gs_ok s \<and> (\<forall>x \<in> gs_set s. Q x) \<and>
     (case fs path of
        None \<Rightarrow> gs_set s = {}
      | Some d \<Rightarrow> Unmarshal J d = Inr (sorted_list_of_set (gs_set s))))"

lemma gs_synced_saved:
  assumes J: "codec_ok (\<lambda>xs. \<forall>x \<in> set xs. Q x) J" and ord: "is_order ord"
    and ok: "gs_ok s'" and Q: "\<forall>x \<in> gs_set s'. Q x"
    and save: "save_json J WriteOk (gs_path s') (gs_snapshotLocked ord s') fs = (fs', e)"
  shows "gs_synced Q J (gs_path s') (s', fs') \<and> e = None"
proof -
  have snap: "gs_snapshotLocked ord s' = sorted_list_of_set (gs_set s')"
    using gs_list_sorted_set [OF ord ok] by (simp add: gs_snapshot_eq_list)
  with Q have "\<forall>x \<in> set (gs_snapshotLocked ord s'). Q x" by simp
  from save_json_ok [OF J this, of "gs_path s'" fs] save obtain d where
    "fs' = fs(gs_path s' := Some d)" "e = None" "Unmarshal J d = Inr (gs_snapshotLocked ord s')"
    by auto
  with ok Q snap show ?thesis by (simp add: gs_synced_def)
qed

lemma gs_synced_create:
  assumes "codec_ok (\<lambda>xs. \<forall>x \<in> set xs. Q x) J" and "is_order ord"
    and "gs_synced Q J path (s, fs)" and "Q (TrimSpace nm)"
    and "gs_create J ord WriteOk nm (s, fs) = ((s', fs'), e)"
  shows "gs_synced Q J path (s', fs')"
  using assms(5)
proof (cases rule: gs_create_cases)
  case empty
  with assms(3) show ?thesis by simp
next
  case added
  have s: "gs_path s = path" "gs_ok s" "\<forall>x \<in> gs_set s. Q x" using assms(3) by (auto simp: gs_synced_def)
  have "gs_ok s'" using gs_create_ok [OF s(2) assms(5)] .
  moreover have "\<forall>x \<in> gs_set s'. Q x" using gs_create_set [OF assms(5)] s(3) assms(4) by auto
  moreover have "gs_path s' = path" using added(2) s(1) by simp
  ultimately show ?thesis
    using gs_synced_saved [OF assms(1,2), of s' fs fs' e] added(3) s(1) by simp
qed

lemma gs_synced_delete:
  assumes "codec_ok (\<lambda>xs. \<forall>x \<in> set xs. Q x) J" and "is_order ord"
    and "gs_synced Q J path (s, fs)"
    and "gs_delete J ord WriteOk nm (s, fs) = ((s', fs'), e)"
  shows "gs_synced Q J path (s', fs')"
  using assms(4)
proof (cases rule: gs_delete_cases)
  case refused
  with assms(3) show ?thesis by simp
next
  case removed
  have s: "gs_path s = path" "gs_ok s" "\<forall>x \<in> gs_set s. Q x" using assms(3) by (auto simp: gs_synced_def)
  have "gs_ok s'" using gs_delete_ok [OF s(2) assms(4)] .
  moreover have "\<forall>x \<in> gs_set s'. Q x" using gs_delete_set [OF s(2) assms(4)] s(3) by auto
  moreover have "gs_path s' = path" using removed(3) s(1) by simp
  ultimately show ?thesis
    using gs_synced_saved [OF assms(1,2), of s' fs fs' e] removed(4) s(1) by simp
qed

lemma gs_synced_run:
  assumes J: "codec_ok (\<lambda>xs. \<forall>x \<in> set xs. Q x) J" and ord: "is_order ord"
  shows "gs_synced Q J path st \<Longrightarrow> \<forall>n. AddName n \<in> set ops \<longrightarrow> Q (TrimSpace n) \<Longrightarrow>
    gs_synced Q J path (fold (name_step (gs_create J ord WriteOk) (gs_delete J ord WriteOk)) ops st)"
proof (induction ops arbitrary: st)
  case (Cons op ops)
  obtain s fs where st: "st = (s, fs)" by fastforce
  have "gs_synced Q J path (name_step (gs_create J ord WriteOk) (gs_delete J ord WriteOk) op st)"
  proof (cases op)
    case (AddName n)
    then show ?thesis
      using gs_synced_create [OF J ord, of path s fs n] Cons.prems st
      by (cases "gs_create J ord WriteOk n (s, fs)") (auto simp: name_step_def)
  next
    case (DelName n)
    then show ?thesis
      using gs_synced_delete [OF J ord, of path s fs n] Cons.prems st
      by (cases "gs_delete J ord WriteOk n (s, fs)") (auto simp: name_step_def)
  qed
  with Cons show ?case by simp
qed simp

lemma trim_image_sorted:
  "gs_ok s \<Longrightarrow> TrimSpace ` set (sorted_list_of_set (gs_set s)) - {[]} = gs_set s"
proof -
  assume ok: "gs_ok s"
  then have "TrimSpace ` gs_set s = (\<lambda>x. x) ` gs_set s"
    by (intro image_cong) (auto simp: gs_ok_def gs_set_def)
  moreover have "[] \<notin> gs_set s" using ok by (auto simp: gs_ok_def gs_set_def)
  ultimately show ?thesis by simp
qed

lemma newGroupStore_synced:
  assumes "gs_synced Q J path (s, fs)"
  shows "\<exists>s'. newGroupStore fp J None path fs = Inr s' \<and> gs_ok s' \<and> gs_set s' = gs_set s"
proof (cases "fs path")
  case None
  with assms have "gs_set s = {}" by (simp add: gs_synced_def)
  with None show ?thesis
    by (simp add: newGroupStore_def gs_load_def read_file_def gs_ok_def gs_set_def Let_def)
next
  case (Some d)
  let ?m = "gs_load_names (sorted_list_of_set (gs_set s)) []"
  let ?s' = "\<lparr>gs_path = path, gs_groups = ?m\<rparr>"
  have ok: "gs_ok s" and d: "Unmarshal J d = Inr (sorted_list_of_set (gs_set s))"
    using assms Some by (auto simp: gs_synced_def)
  have "gs_ok ?s'"
    using gs_load_names_ok [where s = "\<lparr>gs_path = path, gs_groups = []\<rparr>" and m = "[]"] by (simp add: gs_ok_def)
  moreover have "gs_set ?s' = gs_set s"
    using trim_image_sorted [OF ok] by (simp add: gs_set_def gs_load_names_dom)
  moreover have "newGroupStore fp J None path fs = Inr ?s'"
    using Some d by (simp add: newGroupStore_def gs_load_def read_file_def Let_def)
  ultimately show ?thesis by blast
qed

lemma newGroupStore_fresh:
  "fs path = None \<Longrightarrow> newGroupStore fp J None path fs = Inr \<lparr>gs_path = path, gs_groups = []\<rparr>"
  by (simp add: newGroupStore_def gs_load_def read_file_def Let_def)

section \<open>Two critical sections\<close>

text \<open>
  create and delete change the map and take the snapshot while they hold the mutex, and write
  the file after they have released it. \<open>gs_mutate\<close> is the first section (\<open>None\<close> for the
  early returns); the second is \<^const>\<open>gs_save\<close> of the snapshot taken.
\<close>

definition gs_mutate :: "name_op \<Rightarrow> group_store \<Rightarrow> group_store option" where
  "gs_mutate op s =
     (case op of
        AddName n \<Rightarrow>
          (if TrimSpace n = [] then None
           else Some (s\<lparr>gs_groups := AList.update (TrimSpace n) True (gs_groups s)\<rparr>))
      | DelName n \<Rightarrow>
          (if TrimSpace n = [] \<or> map_of (gs_groups s) (TrimSpace n) \<noteq> Some True then None
           else Some (s\<lparr>gs_groups := AList.delete (TrimSpace n) (gs_groups s)\<rparr>)))"

lemma gs_op_split:
  "name_step (gs_create J ord w) (gs_delete J ord w) op (s, fs) =
     (case gs_mutate op s of
        None \<Rightarrow> (s, fs)
      | Some s' \<Rightarrow> (s', fst (gs_save J w s' (gs_snapshotLocked ord s') fs)))"
  by (cases op)
    (auto simp: name_step_def gs_mutate_def gs_create_def gs_delete_def gs_save_def Let_def
      split: prod.splits)

datatype gs_thread = GsCall name_op | GsSaving "string list" | GsReturned

record gs_conc =
  gc_store :: group_store
  gc_disk :: disk
  gc_threads :: "gs_thread list"

inductive gs_conc_step :: "string list codec \<Rightarrow> map_order \<Rightarrow> gs_conc \<Rightarrow> gs_conc \<Rightarrow> bool"
  for J ord where
  mutate: "i < length (gc_threads c) \<Longrightarrow> gc_threads c ! i = GsCall op \<Longrightarrow>
     gs_mutate op (gc_store c) = Some s' \<Longrightarrow>
     gs_conc_step J ord c (c\<lparr>gc_store := s',
        gc_threads := (gc_threads c)[i := GsSaving (gs_snapshotLocked ord s')]\<rparr>)"
| refuse: "i < length (gc_threads c) \<Longrightarrow> gc_threads c ! i = GsCall op \<Longrightarrow>
     gs_mutate op (gc_store c) = None \<Longrightarrow>
     gs_conc_step J ord c (c\<lparr>gc_threads := (gc_threads c)[i := GsReturned]\<rparr>)"
| save: "i < length (gc_threads c) \<Longrightarrow> gc_threads c ! i = GsSaving gs \<Longrightarrow>
     gs_conc_step J ord c (c\<lparr>gc_disk := fst (gs_save J WriteOk (gc_store c) gs (gc_disk c)),
        gc_threads := (gc_threads c)[i := GsReturned]\<rparr>)"

definition gs_conc_start :: "name_op list \<Rightarrow> gs_conc" where
  "gs_conc_start ops =
     \<lparr>gc_store = \<lparr>gs_path = ''groups.json'', gs_groups = []\<rparr>, gc_disk = (\<lambda>p. None),
      gc_threads = map GsCall ops\<rparr>"

lemma gs_conc_run4:
  "gs_conc_step J ord a b \<Longrightarrow> gs_conc_step J ord b c \<Longrightarrow> gs_conc_step J ord c d \<Longrightarrow>
   gs_conc_step J ord d e \<Longrightarrow> rtranclp (gs_conc_step J ord) a e"
  by (meson converse_rtranclp_into_rtranclp r_into_rtranclp)

section \<open>Properties\<close>

text \<open>
  Property C20. Groups survive a restart. Start the store on a path without a file, run any
  sequence of create and delete calls whose writes succeed, and start the store again on the
  file: the listing is the one of the running store, and both hold exactly the names a set
  would hold. The codec is only asked to round-trip lists of the names used.
\<close>

theorem group_store_restart:
  assumes "codec_ok (\<lambda>xs. \<forall>x \<in> set xs. Q x) J" and "is_order ord"
    and "fs0 path = None" and "newGroupStore fp J None path fs0 = Inr s0"
    and "\<forall>n. AddName n \<in> set ops \<longrightarrow> Q (TrimSpace n)"
    and "fold (name_step (gs_create J ord WriteOk) (gs_delete J ord WriteOk)) ops (s0, fs0) = (s, fs)"
  shows "\<exists>s'. newGroupStore fp J None path fs = Inr s' \<and> gs_list ord s' = gs_list ord s \<and>
    gs_list ord s = sorted_list_of_set (names_after ops {})"
proof -
  have s0: "s0 = \<lparr>gs_path = path, gs_groups = []\<rparr>"
    using assms(3,4) by (simp add: newGroupStore_fresh)
  then have start: "gs_synced Q J path (s0, fs0)" "gs_ok s0" "gs_set s0 = {}"
    using assms(3) by (simp_all add: gs_synced_def gs_ok_def gs_set_def)
  have sync: "gs_synced Q J path (s, fs)"
    using gs_synced_run [OF assms(1,2) start(1) assms(5)] assms(6) by simp
  then obtain s' where "newGroupStore fp J None path fs = Inr s'" "gs_ok s'" "gs_set s' = gs_set s"
    using newGroupStore_synced by blast
  moreover have "gs_ok s" using sync by (simp add: gs_synced_def)
  moreover have "gs_set s = names_after ops {}"
    using groups.run_members [of "(s0, fs0)" J ord WriteOk ops] start(2,3) assms(6) by simp
  ultimately show ?thesis using gs_list_sorted_set [OF assms(2)] by auto
qed

theorem group_store_restart_witness:
  "\<exists>s fs s'.
     fold (name_step (gs_create lines_codec rev WriteOk) (gs_delete lines_codec rev WriteOk))
       [AddName ''web'', AddName '' db '', DelName ''web''] (\<lparr>gs_path = ''g'', gs_groups = []\<rparr>, \<lambda>p. None) = (s, fs) \<and>
     newGroupStore (undefined\<lparr>fp_Dir := \<lambda>p. ''.''\<rparr>) lines_codec None ''g'' fs = Inr s' \<and>
     gs_list rev s' = sorted_list_of_set {''db''}"
proof -
  let ?fp = "undefined\<lparr>fp_Dir := \<lambda>p. ''.''\<rparr> :: filepath_lib"
  let ?ops = "[AddName ''web'', AddName '' db '', DelName ''web'']"
  have t: "TrimSpace ''web'' = ''web''" "TrimSpace '' db '' = ''db''"
    by code_simp+
  obtain s fs where r: "fold (name_step (gs_create lines_codec rev WriteOk) (gs_delete lines_codec rev WriteOk))
       ?ops (\<lparr>gs_path = ''g'', gs_groups = []\<rparr>, \<lambda>p. None) = (s, fs)" by fastforce
  have "\<exists>s'. newGroupStore ?fp lines_codec None ''g'' fs = Inr s' \<and> gs_list rev s' = gs_list rev s \<and>
    gs_list rev s = sorted_list_of_set (names_after ?ops {})"
  proof (rule group_store_restart [OF lines_codec_ok is_order_rev _ _ _ r])
    show "newGroupStore ?fp lines_codec None ''g'' (\<lambda>p. None) = Inr \<lparr>gs_path = ''g'', gs_groups = []\<rparr>"
      by (simp add: newGroupStore_fresh)
    show "\<forall>n. AddName n \<in> set ?ops \<longrightarrow> one_line (TrimSpace n)"
      by (simp add: t one_line_def all_conj_distrib)
  qed simp
  then obtain s' where s': "newGroupStore ?fp lines_codec None ''g'' fs = Inr s'"
    "gs_list rev s' = sorted_list_of_set (names_after ?ops {})" by auto
  moreover have "names_after ?ops {} = {''db''}" by (auto simp: t)
  ultimately have "gs_list rev s' = sorted_list_of_set {''db''}" by simp
  with r s'(1) show ?thesis by (intro exI conjI)
qed

text \<open>
  A create whose write fails reports the error of the write, and the group exists
  all the same: memory holds it, the file is what the failed write left.
\<close>

theorem group_create_failed_write:
  assumes "codec_ok P J" and "P (gs_snapshotLocked ord (s\<lparr>gs_groups := AList.update (TrimSpace nm) True (gs_groups s)\<rparr>))"
    and "TrimSpace nm \<noteq> []"
    and "gs_create J ord (WriteFail err left) nm (s, fs) = ((s', fs'), e)"
  shows "e = Some err \<and> TrimSpace nm \<in> gs_set s' \<and> fs' (gs_path s) = left"
proof -
  obtain d where "Marshal J (gs_snapshotLocked ord (s\<lparr>gs_groups := AList.update (TrimSpace nm) True (gs_groups s)\<rparr>)) = Inr d"
    using assms(1,2) by (auto simp: codec_ok_def)
  with assms(3,4) show ?thesis
    by (auto simp: gs_create_def gs_save_def save_json_def gs_set_def update_conv' Let_def)
qed

theorem group_create_failed_write_witness:
  "\<exists>s' fs'. gs_create lines_codec rev (WriteFail (Errorf ''disk full'') (Some [])) ''web''
       (\<lparr>gs_path = ''g'', gs_groups = []\<rparr>, \<lambda>p. None) = ((s', fs'), Some (Errorf ''disk full'')) \<and>
     ''web'' \<in> gs_set s' \<and> fs' ''g'' = Some []"
proof -
  let ?s = "\<lparr>gs_path = ''g'', gs_groups = []\<rparr>"
  have t: "TrimSpace ''web'' = ''web''" by code_simp
  obtain s' fs' e where r: "gs_create lines_codec rev (WriteFail (Errorf ''disk full'') (Some [])) ''web''
       (?s, \<lambda>p. None) = ((s', fs'), e)" by (metis surj_pair)
  have "gs_snapshotLocked rev (?s\<lparr>gs_groups := AList.update (TrimSpace ''web'') True (gs_groups ?s)\<rparr>) = [''web'']"
    by (simp add: t gs_snapshotLocked_def map_keys_def map_range_def map_filter_simps)
  then have "e = Some (Errorf ''disk full'') \<and> TrimSpace ''web'' \<in> gs_set s' \<and> fs' (gs_path ?s) = Some []"
    by (intro group_create_failed_write [OF lines_codec_ok _ _ r]) (simp_all add: t one_line_def)
  with r t show ?thesis by auto
qed

text \<open>
  Two concurrent creates can leave the file without one of the groups although
  both calls return without error: the snapshot that is older is written last. Memory holds
  both groups, the file only the first, so a restart loses the second.
\<close>

theorem group_saves_race:
  "\<exists>c d. rtranclp (gs_conc_step lines_codec (\<lambda>ks. ks)) (gs_conc_start [AddName ''a'', AddName ''b'']) c \<and>
     gc_threads c = [GsReturned, GsReturned] \<and>
     gs_set (gc_store c) = {''a'', ''b''} \<and>
     gc_disk c ''groups.json'' = Some d \<and> Unmarshal lines_codec d = Inr [''a'']"
proof -
  let ?J = lines_codec and ?o = "\<lambda>ks :: string list. ks"
  have t: "TrimSpace ''a'' = ''a''" "TrimSpace ''b'' = ''b''" by code_simp+
  let ?s1 = "\<lparr>gs_path = ''groups.json'', gs_groups = [(''a'', True)]\<rparr>"
  let ?s2 = "\<lparr>gs_path = ''groups.json'', gs_groups = [(''a'', True), (''b'', True)]\<rparr>"
  have snap: "gs_snapshotLocked ?o ?s1 = [''a'']" "gs_snapshotLocked ?o ?s2 = [''a'', ''b'']"
    by (simp_all add: gs_snapshotLocked_def map_keys_def map_range_def map_filter_simps)
  let ?c1 = "\<lparr>gc_store = ?s1, gc_disk = \<lambda>p. None, gc_threads = [GsSaving [''a''], GsCall (AddName ''b'')]\<rparr>"
  let ?c2 = "\<lparr>gc_store = ?s2, gc_disk = \<lambda>p. None, gc_threads = [GsSaving [''a''], GsSaving [''a'', ''b'']]\<rparr>"
  let ?d3 = "fst (gs_save ?J WriteOk ?s2 [''a'', ''b''] (\<lambda>p. None))"
  let ?c3 = "\<lparr>gc_store = ?s2, gc_disk = ?d3, gc_threads = [GsSaving [''a''], GsReturned]\<rparr>"
  let ?d4 = "fst (gs_save ?J WriteOk ?s2 [''a''] ?d3)"
  let ?c4 = "\<lparr>gc_store = ?s2, gc_disk = ?d4, gc_threads = [GsReturned, GsReturned]\<rparr>"
  have "gs_conc_step ?J ?o (gs_conc_start [AddName ''a'', AddName ''b'']) ?c1"
    using gs_conc_step.mutate [of 0 "gs_conc_start [AddName ''a'', AddName ''b'']" "AddName ''a''" ?s1 ?J ?o] snap
    by (simp add: gs_conc_start_def gs_mutate_def t)
  moreover have "gs_conc_step ?J ?o ?c1 ?c2"
    using gs_conc_step.mutate [of 1 ?c1 "AddName ''b''" ?s2 ?J ?o] snap
    by (simp add: gs_mutate_def t)
  moreover have "gs_conc_step ?J ?o ?c2 ?c3"
    using gs_conc_step.save [of 1 ?c2 "[''a'', ''b'']" ?J ?o] by simp
  moreover have "gs_conc_step ?J ?o ?c3 ?c4"
    using gs_conc_step.save [of 0 ?c3 "[''a'']" ?J ?o] by simp
  ultimately have "rtranclp (gs_conc_step ?J ?o) (gs_conc_start [AddName ''a'', AddName ''b'']) ?c4"
    by (rule gs_conc_run4)
  moreover have "gs_set ?s2 = {''a'', ''b''}" by (auto simp: gs_set_def)
  moreover have "Unmarshal ?J (''a'' @ [CHR 0x0A]) = Inr [''a'']" by (simp add: lines_codec_def)
  moreover have "?d4 ''groups.json'' = Some (''a'' @ [CHR 0x0A])"
    by (simp add: gs_save_def save_json_def lines_codec_def)
  ultimately show ?thesis
    by (intro exI [of _ ?c4] exI [of _ "''a'' @ [CHR 0x0A]"]) simp
qed

end
