(* ===== verification/Session_Manager.thy ===== *)
theory Session_Manager
  imports Wire
begin

text \<open>
  server/session.go: the sessions of the connected agents and the commands that wait for an
  answer. First the operations, one function each; then the goroutines that call them, as a
  step relation in which every critical section, channel operation and network write is a step
  of its own, so that all interleavings are covered.

  A channel of capacity one is a buffer and a flag. Go panics when a closed channel is written
  or closed again; \<open>sm_panic\<close> records that this happened.
\<close>

record channel =
  ch_buf :: "message option"
  ch_closed :: bool

text \<open>A session is a pointer: \<open>ss_ptr\<close> is its address, \<open>ss_conn\<close> the connection it holds.\<close>

record agent_session =
  ss_ptr :: nat
  ss_id :: string
  ss_conn :: nat

record session_manager =
  sm_sessions :: "agent_session gomap"
  sm_pending :: "nat gomap"
  sm_chans :: "channel list"
  sm_closed_conns :: "nat list"
  sm_panic :: bool

definition newSessionManager :: session_manager where
  "newSessionManager =
     \<lparr>sm_sessions = [], sm_pending = [], sm_chans = [], sm_closed_conns = [], sm_panic = False\<rparr>"

definition newAgentSession :: "nat \<Rightarrow> nat \<Rightarrow> agent_session" where
  "newAgentSession ptr conn = \<lparr>ss_ptr = ptr, ss_id = [], ss_conn = conn\<rparr>"

section \<open>Sessions\<close>

definition sm_register :: "string \<Rightarrow> agent_session \<Rightarrow> session_manager \<Rightarrow> session_manager" where
  "sm_register agentID session m =
     (let m1 = (case map_of (sm_sessions m) agentID of
                  Some previous \<Rightarrow>
                    (if ss_conn previous \<noteq> ss_conn session
                     then m\<lparr>sm_closed_conns := ss_conn previous # sm_closed_conns m\<rparr> else m)
                | None \<Rightarrow> m)
      in m1\<lparr>sm_sessions := AList.update agentID (session\<lparr>ss_id := agentID\<rparr>) (sm_sessions m1)\<rparr>)"

definition sm_unregister :: "string \<Rightarrow> agent_session \<Rightarrow> session_manager \<Rightarrow> session_manager" where
  "sm_unregister agentID session m =
     (case map_of (sm_sessions m) agentID of
        Some current \<Rightarrow>
          (if ss_ptr current = ss_ptr session
           then m\<lparr>sm_sessions := AList.delete agentID (sm_sessions m)\<rparr> else m)
      | None \<Rightarrow> m)"

definition sm_get :: "string \<Rightarrow> session_manager \<Rightarrow> agent_session option" where
  "sm_get agentID m = map_of (sm_sessions m) agentID"

section \<open>Channels and pending commands\<close>

definition sm_close_chan :: "nat \<Rightarrow> session_manager \<Rightarrow> session_manager" where
  "sm_close_chan ch m =
     (if ch_closed (sm_chans m ! ch) then m\<lparr>sm_panic := True\<rparr>
      else m\<lparr>sm_chans := (sm_chans m)[ch := (sm_chans m ! ch)\<lparr>ch_closed := True\<rparr>]\<rparr>)"

text \<open>A write to a full channel blocks; \<open>None\<close> stands for that.\<close>

definition sm_send_chan :: "nat \<Rightarrow> message \<Rightarrow> session_manager \<Rightarrow> session_manager option" where
  "sm_send_chan ch msg m =
     (if ch_closed (sm_chans m ! ch) then Some (m\<lparr>sm_panic := True\<rparr>)
      else case ch_buf (sm_chans m ! ch) of
             Some old \<Rightarrow> None
           | None \<Rightarrow> Some (m\<lparr>sm_chans := (sm_chans m)[ch := (sm_chans m ! ch)\<lparr>ch_buf := Some msg\<rparr>]\<rparr>))"

definition sm_registerPending :: "string \<Rightarrow> session_manager \<Rightarrow> session_manager \<times> nat" where
  "sm_registerPending commandID m =
     (let ch = length (sm_chans m)
      in (m\<lparr>sm_chans := sm_chans m @ [\<lparr>ch_buf = None, ch_closed = False\<rparr>],
            sm_pending := AList.update commandID ch (sm_pending m)\<rparr>, ch))"

text \<open>The critical section that resolvePending and cancelPending share.\<close>

definition sm_take :: "string \<Rightarrow> session_manager \<Rightarrow> session_manager \<times> nat option" where
  "sm_take commandID m =
     (case map_of (sm_pending m) commandID of
        None \<Rightarrow> (m, None)
      | Some ch \<Rightarrow> (m\<lparr>sm_pending := AList.delete commandID (sm_pending m)\<rparr>, Some ch))"

text \<open>resolvePending as one call; \<open>None\<close> is a call that blocks for ever.\<close>

definition sm_resolvePending :: "message \<Rightarrow> session_manager \<Rightarrow> (session_manager \<times> bool) option" where
  "sm_resolvePending msg m =
     (case sm_take (m_CommandID msg) m of
        (m1, None) \<Rightarrow> Some (m1, False)
      | (m1, Some ch) \<Rightarrow>
          (case sm_send_chan ch msg m1 of
             None \<Rightarrow> None
           | Some m2 \<Rightarrow> Some (sm_close_chan ch m2, True)))"

definition sm_cancelPending :: "string \<Rightarrow> session_manager \<Rightarrow> session_manager" where
  "sm_cancelPending commandID m =
     (case sm_take commandID m of
        (m1, None) \<Rightarrow> m1
      | (m1, Some ch) \<Rightarrow> sm_close_chan ch m1)"

section \<open>dispatch\<close>

text \<open>
  While dispatch waits, other goroutines change the state: \<open>env_others\<close> is what they do to the
  session manager and to the rest of the server \<open>'x\<close>; \<open>env_send\<close> is the outcome of the write
  to the agent and \<open>env_timer\<close> tells that select takes the branch of the timer although an
  answer is there (Go picks any branch that is ready). The timer always fires in the end, so
  the wait returns.
\<close>

record 'x dispatch_env =
  env_send :: "go_error option"
  env_others :: "session_manager \<times> 'x \<Rightarrow> session_manager \<times> 'x"
  env_timer :: bool

definition cancelled_error :: "message \<Rightarrow> go_error" where
  "cancelled_error msg = Errorf (''command '' @ m_CommandID msg @ '' cancelled'')"

definition timeout_error :: "message \<Rightarrow> go_error" where
  "timeout_error msg = Errorf (''command '' @ m_CommandID msg @ '' timed out'')"

definition offline_error :: "string \<Rightarrow> go_error" where
  "offline_error agentID = Errorf (''agent '' @ agentID @ '' is offline'')"

definition sm_dispatch ::
  "'x dispatch_env \<Rightarrow> string \<Rightarrow> message \<Rightarrow> session_manager \<times> 'x \<Rightarrow>
   (session_manager \<times> 'x) \<times> message result" where
  "sm_dispatch env agentID msg = (\<lambda>(m, x).
     case sm_get agentID m of
       None \<Rightarrow> ((m, x), Inl (offline_error agentID))
     | Some session \<Rightarrow>
         (let (m1, wait) = sm_registerPending (m_CommandID msg) m in
          case env_send env of
            Some e \<Rightarrow> ((sm_cancelPending (m_CommandID msg) m1, x), Inl e)
          | None \<Rightarrow>
              (let (m2, x2) = env_others env (m1, x); c = sm_chans m2 ! wait in
               if env_timer env \<or> (ch_buf c = None \<and> \<not> ch_closed c)
               then ((sm_cancelPending (m_CommandID msg) m2, x2), Inl (timeout_error msg))
               else case ch_buf c of
                      None \<Rightarrow> ((m2, x2), Inl (cancelled_error msg))
                    | Some resp \<Rightarrow>
                        ((m2\<lparr>sm_chans := (sm_chans m2)[wait := c\<lparr>ch_buf := None\<rparr>]\<rparr>, x2), Inr resp))))"

end
