(* ===== verification/Admin_Auth.thy ===== *)
theory Admin_Auth
  imports Core_Client
begin

text \<open>
  The authentication of administrators in server/server.go: verifyCLIMessage and registerNonce,
  with the table of nonces as an association list. The clock is read twice in one verification,
  in verifyCLIMessage and again in registerNonce under authMu; both readings are arguments.
  Concurrent verifications touch nothing but the table, one critical section each, so a run of
  them is a list in the order in which they took the mutex.
\<close>

type_synonym nonces = "instant gomap"

definition nonce_cutoff :: "core_lib \<Rightarrow> instant \<Rightarrow> instant" where
  "nonce_cutoff L now = now + (- 2 * max_skew L)"

definition purge :: "instant \<Rightarrow> nonces \<Rightarrow> nonces" where
  "purge cutoff seen = filter (\<lambda>(key, seenAt). \<not> seenAt < cutoff) seen"

definition registerNonce :: "core_lib \<Rightarrow> instant \<Rightarrow> string \<Rightarrow> instant \<Rightarrow> nonces \<Rightarrow> nonces \<times> bool" where
  "registerNonce L now nonce msgTime seen =
     (let seen1 = purge (nonce_cutoff L now) seen in
      if map_of seen1 nonce \<noteq> None then (seen1, False)
      else (AList.update nonce msgTime seen1, True))"

definition verifyCLIMessage ::
  "core_lib \<Rightarrow> string \<Rightarrow> instant \<Rightarrow> instant \<Rightarrow> message \<Rightarrow> nonces \<Rightarrow> nonces \<times> go_error option" where
  "verifyCLIMessage L adminSecret now now' msg seen =
     (if TrimSpace adminSecret = [] then (seen, Some (Errorf ''server admin secret is not configured''))
      else if TrimSpace (m_AuthClientID msg) = [] then (seen, Some (Errorf ''missing auth client id''))
      else if TrimSpace (m_AuthNonce msg) = [] then (seen, Some (Errorf ''missing auth nonce''))
      else if TrimSpace (m_AuthSignature msg) = [] then (seen, Some (Errorf ''missing auth signature''))
      else let msgTime = time_Unix (m_AuthTimestamp msg) in
        if m_AuthTimestamp msg = 0 \<or> time_Sub now msgTime > max_skew L \<or> time_Sub msgTime now > max_skew L
        then (seen, Some (Errorf ''stale or invalid auth timestamp''))
        else case compute_signature L msg adminSecret of
               Inl e \<Rightarrow> (seen, Some e)
             | Inr expected \<Rightarrow>
                 (if expected \<noteq> m_AuthSignature msg then (seen, Some (Errorf ''invalid auth signature''))
                  else case registerNonce L now' (m_AuthNonce msg) msgTime seen of
                         (seen', ok) \<Rightarrow> (seen', if ok then None else Some (Errorf ''replayed auth nonce''))))"

text \<open>DefaultAuthMaxSkew is a constant of type Duration and -2 times it is one too.\<close>

definition skew_ok :: "core_lib \<Rightarrow> bool" where
  "skew_ok L \<longleftrightarrow> 0 \<le> max_skew L \<and> max_skew L < 2 ^ 62"

lemma sample_skew_ok: "skew_ok sample_lib"
  by (simp add: skew_ok_def sample_lib_def second_def)

section \<open>The table of nonces\<close>

lemma map_of_purge_keep: "map_of seen n = Some t \<Longrightarrow> c \<le> t \<Longrightarrow> map_of (purge c seen) n = Some t"
  unfolding purge_def by (induction seen) (auto split: if_splits)

lemma set_purge: "set (purge c seen) \<subseteq> set seen"
  by (auto simp: purge_def)

lemma purge_new: "(k, t) \<in> set (purge c seen) \<Longrightarrow> c \<le> t"
  by (auto simp: purge_def)

lemma set_update_other: "(k, t) \<in> set (AList.update n v m) \<Longrightarrow> k \<noteq> n \<Longrightarrow> (k, t) \<in> set m"
  by (induction m) (auto split: if_splits)

lemma registerNonce_keep:
  "map_of seen n = Some t \<Longrightarrow> nonce_cutoff L now \<le> t \<Longrightarrow>
   map_of (fst (registerNonce L now k u seen)) n = Some t"
  using map_of_purge_keep [of seen n t "nonce_cutoff L now"]
  by (auto simp: registerNonce_def Let_def update_conv')

lemma registerNonce_new: "registerNonce L now n t seen = (seen', True) \<Longrightarrow>
  map_of (purge (nonce_cutoff L now) seen) n = None \<and>
  seen' = AList.update n t (purge (nonce_cutoff L now) seen)"
  by (auto simp: registerNonce_def Let_def split: if_splits)

lemma verify_fst:
  "fst (verifyCLIMessage L s now now' msg seen) \<in>
     {seen, fst (registerNonce L now' (m_AuthNonce msg) (time_Unix (m_AuthTimestamp msg)) seen)}"
  by (auto simp: verifyCLIMessage_def Let_def split: sum.splits prod.splits)

lemma verify_keep:
  "map_of seen n = Some t \<Longrightarrow> nonce_cutoff L now' \<le> t \<Longrightarrow>
   map_of (fst (verifyCLIMessage L s now now' msg seen)) n = Some t"
  using verify_fst [of L s now now' msg seen] registerNonce_keep [of seen n t L now'] by auto

text \<open>What acceptance means, in full.\<close>

lemma verify_accepted:
  assumes "skew_ok L"
  shows "verifyCLIMessage L s now now' msg seen = (seen', None) \<longleftrightarrow>
    TrimSpace s \<noteq> [] \<and> TrimSpace (m_AuthClientID msg) \<noteq> [] \<and> TrimSpace (m_AuthNonce msg) \<noteq> [] \<and>
    TrimSpace (m_AuthSignature msg) \<noteq> [] \<and> m_AuthTimestamp msg \<noteq> 0 \<and>
    \<bar>now - time_Unix (m_AuthTimestamp msg)\<bar> \<le> max_skew L \<and>
    compute_signature L msg s = Inr (m_AuthSignature msg) \<and>
    map_of (purge (nonce_cutoff L now') seen) (m_AuthNonce msg) = None \<and>
    seen' = AList.update (m_AuthNonce msg) (time_Unix (m_AuthTimestamp msg)) (purge (nonce_cutoff L now') seen)"
proof -
  have sub: "time_Sub a b > max_skew L \<longleftrightarrow> a - b > max_skew L" for a b
    using assms by (intro time_Sub_greater) (auto simp: skew_ok_def)
  show ?thesis
    unfolding verifyCLIMessage_def Let_def sub
    by (auto simp: registerNonce_def Let_def split: sum.splits)
qed

section \<open>Runs of verifications\<close>

type_synonym auth_call = "instant \<times> instant \<times> message"

fun auth_seen :: "core_lib \<Rightarrow> string \<Rightarrow> auth_call list \<Rightarrow> nonces \<Rightarrow> nonces" where
  "auth_seen L s [] seen = seen"
| "auth_seen L s ((now, now', msg) # calls) seen =
     auth_seen L s calls (fst (verifyCLIMessage L s now now' msg seen))"

definition auth_accepts :: "core_lib \<Rightarrow> string \<Rightarrow> auth_call list \<Rightarrow> nonces \<Rightarrow> nat \<Rightarrow> bool" where
  "auth_accepts L s calls seen i \<longleftrightarrow>
     (case calls ! i of (now, now', msg) \<Rightarrow>
        snd (verifyCLIMessage L s now now' msg (auth_seen L s (take i calls) seen)) = None)"

text \<open>
  Reasonable clocks: the mutex is taken in the order of the readings under it, and at most
  DefaultAuthMaxSkew passes between the two readings of one verification.
\<close>

definition clocks_ok :: "core_lib \<Rightarrow> auth_call list \<Rightarrow> bool" where
  "clocks_ok L calls \<longleftrightarrow> sorted (map (\<lambda>(now, now', msg). now') calls) \<and>
     (\<forall>(now, now', msg) \<in> set calls. now' \<le> now + max_skew L)"

lemma auth_seen_append: "auth_seen L s (xs @ ys) seen = auth_seen L s ys (auth_seen L s xs seen)"
  by (induction L s xs seen rule: auth_seen.induct) auto

lemma auth_seen_keep:
  "map_of seen n = Some t \<Longrightarrow> (\<forall>(now, now', msg) \<in> set calls. nonce_cutoff L now' \<le> t) \<Longrightarrow>
   map_of (auth_seen L s calls seen) n = Some t"
  by (induction L s calls seen rule: auth_seen.induct) (auto intro: verify_keep)

lemma take_split: "i < j \<Longrightarrow> j \<le> length xs \<Longrightarrow> take j xs = take i xs @ xs ! i # take (j - i - 1) (drop (Suc i) xs)"
proof -
  assume i: "i < j" "j \<le> length xs"
  have "take j xs = take i xs @ take (j - i) (drop i xs)"
    using take_add [of i "j - i" xs] i by simp
  moreover have "drop i xs = xs ! i # drop (Suc i) xs" using i by (simp add: Cons_nth_drop_Suc)
  moreover have "j - i = Suc (j - i - 1)" using i by simp
  ultimately show ?thesis by (metis take_Suc_Cons)
qed

section \<open>Samples\<close>

definition unix_epoch :: instant where
  "unix_epoch = 62135596800 * second"

lemma seven: "Itoa 7 = ''7''"
  by code_simp

definition sample_request :: "string \<Rightarrow> 64 word \<Rightarrow> message" where
  "sample_request nonce t =
     (let m = (new_message CLIList)\<lparr>m_AuthClientID := ''c'', m_AuthTimestamp := t, m_AuthNonce := nonce\<rparr>
      in m\<lparr>m_AuthSignature := sample_sign m ''k''\<rparr>)"

lemma time_Unix_small: "0 \<le> t \<Longrightarrow> t < 2 ^ 60 \<Longrightarrow> time_Unix (word_of_int t) = unix_epoch + t * second"
  using time_Unix_unix_seconds [of "(t + 62135596800) * second"]
  by (simp add: unix_seconds_def unix_epoch_def algebra_simps)

lemma time_Unix_five: "time_Unix 5 = unix_epoch + 5 * second"
  using time_Unix_small [of 5] by simp

lemma sample_texts: "TrimSpace ''k'' = ''k''" "TrimSpace ''c'' = ''c''" "TrimSpace ''n1'' = ''n1''"
    "TrimSpace ''n2'' = ''n2''" "TrimSpace ''k/c/n1'' = ''k/c/n1''" "TrimSpace ''k/c/n2'' = ''k/c/n2''"
  by code_simp+

lemma sample_request_simps [simp]:
  "m_AuthNonce (sample_request n t) = n" "m_AuthTimestamp (sample_request n t) = t"
  "m_AuthClientID (sample_request n t) = ''c''" "m_AuthSignature (sample_request n t) = ''k/c/'' @ n"
  "compute_signature sample_lib (sample_request n t) ''k'' = Inr (''k/c/'' @ n)"
  "sample_sign (sample_request n t) ''k'' = ''k/c/'' @ n"
  by (simp_all add: sample_request_def sample_lib_def sample_sign_def)

lemma sample_request_ok:
  "TrimSpace ''k'' \<noteq> []" "TrimSpace ''c'' \<noteq> []" "TrimSpace (m_AuthClientID (sample_request n t)) \<noteq> []"
  "TrimSpace ''n1'' \<noteq> []" "TrimSpace ''n2'' \<noteq> []" "TrimSpace ''k/c/n1'' \<noteq> []" "TrimSpace ''k/c/n2'' \<noteq> []"
  "\<bar>unix_epoch + 5 * second - time_Unix 5\<bar> \<le> max_skew sample_lib"
  by (simp_all add: sample_texts time_Unix_five sample_lib_def second_def)

lemma verify_accepts_iff:
  assumes "skew_ok L"
  shows "snd (verifyCLIMessage L s now now' msg seen) = None \<longleftrightarrow>
    TrimSpace s \<noteq> [] \<and> TrimSpace (m_AuthClientID msg) \<noteq> [] \<and> TrimSpace (m_AuthNonce msg) \<noteq> [] \<and>
    TrimSpace (m_AuthSignature msg) \<noteq> [] \<and> m_AuthTimestamp msg \<noteq> 0 \<and>
    \<bar>now - time_Unix (m_AuthTimestamp msg)\<bar> \<le> max_skew L \<and>
    compute_signature L msg s = Inr (m_AuthSignature msg) \<and>
    map_of (purge (nonce_cutoff L now') seen) (m_AuthNonce msg) = None"
  using verify_accepted [OF assms, of s now now' msg seen] by (metis prod.collapse snd_conv)

section \<open>Properties\<close>

text \<open>
  A message is accepted exactly when the server has a secret, the message names
  its client and carries a nonce and a signature, its time stamp is set and at most
  DefaultAuthMaxSkew away from the server's clock, the signature is the one computed with the
  secret, and the nonce is not in the table after the purge; then the nonce is recorded.
\<close>

theorem auth_accepts_exactly:
  assumes "skew_ok L"
  shows "snd (verifyCLIMessage L s now now' msg seen) = None \<longleftrightarrow>
    TrimSpace s \<noteq> [] \<and> TrimSpace (m_AuthClientID msg) \<noteq> [] \<and> TrimSpace (m_AuthNonce msg) \<noteq> [] \<and>
    TrimSpace (m_AuthSignature msg) \<noteq> [] \<and> m_AuthTimestamp msg \<noteq> 0 \<and>
    \<bar>now - time_Unix (m_AuthTimestamp msg)\<bar> \<le> max_skew L \<and>
    compute_signature L msg s = Inr (m_AuthSignature msg) \<and>
    map_of (purge (nonce_cutoff L now') seen) (m_AuthNonce msg) = None"
  by (rule verify_accepts_iff [OF assms])

theorem auth_accepts_exactly_witness:
  "snd (verifyCLIMessage sample_lib ''k'' (unix_epoch + 5 * second) (unix_epoch + 5 * second)
      (sample_request ''n1'' 5) []) = None"
  using auth_accepts_exactly [OF sample_skew_ok, of "''k''" "unix_epoch + 5 * second" "unix_epoch + 5 * second"
      "sample_request ''n1'' 5" "[]"]
  by (simp add: sample_request_ok purge_def)

text \<open>
  Property C5. No message is accepted twice, however many verifications run: with clocks that
  do not run backwards under the mutex and less than DefaultAuthMaxSkew between the two readings
  of one verification, two accepted messages differ in their nonce or in their time stamp.
\<close>

theorem auth_no_replay:
  assumes "skew_ok L" and "clocks_ok L calls"
    and "i < j" and "j < length calls"
    and "calls ! i = (now1, now1', msg1)" and "calls ! j = (now2, now2', msg2)"
    and "auth_accepts L s calls seen i" and "auth_accepts L s calls seen j"
  shows "m_AuthNonce msg1 \<noteq> m_AuthNonce msg2 \<or> m_AuthTimestamp msg1 \<noteq> m_AuthTimestamp msg2"
proof (rule ccontr)
  let ?n = "m_AuthNonce msg1" and ?t = "time_Unix (m_AuthTimestamp msg1)"
  let ?mid = "take (j - i - 1) (drop (Suc i) calls)"
  let ?si = "auth_seen L s (take i calls) seen" and ?sj = "auth_seen L s (take j calls) seen"
  assume "\<not> ?thesis"
  then have same: "m_AuthNonce msg2 = ?n" "m_AuthTimestamp msg2 = m_AuthTimestamp msg1" by auto
  obtain s1 where a1: "verifyCLIMessage L s now1 now1' msg1 ?si = (s1, None)"
    using assms(5,7) by (cases "verifyCLIMessage L s now1 now1' msg1 ?si") (simp add: auth_accepts_def)
  obtain s2 where a2: "verifyCLIMessage L s now2 now2' msg2 ?sj = (s2, None)"
    using assms(6,8) by (cases "verifyCLIMessage L s now2 now2' msg2 ?sj") (simp add: auth_accepts_def)
  have "map_of s1 ?n = Some ?t"
    using a1 unfolding verify_accepted [OF assms(1)] by (simp add: update_conv')
  moreover have now2: "nonce_cutoff L now2' \<le> ?t"
  proof -
    have "(now2, now2', msg2) \<in> set calls" using assms(4,6) by (metis nth_mem)
    with assms(2) have "now2' \<le> now2 + max_skew L" by (auto simp: clocks_ok_def)
    moreover have "\<bar>now2 - ?t\<bar> \<le> max_skew L"
      using a2 same unfolding verify_accepted [OF assms(1)] by simp
    ultimately show ?thesis by (simp add: nonce_cutoff_def)
  qed
  moreover have "\<forall>(now, now', msg) \<in> set ?mid. nonce_cutoff L now' \<le> nonce_cutoff L now2'"
  proof
    fix x assume "x \<in> set ?mid"
    then have "\<exists>k. k < length ?mid \<and> x = ?mid ! k" by (metis in_set_conv_nth)
    then obtain k where k: "k < j - i - 1" "x = calls ! (Suc i + k)"
      using assms(4) by auto
    then have "sorted (map (\<lambda>(now, now', msg). now') calls)" "Suc i + k < j" "j < length calls"
      using assms(2-4) by (auto simp: clocks_ok_def)
    from sorted_nth_mono [OF this(1), of "Suc i + k" j] this(2,3) k(2) assms(6)
    show "case x of (now, now', msg) \<Rightarrow> nonce_cutoff L now' \<le> nonce_cutoff L now2'"
      by (auto simp: nonce_cutoff_def split: prod.splits)
  qed
  ultimately have "map_of (auth_seen L s ?mid s1) ?n = Some ?t"
    by (intro auth_seen_keep) fastforce+
  moreover have "?sj = auth_seen L s ?mid s1"
    using take_split [of i j calls] assms(3-5) a1 by (simp add: auth_seen_append)
  ultimately have "map_of ?sj ?n = Some ?t" by simp
  from map_of_purge_keep [OF this now2] a2 same show False
    unfolding verify_accepted [OF assms(1)] by simp
qed

theorem auth_no_replay_witness:
  "\<not> (m_AuthNonce (sample_request ''n1'' 5) = m_AuthNonce (sample_request ''n2'' 5) \<and>
      m_AuthTimestamp (sample_request ''n1'' 5) = m_AuthTimestamp (sample_request ''n2'' 5))"
proof -
  let ?t = "unix_epoch + 5 * second"
  let ?calls = "[(?t, ?t, sample_request ''n1'' 5), (?t, ?t, sample_request ''n2'' 5)]"
  have a: "verifyCLIMessage sample_lib ''k'' ?t ?t (sample_request ''n1'' 5) [] = ([(''n1'', ?t)], None)"
    unfolding verify_accepted [OF sample_skew_ok]
    by (simp add: sample_request_ok purge_def time_Unix_five sample_lib_def second_def)
  have b: "snd (verifyCLIMessage sample_lib ''k'' ?t ?t (sample_request ''n2'' 5) [(''n1'', ?t)]) = None"
    using verify_accepts_iff [OF sample_skew_ok, of "''k''" ?t ?t "sample_request ''n2'' 5"]
    by (simp add: sample_request_ok purge_def)
  have "clocks_ok sample_lib ?calls" by (simp add: clocks_ok_def sample_lib_def second_def)
  moreover have "auth_accepts sample_lib ''k'' ?calls [] 0" "auth_accepts sample_lib ''k'' ?calls [] 1"
    using a b by (simp_all add: auth_accepts_def)
  ultimately have "m_AuthNonce (sample_request ''n1'' 5) \<noteq> m_AuthNonce (sample_request ''n2'' 5) \<or>
      m_AuthTimestamp (sample_request ''n1'' 5) \<noteq> m_AuthTimestamp (sample_request ''n2'' 5)"
    by (intro auth_no_replay [OF sample_skew_ok, of ?calls 0 1]) simp_all
  then show ?thesis by blast
qed

text \<open>
  The bound on the time between the two readings is needed: when the second verification of a
  message is held up for longer than DefaultAuthMaxSkew before it takes the mutex, the nonce is
  purged just before it is looked up, and the replay is accepted.
\<close>

lemma auth_replay_when_delayed:
  "\<exists>calls. auth_accepts sample_lib ''k'' calls [] 0 \<and> auth_accepts sample_lib ''k'' calls [] 1 \<and>
     snd (snd (calls ! 0)) = snd (snd (calls ! 1)) \<and>
     sorted (map (\<lambda>(now, now', msg). now') calls) \<and> (\<forall>(now, now', msg) \<in> set calls. now \<le> now')"
proof -
  let ?t = "unix_epoch + 5 * second" and ?m = "sample_request ''n1'' 5"
  let ?calls = "[(?t, ?t, ?m), (?t + 300 * second, ?t + 601 * second, ?m)]"
  have a: "verifyCLIMessage sample_lib ''k'' ?t ?t ?m [] = ([(''n1'', ?t)], None)"
    unfolding verify_accepted [OF sample_skew_ok]
    by (simp add: sample_request_ok purge_def time_Unix_five sample_lib_def second_def)
  have b: "snd (verifyCLIMessage sample_lib ''k'' (?t + 300 * second) (?t + 601 * second) ?m [(''n1'', ?t)]) = None"
    using verify_accepts_iff [OF sample_skew_ok, of "''k''" "?t + 300 * second" "?t + 601 * second" ?m]
    by (simp add: sample_request_ok purge_def nonce_cutoff_def time_Unix_five sample_lib_def second_def)
  have "auth_accepts sample_lib ''k'' ?calls [] 0" "auth_accepts sample_lib ''k'' ?calls [] 1"
    using a b by (simp_all add: auth_accepts_def)
  moreover have "sorted (map (\<lambda>(now, now', msg). now') ?calls)" "\<forall>(now, now', msg) \<in> set ?calls. now \<le> now'"
    by (simp_all add: second_def)
  ultimately show ?thesis by (intro exI [of _ ?calls]) simp
qed

section \<open>The size of the table\<close>

text \<open>The checks of verifyCLIMessage that come before the table.\<close>

definition auth_reaches :: "core_lib \<Rightarrow> string \<Rightarrow> instant \<Rightarrow> message \<Rightarrow> bool" where
  "auth_reaches L s now msg \<longleftrightarrow>
     TrimSpace s \<noteq> [] \<and> TrimSpace (m_AuthClientID msg) \<noteq> [] \<and> TrimSpace (m_AuthNonce msg) \<noteq> [] \<and>
     TrimSpace (m_AuthSignature msg) \<noteq> [] \<and> m_AuthTimestamp msg \<noteq> 0 \<and>
     \<not> time_Sub now (time_Unix (m_AuthTimestamp msg)) > max_skew L \<and>
     \<not> time_Sub (time_Unix (m_AuthTimestamp msg)) now > max_skew L \<and>
     compute_signature L msg s = Inr (m_AuthSignature msg)"

lemma verify_reaches: "auth_reaches L s now msg \<Longrightarrow>
  verifyCLIMessage L s now now' msg seen =
    (case registerNonce L now' (m_AuthNonce msg) (time_Unix (m_AuthTimestamp msg)) seen of
       (seen', ok) \<Rightarrow> (seen', if ok then None else Some (Errorf ''replayed auth nonce'')))"
  by (simp add: verifyCLIMessage_def auth_reaches_def)

lemma verify_turned_away: "\<not> auth_reaches L s now msg \<Longrightarrow>
  \<exists>e. verifyCLIMessage L s now now' msg seen = (seen, Some e)"
  by (auto simp: verifyCLIMessage_def auth_reaches_def Let_def split: sum.split)

text \<open>The three ways a verification ends.\<close>

lemma verify_cases [consumes 1, case_names turned_away replayed accepted]:
  assumes "verifyCLIMessage L s now now' msg seen = (seen', e)"
  obtains "\<not> auth_reaches L s now msg" "e \<noteq> None" "seen' = seen"
  | "auth_reaches L s now msg" "e \<noteq> None" "seen' = purge (nonce_cutoff L now') seen"
  | "auth_reaches L s now msg" "e = None"
    "seen' = AList.update (m_AuthNonce msg) (time_Unix (m_AuthTimestamp msg)) (purge (nonce_cutoff L now') seen)"
proof (cases "auth_reaches L s now msg")
  case False
  then show ?thesis using that(1) verify_turned_away [of L s now msg now' seen] assms by auto
next
  case True
  then show ?thesis using that(2,3) assms
    by (auto simp: verify_reaches registerNonce_def Let_def split: if_splits)
qed

lemma verify_window:
  assumes "verifyCLIMessage L s now now' msg seen = (seen', e)"
  shows "(auth_reaches L s now msg \<longrightarrow> (\<forall>(k, t) \<in> set seen'.
      now' - 2 * max_skew L \<le> t \<or> e = None \<and> k = m_AuthNonce msg)) \<and>
    (e \<noteq> None \<longrightarrow> set seen' \<subseteq> set seen) \<and> (\<not> auth_reaches L s now msg \<longrightarrow> e \<noteq> None \<and> seen' = seen)"
  using assms
proof (cases rule: verify_cases)
  case replayed
  then show ?thesis using set_purge by (fastforce simp: nonce_cutoff_def dest: purge_new)
next
  case accepted
  have "now' - 2 * max_skew L \<le> t \<or> k = m_AuthNonce msg" if "(k, t) \<in> set seen'" for k t
    using that accepted(3) by (auto simp: nonce_cutoff_def dest: set_update_other purge_new)
  with accepted show ?thesis by auto
qed auto

text \<open>
  Every entry is the one of an accepted message of the run, and no two have the same nonce.
\<close>

definition stamp_of :: "auth_call \<Rightarrow> string \<times> instant" where
  "stamp_of c = (case c of (now, now', msg) \<Rightarrow> (m_AuthNonce msg, time_Unix (m_AuthTimestamp msg)))"

lemma distinct_purge: "distinct (map fst seen) \<Longrightarrow> distinct (map fst (purge c seen))"
  unfolding purge_def by (induction seen) auto

lemma set_update_cases: "x \<in> set (AList.update n v m) \<Longrightarrow> x = (n, v) \<or> x \<in> set m"
  by (induction m) (auto split: if_splits)

lemma verify_distinct:
  assumes "distinct (map fst seen)"
  shows "distinct (map fst (fst (verifyCLIMessage L s now now' msg seen)))"
proof -
  obtain seen' e where v: "verifyCLIMessage L s now now' msg seen = (seen', e)" by (metis surj_pair)
  then show ?thesis
    by (cases rule: verify_cases) (simp_all add: v assms distinct_purge distinct_update)
qed

lemma verify_entries:
  assumes "x \<in> set (fst (verifyCLIMessage L s now now' msg seen))"
  shows "x \<in> set seen \<or> snd (verifyCLIMessage L s now now' msg seen) = None \<and> x = stamp_of (now, now', msg)"
proof -
  obtain seen' e where v: "verifyCLIMessage L s now now' msg seen = (seen', e)" by (metis surj_pair)
  then show ?thesis
    by (cases rule: verify_cases) (use assms v set_purge in \<open>auto simp: stamp_of_def dest!: set_update_cases\<close>)
qed

lemma auth_seen_distinct: "distinct (map fst seen) \<Longrightarrow> distinct (map fst (auth_seen L s calls seen))"
  by (induction L s calls seen rule: auth_seen.induct) (simp_all add: verify_distinct)

lemma auth_accepts_prefix: "i < length xs \<Longrightarrow> auth_accepts L s (xs @ ys) seen i = auth_accepts L s xs seen i"
  by (simp add: auth_accepts_def nth_append)

lemma auth_seen_entries: "x \<in> set (auth_seen L s calls []) \<Longrightarrow>
  \<exists>i < length calls. auth_accepts L s calls [] i \<and> x = stamp_of (calls ! i)"
proof (induction calls rule: rev_induct)
  case (snoc c calls)
  obtain now now' msg where c: "c = (now, now', msg)" by (cases c)
  have "x \<in> set (auth_seen L s calls []) \<or>
      auth_accepts L s (calls @ [c]) [] (length calls) \<and> x = stamp_of c"
    using snoc.prems verify_entries [of x L s now now' msg "auth_seen L s calls []"]
    by (simp add: auth_seen_append auth_accepts_def c)
  then show ?case
  proof
    assume "x \<in> set (auth_seen L s calls [])"
    then obtain i where "i < length calls" "auth_accepts L s calls [] i" "x = stamp_of (calls ! i)"
      using snoc.IH by blast
    then show ?thesis by (intro exI [of _ i]) (simp add: auth_accepts_prefix nth_append)
  next
    assume "auth_accepts L s (calls @ [c]) [] (length calls) \<and> x = stamp_of c"
    then show ?thesis by (intro exI [of _ "length calls"]) simp
  qed
qed simp

lemma purged_size: "length (purge c (auth_seen L s calls [])) \<le>
    card {i. i < length calls \<and> auth_accepts L s calls [] i \<and> c \<le> snd (stamp_of (calls ! i))}"
  (is "length ?p \<le> card ?I")
proof -
  have "x \<in> (\<lambda>i. stamp_of (calls ! i)) ` ?I" if x: "x \<in> set ?p" for x
  proof -
    have "x \<in> set (auth_seen L s calls [])" using x set_purge by blast
    then obtain i where i: "i < length calls" "auth_accepts L s calls [] i" "x = stamp_of (calls ! i)"
      using auth_seen_entries by blast
    moreover have "c \<le> snd x" using x purge_new [of "fst x" "snd x"] by simp
    ultimately show ?thesis by blast
  qed
  then have "card (set ?p) \<le> card ?I" by (intro surj_card_le) auto
  moreover have "distinct ?p"
    using distinct_purge [OF auth_seen_distinct [of "[]" L s calls]] distinct_map by auto
  ultimately show ?thesis by (simp add: distinct_card)
qed

lemma length_update: "length (AList.update n v m) \<le> Suc (length m)"
  by (induction m) auto

text \<open>
  Property C40. The table of nonces does not grow without bound. A verification reaches the table
  when it has passed the other checks. After one that did, at time \<open>now'\<close>, accepted or refused as
  a replay, no entry is older than twice DefaultAuthMaxSkew, but for the one just made; a refused
  message adds none, and one that did not reach the table changes nothing. So, from the start of the
  server, the table has at most as many entries as messages were accepted whose time stamp is not
  older than that, and the last message.
\<close>

theorem auth_table_window:
  assumes "verifyCLIMessage L s now now' msg (auth_seen L s calls []) = (seen', e)"
  shows "(auth_reaches L s now msg \<longrightarrow>
      (\<forall>(k, t) \<in> set seen'. now' - 2 * max_skew L \<le> t \<or> e = None \<and> k = m_AuthNonce msg) \<and>
      length seen' \<le> (if e = None then 1 else 0) + card {i. i < length calls \<and>
        auth_accepts L s calls [] i \<and> now' - 2 * max_skew L \<le> snd (stamp_of (calls ! i))}) \<and>
    (e \<noteq> None \<longrightarrow> set seen' \<subseteq> set (auth_seen L s calls [])) \<and>
    (\<not> auth_reaches L s now msg \<longrightarrow> e \<noteq> None \<and> seen' = auth_seen L s calls [])"
proof -
  have "length seen' \<le> (if e = None then 1 else 0) + card {i. i < length calls \<and>
        auth_accepts L s calls [] i \<and> now' - 2 * max_skew L \<le> snd (stamp_of (calls ! i))}"
    if "auth_reaches L s now msg"
    using assms
  proof (cases rule: verify_cases)
    case replayed
    then show ?thesis using purged_size [of "nonce_cutoff L now'" L s calls] by (simp add: nonce_cutoff_def)
  next
    case accepted
    then show ?thesis
      using purged_size [of "nonce_cutoff L now'" L s calls]
        length_update [of "m_AuthNonce msg" _ "purge (nonce_cutoff L now') (auth_seen L s calls [])"]
      by (auto simp: nonce_cutoff_def intro: le_trans)
  qed (use that in simp)
  with verify_window [OF assms] show ?thesis by blast
qed

theorem auth_table_window_witness:
  "\<exists>seen'. verifyCLIMessage sample_lib ''k'' (unix_epoch + 5 * second) (unix_epoch + 5 * second)
      (sample_request ''n1'' 5) (auth_seen sample_lib ''k''
        [(unix_epoch + 5 * second, unix_epoch + 5 * second, sample_request ''n1'' 5)] []) =
        (seen', Some (Errorf ''replayed auth nonce'')) \<and> length seen' \<le> 1"
proof -
  let ?t = "unix_epoch + 5 * second" and ?m = "sample_request ''n1'' 5"
  let ?calls = "[(?t, ?t, ?m)]"
  have a: "verifyCLIMessage sample_lib ''k'' ?t ?t ?m [] = ([(''n1'', ?t)], None)"
    unfolding verify_accepted [OF sample_skew_ok]
    by (simp add: sample_request_ok purge_def time_Unix_five sample_lib_def second_def)
  have r: "auth_reaches sample_lib ''k'' ?t ?m"
    by (simp add: auth_reaches_def sample_request_ok time_Unix_five time_Sub_def sample_lib_def second_def)
  have c: "\<not> (?t < nonce_cutoff sample_lib ?t)" by (simp add: nonce_cutoff_def sample_lib_def second_def)
  have v: "verifyCLIMessage sample_lib ''k'' ?t ?t ?m (auth_seen sample_lib ''k'' ?calls []) =
      ([(''n1'', ?t)], Some (Errorf ''replayed auth nonce''))"
    using verify_reaches [OF r, of ?t "[(''n1'', ?t)]"] a
    by (simp add: registerNonce_def purge_def c)
  have "length [(''n1'', ?t)] \<le> card {i. i < length ?calls \<and>
      auth_accepts sample_lib ''k'' ?calls [] i \<and> ?t - 2 * max_skew sample_lib \<le> snd (stamp_of (?calls ! i))}"
    using auth_table_window [OF v] r by simp
  also have "\<dots> \<le> card {i. i < length ?calls}" by (rule card_mono) auto
  finally have "length [(''n1'', ?t)] \<le> 1" by simp
  with v show ?thesis by blast
qed

lemma signed_accepted:
  assumes "skew_ok L" and "signing_ok L"
    and "cl_signMessage L (Inr nonce) now c msg = Inr req"
    and "TrimSpace (cl_ID c) \<noteq> []" and "TrimSpace nonce \<noteq> []"
    and "map_of seen nonce = None" and "unix_seconds now \<noteq> 0"
    and "\<bar>now\<bar> < 2 ^ 62 * second" and "\<bar>server_now - now\<bar> \<le> max_skew L - second"
  shows "snd (verifyCLIMessage L (cl_AdminSecret c) server_now server_now' req seen) = None"
proof -
  let ?m = "msg\<lparr>m_AuthClientID := cl_ID c, m_AuthTimestamp := unix_seconds now, m_AuthNonce := nonce\<rparr>"
  have secret: "TrimSpace (cl_AdminSecret c) \<noteq> []" and sg: "sign_message L ?m (cl_AdminSecret c) = Inr req"
    using assms(3) by (auto simp: cl_signMessage_def split: if_splits)
  then have r: "compute_signature L req (cl_AdminSecret c) = Inr (m_AuthSignature req)"
    "TrimSpace (m_AuthSignature req) \<noteq> []" "req = ?m\<lparr>m_AuthSignature := m_AuthSignature req\<rparr>"
    using assms(2) unfolding signing_ok_def by blast+
  have f: "m_AuthClientID req = cl_ID c" "m_AuthTimestamp req = unix_seconds now" "m_AuthNonce req = nonce"
    by (subst r(3), simp)+
  have "- (2 ^ 62) \<le> now div second" "now div second < 2 ^ 62"
    using assms(8) by (auto simp: second_def)
  then have t: "time_Unix (unix_seconds now) = now div second * second"
    by (intro time_Unix_unix_seconds) simp_all
  have "\<bar>server_now - time_Unix (m_AuthTimestamp req)\<bar> \<le> max_skew L"
    unfolding f t using floor_second [of now] assms(9) second_pos by linarith
  moreover have "map_of (purge (nonce_cutoff L server_now') seen) nonce = None"
    using assms(6) set_purge by (fastforce simp: map_of_eq_None_iff)
  ultimately show ?thesis
    using secret r assms(4,5,7) by (simp add: verify_accepts_iff [OF assms(1)] f)
qed

text \<open>
  Property C21. What core/client.go signs, the server accepts: same secret, nonce not used, and
  clocks that differ by at most DefaultAuthMaxSkew less one second (the time stamp is cut to
  seconds).
\<close>

theorem client_message_accepted:
  assumes "skew_ok L" and "signing_ok L"
    and "cl_signMessage L (Inr nonce) now c msg = Inr req"
    and "TrimSpace (cl_ID c) \<noteq> []" and "TrimSpace nonce \<noteq> []"
    and "map_of seen nonce = None" and "unix_seconds now \<noteq> 0"
    and "\<bar>now\<bar> < 2 ^ 62 * second" and "\<bar>server_now - now\<bar> \<le> max_skew L - second"
  shows "snd (verifyCLIMessage L (cl_AdminSecret c) server_now server_now' req seen) = None"
  using assms by (rule signed_accepted)

theorem client_message_accepted_witness:
  "\<exists>req. cl_signMessage sample_lib (Inr ''n1'') (unix_epoch + 5 * second) (NewClient 7 ''k'' [] 0)
       (new_message CLIList) = Inr req \<and>
     snd (verifyCLIMessage sample_lib ''k'' (unix_epoch + 6 * second) (unix_epoch + 6 * second) req []) = None"
proof -
  let ?now = "unix_epoch + 5 * second" and ?c = "NewClient 7 ''k'' [] 0"
  have i: "cl_ID ?c = ''client-7''"
    using seven by (simp add: NewClient_def)
  have tr: "TrimSpace ''client-7'' \<noteq> []" "TrimSpace (''k/client-7/n1'') \<noteq> []" by code_simp+
  have k: "cl_AdminSecret ?c = ''k''" by (simp add: NewClient_def)
  obtain req where s: "cl_signMessage sample_lib (Inr ''n1'') ?now ?c (new_message CLIList) = Inr req"
    using tr by (auto simp: cl_signMessage_def sample_lib_def sample_sign_def sample_texts k i)
  have u: "unix_seconds ?now = 5"
    by (simp add: unix_seconds_def unix_epoch_def flip: distrib_right)
  have "snd (verifyCLIMessage sample_lib (cl_AdminSecret ?c) (unix_epoch + 6 * second) (unix_epoch + 6 * second) req []) = None"
    by (rule client_message_accepted [OF sample_skew_ok sample_lib_ok(2) s])
      (simp_all add: i tr sample_texts u sample_lib_def, simp_all add: unix_epoch_def second_def)
  with s show ?thesis by (auto simp: k)
qed

text \<open>
  NewServer trims the secret it is given and the client does not: with one trailing
  space in the configured secret, what the client signs is refused.
\<close>

theorem untrimmed_secret_refused:
  "\<exists>req. cl_signMessage sample_lib (Inr ''n1'') (unix_epoch + 5 * second) (NewClient 7 ''k '' [] 0)
       (new_message CLIList) = Inr req \<and>
     snd (verifyCLIMessage sample_lib (TrimSpace ''k '') (unix_epoch + 5 * second) (unix_epoch + 5 * second) req []) =
       Some (Errorf ''invalid auth signature'')"
proof -
  let ?now = "unix_epoch + 5 * second" and ?c = "NewClient 7 ''k '' [] 0"
  have i: "cl_ID ?c = ''client-7''"
    using seven by (simp add: NewClient_def)
  have tr: "TrimSpace ''client-7'' \<noteq> []" "TrimSpace ''k /client-7/n1'' \<noteq> []" "TrimSpace ''k '' = ''k''" by code_simp+
  have k: "cl_AdminSecret ?c = ''k ''" by (simp add: NewClient_def)
  have u: "unix_seconds ?now = 5"
    by (simp add: unix_seconds_def unix_epoch_def flip: distrib_right)
  let ?m = "(new_message CLIList)\<lparr>m_AuthClientID := ''client-7'', m_AuthTimestamp := 5, m_AuthNonce := ''n1'',
     m_AuthSignature := ''k /client-7/n1''\<rparr>"
  have s: "cl_signMessage sample_lib (Inr ''n1'') ?now ?c (new_message CLIList) = Inr ?m"
    using tr by (simp add: cl_signMessage_def sample_lib_def sample_sign_def k i u)
  moreover have "snd (verifyCLIMessage sample_lib (TrimSpace ''k '') ?now ?now ?m []) =
       Some (Errorf ''invalid auth signature'')"
    by (simp add: verifyCLIMessage_def tr sample_texts time_Unix_five time_Sub_def sample_lib_def sample_sign_def second_def)
  ultimately show ?thesis by blast
qed

end
