(* ===== verification/Server_Core.thy ===== *)
theory Server_Core
  imports Group_Store Plugin_Store Power_Shell Session_Manager Admin_Auth
begin

text \<open>
  server/server.go: the server and its handlers. A handler is a function of the server's state
  and of what the call meets outside (\<open>srv_env\<close>: clock readings, fresh identifiers, iteration
  orders, outcomes of writes and what happens while a dispatch waits); it returns the state and
  the messages it sent on the connection it serves. Errors of these sends are ignored by the
  code. The large switch of handleCLIMessage is split by families of message types.
\<close>

record 'r server =
  sv_adminSecret :: string
  sv_seenNonces :: nonces
  sv_registry :: 'r
  sv_plugins :: plugin_store
  sv_groups :: group_store
  sv_disk :: disk
  sv_sessions :: session_manager

text \<open>What the server is linked with: package core, the registry, the file formats.\<close>

record 'r srv_lib =
  lib_core :: core_lib
  lib_registry :: "'r registry_lib"
  lib_paths :: filepath_lib
  lib_groups :: "string list codec"
  lib_plugins :: "plugin_record list codec"
  lib_packages :: "package list codec"

record 'r srv_env =
  ev_now :: instant
  ev_now_locked :: instant \<comment> \<open>the reading in registerNonce\<close>
  ev_stamp :: instant \<comment> \<open>the readings after authentication\<close>
  ev_order :: map_order
  ev_write :: write_outcome
  ev_request_id :: string
  ev_command_id :: string
  ev_dispatch :: "'r server dispatch_env"

type_synonym 'r handled = "'r server \<times> message list"

definition err_reply :: "go_error \<Rightarrow> message" where
  "err_reply e = (new_message ServerError)\<lparr>m_Error := error_text e\<rparr>"

definition ok_reply :: "string \<Rightarrow> message" where
  "ok_reply result = (new_message ServerExecResult)\<lparr>m_Result := result, m_Success := True\<rparr>"

text \<open>The pattern of the handlers that change a store: an error reply, or a line of success.\<close>

definition reply_line :: "go_error option \<Rightarrow> string \<Rightarrow> message list" where
  "reply_line e result = [case e of Some x \<Rightarrow> err_reply x | None \<Rightarrow> ok_reply result]"

section \<open>Starting up\<close>

definition defaultPluginStorePath :: "filepath_lib \<Rightarrow> string \<Rightarrow> string" where
  "defaultPluginStorePath fp registryPath =
     (let dir = fp_Dir fp registryPath in
      if dir = ''.'' \<or> dir = [] then ''plugins.json'' else fp_Join fp [dir, ''plugins.json''])"

definition defaultGroupStorePath :: "filepath_lib \<Rightarrow> string \<Rightarrow> string" where
  "defaultGroupStorePath fp registryPath =
     (let dir = fp_Dir fp registryPath in
      if dir = ''.'' \<or> dir = [] then ''groups.json'' else fp_Join fp [dir, ''groups.json''])"

definition NewServer ::
  "'r srv_lib \<Rightarrow> (string \<Rightarrow> disk \<Rightarrow> 'r result) \<Rightarrow> go_error option \<Rightarrow> string \<Rightarrow> string \<Rightarrow> disk \<Rightarrow> 'r server result" where
  "NewServer B newRegistry mk registryPath adminSecret fs =
     (case newRegistry registryPath fs of
        Inl e \<Rightarrow> Inl e
      | Inr reg \<Rightarrow>
          (case newPluginStore (lib_core B) (lib_paths B) (lib_plugins B) (lib_packages B) mk
                  (defaultPluginStorePath (lib_paths B) registryPath) fs of
             Inl e \<Rightarrow> Inl e
           | Inr plugins \<Rightarrow>
               (case newGroupStore (lib_paths B) (lib_groups B) mk
                       (defaultGroupStorePath (lib_paths B) registryPath) fs of
                  Inl e \<Rightarrow> Inl e
                | Inr groups \<Rightarrow>
                    Inr \<lparr>sv_adminSecret = TrimSpace adminSecret, sv_seenNonces = [], sv_registry = reg,
                         sv_plugins = plugins, sv_groups = groups, sv_disk = fs,
                         sv_sessions = newSessionManager\<rparr>)))"

section \<open>Entries and commands\<close>

definition cloneEntry :: "entry option \<Rightarrow> entry option" where
  "cloneEntry e = map_option (\<lambda>x. x\<lparr>e_Commands := [] @ e_Commands x, e_Tags := [] @ e_Tags x,
     e_Groups := [] @ e_Groups x\<rparr>) e"

fun merge_loop :: "string list \<Rightarrow> string list \<Rightarrow> string list" where
  "merge_loop commands [] = commands"
| "merge_loop commands (c # cs) =
     (let command = TrimSpace c in
      if command = [] \<or> command \<in> set commands then merge_loop commands cs
      else merge_loop (commands @ [command]) cs)"

definition mergeCommands :: "string list \<Rightarrow> string list \<Rightarrow> string list" where
  "mergeCommands base extra = sort (merge_loop [] (base @ extra))"

definition cloneEntryWithPlugins :: "core_lib \<Rightarrow> map_order \<Rightarrow> plugin_store \<Rightarrow> entry option \<Rightarrow> entry option" where
  "cloneEntryWithPlugins L ord ps e =
     map_option (\<lambda>cloned. cloned\<lparr>e_Commands := mergeCommands (e_Commands cloned) (ps_commandNames L ord ps)\<rparr>)
       (cloneEntry e)"

section \<open>Messages of administrators\<close>

definition handle_inventory :: "'r srv_lib \<Rightarrow> 'r srv_env \<Rightarrow> message \<Rightarrow> 'r server \<Rightarrow> 'r handled" where
  "handle_inventory B ev msg s =
     (let L = lib_core B; R = lib_registry B; ord = ev_order ev in
      if m_Type msg = CLIList
      then (s, [(new_message ServerListResult)\<lparr>m_Agents :=
                  List.map_filter (\<lambda>e. cloneEntryWithPlugins L ord (sv_plugins s) (Some e)) (reg_List R (sv_registry s)),
                  m_Success := True\<rparr>])
      else case reg_Get R (sv_registry s) (m_AgentID msg) of
             Inl e \<Rightarrow> (s, [err_reply e])
           | Inr entry \<Rightarrow>
               (s, [(new_message ServerInfoResult)\<lparr>
                      m_Agent := cloneEntryWithPlugins L ord (sv_plugins s) (Some entry),
                      m_Commands := mergeCommands (e_Commands entry) (ps_commandNames L ord (sv_plugins s)),
                      m_Success := True\<rparr>]))"

text \<open>dispatch of server/session.go on the server's state.\<close>

definition sv_dispatch ::
  "'r srv_env \<Rightarrow> string \<Rightarrow> message \<Rightarrow> 'r server \<Rightarrow> 'r server \<times> message result" where
  "sv_dispatch ev agentID msg s =
     (case sm_dispatch (ev_dispatch ev) agentID msg (sv_sessions s, s) of
        ((m, s'), r) \<Rightarrow> (s'\<lparr>sv_sessions := m\<rparr>, r))"

text \<open>The message the exec handler sends to the agent, or the error it reports.\<close>

definition exec_request ::
  "'r srv_lib \<Rightarrow> 'r srv_env \<Rightarrow> message \<Rightarrow> 'r server \<Rightarrow> message result" where
  "exec_request B ev msg s =
     (let dispatch = (new_message ServerExec)\<lparr>m_RequestID := ev_request_id ev, m_CommandID := ev_command_id ev,
                       m_AgentID := m_AgentID msg, m_Command := m_Command msg, m_Args := m_Args msg,
                       m_Timestamp := ev_stamp ev\<rparr>
      in case ps_findCommand (ev_order ev) (sv_plugins s) (m_Command msg) of
           None \<Rightarrow> Inr dispatch
         | Some pkg \<Rightarrow>
             (case buildPluginPowerShell (lib_core B) (lib_paths B) pkg (m_Args msg) of
                Inl e \<Rightarrow> Inl e
              | Inr script \<Rightarrow>
                  Inr (dispatch\<lparr>m_Command := ''superexec'', m_Args := [''powershell'', script],
                                m_TrustedAdmin := True\<rparr>)))"

definition exec_reply :: "message \<Rightarrow> message \<Rightarrow> message" where
  "exec_reply msg resp =
     (new_message ServerExecResult)\<lparr>m_CommandID := m_CommandID resp, m_AgentID := m_AgentID msg,
        m_Result := m_Result resp, m_Error := m_Error resp, m_Success := m_Success resp\<rparr>"

definition handle_exec :: "'r srv_lib \<Rightarrow> 'r srv_env \<Rightarrow> message \<Rightarrow> 'r server \<Rightarrow> 'r handled" where
  "handle_exec B ev msg s =
     (case exec_request B ev msg s of
        Inl e \<Rightarrow> (s, [err_reply e])
      | Inr dispatch \<Rightarrow>
          (case sv_dispatch ev (m_AgentID msg) dispatch s of
             (s', Inl e) \<Rightarrow> (s', [err_reply e])
           | (s', Inr resp) \<Rightarrow> (s', [exec_reply msg resp])))"

definition set_plugins :: "plugin_state \<Rightarrow> 'r server \<Rightarrow> 'r server" where
  "set_plugins st s = s\<lparr>sv_plugins := fst st, sv_disk := snd st\<rparr>"

definition plugins_changed :: "'r server \<Rightarrow> plugin_state \<times> go_error option \<Rightarrow> string \<Rightarrow> 'r handled" where
  "plugins_changed s r result = (set_plugins (fst r) s, reply_line (snd r) result)"

definition handle_plugins :: "'r srv_lib \<Rightarrow> 'r srv_env \<Rightarrow> message \<Rightarrow> 'r server \<Rightarrow> 'r handled" where
  "handle_plugins B ev msg s =
     (let L = lib_core B; J = lib_plugins B; ord = ev_order ev; w = ev_write ev;
          st = (sv_plugins s, sv_disk s); name = m_PluginName msg
      in case m_Type msg of
           CLIPluginList \<Rightarrow>
             (s, [(new_message ServerPluginList)\<lparr>m_Plugins := ps_list ord (sv_plugins s), m_Success := True\<rparr>])
         | CLIPluginInstall \<Rightarrow>
             plugins_changed s (ps_install L J ord w (m_Plugin msg) st)
               (case m_Plugin msg of
                  None \<Rightarrow> []
                | Some p \<Rightarrow> (case validate L p of
                     Inl e \<Rightarrow> []
                   | Inr q \<Rightarrow> ''plugin '' @ pk_Name q @ '' '' @ pk_Version q @ '' installed''))
         | CLIPluginEnable \<Rightarrow> plugins_changed s (ps_setEnabled J ord w name True st) (''plugin '' @ name @ '' enabled'')
         | CLIPluginDisable \<Rightarrow> plugins_changed s (ps_setEnabled J ord w name False st) (''plugin '' @ name @ '' disabled'')
         | CLIPluginVersions \<Rightarrow>
             (case ps_versions (sv_plugins s) name of
                Inl e \<Rightarrow> (s, [err_reply e])
              | Inr vs \<Rightarrow> (s, [(new_message ServerPluginList)\<lparr>m_Plugins := vs, m_Success := True\<rparr>]))
         | CLIPluginRollback \<Rightarrow>
             plugins_changed s (ps_rollback J ord w name (m_PluginVersion msg) st)
               (''plugin '' @ name @ '' rolled back to '' @ m_PluginVersion msg)
         | _ \<Rightarrow> plugins_changed s (ps_remove J ord w name st) (''plugin '' @ name @ '' removed''))"

definition set_groups :: "group_state \<Rightarrow> 'r server \<Rightarrow> 'r server" where
  "set_groups st s = s\<lparr>sv_groups := fst st, sv_disk := snd st\<rparr>"

definition handle_groups :: "'r srv_lib \<Rightarrow> 'r srv_env \<Rightarrow> message \<Rightarrow> 'r server \<Rightarrow> 'r handled" where
  "handle_groups B ev msg s =
     (let R = lib_registry B; J = lib_groups B; ord = ev_order ev; w = ev_write ev;
          st = (sv_groups s, sv_disk s); name = m_GroupName msg
      in case m_Type msg of
           CLIGroupList \<Rightarrow>
             (s, [(new_message ServerListResult)\<lparr>m_Groups := gs_list ord (sv_groups s), m_Success := True\<rparr>])
         | CLIGroupCreate \<Rightarrow>
             (case gs_create J ord w name st of (st', e) \<Rightarrow>
                (set_groups st' s, reply_line e (''group '' @ name @ '' created'')))
         | CLIGroupDelete \<Rightarrow>
             (case gs_delete J ord w name st of
                (st', Some e) \<Rightarrow> (set_groups st' s, [err_reply e])
              | (st', None) \<Rightarrow>
                  ((set_groups st' s)\<lparr>sv_registry :=
                     fold (\<lambda>entry r. fst (reg_RemoveGroup R (e_ID entry) name r))
                       (reg_List R (sv_registry s)) (sv_registry s)\<rparr>,
                   [ok_reply (''group '' @ name @ '' deleted'')]))
         | CLIGroupAdd \<Rightarrow>
             (case gs_create J ord w name st of
                (st', Some e) \<Rightarrow> (set_groups st' s, [err_reply e])
              | (st', None) \<Rightarrow>
                  (case reg_AddGroup R (m_AgentID msg) name (sv_registry s) of (r, e) \<Rightarrow>
                     ((set_groups st' s)\<lparr>sv_registry := r\<rparr>,
                      reply_line e (''agent '' @ m_AgentID msg @ '' added to group '' @ name))))
         | _ \<Rightarrow>
             (case reg_RemoveGroup R (m_AgentID msg) name (sv_registry s) of (r, e) \<Rightarrow>
                (s\<lparr>sv_registry := r\<rparr>,
                 reply_line e (''agent '' @ m_AgentID msg @ '' removed from group '' @ name))))"

definition handle_tags :: "'r srv_lib \<Rightarrow> message \<Rightarrow> 'r server \<Rightarrow> 'r handled" where
  "handle_tags B msg s =
     (let R = lib_registry B; a = m_AgentID msg in
      case (case m_Type msg of
              CLITagSet \<Rightarrow> (reg_SetTags R a (m_Tags msg) (sv_registry s), ''tags updated for '' @ a)
            | CLITagAdd \<Rightarrow> (reg_AddTags R a (m_Tags msg) (sv_registry s), ''tags added to '' @ a)
            | _ \<Rightarrow> (reg_RemoveTags R a (m_Tags msg) (sv_registry s), ''tags removed from '' @ a)) of
        ((r, e), line) \<Rightarrow> (s\<lparr>sv_registry := r\<rparr>, reply_line e line))"

definition handle_ping :: "'r srv_env \<Rightarrow> message \<Rightarrow> 'r server \<Rightarrow> 'r handled" where
  "handle_ping ev msg s =
     (if m_AgentID msg = []
      then (s, [(new_message ServerPingResult)\<lparr>m_Result := ''pong'', m_Success := True\<rparr>])
      else case sv_dispatch ev (m_AgentID msg) ((new_message ServerPing)
                  \<lparr>m_RequestID := ev_request_id ev, m_CommandID := ev_command_id ev,
                   m_AgentID := m_AgentID msg, m_Timestamp := ev_stamp ev\<rparr>) s of
             (s', Inl e) \<Rightarrow> (s', [err_reply e])
           | (s', Inr resp) \<Rightarrow>
               (s', [(new_message ServerPingResult)\<lparr>m_CommandID := m_CommandID resp, m_AgentID := m_AgentID msg,
                       m_Result := m_Result resp, m_Status := m_Status resp, m_Success := m_Success resp\<rparr>]))"

text \<open>The registry update that follows the status in an agent's answer to a control message.\<close>

definition leaving :: "string \<Rightarrow> bool" where
  "leaving status \<longleftrightarrow> status = ''stopping'' \<or> status = ''restarting''"

definition control_update :: "'r srv_lib \<Rightarrow> instant \<Rightarrow> string \<Rightarrow> string \<Rightarrow> 'r server \<Rightarrow> 'r server" where
  "control_update B now agentID status s =
     (if status = [] then s
      else case reg_Get (lib_registry B) (sv_registry s) agentID of
             Inl e \<Rightarrow> s
           | Inr entry \<Rightarrow>
               s\<lparr>sv_registry := fst (reg_Register (lib_registry B) now
                   (entry\<lparr>e_Status := status, e_Connected := \<not> leaving status\<rparr>) (sv_registry s))\<rparr>)"

definition handle_control :: "'r srv_lib \<Rightarrow> 'r srv_env \<Rightarrow> message \<Rightarrow> 'r server \<Rightarrow> 'r handled" where
  "handle_control B ev msg s =
     (case sv_dispatch ev (m_AgentID msg) ((new_message ServerControl)
             \<lparr>m_RequestID := ev_request_id ev, m_CommandID := ev_command_id ev,
              m_AgentID := m_AgentID msg, m_Control := m_Control msg, m_Timestamp := ev_stamp ev\<rparr>) s of
        (s', Inl e) \<Rightarrow> (s', [err_reply e])
      | (s', Inr resp) \<Rightarrow>
          (control_update B (ev_stamp ev) (m_AgentID msg) (m_Status resp) s',
           [(exec_reply msg resp)\<lparr>m_Status := m_Status resp\<rparr>]))"

definition unsupported_cli :: "'r srv_lib \<Rightarrow> message \<Rightarrow> message" where
  "unsupported_cli B msg = err_reply (Errorf (''unsupported cli message: '' @ type_text (lib_core B) (m_Type msg)))"

definition handle_cli_switch :: "'r srv_lib \<Rightarrow> 'r srv_env \<Rightarrow> message \<Rightarrow> 'r server \<Rightarrow> 'r handled" where
  "handle_cli_switch B ev msg s =
     (if m_Type msg \<in> {CLIList, CLIInfo} then handle_inventory B ev msg s
      else if m_Type msg = CLIExec then handle_exec B ev msg s
      else if m_Type msg \<in> {CLIPluginList, CLIPluginInstall, CLIPluginEnable, CLIPluginDisable,
                CLIPluginVersions, CLIPluginRollback, CLIPluginRemove} then handle_plugins B ev msg s
      else if m_Type msg \<in> {CLIGroupList, CLIGroupCreate, CLIGroupDelete, CLIGroupAdd, CLIGroupRemove}
      then handle_groups B ev msg s
      else if m_Type msg \<in> {CLITagSet, CLITagAdd, CLITagRemove} then handle_tags B msg s
      else if m_Type msg = CLIPing then handle_ping ev msg s
      else if m_Type msg = CLIAgentControl then handle_control B ev msg s
      else (s, [unsupported_cli B msg]))"

definition handleCLIMessage :: "'r srv_lib \<Rightarrow> 'r srv_env \<Rightarrow> message \<Rightarrow> 'r server \<Rightarrow> 'r handled" where
  "handleCLIMessage B ev msg s =
     (case verifyCLIMessage (lib_core B) (sv_adminSecret s) (ev_now ev) (ev_now_locked ev) msg (sv_seenNonces s) of
        (seen, Some e) \<Rightarrow> (s\<lparr>sv_seenNonces := seen\<rparr>, [err_reply e])
      | (seen, None) \<Rightarrow> handle_cli_switch B ev msg (s\<lparr>sv_seenNonces := seen\<rparr>))"

section \<open>Agent sessions\<close>

text \<open>
  The switch of handleAgentMessage: what it makes of the registry entry, then whether the
  message resolves a pending command. \<open>None\<close> is a resolvePending that blocks for ever.
\<close>

definition touch_entry ::
  "'r srv_lib \<Rightarrow> instant \<Rightarrow> string \<Rightarrow> (entry \<Rightarrow> entry) \<Rightarrow> 'r server \<Rightarrow> 'r server" where
  "touch_entry B now agentID f s =
     (case reg_Get (lib_registry B) (sv_registry s) agentID of
        Inl e \<Rightarrow> s
      | Inr entry \<Rightarrow>
          s\<lparr>sv_registry := fst (reg_Register (lib_registry B) now ((f entry)\<lparr>e_LastSeen := now\<rparr>) (sv_registry s))\<rparr>)"

definition online_or :: "string \<Rightarrow> string" where
  "online_or status = (if status \<noteq> [] then status else ''online'')"

definition sv_resolve :: "message \<Rightarrow> 'r server \<Rightarrow> 'r handled option" where
  "sv_resolve msg s = map_option (\<lambda>(m, b). (s\<lparr>sv_sessions := m\<rparr>, [])) (sm_resolvePending msg (sv_sessions s))"

definition handleAgentMessage ::
  "'r srv_lib \<Rightarrow> instant \<Rightarrow> string \<Rightarrow> message \<Rightarrow> 'r server \<Rightarrow> 'r handled option" where
  "handleAgentMessage B now agentID msg s =
     (case m_Type msg of
        AgentHeartbeat \<Rightarrow>
          Some (touch_entry B now agentID
            (\<lambda>entry. entry\<lparr>e_Connected := True, e_Status := online_or (m_Status msg)\<rparr>) s, [])
      | AgentExecResult \<Rightarrow>
          (let msg' = msg\<lparr>m_AgentID := agentID, m_Success := (m_Error msg = [])\<rparr>;
               s' = (if m_Status msg' \<noteq> []
                     then touch_entry B now agentID (\<lambda>entry. entry\<lparr>e_Connected := \<not> leaving (m_Status msg'),
                            e_Status := m_Status msg'\<rparr>) s
                     else s\<lparr>sv_registry := fst (reg_UpdateStatus (lib_registry B) now agentID True (sv_registry s))\<rparr>)
           in sv_resolve msg' s')
      | ServerPingResult \<Rightarrow>
          (let msg' = msg\<lparr>m_AgentID := agentID, m_Success := (m_Error msg = [])\<rparr>;
               s' = touch_entry B now agentID
                 (\<lambda>entry. entry\<lparr>e_Connected := True, e_Status := online_or (m_Status msg')\<rparr>) s
           in sv_resolve msg' s')
      | _ \<Rightarrow> Some (s, [err_reply (Errorf (''unsupported agent message: '' @ type_text (lib_core B) (m_Type msg)))]))"

text \<open>The first part of handleAgentSession, up to the loop: the session is known, or it ends.\<close>

definition agent_online :: "instant \<Rightarrow> entry \<Rightarrow> entry" where
  "agent_online now e = e\<lparr>e_Connected := True, e_Status := ''online'', e_LastSeen := now\<rparr>"

definition agent_register ::
  "'r srv_lib \<Rightarrow> instant \<Rightarrow> agent_session \<Rightarrow> message \<Rightarrow> 'r server \<Rightarrow> 'r handled \<times> string option" where
  "agent_register B now session msg s =
     (case m_Agent msg of
        None \<Rightarrow> ((s, [err_reply (Errorf ''missing agent payload'')]), None)
      | Some a \<Rightarrow>
          (let agent = agent_online now a in
           case reg_Register (lib_registry B) now agent (sv_registry s) of
             (r, Some e) \<Rightarrow> ((s\<lparr>sv_registry := r\<rparr>, [err_reply e]), None)
           | (r, None) \<Rightarrow>
               ((s\<lparr>sv_registry := r, sv_sessions := sm_register (e_ID agent) session (sv_sessions s)\<rparr>,
                 [(new_message ServerRegisterOK)\<lparr>m_RequestID := m_RequestID msg, m_AgentID := e_ID agent,
                     m_Success := True, m_Timestamp := now\<rparr>]),
                Some (e_ID agent))))"

definition agent_leave :: "'r srv_lib \<Rightarrow> instant \<Rightarrow> string \<Rightarrow> agent_session \<Rightarrow> 'r server \<Rightarrow> 'r server" where
  "agent_leave B now agentID session s =
     s\<lparr>sv_sessions := sm_unregister agentID session (sv_sessions s),
       sv_registry := fst (reg_UpdateStatus (lib_registry B) now agentID False (sv_registry s))\<rparr>"

text \<open>
  The loop: between two messages other goroutines change the server. An event is what they do,
  the clock, and the message that was decoded or \<open>None\<close> when Decode fails, which ends the
  session; the loop runs as long as there are events.
\<close>

type_synonym 'r session_event = "('r server \<Rightarrow> 'r server) \<times> instant \<times> message option"

fun agent_loop ::
  "'r srv_lib \<Rightarrow> string \<Rightarrow> agent_session \<Rightarrow> 'r session_event list \<Rightarrow> 'r server \<Rightarrow> 'r handled option" where
  "agent_loop B agentID session [] s = Some (s, [])"
| "agent_loop B agentID session ((others, now, None) # evs) s =
     Some (agent_leave B now agentID session (others s), [])"
| "agent_loop B agentID session ((others, now, Some msg) # evs) s =
     (case handleAgentMessage B now agentID msg (others s) of
        None \<Rightarrow> None
      | Some (s', out) \<Rightarrow>
          map_option (\<lambda>(s2, out2). (s2, out @ out2)) (agent_loop B agentID session evs s'))"

definition handleAgentSession ::
  "'r srv_lib \<Rightarrow> instant \<Rightarrow> agent_session \<Rightarrow> message \<Rightarrow> 'r session_event list \<Rightarrow> 'r server \<Rightarrow> 'r handled option" where
  "handleAgentSession B now session msg evs s =
     (case agent_register B now session msg s of
        ((s', out), None) \<Rightarrow> Some (s', out)
      | ((s', out), Some agentID) \<Rightarrow>
          map_option (\<lambda>(s2, out2). (s2, out @ out2)) (agent_loop B agentID session evs s'))"

text \<open>One connection: its first message decides what it is.\<close>

definition handleConnection ::
  "'r srv_lib \<Rightarrow> 'r srv_env \<Rightarrow> agent_session \<Rightarrow> message result \<Rightarrow> 'r session_event list \<Rightarrow> 'r server \<Rightarrow> 'r handled option" where
  "handleConnection B ev session decoded evs s =
     (case decoded of
        Inl e \<Rightarrow> Some (s, [])
      | Inr msg \<Rightarrow>
          (if HasPrefix (type_text (lib_core B) (m_Type msg)) ''cli.'' then Some (handleCLIMessage B ev msg s)
           else if m_Type msg = AgentRegister then handleAgentSession B (ev_now ev) session msg evs s
           else Some (s, [err_reply (Errorf (''unsupported message type: '' @
                  type_text (lib_core B) (m_Type msg)))])))"

section \<open>The sweep for silent agents\<close>

definition stale_entry :: "instant \<Rightarrow> entry \<Rightarrow> bool" where
  "stale_entry now e \<longleftrightarrow> e_Connected e \<and> time_Sub now (e_LastSeen e) > 90 * second"

definition markOffline_tick :: "'r srv_lib \<Rightarrow> instant \<Rightarrow> 'r server \<Rightarrow> 'r server" where
  "markOffline_tick B now s =
     (let R = lib_registry B in
      s\<lparr>sv_registry := fold (\<lambda>e r. if stale_entry now e then fst (reg_UpdateStatus R now (e_ID e) False r) else r)
          (reg_List R (sv_registry s)) (sv_registry s)\<rparr>)"

text \<open>The loop: between two ticks other goroutines change the server, until quit is closed.\<close>

fun markOfflineLoop :: "'r srv_lib \<Rightarrow> (('r server \<Rightarrow> 'r server) \<times> instant option) list \<Rightarrow> 'r server \<Rightarrow> 'r server" where
  "markOfflineLoop B [] s = s"
| "markOfflineLoop B ((others, None) # evs) s = others s"
| "markOfflineLoop B ((others, Some now) # evs) s = markOfflineLoop B evs (markOffline_tick B now (others s))"

definition GetAgents :: "'r srv_lib \<Rightarrow> 'r server \<Rightarrow> entry list" where
  "GetAgents B s = reg_List (lib_registry B) (sv_registry s)"

end
