(* ===== verification/Plugin_Laws.thy ===== *)
theory Plugin_Laws
  imports Plugin_Store
begin

text \<open>
  The properties of the plugin store: its invariant over whole runs, the round trip through
  the file, installation, rollback and disabling, and the lookup of commands.
\<close>

section \<open>Round trip through the file\<close>

definition ps_all :: "(package \<Rightarrow> bool) \<Rightarrow> plugin_store \<Rightarrow> bool" where
  "ps_all Q s \<longleftrightarrow> (\<forall>k r. map_of (ps_records s) k = Some r \<longrightarrow> (\<forall>p \<in> set (pr_Versions r). Q p))"

definition storable :: "core_lib \<Rightarrow> (package \<Rightarrow> bool) \<Rightarrow> plugin_record list \<Rightarrow> bool" where
  "storable L Q rs \<longleftrightarrow> (\<forall>r \<in> set rs. rec_ok L (pr_Name r) r \<and> (\<forall>p \<in> set (pr_Versions r). Q p))"

text \<open>An empty list of records and an empty list of packages are the same JSON text.\<close>

definition empty_agrees :: "plugin_record list codec \<Rightarrow> package list codec \<Rightarrow> bool" where
  "empty_agrees J JP \<longleftrightarrow> (\<forall>d. Marshal J [] = Inr d \<longrightarrow> Unmarshal JP d = Inr [])"

definition ps_synced ::
  "core_lib \<Rightarrow> (package \<Rightarrow> bool) \<Rightarrow> plugin_record list codec \<Rightarrow> package list codec \<Rightarrow> string \<Rightarrow> plugin_state \<Rightarrow> bool" where
  "ps_synced L Q J JP path = (\<lambda>(s, fs).
     ps_path s = path \<and> ps_ok L s \<and> ps_all Q s \<and>
     (case fs path of
        None \<Rightarrow> ps_records s = []
      | Some d \<Rightarrow> Unmarshal J d = Inr (ps_snapshotLocked (\<lambda>ks. ks) s) \<and>
          (ps_records s = [] \<longrightarrow> Unmarshal JP d = Inr [])))"

lemma ps_all_put: "ps_all Q s \<Longrightarrow> \<forall>p \<in> set (pr_Versions r). Q p \<Longrightarrow> ps_all Q (ps_put k r s)"
  by (auto simp: ps_all_def ps_put_def update_conv')

lemma ps_all_target:
  assumes "ps_all Q s" and "ps_target L op s = Inr s'"
    and Q: "\<forall>p0 p. op = OpInstall (Some p0) \<longrightarrow> validate L p0 = Inr p \<longrightarrow> Q p"
  shows "ps_all Q s'"
proof (cases op)
  case (OpInstall pkg)
  with assms(2) have "ps_target L (OpInstall pkg) s = Inr s'" by simp
  then show ?thesis
  proof (cases rule: ps_target_installE)
    case (new p0 p)
    with Q OpInstall have "Q p" by blast
    then show ?thesis using new(4) by (auto simp: recordFromPackage_def Let_def intro: ps_all_put [OF assms(1)])
  next
    case (update p0 p r)
    with Q OpInstall have "Q p" by blast
    moreover have "\<forall>q \<in> set (pr_Versions r). Q q" using assms(1) update(3) unfolding ps_all_def by blast
    ultimately have "\<forall>q \<in> set (upsert_versions (pr_Versions r) p). Q q"
      using upsert_versions_set(1) by fastforce
    then show ?thesis using update(4) by (auto simp: upsertPluginVersion_def intro: ps_all_put [OF assms(1)])
  qed
next
  case (OpRemove n)
  with assms(1,2) show ?thesis by (auto simp: ps_all_def delete_conv' elim!: ps_target_removeE split: if_splits)
next
  case (OpSetEnabled n b)
  with assms(1,2) show ?thesis
    by (auto elim!: ps_target_setEnabledE intro!: ps_all_put [OF assms(1)]) (auto simp: ps_all_def)
next
  case (OpRollback n v)
  with assms(1,2) show ?thesis
    by (auto elim!: ps_target_rollbackE intro!: ps_all_put [OF assms(1)]) (auto simp: ps_all_def)
qed

lemma set_snapshot:
  "ps_ok L s \<Longrightarrow> set (ps_snapshotLocked (\<lambda>ks. ks) s) = ran (map_of (ps_records s))"
  by (simp add: ps_snapshotLocked_def set_map_values ps_ok_map cong: map_cong)

lemma snapshot_storable: "ps_ok L s \<Longrightarrow> ps_all Q s \<Longrightarrow> storable L Q (ps_snapshotLocked (\<lambda>ks. ks) s)"
  unfolding storable_def set_snapshot ran_def ps_all_def
  by (auto simp del: map_of_eq_Some_iff dest!: ps_ok_rec) (auto simp: rec_ok_def)

lemma snapshot_Nil: "ps_records s = [] \<Longrightarrow> ps_snapshotLocked ord s = []"
  by (simp add: ps_snapshotLocked_def map_values_def map_range_def)
    (cases "ord []"; simp add: map_filter_simps map_filter_def)

lemma ps_synced_step:
  assumes J: "codec_ok (storable L Q) J" and JP: "empty_agrees J JP" 
    and ord: "is_order ord" and sync: "ps_synced L Q J JP path (s, fs)"
    and Q: "\<forall>p0 p. op = OpInstall (Some p0) \<longrightarrow> validate L p0 = Inr p \<longrightarrow> Q p"
  shows "ps_synced L Q J JP path (fst (ps_apply L J ord WriteOk op (s, fs)))"
proof (cases "ps_target L op s")
  case (Inl e)
  then show ?thesis using sync by (simp add: ps_apply_target)
next
  case (Inr s')
  have s: "ps_path s = path" "ps_ok L s" "ps_all Q s" using sync by (auto simp: ps_synced_def)
  have s': "ps_path s' = path" "ps_ok L s'" "ps_all Q s'"
    using ps_target_path [OF Inr] ps_target_ok [OF s(2) Inr] ps_all_target [OF s(3) Inr Q] s(1) by auto
  let ?snap = "ps_snapshotLocked (\<lambda>ks. ks) s'"
  from snapshot_storable [OF s'(2,3)] J obtain d where
    d: "Marshal J ?snap = Inr d" "Unmarshal J d = Inr ?snap" by (auto simp: codec_ok_def)
  have "ps_apply L J ord WriteOk op (s, fs) = ((s', fs(path := Some d)), None)"
    using Inr d(1) s'(1) ps_snapshot_order [OF s'(2) ord]
    by (simp add: ps_apply_target ps_commit_def ps_save_def save_json_def Let_def)
  moreover have "ps_records s' = [] \<longrightarrow> Unmarshal JP d = Inr []"
    using d(1) JP snapshot_Nil [of s' "\<lambda>ks. ks"] by (auto simp: empty_agrees_def)
  ultimately show ?thesis using s' d(2) by (simp add: ps_synced_def)
qed

lemma ps_load_records_map:
  "storable L (settled L) rs \<Longrightarrow> distinct (map pr_Name rs) \<Longrightarrow>
   \<exists>s'. ps_load_records L rs s = (s', None) \<and>
     map_of (ps_records s') = map_of (ps_records s) ++ map_of (map (\<lambda>r. (pr_Name r, r)) rs)"
proof (induction rs arbitrary: s)
  case (Cons r rs)
  have n: "normalizePluginRecord L r = Inr r" 
    using Cons.prems by (auto simp: storable_def intro: normalizePluginRecord_id)
  have dom: "pr_Name r \<notin> dom (map_of (map (\<lambda>r. (pr_Name r, r)) rs))"
    using Cons.prems(2) by (auto simp: dom_map_of_conv_image_fst image_image)
  obtain s' where s': "ps_load_records L rs (ps_put (pr_Name r) r s) = (s', None)"
    "map_of (ps_records s') =
       map_of (ps_records (ps_put (pr_Name r) r s)) ++ map_of (map (\<lambda>r. (pr_Name r, r)) rs)"
    using Cons.IH [of "ps_put (pr_Name r) r s"] Cons.prems by (auto simp: storable_def)
  have "map_of (ps_records (ps_put (pr_Name r) r s)) = (map_of (ps_records s))(pr_Name r \<mapsto> r)"
    by (simp add: ps_put_def update_conv')
  moreover have "(map_of (ps_records s))(pr_Name r \<mapsto> r) ++ map_of (map (\<lambda>r. (pr_Name r, r)) rs) =
      map_of (ps_records s) ++ map_of (map (\<lambda>r. (pr_Name r, r)) (r # rs))"
    using map_add_upd_left [OF dom] by simp
  ultimately have m: "map_of (ps_records s') = map_of (ps_records s) ++ map_of (map (\<lambda>r. (pr_Name r, r)) (r # rs))"
    using s'(2) by metis
  have "ps_load_records L (r # rs) s = (s', None)" using s'(1) n by simp
  with m show ?case by blast
qed simp

lemma snapshot_names: "ps_ok L s \<Longrightarrow> distinct (map pr_Name (ps_snapshotLocked (\<lambda>ks. ks) s))"
proof -
  assume ok: "ps_ok L s"
  have "distinct (map snd (ps_records s)) \<and> inj_on pr_Name (set (map snd (ps_records s)))"
  proof
    have m: "map_ok (ps_records s)" using ok by (rule ps_ok_map)
    have k: "(k, r) \<in> set (ps_records s) \<Longrightarrow> pr_Name r = k" for k r
      using ps_ok_rec [OF ok, of k r] m by (simp add: rec_ok_def)
    then have "map pr_Name (map snd (ps_records s)) = map fst (ps_records s)" by auto
    with m show "distinct (map snd (ps_records s))" by (metis distinct_map)
    show "inj_on pr_Name (set (map snd (ps_records s)))"
      using m k by (auto intro!: inj_onI dest: map_of_is_SomeI) (metis map_of_is_SomeI option.inject)
  qed
  moreover have "mset (ps_snapshotLocked (\<lambda>ks. ks) s) = mset (map snd (ps_records s))"
    using mset_map_values [OF is_order_id ps_ok_map [OF ok]]
    by (simp add: ps_snapshotLocked_def cong: map_cong)
  ultimately show ?thesis
    by (metis distinct_map mset_eq_imp_distinct_iff set_mset_mset)
qed

lemma snapshot_map_of:
  assumes ok: "ps_ok L s"
  shows "map_of (map (\<lambda>r. (pr_Name r, r)) (ps_snapshotLocked (\<lambda>ks. ks) s)) = map_of (ps_records s)"
proof
  fix k
  let ?ps = "map (\<lambda>r. (pr_Name r, r)) (ps_snapshotLocked (\<lambda>ks. ks) s)"
  have d: "map_ok ?ps" using snapshot_names [OF ok] by (simp add: comp_def)
  have "map_of ?ps k = Some r \<longleftrightarrow> map_of (ps_records s) k = Some r" for r
    using set_snapshot [OF ok] ps_ok_rec [OF ok] map_of_eq_Some_iff [OF d, of k r]
    by (auto simp: ran_def rec_ok_def simp del: map_of_eq_Some_iff)
  then show "map_of ?ps k = map_of (ps_records s) k" by (metis not_Some_eq)
qed

lemma newPluginStore_synced:
  assumes sync: "ps_synced L Q J JP path (s, fs)" and Q: "\<forall>p. Q p \<longrightarrow> settled L p"
  shows "\<exists>s'. newPluginStore L fp J JP None path fs = Inr s' \<and> map_of (ps_records s') = map_of (ps_records s)"
proof -
  let ?snap = "ps_snapshotLocked (\<lambda>ks. ks) s"
  let ?e = "\<lparr>ps_path = path, ps_records = []\<rparr>"
  have ok: "ps_ok L s" using sync by (simp add: ps_synced_def)
  show ?thesis
  proof (cases "ps_records s = []")
    case True
    then have "ps_load L J JP (read_file path fs) ?e = (?e, None) \<or>
        (\<exists>m. ps_load L J JP (read_file path fs) ?e = (?e, Some (ErrNotExist m)))"
      using sync snapshot_Nil [OF True, of "\<lambda>ks. ks"]
      by (auto simp: ps_load_def read_file_def ps_synced_def split: option.splits)
    with True show ?thesis by (auto simp: newPluginStore_def Let_def)
  next
    case False
    then obtain d where d: "fs path = Some d" "Unmarshal J d = Inr ?snap"
      using sync by (auto simp: ps_synced_def split: option.splits)
    have "ps_all (settled L) s" using sync Q by (auto simp: ps_synced_def ps_all_def)
    then have rec: "storable L (settled L) ?snap" by (rule snapshot_storable [OF ok])
    obtain s' where s': "ps_load_records L ?snap ?e = (s', None)" "map_of (ps_records s') = map_of (ps_records s)"
      using ps_load_records_map [OF rec snapshot_names [OF ok], of ?e] snapshot_map_of [OF ok] by auto
    have "?snap \<noteq> []"
      using False set_snapshot [OF ok]
      by (metis ran_distinct image_is_empty set_empty ps_ok_map [OF ok])
    moreover from this rec have "pr_Name (hd ?snap) \<noteq> []"
      by (auto simp: storable_def rec_ok_def settled_def neq_Nil_conv)
    ultimately have "ps_load L J JP (read_file path fs) ?e = (s', None)"
      using d s'(1) by (simp add: ps_load_def read_file_def)
    with s'(2) show ?thesis by (simp add: newPluginStore_def Let_def)
  qed
qed

section \<open>Runs\<close>

type_synonym plugin_step = "map_order \<times> write_outcome \<times> plugin_op"

fun ps_run ::
  "core_lib \<Rightarrow> plugin_record list codec \<Rightarrow> plugin_step list \<Rightarrow> plugin_state \<Rightarrow> plugin_state" where
  "ps_run L J [] st = st"
| "ps_run L J ((ord, w, op) # steps) st = ps_run L J steps (fst (ps_apply L J ord w op st))"

lemma ps_run_ok:
  "ps_ok L (fst st) \<Longrightarrow> ps_ok L (fst (ps_run L J steps st))"
proof (induction steps arbitrary: st)
  case (Cons x steps)
  obtain ord w op where x: "x = (ord, w, op)" by (cases x) auto
  have "ps_ok L (fst (fst (ps_apply L J ord w op st)))"
    using ps_apply_ok [OF Cons.prems, of J ord w op "snd st"]
    by (cases "ps_apply L J ord w op st") auto
  with Cons x show ?case by simp
qed simp

definition ok_step :: "core_lib \<Rightarrow> (package \<Rightarrow> bool) \<Rightarrow> plugin_step \<Rightarrow> bool" where
  "ok_step L Q = (\<lambda>(ord, w, op). is_order ord \<and> w = WriteOk \<and>
     (\<forall>p0 p. op = OpInstall (Some p0) \<longrightarrow> validate L p0 = Inr p \<longrightarrow> Q p))"

lemma ps_synced_run:
  assumes "codec_ok (storable L Q) J" and "empty_agrees J JP"
  shows "ps_synced L Q J JP path st \<Longrightarrow> \<forall>x \<in> set steps. ok_step L Q x \<Longrightarrow>
    ps_synced L Q J JP path (ps_run L J steps st)"
proof (induction steps arbitrary: st)
  case (Cons x steps)
  obtain ord op where x: "x = (ord, WriteOk, op)" "is_order ord"
    "\<forall>p0 p. op = OpInstall (Some p0) \<longrightarrow> validate L p0 = Inr p \<longrightarrow> Q p"
    using Cons.prems(2) by (cases x) (auto simp: ok_step_def)
  have "ps_synced L Q J JP path (fst (ps_apply L J ord WriteOk op st))"
    using ps_synced_step [OF assms x(2) _ x(3), of path "fst st" "snd st"] Cons.prems(1) by simp
  with Cons x(1) show ?case by simp
qed simp

lemma find_upsert_same: "List.find (\<lambda>q. pk_Version q = pk_Version p) (upsert_versions vs p) = Some p"
  by (induction vs) auto

lemma find_upsert_other:
  "pk_Version p \<noteq> v \<Longrightarrow> v \<in> pk_Version ` set vs \<Longrightarrow>
   List.find (\<lambda>q. pk_Version q = v) (upsert_versions vs p) = List.find (\<lambda>q. pk_Version q = v) vs"
  by (induction vs) auto

lemma ps_put_same [simp]: "map_of (ps_records (ps_put k r s)) k = Some r"
  by (simp add: ps_put_def update_conv')

lemma ps_put_other: "k' \<noteq> k \<Longrightarrow> map_of (ps_records (ps_put k r s)) k' = map_of (ps_records s) k'"
  by (simp add: ps_put_def update_conv')

lemma ps_commit_fst [simp]: "fst (fst (ps_commit J ord w s fs)) = s"
  by (simp add: ps_commit_def Let_def split: prod.splits)

lemma ps_apply_commit:
  "ps_target L op s = Inr s' \<Longrightarrow> fst (fst (ps_apply L J ord w op (s, fs))) = s'"
  by (simp add: ps_apply_target)

lemma ps_target_install_known:
  assumes "validate L p0 = Inr p" and "map_of (ps_records s) (pk_Name p) = Some r"
  shows "ps_target L (OpInstall (Some p0)) s = Inr (ps_put (pk_Name p)
     ((upsertPluginVersion r p)\<lparr>pr_ActiveVersion := pk_Version p, pr_Disabled := False\<rparr>) s)"
  using assms by (simp add: ps_target_def ps_install_def ps_commit_triv Let_def)

lemma ps_target_rollback_known:
  assumes "map_of (ps_records s) k = Some r" and "recordHasVersion r v"
    and "TrimSpace k = k" and "k \<noteq> []" and "TrimSpace v = v" and "v \<noteq> []"
  shows "ps_target L (OpRollback k v) s =
     Inr (ps_put k (r\<lparr>pr_ActiveVersion := v, pr_Disabled := False\<rparr>) s)"
  using assms by (simp add: ps_target_def ps_rollback_def ps_commit_triv Let_def)

lemma active_eq:
  "List.find (\<lambda>q. pk_Version q = pr_ActiveVersion r) (pr_Versions r) = Some p \<Longrightarrow>
   activePluginPackage r = Some (p\<lparr>pk_Manifest := (pk_Manifest p)\<lparr>mf_Disabled := pr_Disabled r\<rparr>\<rparr>)"
  by (simp add: activePluginPackage_def Let_def)

section \<open>Who offers a command\<close>

text \<open>
  The record under \<open>k\<close> is enabled, and its active version, the package \<open>q\<close>, has the command in
  its manifest. This is said over the fields of the records, not by the lookup of the code.
\<close>

definition offers :: "plugin_store \<Rightarrow> string \<Rightarrow> string \<Rightarrow> plugin_record \<Rightarrow> package \<Rightarrow> bool" where
  "offers s c k r q \<longleftrightarrow> map_of (ps_records s) k = Some r \<and> \<not> pr_Disabled r \<and>
     List.find (\<lambda>p. pk_Version p = pr_ActiveVersion r) (pr_Versions r) = Some q \<and>
     c \<in> pc_Name ` set (mf_Commands (pk_Manifest q))"

definition as_active :: "plugin_record \<Rightarrow> package \<Rightarrow> package" where
  "as_active r q = q\<lparr>pk_Manifest := (pk_Manifest q)\<lparr>mf_Disabled := pr_Disabled r\<rparr>\<rparr>"

lemma active_as_active:
  assumes "rec_ok L k r"
  shows "\<exists>q. List.find (\<lambda>p. pk_Version p = pr_ActiveVersion r) (pr_Versions r) = Some q \<and>
    activePluginPackage r = Some (as_active r q)"
proof -
  have "List.find (\<lambda>p. pk_Version p = pr_ActiveVersion r) (pr_Versions r) \<noteq> None"
    using assms by (auto simp: rec_ok_def find_None_iff)
  then show ?thesis using active_eq [of r] by (auto simp: as_active_def)
qed

lemma findCommand_offers_Some:
  assumes "ps_ok L s" and "is_order ord" and "ps_findCommand ord s c = Some p"
  shows "\<exists>k r q. offers s c k r q \<and> p = as_active r q"
proof -
  obtain r where r: "map_of (ps_records s) (pk_Name p) = Some r" "\<not> pr_Disabled r"
    "activePluginPackage r = Some p" "c \<in> pc_Name ` set (mf_Commands (pk_Manifest p))"
    using findCommand_SomeD [OF assms] by blast
  obtain q where q: "List.find (\<lambda>p. pk_Version p = pr_ActiveVersion r) (pr_Versions r) = Some q"
    "activePluginPackage r = Some (as_active r q)"
    using active_as_active [OF ps_ok_rec [OF assms(1) r(1)]] by blast
  with r(3) have p: "p = as_active r q" by simp
  with r(4) have "c \<in> pc_Name ` set (mf_Commands (pk_Manifest q))" by (simp add: as_active_def)
  with p q(1) r(1,2) show ?thesis unfolding offers_def by blast
qed

lemma findCommand_offers_None:
  assumes "ps_ok L s" and "is_order ord" and "ps_findCommand ord s c = None"
  shows "\<not> offers s c k r q"
proof
  assume o: "offers s c k r q"
  then have r: "map_of (ps_records s) k = Some r" "\<not> pr_Disabled r"
    "activePluginPackage r = Some (as_active r q)" using active_eq by (auto simp: offers_def as_active_def)
  from findCommand_NoneD [OF assms r] o show False by (simp add: offers_def as_active_def)
qed

section \<open>Sample data\<close>

definition sample_package :: "string \<Rightarrow> string \<Rightarrow> string \<Rightarrow> package" where
  "sample_package n v c =
     \<lparr>pk_Manifest = \<lparr>mf_Name = n, mf_Version = v, mf_Entry = ''run.ps1'', mf_Shell = ''powershell'',
        mf_OS = [''windows''], mf_Permissions = [], mf_Commands = [\<lparr>pc_Name = c\<rparr>],
        mf_Disabled = False, mf_Source = [], mf_ChecksumSHA256 = []\<rparr>,
      pk_Files = []\<rparr>"

text \<open>
  For the witnesses, a codec of records all of whose versions are the package \<open>p\<close>: a line per
  record, with the switch and one mark per version.
\<close>

definition record_line :: "plugin_record \<Rightarrow> string" where
  "record_line r = (if pr_Disabled r then ''d'' else ''e'') @ replicate (length (pr_Versions r)) CHR ''x''"

definition line_record :: "package \<Rightarrow> string \<Rightarrow> plugin_record" where
  "line_record p l =
     \<lparr>pr_Name = pk_Name p, pr_ActiveVersion = pk_Version p, pr_Disabled = (take 1 l = ''d''),
      pr_Versions = replicate (length l - 1) p\<rparr>"

definition one_codec :: "package \<Rightarrow> plugin_record list codec" where
  "one_codec p =
     \<lparr>Marshal = (\<lambda>rs. Marshal lines_codec (map record_line rs)),
      Unmarshal = (\<lambda>d. case Unmarshal lines_codec d of
         Inl e \<Rightarrow> Inl e | Inr ls \<Rightarrow> Inr (map (line_record p) ls))\<rparr>"

definition no_packages :: "package list codec" where
  "no_packages = \<lparr>Marshal = (\<lambda>ps. Inr []), Unmarshal = (\<lambda>d. Inr [])\<rparr>"

lemma one_codec_ok: "codec_ok (storable L (\<lambda>q. q = p)) (one_codec p)" "empty_agrees (one_codec p) no_packages"
proof -
  have r: "line_record p (record_line r) = r"
    if rk: "rec_ok L (pr_Name r) r" and all: "\<forall>q \<in> set (pr_Versions r). q = p" for r
  proof -
    obtain n where n: "pr_Versions r = replicate n p"
      using all by (metis replicate_eqI)
    moreover from n rk have "pr_Name r = pk_Name p" "pr_ActiveVersion r = pk_Version p"
      by (cases n; auto simp: rec_ok_def)+
    ultimately show ?thesis
      by (simp add: line_record_def record_line_def)
  qed
  have o: "one_line (record_line r)" for r by (simp add: one_line_def record_line_def)
  show "codec_ok (storable L (\<lambda>q. q = p)) (one_codec p)"
    unfolding codec_ok_def
  proof (intro allI impI)
    fix rs assume s: "storable L (\<lambda>q. q = p) rs"
    then have "map (line_record p) (map record_line rs) = rs"
      by (simp add: map_idI storable_def r)
    moreover obtain d where "Marshal lines_codec (map record_line rs) = Inr d"
      "Unmarshal lines_codec d = Inr (map record_line rs)"
      using codec_okE [OF lines_codec_ok, of "map record_line rs"] o by auto
    ultimately show "\<exists>d. Marshal (one_codec p) rs = Inr d \<and> Unmarshal (one_codec p) d = Inr rs"
      by (simp add: one_codec_def)
  qed
  show "empty_agrees (one_codec p) no_packages" by (simp add: empty_agrees_def no_packages_def)
qed

lemma trim_samples:
  "TrimSpace ''hello'' = ''hello''" "TrimSpace ''1.0'' = ''1.0''" "TrimSpace ''2.0'' = ''2.0''"
  by code_simp+

lemma validate_sample:
  "n \<noteq> [] \<Longrightarrow> TrimSpace n = n \<Longrightarrow> TrimSpace v \<noteq> [] \<Longrightarrow>
   validate sample_lib (sample_package n v c) = Inr (sample_package n v c)"
  by (simp add: sample_lib_def sample_package_def)

lemma sample_package_simps [simp]:
  "pk_Name (sample_package n v c) = n" "pk_Version (sample_package n v c) = v"
  "mf_Commands (pk_Manifest (sample_package n v c)) = [\<lparr>pc_Name = c\<rparr>]"
  by (simp_all add: sample_package_def)

definition sample_store :: plugin_store where
  "sample_store = \<lparr>ps_path = ''p'', ps_records = [(''hello'', recordFromPackage (sample_package ''hello'' ''1.0'' ''hi''))]\<rparr>"

lemma sample_store_ok: "ps_ok sample_lib sample_store"
  using validate_sample [of "''hello''" "''1.0''" "''hi''"]
  by (simp add: ps_ok_def rec_ok_def sample_store_def recordFromPackage_def trim_samples Let_def validatedI)

lemma sample_finds: "ps_findCommand rev sample_store ''hi'' = Some (sample_package ''hello'' ''1.0'' ''hi'')"
  by (simp add: ps_findCommand_def sample_store_def map_values_def map_range_def map_filter_simps
      recordFromPackage_def activePluginPackage_def Let_def) (simp add: sample_package_def)

section \<open>Properties\<close>

text \<open>
  Property C7. Whatever file the store starts from, if it starts at all, and whatever calls
  follow, with any outcome of the writes, every record is filed under its own name, no two under
  the same one; it holds only packages of that name, at least one, that core.Validate has returned,
  whatever Validate does, and its active version is one of them.
\<close>

theorem plugin_store_invariant:
  assumes "newPluginStore L fp J JP mk path fs = Inr s0"
    and "ps_run L J steps (s0, fs) = (s, fs')"
  shows "ps_ok L s"
  using ps_run_ok [of L "(s0, fs)" J steps] newPluginStore_ok [OF assms(1)] assms(2) by simp

theorem plugin_store_invariant_witness:
  "\<exists>s fs'. ps_run sample_lib (one_codec (sample_package ''hello'' ''1.0'' ''hi''))
      [(rev, WriteOk, OpInstall (Some (sample_package ''hello'' ''1.0'' ''hi''))),
       (rev, WriteFail (Errorf ''disk full'') None, OpSetEnabled ''hello'' False)]
      (\<lparr>ps_path = ''p'', ps_records = []\<rparr>, \<lambda>p. None) = (s, fs') \<and> ps_ok sample_lib s"
proof -
  let ?p = "sample_package ''hello'' ''1.0'' ''hi''"
  let ?steps = "[(rev, WriteOk, OpInstall (Some ?p)),
       (rev, WriteFail (Errorf ''disk full'') None, OpSetEnabled ''hello'' False)]"
  obtain s fs' where r: "ps_run sample_lib (one_codec ?p) ?steps (\<lparr>ps_path = ''p'', ps_records = []\<rparr>, \<lambda>p. None) = (s, fs')"
    by (metis surj_pair)
  have "newPluginStore sample_lib (undefined\<lparr>fp_Dir := \<lambda>p. []\<rparr>) (one_codec ?p) undefined None ''p'' (\<lambda>p. None) =
      Inr \<lparr>ps_path = ''p'', ps_records = []\<rparr>"
    by (simp add: newPluginStore_def ps_load_def read_file_def Let_def)
  from plugin_store_invariant [OF this r] r show ?thesis by blast
qed



text \<open>
  Go visits a map in an unspecified order. The listing, the names of the commands
  and the snapshot that goes to the file are the same for every order.
\<close>

theorem plugin_listing_order:
  assumes "ps_ok L s" and "is_order ord" and "is_order ord'"
  shows "ps_list ord s = ps_list ord' s \<and> ps_commandNames L ord s = ps_commandNames L ord' s \<and>
    ps_snapshotLocked ord s = ps_snapshotLocked ord' s"
proof -
  have "ps_list ord s = ps_list ord' s"
    using ps_list_order [OF assms(1,2)] ps_list_order [OF assms(1,3)] by simp
  moreover have "ps_snapshotLocked ord s = ps_snapshotLocked ord' s"
    using ps_snapshot_order [OF assms(1,2)] ps_snapshot_order [OF assms(1,3)] by simp
  ultimately show ?thesis by (simp add: ps_commandNames_def)
qed

theorem plugin_listing_order_witness:
  "ps_list (\<lambda>ks. ks) sample_store = ps_list rev sample_store"
  using plugin_listing_order [OF sample_store_ok is_order_id is_order_rev] by blast

text \<open>
  Property C27. What info lists is what exec finds: a command has a plugin exactly when
  commandNames names it, and the package found is the active version of an enabled record and
  offers the command.
\<close>

theorem plugin_lookup_agrees:
  assumes "command_names_ok L" and "ps_ok L s" and "is_order ord" and "is_order ord'"
  shows "(ps_findCommand ord s c \<noteq> None \<longleftrightarrow> c \<in> set (ps_commandNames L ord' s)) \<and>
    (\<forall>p. ps_findCommand ord s c = Some p \<longrightarrow>
       (\<exists>r. map_of (ps_records s) (pk_Name p) = Some r \<and> \<not> pr_Disabled r \<and>
         pk_Version p = pr_ActiveVersion r \<and> c \<in> pc_Name ` set (mf_Commands (pk_Manifest p))))"
proof (intro conjI allI impI)
  show "ps_findCommand ord s c \<noteq> None \<longleftrightarrow> c \<in> set (ps_commandNames L ord' s)"
    using catalog.find_names [of L s ord ord' c] assms by blast
  fix p assume "ps_findCommand ord s c = Some p"
  from findCommand_SomeD [OF assms(2,3) this] obtain r where
    r: "map_of (ps_records s) (pk_Name p) = Some r" "\<not> pr_Disabled r" "activePluginPackage r = Some p"
      "c \<in> pc_Name ` set (mf_Commands (pk_Manifest p))" by blast
  moreover have "pk_Version p = pr_ActiveVersion r"
    using active_name [OF ps_ok_rec [OF assms(2) r(1)]] r(3) by auto
  ultimately show "\<exists>r. map_of (ps_records s) (pk_Name p) = Some r \<and> \<not> pr_Disabled r \<and>
         pk_Version p = pr_ActiveVersion r \<and> c \<in> pc_Name ` set (mf_Commands (pk_Manifest p))"
    by blast
qed

theorem plugin_lookup_agrees_witness:
  "''hi'' \<in> set (ps_commandNames sample_lib rev sample_store) \<and>
   ps_findCommand rev sample_store ''hi'' = Some (sample_package ''hello'' ''1.0'' ''hi'')"
proof -
  have f: "ps_findCommand rev sample_store ''hi'' = Some (sample_package ''hello'' ''1.0'' ''hi'')"
    by (rule sample_finds)
  with plugin_lookup_agrees [OF sample_lib_ok(3) sample_store_ok is_order_rev is_order_rev, of "''hi''"]
  show ?thesis by simp
qed

text \<open>
  Property C26. A new version of an installed plugin becomes the active one and enables the
  plugin, and a rollback to the version that was active before brings back the very package
  that was active, whatever the writes did. No other plugin changes. (rollback trims what it is
  given, so the name and that version have no blanks at their ends and are not empty.)
\<close>

theorem plugin_install_rollback:
  assumes "ps_ok L s" and "map_of (ps_records s) (pk_Name p) = Some r"
    and "validate L p0 = Inr p" and "pk_Version p \<noteq> pr_ActiveVersion r"
    and "TrimSpace (pk_Name p) = pk_Name p" and "pk_Name p \<noteq> []"
    and "TrimSpace (pr_ActiveVersion r) = pr_ActiveVersion r" and "pr_ActiveVersion r \<noteq> []"
    and "ps_install L J ord w (Some p0) (s, fs) = ((s1, fs1), e1)"
    and "ps_rollback J ord' w' (pk_Name p) (pr_ActiveVersion r) (s1, fs1) = ((s2, fs2), e2)"
  shows "(\<exists>r1. map_of (ps_records s1) (pk_Name p) = Some r1 \<and>
       activePluginPackage r1 = Some (p\<lparr>pk_Manifest := (pk_Manifest p)\<lparr>mf_Disabled := False\<rparr>\<rparr>)) \<and>
     (\<exists>r2. map_of (ps_records s2) (pk_Name p) = Some r2 \<and>
       activePluginPackage r2 = activePluginPackage (r\<lparr>pr_Disabled := False\<rparr>)) \<and>
     (\<forall>k. k \<noteq> pk_Name p \<longrightarrow> map_of (ps_records s2) k = map_of (ps_records s) k)"
proof -
  let ?k = "pk_Name p" and ?v = "pr_ActiveVersion r"
  let ?r1 = "(upsertPluginVersion r p)\<lparr>pr_ActiveVersion := pk_Version p, pr_Disabled := False\<rparr>"
  let ?r2 = "?r1\<lparr>pr_ActiveVersion := ?v, pr_Disabled := False\<rparr>"
  have ok: "rec_ok L ?k r" using ps_ok_rec [OF assms(1,2)] .
  then have k: "?k \<noteq> []" "TrimSpace ?k = ?k" and v: "?v \<in> pk_Version ` set (pr_Versions r)" "?v \<noteq> []"
    using assms(5-8) by (auto simp: rec_ok_def)
  have s1: "s1 = ps_put ?k ?r1 s"
    using ps_apply_commit [OF ps_target_install_known [OF assms(3,2)], of J ord w fs] assms(9) by simp
  have "?v \<in> set (map pk_Version (upsert_versions (pr_Versions r) p))"
    using v(1) by (simp add: upsert_versions_versions del: set_map) simp
  then have "recordHasVersion ?r1 ?v" by (simp add: recordHasVersion_iff upsertPluginVersion_def)
  then have "ps_target L (OpRollback ?k ?v) s1 = Inr (ps_put ?k ?r2 s1)"
    using s1 k v(2) assms(7) by (intro ps_target_rollback_known) simp_all
  from ps_apply_commit [OF this, of J ord' w' fs1] assms(10) have s2: "s2 = ps_put ?k ?r2 s1" by simp
  have "activePluginPackage ?r1 = Some (p\<lparr>pk_Manifest := (pk_Manifest p)\<lparr>mf_Disabled := False\<rparr>\<rparr>)"
    using active_eq [of ?r1 p] find_upsert_same [of p] by (simp add: upsertPluginVersion_def)
  moreover have "activePluginPackage ?r2 = activePluginPackage (r\<lparr>pr_Disabled := False\<rparr>)"
  proof -
    obtain q where q: "List.find (\<lambda>q. pk_Version q = ?v) (pr_Versions r) = Some q"
      using v(1) by (metis (mono_tags, lifting) find_None_iff2 imageE option.exhaust)
    with find_upsert_other [OF assms(4) v(1)]
    have "List.find (\<lambda>q. pk_Version q = ?v) (upsert_versions (pr_Versions r) p) = Some q" by simp
    with q show ?thesis
      using active_eq [of ?r2 q] active_eq [of "r\<lparr>pr_Disabled := False\<rparr>" q]
      by (simp add: upsertPluginVersion_def)
  qed
  moreover have "\<forall>k. k \<noteq> ?k \<longrightarrow> map_of (ps_records s2) k = map_of (ps_records s) k"
    by (simp add: s1 s2 ps_put_other)
  moreover have "map_of (ps_records s1) ?k = Some ?r1" "map_of (ps_records s2) ?k = Some ?r2"
    by (simp_all add: s1 s2)
  ultimately show ?thesis by blast
qed

theorem plugin_install_rollback_witness:
  "\<exists>s1 fs1 s2 fs2 e1 e2 r2.
     ps_install sample_lib (one_codec (sample_package ''hello'' ''1.0'' ''hi'')) rev WriteOk
       (Some (sample_package ''hello'' ''2.0'' ''hi'')) (sample_store, \<lambda>p. None) = ((s1, fs1), e1) \<and>
     ps_rollback (one_codec (sample_package ''hello'' ''1.0'' ''hi'')) rev WriteOk ''hello'' ''1.0'' (s1, fs1) = ((s2, fs2), e2) \<and>
     map_of (ps_records s2) ''hello'' = Some r2 \<and>
     activePluginPackage r2 = Some (sample_package ''hello'' ''1.0'' ''hi'')"
proof -
  let ?J = "one_codec (sample_package ''hello'' ''1.0'' ''hi'')" and ?p = "sample_package ''hello'' ''2.0'' ''hi''"
  let ?r = "recordFromPackage (sample_package ''hello'' ''1.0'' ''hi'')"
  obtain s1 fs1 e1 where i: "ps_install sample_lib ?J rev WriteOk (Some ?p) (sample_store, \<lambda>p. None) = ((s1, fs1), e1)"
    by (metis surj_pair)
  obtain s2 fs2 e2 where b: "ps_rollback ?J rev WriteOk ''hello'' ''1.0'' (s1, fs1) = ((s2, fs2), e2)"
    by (metis surj_pair)
  have m: "map_of (ps_records sample_store) (pk_Name ?p) = Some ?r" by (simp add: sample_store_def)
  have v: "pr_ActiveVersion ?r = ''1.0''" by (simp add: recordFromPackage_def Let_def)
  have va: "validate sample_lib ?p = Inr ?p" by (simp add: validate_sample trim_samples)
  have ne: "pk_Version ?p \<noteq> pr_ActiveVersion ?r" and tr: "TrimSpace (pr_ActiveVersion ?r) = pr_ActiveVersion ?r"
    and nn: "pr_ActiveVersion ?r \<noteq> []" and nt: "TrimSpace (pk_Name ?p) = pk_Name ?p" "pk_Name ?p \<noteq> []"
    by (simp_all add: v trim_samples)
  have b': "ps_rollback ?J rev WriteOk (pk_Name ?p) (pr_ActiveVersion ?r) (s1, fs1) = ((s2, fs2), e2)"
    using b by (simp add: v)
  from plugin_install_rollback [OF sample_store_ok m va ne nt tr nn i b']
  obtain r2 where "map_of (ps_records s2) (pk_Name ?p) = Some r2"
    "activePluginPackage r2 = activePluginPackage (?r\<lparr>pr_Disabled := False\<rparr>)"
    by blast
  then have "map_of (ps_records s2) ''hello'' = Some r2"
    "activePluginPackage r2 = activePluginPackage (?r\<lparr>pr_Disabled := False\<rparr>)" by simp_all
  moreover have "activePluginPackage (?r\<lparr>pr_Disabled := False\<rparr>) = Some (sample_package ''hello'' ''1.0'' ''hi'')"
    by (simp add: activePluginPackage_def recordFromPackage_def Let_def) (simp add: sample_package_def)
  ultimately show ?thesis using i b by metis
qed

text \<open>
  Disabling a plugin hides it from the lookup of commands at once, even if the
  write of the file fails.
\<close>

theorem plugin_disable_hides:
  assumes "TrimSpace nm \<noteq> []" and "ps_ok L s" and "is_order ord"
    and "ps_setEnabled J ord' w nm False (s, fs) = ((s', fs'), e)"
    and "ps_findCommand ord s' c = Some p"
  shows "pk_Name p \<noteq> TrimSpace nm"
proof
  assume n: "pk_Name p = TrimSpace nm"
  have ok: "ps_ok L s'"
    using ps_apply_ok [OF assms(2), of J ord' w "OpSetEnabled nm False" fs] assms(4) by simp
  obtain r where r: "map_of (ps_records s') (TrimSpace nm) = Some r" "\<not> pr_Disabled r"
    using findCommand_SomeD [OF ok assms(3,5)] n by auto
  have ne: "TrimSpace nm \<noteq> []" by (rule assms(1))
  show False
  proof (cases "map_of (ps_records s) (TrimSpace nm)")
    case None
    with assms(4) ne have "s' = s" by (simp add: ps_setEnabled_def Let_def)
    with None r(1) show False by simp
  next
    case (Some q)
    with assms(4) ne
    have "ps_commit J ord' w (ps_put (TrimSpace nm) (q\<lparr>pr_Disabled := True\<rparr>) s) fs = ((s', fs'), e)"
      by (simp add: ps_setEnabled_def Let_def)
    from ps_commit_state [OF this] r show False by auto
  qed
qed

theorem plugin_disable_hides_witness:
  "\<exists>s' fs' e p. ps_setEnabled (one_codec (sample_package ''hello'' ''1.0'' ''hi'')) rev WriteOk ''other'' False
       (sample_store, \<lambda>p. None) = ((s', fs'), e) \<and>
     ps_findCommand rev s' ''hi'' = Some p \<and> pk_Name p \<noteq> TrimSpace ''other''"
proof -
  let ?J = "one_codec (sample_package ''hello'' ''1.0'' ''hi'')"
  have t: "TrimSpace ''other'' = ''other''" by code_simp
  have r: "ps_setEnabled ?J rev WriteOk ''other'' False (sample_store, \<lambda>p. None) =
      ((sample_store, \<lambda>p. None), Some (Errorf ''plugin other not found''))"
    by (simp add: ps_setEnabled_def t sample_store_def)
  have f: "ps_findCommand rev sample_store ''hi'' = Some (sample_package ''hello'' ''1.0'' ''hi'')"
    by (rule sample_finds)
  have "TrimSpace ''other'' \<noteq> []" by (simp add: t)
  from plugin_disable_hides [OF this sample_store_ok is_order_rev r f] r f
  show ?thesis by blast
qed

text \<open>
  Nothing keeps two plugins from offering the same command, and then the plugin
  that exec runs depends on the order in which Go happens to visit the map: here is a valid
  store and a command that one order resolves to one plugin and another order to the other.
\<close>

theorem plugin_command_ambiguous:
  "\<exists>s p q. ps_ok sample_lib s \<and> ps_findCommand (\<lambda>ks. ks) s ''hi'' = Some p \<and>
     ps_findCommand rev s ''hi'' = Some q \<and> pk_Name p = ''hello'' \<and> pk_Name q = ''greet''"
proof -
  let ?a = "sample_package ''hello'' ''1.0'' ''hi''" and ?b = "sample_package ''greet'' ''1.0'' ''hi''"
  let ?s = "\<lparr>ps_path = ''p'', ps_records = [(''hello'', recordFromPackage ?a), (''greet'', recordFromPackage ?b)]\<rparr>"
  have t: "TrimSpace ''greet'' = ''greet''" by code_simp
  have "ps_ok sample_lib ?s"
    using validate_sample [of "''hello''" "''1.0''" "''hi''"] validate_sample [of "''greet''" "''1.0''" "''hi''"]
    by (simp add: ps_ok_def rec_ok_def recordFromPackage_def trim_samples t Let_def validatedI)
  moreover have "ps_findCommand (\<lambda>ks. ks) ?s ''hi'' = Some ?a" "ps_findCommand rev ?s ''hi'' = Some ?b"
    by (simp_all add: ps_findCommand_def map_values_def map_range_def map_filter_simps
        recordFromPackage_def activePluginPackage_def Let_def) (simp_all add: sample_package_def)
  ultimately show ?thesis by (intro exI [of _ ?s] exI [of _ ?a] exI [of _ ?b]) simp
qed

end
