(* ===== verification/Server_Laws.thy ===== *)
theory Server_Laws
  imports Server_Core Plugin_Laws
begin

text \<open>
  What the handlers of server/server.go keep and promise: one reply per message of an
  administrator, no effect without authentication, who may run trusted commands, the way of an
  answer back to the administrator, the registry after heartbeats, sweeps and control messages,
  and the invariants of the stores.
\<close>

section \<open>Replies\<close>

lemma reply_line_length [simp]: "length (reply_line e result) = 1"
  by (simp add: reply_line_def)

lemma handle_inventory_one: "length (snd (handle_inventory B ev msg s)) = 1"
  by (simp add: handle_inventory_def Let_def split: sum.split)

lemma handle_exec_one: "length (snd (handle_exec B ev msg s)) = 1"
  by (simp add: handle_exec_def split: sum.split prod.split)

lemma handle_plugins_one: "length (snd (handle_plugins B ev msg s)) = 1"
proof (cases "m_Type msg = CLIPluginVersions")
  case True
  then show ?thesis by (simp add: handle_plugins_def Let_def split: sum.split)
next
  case False
  then show ?thesis
    by (cases "m_Type msg") (simp_all add: handle_plugins_def plugins_changed_def Let_def)
qed

lemma handle_groups_one: "length (snd (handle_groups B ev msg s)) = 1"
  by (cases "m_Type msg") (simp_all add: handle_groups_def Let_def split: prod.split option.split)

lemma handle_tags_one: "length (snd (handle_tags B msg s)) = 1"
  by (simp add: handle_tags_def Let_def split: prod.split)

lemma handle_ping_one: "length (snd (handle_ping ev msg s)) = 1"
  by (simp add: handle_ping_def split: sum.split prod.split)

lemma handle_control_one: "length (snd (handle_control B ev msg s)) = 1"
  by (simp add: handle_control_def split: sum.split prod.split)

lemmas handle_one = handle_inventory_one handle_exec_one handle_plugins_one handle_groups_one
  handle_tags_one handle_ping_one handle_control_one

section \<open>Merging commands\<close>

lemma set_merge_loop: "set (merge_loop cs xs) = set cs \<union> (TrimSpace ` set xs - {[]})"
  by (induction cs xs rule: merge_loop.induct) (auto simp: Let_def)

lemma distinct_merge_loop: "distinct cs \<Longrightarrow> distinct (merge_loop cs xs)"
  by (induction cs xs rule: merge_loop.induct) (auto simp: Let_def)

lemma mergeCommands_eq:
  "mergeCommands base extra = sorted_list_of_set (TrimSpace ` (set base \<union> set extra) - {[]})"
proof -
  have "distinct (merge_loop [] (base @ extra))" by (simp add: distinct_merge_loop)
  then have "sort (merge_loop [] (base @ extra)) = sorted_list_of_set (set (merge_loop [] (base @ extra)))"
    by (metis sorted_list_of_set_sort_remdups distinct_remdups_id)
  then show ?thesis by (simp add: mergeCommands_def set_merge_loop)
qed

section \<open>Authentication\<close>

lemma verify_unsigned:
  "compute_signature L msg s \<noteq> Inr (m_AuthSignature msg) \<Longrightarrow>
   \<exists>e. verifyCLIMessage L s now now' msg seen = (seen, Some e)"
  by (cases "compute_signature L msg s") (simp_all add: verifyCLIMessage_def Let_def)

section \<open>The registry\<close>

lemma registry_Register:
  assumes "registry_ok R" and "reg_Register R now e r = (r', None)"
  shows "reg_Get R r' (e_ID e) = Inr e \<and> (\<forall>i. i \<noteq> e_ID e \<longrightarrow> reg_Get R r' i = reg_Get R r i)"
  using assms(1) [unfolded registry_ok_def, THEN conjunct1] assms(2) by simp

lemma registry_UpdateStatus:
  assumes "registry_ok R" and "reg_UpdateStatus R now i c r = (r', None)" and "reg_Get R r i = Inr e"
  shows "(\<exists>e'. reg_Get R r' i = Inr e' \<and> e_Connected e' = c) \<and> (\<forall>j. j \<noteq> i \<longrightarrow> reg_Get R r' j = reg_Get R r j)"
  using assms(1) [unfolded registry_ok_def, THEN conjunct2, THEN conjunct1] assms(2,3) by simp

lemma registry_Get_ID: "registry_ok R \<Longrightarrow> reg_Get R r i = Inr e \<Longrightarrow> e_ID e = i"
  by (simp add: registry_ok_def)

text \<open>An entry is looked up, changed in fields other than its identifier, and stored.\<close>

lemma registry_rewrite:
  assumes "registry_ok R" and "reg_Get R r i = Inr e" and "e_ID e' = e_ID e"
    and "snd (reg_Register R now e' r) = None"
  shows "reg_Get R (fst (reg_Register R now e' r)) i = Inr e' \<and>
    (\<forall>j. j \<noteq> i \<longrightarrow> reg_Get R (fst (reg_Register R now e' r)) j = reg_Get R r j)"
  using registry_Register [OF assms(1), of now e' r "fst (reg_Register R now e' r)"]
    registry_Get_ID [OF assms(1,2)] assms(3,4) by (metis prod.collapse)

text \<open>List and Get show the same entries, and UpdateStatus of a known agent succeeds.\<close>

definition list_agrees :: "'r registry_lib \<Rightarrow> 'r \<Rightarrow> bool" where
  "list_agrees R r \<longleftrightarrow> (\<forall>e. e \<in> set (reg_List R r) \<longleftrightarrow> reg_Get R r (e_ID e) = Inr e)"

definition updates_succeed :: "'r registry_lib \<Rightarrow> bool" where
  "updates_succeed R \<longleftrightarrow>
     (\<forall>now i c r e. reg_Get R r i = Inr e \<longrightarrow> snd (reg_UpdateStatus R now i c r) = None)"

abbreviation sweep :: "'r registry_lib \<Rightarrow> instant \<Rightarrow> entry list \<Rightarrow> 'r \<Rightarrow> 'r" where
  "sweep R now es r \<equiv> fold (\<lambda>e r. if stale_entry now e then fst (reg_UpdateStatus R now (e_ID e) False r) else r) es r"

lemma sweep_get:
  assumes "registry_ok R" and "updates_succeed R"
  shows "\<forall>e \<in> set es. \<exists>x. reg_Get R r (e_ID e) = Inr x \<Longrightarrow> reg_Get R r i = Inr x \<Longrightarrow>
    (if \<exists>e \<in> set es. e_ID e = i \<and> stale_entry now e
     then \<exists>y. reg_Get R (sweep R now es r) i = Inr y \<and> \<not> e_Connected y
     else reg_Get R (sweep R now es r) i = Inr x)"
proof (induction es arbitrary: r x)
  case (Cons e es)
  show ?case
  proof (cases "stale_entry now e")
    case False
    with Cons.IH [of r x] Cons.prems show ?thesis by auto
  next
    case True
    obtain z where z: "reg_Get R r (e_ID e) = Inr z" using Cons.prems(1) by auto
    let ?r = "fst (reg_UpdateStatus R now (e_ID e) False r)"
    have "reg_UpdateStatus R now (e_ID e) False r = (?r, None)"
      using assms(2) z unfolding updates_succeed_def by (metis prod.collapse)
    from registry_UpdateStatus [OF assms(1) this z] obtain z' where
      z': "reg_Get R ?r (e_ID e) = Inr z'" "\<not> e_Connected z'"
        "\<And>j. j \<noteq> e_ID e \<Longrightarrow> reg_Get R ?r j = reg_Get R r j" by auto
    have known: "\<forall>a \<in> set es. \<exists>y. reg_Get R ?r (e_ID a) = Inr y"
    proof
      fix a assume "a \<in> set es"
      then show "\<exists>y. reg_Get R ?r (e_ID a) = Inr y"
        using Cons.prems(1) z' by (cases "e_ID a = e_ID e") auto
    qed
    show ?thesis
    proof (cases "e_ID e = i")
      case True
      with Cons.IH [OF known, of z'] z' \<open>stale_entry now e\<close> show ?thesis
        by (auto split: if_splits)
    next
      case False
      with Cons.IH [OF known, of x] z'(3) [of i] Cons.prems(2) \<open>stale_entry now e\<close> show ?thesis
        by (auto split: if_splits)
    qed
  qed
qed simp

section \<open>Dispatch in the handlers\<close>

text \<open>While the call waits, the reader of the agent's session delivers the answer.\<close>

definition answers_with :: "message \<Rightarrow> session_manager \<times> 'x \<Rightarrow> session_manager \<times> 'x" where
  "answers_with resp = (\<lambda>(m, x). case sm_resolvePending resp m of None \<Rightarrow> (m, x) | Some (m', b) \<Rightarrow> (m', x))"

lemma dispatch_answered:
  assumes "sm_get a m = Some session" and "env_send env = None" and "\<not> env_timer env"
    and "env_others env = answers_with resp" and "m_CommandID resp = m_CommandID msg"
  shows "\<exists>m'. sm_dispatch env a msg (m, x) = ((m', x), Inr resp) \<and> sm_sessions m' = sm_sessions m \<and>
    map_of (sm_pending m') = (map_of (sm_pending m))(m_CommandID msg := None) \<and> sm_panic m' = sm_panic m"
  using assms
  by (simp add: sm_dispatch_def sm_registerPending_def answers_with_def sm_resolvePending_def sm_take_def
      sm_send_chan_def sm_close_chan_def Let_def update_conv' delete_conv' fun_eq_iff)

lemma dispatch_offline:
  "sm_get a m = None \<Longrightarrow> sm_dispatch env a msg (m, x) = ((m, x), Inl (offline_error a))"
  by (simp add: sm_dispatch_def)

section \<open>The stores stay well-formed\<close>

definition stores_ok :: "'r srv_lib \<Rightarrow> 'r server \<Rightarrow> bool" where
  "stores_ok B s \<longleftrightarrow> ps_ok (lib_core B) (sv_plugins s) \<and> gs_ok (sv_groups s)"

lemma stores_ok_frame:
  "sv_plugins s' = sv_plugins s \<Longrightarrow> sv_groups s' = sv_groups s \<Longrightarrow> stores_ok B s' = stores_ok B s"
  by (simp add: stores_ok_def)

lemma plugins_changed_ok:
  assumes "stores_ok B s"
    and "r = ps_apply (lib_core B) J ord w op (sv_plugins s, sv_disk s)"
  shows "stores_ok B (fst (plugins_changed s r result))"
proof -
  obtain s' fs' e where r: "r = ((s', fs'), e)" by (metis surj_pair)
  have "ps_ok (lib_core B) s'"
    using ps_apply_ok [of "lib_core B" "sv_plugins s" J ord w op "sv_disk s" "(s', fs')" e] assms r
    by (simp add: stores_ok_def)
  with assms(1) show ?thesis by (simp add: plugins_changed_def set_plugins_def r stores_ok_def)
qed

lemma handle_plugins_stores:
  assumes "stores_ok B s"
  shows "stores_ok B (fst (handle_plugins B ev msg s))"
proof -
  let ?c = "\<lambda>op. ps_apply (lib_core B) (lib_plugins B) (ev_order ev) (ev_write ev) op (sv_plugins s, sv_disk s)"
  have c: "stores_ok B (fst (plugins_changed s (?c op) result))" for op result
    by (rule plugins_changed_ok [OF assms refl])
  show ?thesis
    using c [of "OpInstall (m_Plugin msg)"] c [of "OpSetEnabled (m_PluginName msg) True"]
      c [of "OpSetEnabled (m_PluginName msg) False"] c [of "OpRemove (m_PluginName msg)"]
      c [of "OpRollback (m_PluginName msg) (m_PluginVersion msg)"] assms
    by (cases "m_Type msg"; cases "ps_versions (sv_plugins s) (m_PluginName msg)")
      (simp_all add: handle_plugins_def Let_def)
qed

lemma handle_groups_stores:
  assumes "stores_ok B s"
  shows "stores_ok B (fst (handle_groups B ev msg s))"
proof -
  obtain s1 fs1 e1 where c: "gs_create (lib_groups B) (ev_order ev) (ev_write ev) (m_GroupName msg)
      (sv_groups s, sv_disk s) = ((s1, fs1), e1)" by (metis surj_pair)
  obtain s2 fs2 e2 where d: "gs_delete (lib_groups B) (ev_order ev) (ev_write ev) (m_GroupName msg)
      (sv_groups s, sv_disk s) = ((s2, fs2), e2)" by (metis surj_pair)
  have "gs_ok s1" "gs_ok s2" using assms gs_create_ok [OF _ c] gs_delete_ok [OF _ d] by (simp_all add: stores_ok_def)
  with assms show ?thesis
    by (cases "m_Type msg"; cases e1; cases e2)
      (simp_all add: handle_groups_def Let_def c d set_groups_def stores_ok_def split: prod.split)
qed

text \<open>Other goroutines keep the stores well-formed while a dispatch waits.\<close>

definition others_ok :: "'r srv_lib \<Rightarrow> 'r server dispatch_env \<Rightarrow> bool" where
  "others_ok B env \<longleftrightarrow> (\<forall>m s. stores_ok B s \<longrightarrow> stores_ok B (snd (env_others env (m, s))))"

lemma sv_dispatch_stores:
  assumes "stores_ok B s" and "others_ok B (ev_dispatch ev)" and "sv_dispatch ev a msg s = (s', r)"
  shows "stores_ok B s'"
proof -
  obtain m t q where d: "sm_dispatch (ev_dispatch ev) a msg (sv_sessions s, s) = ((m, t), q)" by (metis surj_pair)
  have "stores_ok B t"
  proof (cases "sm_get a (sv_sessions s)")
    case None
    with d assms(1) show ?thesis by (simp add: sm_dispatch_def)
  next
    case (Some session)
    obtain m1 wait where p: "sm_registerPending (m_CommandID msg) (sv_sessions s) = (m1, wait)" by (metis surj_pair)
    obtain m2 s2 where o: "env_others (ev_dispatch ev) (m1, s) = (m2, s2)" by (metis surj_pair)
    have "stores_ok B s2" using assms(1,2) o unfolding others_ok_def by (metis snd_conv)
    with d Some p o assms(1) show ?thesis
      by (auto simp: sm_dispatch_def Let_def split: option.splits if_splits)
  qed
  with d assms(3) show ?thesis by (auto simp: sv_dispatch_def stores_ok_def)
qed

lemma handle_exec_stores:
  "stores_ok B s \<Longrightarrow> others_ok B (ev_dispatch ev) \<Longrightarrow> stores_ok B (fst (handle_exec B ev msg s))"
  by (auto simp: handle_exec_def split: sum.split prod.split dest: sv_dispatch_stores)

lemma handle_ping_stores:
  "stores_ok B s \<Longrightarrow> others_ok B (ev_dispatch ev) \<Longrightarrow> stores_ok B (fst (handle_ping ev msg s))"
  by (auto simp: handle_ping_def split: sum.split prod.split dest: sv_dispatch_stores)

lemma control_update_stores: "stores_ok B (control_update B now a st s) = stores_ok B s"
  by (auto simp: control_update_def stores_ok_def split: sum.split)

lemma handle_control_stores:
  "stores_ok B s \<Longrightarrow> others_ok B (ev_dispatch ev) \<Longrightarrow> stores_ok B (fst (handle_control B ev msg s))"
  by (auto simp: handle_control_def control_update_stores split: sum.split prod.split dest: sv_dispatch_stores)

lemma handle_quiet_stores:
  "stores_ok B s \<Longrightarrow> stores_ok B (fst (handle_inventory B ev msg s))"
  "stores_ok B s \<Longrightarrow> stores_ok B (fst (handle_tags B msg s))"
  by (simp_all add: handle_inventory_def handle_tags_def stores_ok_def Let_def split: sum.split prod.split)

lemma handle_cli_switch_stores:
  "stores_ok B s \<Longrightarrow> others_ok B (ev_dispatch ev) \<Longrightarrow>
   stores_ok B (fst (handle_cli_switch B ev msg s))"
  by (simp add: handle_cli_switch_def handle_plugins_stores handle_groups_stores handle_exec_stores
      handle_ping_stores handle_control_stores handle_quiet_stores)

lemma handleCLIMessage_stores:
  assumes "stores_ok B s" and "others_ok B (ev_dispatch ev)"
  shows "stores_ok B (fst (handleCLIMessage B ev msg s))"
proof -
  have "stores_ok B (s\<lparr>sv_seenNonces := seen\<rparr>)" for seen using assms(1) by (simp add: stores_ok_def)
  then show ?thesis
    using handle_cli_switch_stores [OF _ assms(2)]
    by (simp add: handleCLIMessage_def split: prod.split option.split)
qed

section \<open>Samples\<close>

definition sample_bundle :: "entry gomap srv_lib" where
  "sample_bundle =
     \<lparr>lib_core = sample_lib, lib_registry = sample_registry,
      lib_paths = \<lparr>fp_Dir = (\<lambda>p. ''.''), fp_Join = join ''/'', fp_IsAbs = (\<lambda>p. False), fp_Clean = (\<lambda>p. p),
        fp_ToSlash = (\<lambda>p. p)\<rparr>,
      lib_groups = lines_codec, lib_plugins = one_codec (sample_package ''hello'' ''1.0'' ''hi''),
      lib_packages = no_packages\<rparr>"

definition sample_entry :: "string \<Rightarrow> entry" where
  "sample_entry i =
     \<lparr>e_ID = i, e_MachineID = i, e_Hostname = i, e_IPAddress = ''10.0.0.1'', e_Port = 2222, e_Version = ''1'',
      e_Status = ''online'', e_Connected = True, e_Commands = [''dir''], e_Tags = [], e_Groups = [], e_LastSeen = 0\<rparr>"

definition sample_server :: "entry gomap server" where
  "sample_server =
     \<lparr>sv_adminSecret = ''k'', sv_seenNonces = [], sv_registry = [(''pc'', sample_entry ''pc'')],
      sv_plugins = sample_store, sv_groups = \<lparr>gs_path = ''g'', gs_groups = []\<rparr>, sv_disk = (\<lambda>p. None),
      sv_sessions = newSessionManager\<lparr>sm_sessions := [(''pc'', \<lparr>ss_ptr = 1, ss_id = ''pc'', ss_conn = 7\<rparr>)]\<rparr>\<rparr>"

definition sample_result :: message where
  "sample_result = (new_message AgentExecResult)\<lparr>m_CommandID := ''cmd-1'', m_Result := ''ok'', m_Success := True\<rparr>"

definition sample_env :: "entry gomap srv_env" where
  "sample_env =
     \<lparr>ev_now = unix_epoch + 5 * second, ev_now_locked = unix_epoch + 5 * second, ev_stamp = unix_epoch + 5 * second,
      ev_order = rev, ev_write = WriteOk, ev_request_id = ''dispatch-1'', ev_command_id = ''cmd-1'',
      ev_dispatch = \<lparr>env_send = None, env_others = answers_with sample_result, env_timer = False\<rparr>\<rparr>"

lemma sample_bundle_simps [simp]:
  "lib_core sample_bundle = sample_lib" "lib_registry sample_bundle = sample_registry"
  "lib_groups sample_bundle = lines_codec"
  by (simp_all add: sample_bundle_def)

lemma sample_stores_ok: "stores_ok sample_bundle sample_server"
  using sample_store_ok by (simp add: stores_ok_def sample_server_def gs_ok_def)

lemma sample_get: "reg_Get sample_registry (sv_registry sample_server) ''pc'' = Inr (sample_entry ''pc'')"
  by (simp add: sample_registry_def sample_server_def sample_entry_def)

section \<open>Properties\<close>

text \<open>
  Every message of an administrator gets exactly one reply, whatever it asks for,
  whatever fails and whatever the agents do meanwhile.
\<close>

theorem server_one_reply: "length (snd (handleCLIMessage B ev msg s)) = 1"
proof -
  have "length (snd (handle_cli_switch B ev msg t)) = 1" for t
    by (simp add: handle_cli_switch_def handle_one [simplified])
  then show ?thesis by (simp add: handleCLIMessage_def split: prod.split option.split)
qed

text \<open>
  Property C4. Without the secret an administrator can do nothing: when the first message of a
  connection is one of an administrator (a type that starts with cli.) and its signature is not the
  one computed with the server's secret, the connection ends with one error reply and the server's
  state, the table of nonces included, is exactly what it was. (Agents register without the secret:
  agent.register is not such a message.)
\<close>

theorem server_refuses_unsigned:
  assumes "type_text_ok (lib_core B)" and "is_cli_type (m_Type msg)"
    and "compute_signature (lib_core B) msg (sv_adminSecret s) \<noteq> Inr (m_AuthSignature msg)"
  shows "\<exists>e. handleConnection B ev session (Inr msg) evs s = Some (s, [err_reply e])"
proof -
  obtain e where "verifyCLIMessage (lib_core B) (sv_adminSecret s) (ev_now ev) (ev_now_locked ev) msg (sv_seenNonces s) =
      (sv_seenNonces s, Some e)"
    using verify_unsigned [OF assms(3)] by blast
  moreover have "HasPrefix (type_text (lib_core B) (m_Type msg)) ''cli.''"
    using assms(1,2) by (simp add: type_text_ok_def)
  ultimately show ?thesis
    by (intro exI [of _ e]) (simp add: handleConnection_def handleCLIMessage_def)
qed

theorem server_refuses_unsigned_witness:
  "\<exists>e. handleConnection sample_bundle sample_env (newAgentSession 2 8)
     (Inr ((sample_request ''n1'' 5)\<lparr>m_Type := CLIPluginRemove, m_AuthSignature := ''forged''\<rparr>)) [] sample_server =
     Some (sample_server, [err_reply e])"
  by (rule server_refuses_unsigned)
    (use sample_lib_ok(1) in \<open>simp_all add: is_cli_type_def sample_server_def sample_lib_def sample_sign_def\<close>)

text \<open>
  Property C14. What exec sends to an agent is marked as trusted exactly when an enabled record of
  the plugin store offers the command in its active version, in whatever order the map is visited.
  Then the message runs the script built from the active package of such a record: around the list
  of the arguments it is fixed by that package, and the arguments enter it only as that list of
  quoted literals. Otherwise the message is the command and the arguments of the request, untrusted.
\<close>

theorem exec_trust:
  assumes "exec_request B ev msg s = Inr d"
    and "ps_ok (lib_core B) (sv_plugins s)" and "is_order (ev_order ev)"
  shows "m_CommandID d = ev_command_id ev \<and> m_AgentID d = m_AgentID msg \<and>
    (m_TrustedAdmin d \<longleftrightarrow> (\<exists>k r q. offers (sv_plugins s) (m_Command msg) k r q)) \<and>
    (m_TrustedAdmin d \<longrightarrow> (\<exists>k r q pre post. offers (sv_plugins s) (m_Command msg) k r q \<and>
       (\<forall>args. buildPluginPowerShell (lib_core B) (lib_paths B) (as_active r q) args =
          Inr (pre @ script_args 0 args @ post)) \<and>
       m_Command d = ''superexec'' \<and> m_Args d = [''powershell'', pre @ script_args 0 (m_Args msg) @ post])) \<and>
    (\<not> m_TrustedAdmin d \<longrightarrow> m_Command d = m_Command msg \<and> m_Args d = m_Args msg)"
proof (cases "ps_findCommand (ev_order ev) (sv_plugins s) (m_Command msg)")
  case None
  with findCommand_offers_None [OF assms(2,3)] assms(1) show ?thesis
    by (auto simp: exec_request_def Let_def new_message_def)
next
  case (Some pkg)
  then obtain k r q where o: "offers (sv_plugins s) (m_Command msg) k r q" "pkg = as_active r q"
    using findCommand_offers_Some [OF assms(2,3)] by blast
  obtain script where b: "buildPluginPowerShell (lib_core B) (lib_paths B) pkg (m_Args msg) = Inr script"
    using assms(1) Some by (auto simp: exec_request_def split: sum.splits)
  then obtain pre post where f: "\<forall>args. buildPluginPowerShell (lib_core B) (lib_paths B) pkg args =
      Inr (pre @ script_args 0 args @ post)" using script_around_args by blast
  with b have "script = pre @ script_args 0 (m_Args msg) @ post" by simp
  with assms(1) Some b have "m_CommandID d = ev_command_id ev" "m_AgentID d = m_AgentID msg" "m_TrustedAdmin d"
    "m_Command d = ''superexec''" "m_Args d = [''powershell'', pre @ script_args 0 (m_Args msg) @ post]"
    by (auto simp: exec_request_def)
  with o f show ?thesis by blast
qed

text \<open>The witness covers both branches: a command of the sample plugin, and one that no plugin offers.\<close>

lemma sample_offers: "offers sample_store ''hi'' ''hello'' (recordFromPackage (sample_package ''hello'' ''1.0'' ''hi''))
    (sample_package ''hello'' ''1.0'' ''hi'')"
  by (simp add: offers_def sample_store_def recordFromPackage_def Let_def) (simp add: sample_package_def)

theorem exec_trust_witness:
  "(\<exists>d. exec_request sample_bundle sample_env ((new_message CLIExec)\<lparr>m_AgentID := ''pc'', m_Command := ''dir''\<rparr>)
      sample_server = Inr d \<and> \<not> m_TrustedAdmin d \<and> m_Command d = ''dir'') \<and>
   (\<exists>d. exec_request sample_bundle sample_env ((new_message CLIExec)\<lparr>m_AgentID := ''pc'', m_Command := ''hi'', m_Args := [''x'']\<rparr>)
      sample_server = Inr d \<and> m_TrustedAdmin d \<and> m_Command d = ''superexec'' \<and>
      (\<exists>pre post. m_Args d = [''powershell'', pre @ quote @ ''x'' @ quote @ post]))"
proof
  let ?m = "(new_message CLIExec)\<lparr>m_AgentID := ''pc'', m_Command := ''dir''\<rparr>"
  let ?h = "(new_message CLIExec)\<lparr>m_AgentID := ''pc'', m_Command := ''hi'', m_Args := [''x'']\<rparr>"
  have ok: "ps_ok (lib_core sample_bundle) (sv_plugins sample_server)" "is_order (ev_order sample_env)"
    by (simp_all add: sample_server_def sample_env_def sample_store_ok is_order_rev)
  have f: "ps_findCommand (ev_order sample_env) (sv_plugins sample_server) ''dir'' = None"
    by (simp add: ps_findCommand_def sample_server_def sample_env_def sample_store_def map_values_def map_range_def
        map_filter_simps recordFromPackage_def activePluginPackage_def Let_def sample_package_def)
  then obtain d where d: "exec_request sample_bundle sample_env ?m sample_server = Inr d"
    by (simp add: exec_request_def)
  then have "\<not> m_TrustedAdmin d" using f by (auto simp: exec_request_def Let_def new_message_def)
  with d exec_trust [OF d ok]
  show "\<exists>d. exec_request sample_bundle sample_env ?m sample_server = Inr d \<and> \<not> m_TrustedAdmin d \<and> m_Command d = ''dir''"
    by auto
  have "ps_findCommand (ev_order sample_env) (sv_plugins sample_server) ''hi'' = Some (sample_package ''hello'' ''1.0'' ''hi'')"
    using sample_finds by (simp add: sample_server_def sample_env_def)
  moreover obtain script where "buildPluginPowerShell (lib_core sample_bundle) (lib_paths sample_bundle)
      (sample_package ''hello'' ''1.0'' ''hi'') [''x''] = Inr script"
    by (simp add: buildPluginPowerShell_def validate_sample trim_samples)
      (simp add: sample_package_def sample_lib_def)
  ultimately obtain e where e: "exec_request sample_bundle sample_env ?h sample_server = Inr e"
    by (simp add: exec_request_def)
  have "offers (sv_plugins sample_server) (m_Command ?h) ''hello''
      (recordFromPackage (sample_package ''hello'' ''1.0'' ''hi'')) (sample_package ''hello'' ''1.0'' ''hi'')"
    using sample_offers by (simp add: sample_server_def)
  with exec_trust [OF e ok] have "m_TrustedAdmin e" "m_Command e = ''superexec''"
    "\<exists>pre post. m_Args e = [''powershell'', pre @ script_args 0 [''x''] @ post]"
    by auto
  moreover have "script_args 0 [''x''] = quote @ ''x'' @ quote" by simp
  ultimately show "\<exists>d. exec_request sample_bundle sample_env ?h sample_server = Inr d \<and> m_TrustedAdmin d \<and>
      m_Command d = ''superexec'' \<and> (\<exists>pre post. m_Args d = [''powershell'', pre @ quote @ ''x'' @ quote @ post])"
    using e by (metis append_assoc)
qed

text \<open>
  The way of an answer: the agent has a session and the write succeeds; its reader
  passes an answer with the command's identifier to resolvePending before the timer fires. Then
  the administrator gets that answer, the identifier is no longer pending, and nothing else has
  changed.
\<close>

theorem exec_answer_delivered:
  assumes "exec_request B ev msg s = Inr d"
    and "sm_get (m_AgentID msg) (sv_sessions s) = Some session"
    and "env_send (ev_dispatch ev) = None" and "\<not> env_timer (ev_dispatch ev)"
    and "env_others (ev_dispatch ev) = answers_with resp" and "m_CommandID resp = ev_command_id ev"
  shows "\<exists>m. handle_exec B ev msg s = (s\<lparr>sv_sessions := m\<rparr>, [exec_reply msg resp]) \<and>
    sm_sessions m = sm_sessions (sv_sessions s) \<and>
    map_of (sm_pending m) = (map_of (sm_pending (sv_sessions s)))(ev_command_id ev := None)"
proof -
  have "m_CommandID d = ev_command_id ev" using exec_request_def assms(1)
    by (auto simp: exec_request_def Let_def split: option.splits sum.splits)
  with assms(6) have c: "m_CommandID resp = m_CommandID d" by simp
  from dispatch_answered [OF assms(2-5) c, of s] obtain m where
    "sm_dispatch (ev_dispatch ev) (m_AgentID msg) d (sv_sessions s, s) = ((m, s), Inr resp)"
    "sm_sessions m = sm_sessions (sv_sessions s)"
    "map_of (sm_pending m) = (map_of (sm_pending (sv_sessions s)))(m_CommandID d := None)" by blast
  then show ?thesis
    using assms(1) \<open>m_CommandID d = ev_command_id ev\<close>
    by (intro exI [of _ m]) (simp add: handle_exec_def sv_dispatch_def)
qed

theorem exec_answer_delivered_witness:
  "\<exists>m. handle_exec sample_bundle sample_env ((new_message CLIExec)\<lparr>m_AgentID := ''pc'', m_Command := ''dir''\<rparr>) sample_server =
     (sample_server\<lparr>sv_sessions := m\<rparr>, [exec_reply ((new_message CLIExec)\<lparr>m_AgentID := ''pc'', m_Command := ''dir''\<rparr>) sample_result])"
proof -
  let ?m = "(new_message CLIExec)\<lparr>m_AgentID := ''pc'', m_Command := ''dir''\<rparr>"
  have f: "ps_findCommand (ev_order sample_env) (sv_plugins sample_server) ''dir'' = None"
    by (simp add: ps_findCommand_def sample_server_def sample_env_def sample_store_def map_values_def map_range_def
        map_filter_simps recordFromPackage_def activePluginPackage_def Let_def sample_package_def)
  then obtain d where d: "exec_request sample_bundle sample_env ?m sample_server = Inr d"
    by (simp add: exec_request_def)
  have g: "sm_get (m_AgentID ?m) (sv_sessions sample_server) = Some \<lparr>ss_ptr = 1, ss_id = ''pc'', ss_conn = 7\<rparr>"
    by (simp add: sm_get_def sample_server_def)
  have "env_send (ev_dispatch sample_env) = None" "\<not> env_timer (ev_dispatch sample_env)"
    "env_others (ev_dispatch sample_env) = answers_with sample_result"
    "m_CommandID sample_result = ev_command_id sample_env"
    by (simp_all add: sample_env_def sample_result_def)
  from exec_answer_delivered [OF d g this] show ?thesis by blast
qed

text \<open>
  The stores stay well-formed: no message of an administrator, accepted or not,
  breaks the invariants of the plugin store and of the group store.
\<close>

theorem server_stores_invariant:
  assumes "stores_ok B s" and "others_ok B (ev_dispatch ev)"
    and "handleCLIMessage B ev msg s = (s', replies)"
  shows "ps_ok (lib_core B) (sv_plugins s') \<and> gs_ok (sv_groups s')"
  using handleCLIMessage_stores [OF assms(1,2), of msg] assms(3) by (simp add: stores_ok_def)

theorem server_stores_invariant_witness:
  "\<exists>s' replies. handleCLIMessage sample_bundle sample_env (sample_request ''n1'' 5) sample_server = (s', replies) \<and>
     ps_ok sample_lib (sv_plugins s') \<and> gs_ok (sv_groups s')"
proof -
  have o: "others_ok sample_bundle (ev_dispatch sample_env)"
    by (auto simp: others_ok_def sample_env_def answers_with_def split: option.split)
  obtain s' replies where r: "handleCLIMessage sample_bundle sample_env (sample_request ''n1'' 5) sample_server = (s', replies)"
    by (metis surj_pair)
  from server_stores_invariant [OF sample_stores_ok o r] r show ?thesis by auto
qed

text \<open>
  What info shows: the commands of the agent and of the enabled plugins, trimmed,
  without empty names or repetitions, in ascending order.
\<close>

theorem info_lists_commands:
  assumes "m_Type msg = CLIInfo" and "reg_Get (lib_registry B) (sv_registry s) (m_AgentID msg) = Inr entry"
  shows "\<exists>reply. handle_cli_switch B ev msg s = (s, [reply]) \<and> m_Success reply \<and>
    m_Commands reply = sorted_list_of_set (TrimSpace `
      (set (e_Commands entry) \<union> set (ps_commandNames (lib_core B) (ev_order ev) (sv_plugins s))) - {[]}) \<and>
    (\<exists>e. m_Agent reply = Some e \<and> e_ID e = e_ID entry \<and> e_Commands e = m_Commands reply)"
  using assms
  by (simp add: handle_cli_switch_def handle_inventory_def cloneEntryWithPlugins_def cloneEntry_def
      mergeCommands_eq new_message_def Let_def)

theorem info_lists_commands_witness:
  "\<exists>reply. handle_cli_switch sample_bundle sample_env ((new_message CLIInfo)\<lparr>m_AgentID := ''pc''\<rparr>) sample_server =
     (sample_server, [reply]) \<and> m_Success reply"
  using info_lists_commands [of "(new_message CLIInfo)\<lparr>m_AgentID := ''pc''\<rparr>" sample_bundle sample_server
      "sample_entry ''pc''" sample_env] sample_get
  by auto

text \<open>
  A heartbeat marks its agent connected with the status it carries (online if it
  carries none) and the time of arrival, keeps the other fields, and touches no other agent, no
  session and no pending command.
\<close>

theorem heartbeat_updates:
  assumes "registry_ok (lib_registry B)" and "m_Type msg = AgentHeartbeat"
    and "reg_Get (lib_registry B) (sv_registry s) a = Inr e"
    and "\<And>e'. snd (reg_Register (lib_registry B) now e' (sv_registry s)) = None"
  shows "\<exists>r. handleAgentMessage B now a msg s = Some (s\<lparr>sv_registry := r\<rparr>, []) \<and>
    reg_Get (lib_registry B) r a =
      Inr (e\<lparr>e_Connected := True, e_Status := online_or (m_Status msg), e_LastSeen := now\<rparr>) \<and>
    (\<forall>i. i \<noteq> a \<longrightarrow> reg_Get (lib_registry B) r i = reg_Get (lib_registry B) (sv_registry s) i)"
proof -
  let ?e = "e\<lparr>e_Connected := True, e_Status := online_or (m_Status msg), e_LastSeen := now\<rparr>"
  have "e_ID ?e = e_ID e" by simp
  from registry_rewrite [OF assms(1,3) this assms(4)] show ?thesis
    using assms(2,3)
    by (intro exI [of _ "fst (reg_Register (lib_registry B) now ?e (sv_registry s))"])
      (simp add: handleAgentMessage_def touch_entry_def)
qed

theorem heartbeat_updates_witness:
  "\<exists>r. handleAgentMessage sample_bundle 77 ''pc'' ((new_message AgentHeartbeat)\<lparr>m_Status := ''frozen''\<rparr>) sample_server =
     Some (sample_server\<lparr>sv_registry := r\<rparr>, []) \<and>
     reg_Get sample_registry r ''pc'' = Inr ((sample_entry ''pc'')\<lparr>e_Status := ''frozen'', e_LastSeen := 77\<rparr>)"
proof -
  have "\<And>e'. snd (reg_Register (lib_registry sample_bundle) 77 e' (sv_registry sample_server)) = None"
    by (simp add: sample_registry_def)
  from heartbeat_updates [of sample_bundle "(new_message AgentHeartbeat)\<lparr>m_Status := ''frozen''\<rparr>" sample_server
      "''pc''" "sample_entry ''pc''", OF _ _ _ this] sample_registry_ok sample_get
  show ?thesis by (auto simp: online_or_def sample_entry_def)
qed

text \<open>
  The sweep marks offline exactly the connected agents that were last seen more
  than 90 seconds ago; every other entry is left as it is.
\<close>

theorem sweep_exact:
  assumes "registry_ok (lib_registry B)" and "updates_succeed (lib_registry B)"
    and "list_agrees (lib_registry B) (sv_registry s)"
    and "reg_Get (lib_registry B) (sv_registry s) i = Inr e"
  shows "\<exists>e'. reg_Get (lib_registry B) (sv_registry (markOffline_tick B now s)) i = Inr e' \<and>
    (e_Connected e' \<longleftrightarrow> e_Connected e \<and> time_Sub now (e_LastSeen e) \<le> 90 * second) \<and>
    (\<not> stale_entry now e \<longrightarrow> e' = e)"
proof -
  let ?R = "lib_registry B" and ?r = "sv_registry s"
  have i: "e_ID e = i" using registry_Get_ID [OF assms(1,4)] .
  have known: "\<forall>a \<in> set (reg_List ?R ?r). \<exists>x. reg_Get ?R ?r (e_ID a) = Inr x"
    using assms(3) unfolding list_agrees_def by blast
  have "(\<exists>a \<in> set (reg_List ?R ?r). e_ID a = i \<and> stale_entry now a) \<longleftrightarrow> stale_entry now e"
    using assms(3,4) i unfolding list_agrees_def by force
  with sweep_get [OF assms(1,2) known assms(4), of now] show ?thesis
    by (auto simp: markOffline_tick_def Let_def stale_entry_def split: if_splits)
qed

theorem sweep_exact_witness:
  "\<exists>e'. reg_Get sample_registry (sv_registry (markOffline_tick sample_bundle (100 * second) sample_server)) ''pc'' = Inr e' \<and>
     \<not> e_Connected e'"
proof -
  have "updates_succeed (lib_registry sample_bundle)"
    by (auto simp: updates_succeed_def sample_registry_def split: option.splits)
  moreover have "list_agrees (lib_registry sample_bundle) (sv_registry sample_server)"
    by (auto simp: list_agrees_def sample_registry_def sample_server_def sample_entry_def)
  ultimately show ?thesis
    using sweep_exact [of sample_bundle sample_server "''pc''" "sample_entry ''pc''" "100 * second"]
      sample_registry_ok sample_get
    by (auto simp: time_Sub_def second_def sample_entry_def)
qed

text \<open>
  After an accepted control message whose answer carries a status, the registry
  shows that status, and the agent as connected unless it is stopping or restarting.
\<close>

theorem control_sets_status:
  assumes "registry_ok (lib_registry B)"
    and "sv_dispatch ev (m_AgentID msg) ((new_message ServerControl)\<lparr>m_RequestID := ev_request_id ev,
           m_CommandID := ev_command_id ev, m_AgentID := m_AgentID msg, m_Control := m_Control msg,
           m_Timestamp := ev_stamp ev\<rparr>) s = (s1, Inr resp)"
    and "m_Status resp \<noteq> []" and "reg_Get (lib_registry B) (sv_registry s1) (m_AgentID msg) = Inr e"
    and "\<And>e'. snd (reg_Register (lib_registry B) (ev_stamp ev) e' (sv_registry s1)) = None"
  shows "\<exists>s2. handle_control B ev msg s = (s2, [(exec_reply msg resp)\<lparr>m_Status := m_Status resp\<rparr>]) \<and>
    reg_Get (lib_registry B) (sv_registry s2) (m_AgentID msg) = Inr (e\<lparr>e_Status := m_Status resp,
      e_Connected := m_Status resp \<noteq> ''stopping'' \<and> m_Status resp \<noteq> ''restarting''\<rparr>)"
proof -
  let ?e = "e\<lparr>e_Status := m_Status resp, e_Connected := \<not> leaving (m_Status resp)\<rparr>"
  have "e_ID ?e = e_ID e" by simp
  from registry_rewrite [OF assms(1,4) this assms(5)] show ?thesis
    using assms(2-4) by (simp add: handle_control_def control_update_def leaving_def)
qed

theorem control_sets_status_witness:
  "\<exists>s2 out e. handle_control sample_bundle (sample_env\<lparr>ev_dispatch := \<lparr>env_send = None,
        env_others = answers_with (sample_result\<lparr>m_Status := ''stopping''\<rparr>), env_timer = False\<rparr>\<rparr>)
      ((new_message CLIAgentControl)\<lparr>m_AgentID := ''pc'', m_Control := ''stop''\<rparr>) sample_server = (s2, out) \<and>
     reg_Get sample_registry (sv_registry s2) ''pc'' = Inr e \<and> e_Status e = ''stopping'' \<and> \<not> e_Connected e"
proof -
  let ?resp = "sample_result\<lparr>m_Status := ''stopping''\<rparr>"
  let ?ev = "sample_env\<lparr>ev_dispatch := \<lparr>env_send = None, env_others = answers_with ?resp, env_timer = False\<rparr>\<rparr>"
  let ?m = "(new_message CLIAgentControl)\<lparr>m_AgentID := ''pc'', m_Control := ''stop''\<rparr>"
  let ?d = "(new_message ServerControl)\<lparr>m_RequestID := ev_request_id ?ev, m_CommandID := ev_command_id ?ev,
      m_AgentID := m_AgentID ?m, m_Control := m_Control ?m, m_Timestamp := ev_stamp ?ev\<rparr>"
  have g: "sm_get ''pc'' (sv_sessions sample_server) = Some \<lparr>ss_ptr = 1, ss_id = ''pc'', ss_conn = 7\<rparr>"
    by (simp add: sm_get_def sample_server_def)
  have "m_CommandID ?resp = m_CommandID ?d" by (simp add: sample_result_def sample_env_def)
  then obtain m where "sm_dispatch (ev_dispatch ?ev) ''pc'' ?d (sv_sessions sample_server, sample_server) =
      ((m, sample_server), Inr ?resp)"
    using dispatch_answered [OF g, of "ev_dispatch ?ev" ?resp ?d sample_server] by auto
  then have "sv_dispatch ?ev (m_AgentID ?m) ?d sample_server = (sample_server\<lparr>sv_sessions := m\<rparr>, Inr ?resp)"
    by (simp add: sv_dispatch_def)
  from control_sets_status [of sample_bundle, OF _ this, of "sample_entry ''pc''"] sample_get
  show ?thesis using sample_registry_ok by (auto simp: sample_registry_def Let_def)
qed

text \<open>
  An agent that reconnects ends up offline in the registry: its new session is
  registered, then the loop of the old session, whose connection the server has just closed,
  sees its Decode fail and marks the agent as disconnected. The agent has a live session and
  the registry says it has none.
\<close>

theorem reconnect_marks_offline:
  "\<exists>s1 s2 out1 e. agent_register sample_bundle 10 (newAgentSession 2 8)
       ((new_message AgentRegister)\<lparr>m_Agent := Some (sample_entry ''pc'')\<rparr>) sample_server = ((s1, out1), Some ''pc'') \<and>
     sm_closed_conns (sv_sessions s1) = [7] \<and>
     agent_loop sample_bundle ''pc'' \<lparr>ss_ptr = 1, ss_id = ''pc'', ss_conn = 7\<rparr> [(\<lambda>s. s, 11, None)] s1 = Some (s2, []) \<and>
     sm_get ''pc'' (sv_sessions s2) = Some \<lparr>ss_ptr = 2, ss_id = ''pc'', ss_conn = 8\<rparr> \<and>
     reg_Get sample_registry (sv_registry s2) ''pc'' = Inr e \<and> \<not> e_Connected e"
  by (simp add: agent_register_def agent_leave_def agent_online_def sample_server_def sample_registry_def
      sample_entry_def newAgentSession_def sm_register_def sm_unregister_def sm_get_def newSessionManager_def Let_def)

end
