(* ===== verification/Command_Registry.thy ===== *)
theory Command_Registry
  imports Storage
begin

text \<open>
  core/plugin_registry.go and the commands cd and dir of plugins/: the table of the commands an
  agent offers, and two of them. A command acts on a state \<open>'st\<close> that the commands of one agent
  share; Execute returns a text and an error, both of which may be there. core.SessionState is
  not in the repository, the record \<open>session_lib\<close> stands for it.
\<close>

type_synonym exec_result = "string \<times> go_error option"

record 'st agent_command =
  ac_Name :: string
  ac_Description :: string
  ac_Execute :: "string list \<Rightarrow> 'st \<Rightarrow> 'st \<times> exec_result"

type_synonym 'st registry = "'st agent_command gomap"

definition NewPluginRegistry :: "'st registry" where
  "NewPluginRegistry = []"

definition cmd_Register :: "'st agent_command \<Rightarrow> 'st registry \<Rightarrow> 'st registry \<times> go_error option" where
  "cmd_Register cmd r =
     (if map_of r (ac_Name cmd) \<noteq> None
      then (r, Some (Errorf (''command '' @ ac_Name cmd @ '' already registered'')))
      else (AList.update (ac_Name cmd) cmd r, None))"

definition cmd_Execute :: "'st registry \<Rightarrow> string \<Rightarrow> string list \<Rightarrow> 'st \<Rightarrow> 'st \<times> exec_result" where
  "cmd_Execute r name args st =
     (case map_of r name of
        None \<Rightarrow> (st, [], Some (Errorf (''command '' @ name @ '' not found'')))
      | Some cmd \<Rightarrow> ac_Execute cmd args st)"

definition cmd_List :: "map_order \<Rightarrow> 'st registry \<Rightarrow> string list" where
  "cmd_List ord r = map_keys ord r"

definition cmd_GetCommand :: "'st registry \<Rightarrow> string \<Rightarrow> 'st agent_command result" where
  "cmd_GetCommand r name =
     (case map_of r name of
        None \<Rightarrow> Inl (Errorf (''command '' @ name @ '' not found''))
      | Some cmd \<Rightarrow> Inr cmd)"

section \<open>The table of commands\<close>

fun register_all :: "'st agent_command list \<Rightarrow> 'st registry \<Rightarrow> 'st registry" where
  "register_all [] r = r"
| "register_all (c # cs) r = register_all cs (fst (cmd_Register c r))"

lemma cmd_Register_ok: "map_ok r \<Longrightarrow> map_ok (fst (cmd_Register c r))"
  by (simp add: cmd_Register_def distinct_update)

lemma cmd_Register_map: "map_of (fst (cmd_Register c r)) n =
  (if map_of r n = None \<and> n = ac_Name c then Some c else map_of r n)"
  by (auto simp: cmd_Register_def update_conv')

lemma register_all_ok: "map_ok r \<Longrightarrow> map_ok (register_all cs r)"
  by (induction cs arbitrary: r) (simp_all add: cmd_Register_ok)

text \<open>The first registration of a name wins.\<close>

lemma register_all_map: "map_of (register_all cs r) n =
  (case map_of r n of Some c \<Rightarrow> Some c | None \<Rightarrow> List.find (\<lambda>c. ac_Name c = n) cs)"
  by (induction cs arbitrary: r) (auto simp: cmd_Register_map split: option.splits)

section \<open>cd and dir\<close>

record 'st session_lib =
  ss_CurrentDir :: "'st \<Rightarrow> string"
  ss_SetCurrentDir :: "string \<Rightarrow> 'st \<Rightarrow> 'st"

definition session_ok :: "'st session_lib \<Rightarrow> bool" where
  "session_ok S \<longleftrightarrow> (\<forall>d st. ss_CurrentDir S (ss_SetCurrentDir S d st) = d)"

record file_info =
  fi_IsDir :: bool
  fi_Size :: "64 word"
  fi_ModTime :: string \<comment> \<open>formatted with 01/02/2006 15:04\<close>

record dir_file =
  df_Name :: string
  df_Info :: "file_info option" \<comment> \<open>None when Info fails\<close>

text \<open>cd: \<open>stat\<close> is os.Stat, which tells a directory from another file or fails.\<close>

definition cd_Execute ::
  "filepath_lib \<Rightarrow> 'st session_lib \<Rightarrow> (string \<Rightarrow> bool option) \<Rightarrow> string list \<Rightarrow> 'st \<Rightarrow> 'st \<times> exec_result" where
  "cd_Execute fp S stat args st =
     (case args of
        [] \<Rightarrow> (st, ss_CurrentDir S st, None)
      | a # _ \<Rightarrow>
          (let target = fp_Clean fp (if \<not> fp_IsAbs fp a then fp_Join fp [ss_CurrentDir S st, a] else a) in
           case stat target of
             None \<Rightarrow> (st, [], Some (Errorf (''directory not found: '' @ target)))
           | Some False \<Rightarrow> (st, [], Some (Errorf (''not a directory: '' @ target)))
           | Some True \<Rightarrow>
               (let st' = ss_SetCurrentDir S target st
                in (st', ''Changed directory to: '' @ ss_CurrentDir S st', None))))"

definition GetCurrentDir :: "'st session_lib \<Rightarrow> 'st \<Rightarrow> string" where
  "GetCurrentDir S st = ss_CurrentDir S st"

definition pad_left :: "nat \<Rightarrow> string \<Rightarrow> string" where
  "pad_left n s = replicate (n - length s) CHR '' '' @ s"

definition pad_right :: "nat \<Rightarrow> string \<Rightarrow> string" where
  "pad_right n s = s @ replicate (n - length s) CHR '' ''"

text \<open>The loop of dir: the lines, and the total of the sizes in 64 bits.\<close>

fun dir_lines :: "dir_file list \<Rightarrow> 64 word \<Rightarrow> string \<times> 64 word" where
  "dir_lines [] acc = ([], acc)"
| "dir_lines (f # fs) acc =
     (case df_Info f of
        None \<Rightarrow> dir_lines fs acc
      | Some i \<Rightarrow>
          (if fi_IsDir i
           then (case dir_lines fs acc of (t, n) \<Rightarrow>
             (pad_right 20 (fi_ModTime i) @ '' <DIR>       '' @ df_Name f @ [CHR 0x0A] @ t, n))
           else (case dir_lines fs (acc + fi_Size i) of (t, n) \<Rightarrow>
             (pad_right 20 (fi_ModTime i) @ '' '' @ pad_left 12 (Itoa (sint (fi_Size i))) @ ''  '' @
                df_Name f @ [CHR 0x0A] @ t, n))))"

definition dir_Execute ::
  "filepath_lib \<Rightarrow> 'st session_lib \<Rightarrow> (string \<Rightarrow> dir_file list result) \<Rightarrow> string list \<Rightarrow> 'st \<Rightarrow> 'st \<times> exec_result" where
  "dir_Execute fp S readdir args st =
     (let target = (case args of
            [] \<Rightarrow> ss_CurrentDir S st
          | a # _ \<Rightarrow> (if fp_IsAbs fp a then a else fp_Join fp [ss_CurrentDir S st, a])) in
      case readdir target of
        Inl e \<Rightarrow> (st, [], Some (Errorf (''failed to list directory: '' @ error_text e)))
      | Inr files \<Rightarrow>
          (case dir_lines files 0 of (t, acc) \<Rightarrow>
             (st, ''Directory of '' @ target @ [CHR 0x0A, CHR 0x0A] @ t @ [CHR 0x0A] @ ''Total: '' @
                Itoa (int (length files)) @ '' files, '' @ Itoa (sint acc) @ '' bytes'' @ [CHR 0x0A], None)))"

text \<open>What cd accepts becomes the directory of the commands that follow, and dir lists it.\<close>

lemma cd_then_dir:
  assumes "session_ok S" and "cd_Execute fp S stat [a] st = (st', t, None)"
  shows "stat (ss_CurrentDir S st') = Some True \<and>
    t = ''Changed directory to: '' @ ss_CurrentDir S st' \<and>
    (\<forall>readdir e. readdir (ss_CurrentDir S st') = Inl e \<longrightarrow>
       dir_Execute fp S readdir [] st' = (st', [], Some (Errorf (''failed to list directory: '' @ error_text e))))"
  using assms by (auto simp: cd_Execute_def session_ok_def dir_Execute_def Let_def split: option.splits bool.splits)

lemma cd_error_keeps: "cd_Execute fp S stat args st = (st', t, Some e) \<Longrightarrow> st' = st"
  by (auto simp: cd_Execute_def Let_def split: list.splits option.splits bool.splits)

lemma dir_keeps: "fst (dir_Execute fp S readdir args st) = st"
  by (auto simp: dir_Execute_def Let_def split: sum.splits prod.splits)

lemma dir_total: "snd (dir_lines fs n) =
  n + sum_list (map fi_Size (filter (\<lambda>i. \<not> fi_IsDir i) (List.map_filter df_Info fs)))"
  by (induction fs n rule: dir_lines.induct) (auto simp: map_filter_simps split: option.splits prod.splits)

end
