(* ===== verification/Event_Bus.thy ===== *)
theory Event_Bus
  imports Prelude "HOL-Library.Sublist"
begin

text \<open>
  core/events.go: listeners subscribe to a type of event and get a channel of ten events;
  Publish writes to every channel of the type and skips those that are full. The channels are
  numbered in the order they are made. Subscribe and UnsubscribeAll hold the mutex of the bus for
  writing, Publish only for reading: several calls of Publish may run at once, and receivers take
  from their channel at any time. A call of Publish is modelled as one step. The section on
  concurrent calls justifies that: whatever order the single sends of such calls and the receivers
  take, each channel goes through the same states as when the calls run one after another, in the
  order in which they reach that channel (which need not be the same for two channels).
\<close>

datatype event_type = CommandExecuted | AgentConnected | AgentDisconnected | EventError

text \<open>Data is a map to values of any type; these are the ones the code puts there.\<close>

datatype event_value = EvString string | EvStrings "string list" | EvBool bool

record event =
  ev_Type :: event_type
  ev_Timestamp :: instant
  ev_Source :: string
  ev_Message :: string
  ev_Data :: "event_value gomap"

record event_chan =
  ec_buf :: "event list"
  ec_closed :: bool

record event_bus =
  eb_listeners :: "event_type \<Rightarrow> nat list"
  eb_chans :: "event_chan list"
  eb_panic :: bool

definition event_capacity :: nat where
  "event_capacity = 10"

definition NewEventBus :: event_bus where
  "NewEventBus = \<lparr>eb_listeners = (\<lambda>t. []), eb_chans = [], eb_panic = False\<rparr>"

definition eb_Subscribe :: "event_type \<Rightarrow> event_bus \<Rightarrow> event_bus \<times> nat" where
  "eb_Subscribe t b =
     (let ch = length (eb_chans b)
      in (b\<lparr>eb_chans := eb_chans b @ [\<lparr>ec_buf = [], ec_closed = False\<rparr>],
            eb_listeners := (eb_listeners b)(t := eb_listeners b t @ [ch])\<rparr>, ch))"

text \<open>The select of Publish: write if there is room, panic on a closed channel, else skip.\<close>

definition eb_offer :: "event \<Rightarrow> nat \<Rightarrow> event_bus \<Rightarrow> event_bus" where
  "eb_offer e ch b =
     (let c = eb_chans b ! ch in
      if ec_closed c then b\<lparr>eb_panic := True\<rparr>
      else if length (ec_buf c) < event_capacity
      then b\<lparr>eb_chans := (eb_chans b)[ch := c\<lparr>ec_buf := ec_buf c @ [e]\<rparr>]\<rparr>
      else b)"

definition eb_Publish :: "event \<Rightarrow> event_bus \<Rightarrow> event_bus" where
  "eb_Publish e b = fold (eb_offer e) (eb_listeners b (ev_Type e)) b"

definition eb_close :: "nat \<Rightarrow> event_bus \<Rightarrow> event_bus" where
  "eb_close ch b =
     (let c = eb_chans b ! ch in
      if ec_closed c then b\<lparr>eb_panic := True\<rparr>
      else b\<lparr>eb_chans := (eb_chans b)[ch := c\<lparr>ec_closed := True\<rparr>]\<rparr>)"

text \<open>UnsubscribeAll; the order of the types is the iteration order of the map.\<close>

definition eb_UnsubscribeAll :: "event_type list \<Rightarrow> event_bus \<Rightarrow> event_bus" where
  "eb_UnsubscribeAll order b =
     (fold eb_close (concat (map (eb_listeners b) order)) b)\<lparr>eb_listeners := (\<lambda>t. [])\<rparr>"

text \<open>A receiver takes the oldest event of its channel.\<close>

definition eb_receive :: "nat \<Rightarrow> event_bus \<Rightarrow> event_bus \<times> event option" where
  "eb_receive ch b =
     (case ec_buf (eb_chans b ! ch) of
        [] \<Rightarrow> (b, None)
      | e # es \<Rightarrow> (b\<lparr>eb_chans := (eb_chans b)[ch := (eb_chans b ! ch)\<lparr>ec_buf := es\<rparr>]\<rparr>, Some e))"

section \<open>Runs\<close>

datatype bus_op = Subscribe event_type | Publish event | UnsubscribeAll "event_type list" | Receive nat

fun bus_apply :: "bus_op \<Rightarrow> event_bus \<Rightarrow> event_bus" where
  "bus_apply (Subscribe t) b = fst (eb_Subscribe t b)"
| "bus_apply (Publish e) b = eb_Publish e b"
| "bus_apply (UnsubscribeAll order) b = eb_UnsubscribeAll order b"
| "bus_apply (Receive ch) b = fst (eb_receive ch b)"

text \<open>Every channel that is listed is open and listed once; no buffer exceeds its capacity.\<close>

definition listed_chans :: "event_bus \<Rightarrow> event_type \<Rightarrow> nat \<Rightarrow> bool" where
  "listed_chans b t ch \<longleftrightarrow> ch \<in> set (eb_listeners b t)"

definition bus_ok :: "event_bus \<Rightarrow> bool" where
  "bus_ok b \<longleftrightarrow> \<not> eb_panic b \<and>
     (\<forall>t. distinct (eb_listeners b t) \<and>
        (\<forall>ch \<in> set (eb_listeners b t). ch < length (eb_chans b) \<and> \<not> ec_closed (eb_chans b ! ch))) \<and>
     (\<forall>t u ch. listed_chans b t ch \<longrightarrow> listed_chans b u ch \<longrightarrow> t = u) \<and>
     (\<forall>ch < length (eb_chans b). length (ec_buf (eb_chans b ! ch)) \<le> event_capacity)"

text \<open>The types in any order, each once: what an iteration over the map visits.\<close>

definition type_order :: "event_type list \<Rightarrow> bool" where
  "type_order ts \<longleftrightarrow> distinct ts \<and> set ts = {CommandExecuted, AgentConnected, AgentDisconnected, EventError}"

fun op_ok :: "bus_op \<Rightarrow> bool" where
  "op_ok (UnsubscribeAll ts) = type_order ts"
| "op_ok _ = True"

lemma type_order_all: "type_order ts \<Longrightarrow> t \<in> set ts"
  by (cases t) (simp_all add: type_order_def)

lemma bus_ok_new: "bus_ok NewEventBus"
  by (simp add: bus_ok_def NewEventBus_def listed_chans_def)

lemma bus_ok_subscribe: "bus_ok b \<Longrightarrow> bus_ok (fst (eb_Subscribe t b))"
  by (auto simp: bus_ok_def eb_Subscribe_def listed_chans_def Let_def nth_append less_Suc_eq split: if_splits)

text \<open>What Publish does to a channel: one event more if the type is listed and there is room.\<close>

lemma offer_frame: "eb_listeners (eb_offer e ch b) = eb_listeners b \<and>
  length (eb_chans (eb_offer e ch b)) = length (eb_chans b)"
  by (simp add: eb_offer_def Let_def)

lemma offer_chans:
  assumes "ch < length (eb_chans b)" and "\<not> ec_closed (eb_chans b ! ch)"
  shows "eb_panic (eb_offer e ch b) = eb_panic b"
    "eb_chans (eb_offer e ch b) ! k =
       (if k = ch \<and> length (ec_buf (eb_chans b ! ch)) < event_capacity
        then (eb_chans b ! ch)\<lparr>ec_buf := ec_buf (eb_chans b ! ch) @ [e]\<rparr> else eb_chans b ! k)"
  using assms by (auto simp: eb_offer_def Let_def nth_update)

lemma offers_chans:
  assumes "distinct chs" and "\<forall>ch \<in> set chs. ch < length (eb_chans b) \<and> \<not> ec_closed (eb_chans b ! ch)"
  shows "eb_listeners (fold (eb_offer e) chs b) = eb_listeners b \<and>
    length (eb_chans (fold (eb_offer e) chs b)) = length (eb_chans b) \<and>
    eb_panic (fold (eb_offer e) chs b) = eb_panic b \<and>
    (\<forall>k. eb_chans (fold (eb_offer e) chs b) ! k =
       (if k \<in> set chs \<and> length (ec_buf (eb_chans b ! k)) < event_capacity
        then (eb_chans b ! k)\<lparr>ec_buf := ec_buf (eb_chans b ! k) @ [e]\<rparr> else eb_chans b ! k))"
  using assms
proof (induction chs arbitrary: b)
  case (Cons ch chs)
  let ?b = "eb_offer e ch b"
  have c: "ch < length (eb_chans b)" "\<not> ec_closed (eb_chans b ! ch)" "ch \<notin> set chs" "distinct chs"
    using Cons.prems by auto
  have "\<forall>k \<in> set chs. k < length (eb_chans ?b) \<and> \<not> ec_closed (eb_chans ?b ! k)"
    using Cons.prems(2) c(3) offer_frame [of e ch b] by (auto simp: offer_chans [OF c(1,2)])
  from Cons.IH [OF c(4) this] show ?case
    using c(3) offer_frame [of e ch b] by (auto simp: offer_chans [OF c(1,2)])
qed simp

lemma publish_chans:
  assumes "bus_ok b"
  shows "eb_listeners (eb_Publish e b) = eb_listeners b \<and>
    length (eb_chans (eb_Publish e b)) = length (eb_chans b) \<and> eb_panic (eb_Publish e b) = eb_panic b \<and>
    (\<forall>k. eb_chans (eb_Publish e b) ! k =
       (if listed_chans b (ev_Type e) k \<and> length (ec_buf (eb_chans b ! k)) < event_capacity
        then (eb_chans b ! k)\<lparr>ec_buf := ec_buf (eb_chans b ! k) @ [e]\<rparr> else eb_chans b ! k))"
  using offers_chans [of "eb_listeners b (ev_Type e)" b e] assms
  unfolding eb_Publish_def bus_ok_def listed_chans_def by blast

lemma bus_ok_publish: "bus_ok b \<Longrightarrow> bus_ok (eb_Publish e b)"
  using publish_chans [of b e] by (auto simp: bus_ok_def listed_chans_def)

lemma bus_ok_receive: "bus_ok b \<Longrightarrow> bus_ok (fst (eb_receive ch b))"
  by (cases "ec_buf (eb_chans b ! ch)") (fastforce simp: bus_ok_def eb_receive_def listed_chans_def nth_update)+

lemma closes_panic:
  assumes "distinct chs" and "\<forall>ch \<in> set chs. ch < length (eb_chans b) \<and> \<not> ec_closed (eb_chans b ! ch)"
  shows "eb_panic (fold eb_close chs b) = eb_panic b \<and>
    length (eb_chans (fold eb_close chs b)) = length (eb_chans b) \<and>
    (\<forall>k. ec_buf (eb_chans (fold eb_close chs b) ! k) = ec_buf (eb_chans b ! k))"
  using assms
proof (induction chs arbitrary: b)
  case (Cons ch chs)
  have "\<forall>k \<in> set chs. k < length (eb_chans (eb_close ch b)) \<and> \<not> ec_closed (eb_chans (eb_close ch b) ! k)"
    using Cons.prems by (auto simp: eb_close_def Let_def nth_update)
  moreover have "eb_panic (eb_close ch b) = eb_panic b \<and> length (eb_chans (eb_close ch b)) = length (eb_chans b) \<and>
      (\<forall>k. ec_buf (eb_chans (eb_close ch b) ! k) = ec_buf (eb_chans b ! k))"
    using Cons.prems by (auto simp: eb_close_def Let_def nth_update)
  ultimately show ?case using Cons.IH [of "eb_close ch b"] Cons.prems(1) by simp
qed simp

lemma listed_distinct:
  assumes "bus_ok b" and "distinct ts"
  shows "distinct (concat (map (eb_listeners b) ts))"
  using assms(2)
proof (induction ts)
  case (Cons t ts)
  have "distinct (eb_listeners b t)" using assms(1) by (simp add: bus_ok_def)
  moreover have "set (eb_listeners b t) \<inter> set (concat (map (eb_listeners b) ts)) = {}"
  proof (rule ccontr)
    assume "\<not> ?thesis"
    then obtain ch u where "ch \<in> set (eb_listeners b t)" "u \<in> set ts" "ch \<in> set (eb_listeners b u)" by auto
    then have "t = u" using assms(1) unfolding bus_ok_def listed_chans_def by blast
    with Cons.prems \<open>u \<in> set ts\<close> show False by simp
  qed
  ultimately show ?case using Cons by simp
qed simp

lemma bus_ok_unsubscribe: "bus_ok b \<Longrightarrow> type_order ts \<Longrightarrow> bus_ok (eb_UnsubscribeAll ts b)"
proof -
  assume b: "bus_ok b" and ts: "type_order ts"
  have "\<forall>ch \<in> set (concat (map (eb_listeners b) ts)). ch < length (eb_chans b) \<and> \<not> ec_closed (eb_chans b ! ch)"
    using b by (auto simp: bus_ok_def)
  moreover have "distinct (concat (map (eb_listeners b) ts))"
    using listed_distinct [OF b] ts by (simp add: type_order_def)
  ultimately show ?thesis
    using closes_panic [of "concat (map (eb_listeners b) ts)" b] b
    by (simp add: bus_ok_def eb_UnsubscribeAll_def listed_chans_def)
qed

lemma bus_ok_apply: "bus_ok b \<Longrightarrow> op_ok op \<Longrightarrow> bus_ok (bus_apply op b)"
  by (cases op) (simp_all add: bus_ok_subscribe bus_ok_publish bus_ok_unsubscribe bus_ok_receive)

lemma bus_ok_run: "bus_ok b \<Longrightarrow> \<forall>op \<in> set ops. op_ok op \<Longrightarrow> bus_ok (fold bus_apply ops b)"
  by (induction ops arbitrary: b) (simp_all add: bus_ok_apply)

section \<open>Concurrent calls of Publish\<close>

text \<open>
  While the mutex is held for reading the lists of channels do not change, and the goroutines that
  publish send to one channel at a time.
\<close>

datatype bus_step = Sent event nat | Taken nat

fun step_apply :: "bus_step \<Rightarrow> event_bus \<Rightarrow> event_bus" where
  "step_apply (Sent e ch) b = eb_offer e ch b"
| "step_apply (Taken ch) b = fst (eb_receive ch b)"

fun step_listed :: "(event_type \<Rightarrow> nat list) \<Rightarrow> bus_step \<Rightarrow> bool" where
  "step_listed ls (Sent e ch) \<longleftrightarrow> ch \<in> set (ls (ev_Type e))"
| "step_listed ls (Taken ch) \<longleftrightarrow> True"

text \<open>The same steps as whole operations, for one channel.\<close>

fun as_seen :: "nat \<Rightarrow> bus_step list \<Rightarrow> bus_op list" where
  "as_seen k [] = []"
| "as_seen k (Sent e ch # steps) = (if ch = k then [Publish e] else []) @ as_seen k steps"
| "as_seen k (Taken ch # steps) = (if ch = k then [Receive k] else []) @ as_seen k steps"

lemma receive_frame:
  "eb_listeners (fst (eb_receive ch b)) = eb_listeners b"
  "length (eb_chans (fst (eb_receive ch b))) = length (eb_chans b)"
  by (simp_all add: eb_receive_def split: list.split)

lemma receive_chan:
  "k < length (eb_chans b) \<Longrightarrow> eb_chans (fst (eb_receive ch b)) ! k =
     (if k = ch then (eb_chans b ! k)\<lparr>ec_buf := tl (ec_buf (eb_chans b ! k))\<rparr> else eb_chans b ! k)"
  by (cases "ec_buf (eb_chans b ! ch)") (simp_all add: eb_receive_def)

lemma bus_ok_step:
  assumes ok: "bus_ok b" and "step_listed (eb_listeners b) x"
  shows "bus_ok (step_apply x b)"
proof (cases x)
  case (Sent e ch)
  with assms have "ch < length (eb_chans b)" "\<not> ec_closed (eb_chans b ! ch)" by (auto simp: bus_ok_def)
  from offer_chans [OF this, of e] offer_frame [of e ch b] ok Sent show ?thesis
    by (auto simp: bus_ok_def listed_chans_def)
qed (simp add: bus_ok_receive ok)

lemma step_frame: "eb_listeners (step_apply x b) = eb_listeners b"
  by (cases x) (simp_all add: offer_frame receive_frame)

lemma publish_interleaved:
  assumes "bus_ok b" and "bus_ok b'" and "eb_listeners b' = eb_listeners b"
    and "k < length (eb_chans b)" and "k < length (eb_chans b')" and "eb_chans b' ! k = eb_chans b ! k"
    and "list_all (step_listed (eb_listeners b)) steps"
  shows "eb_chans (fold step_apply steps b) ! k = eb_chans (fold bus_apply (as_seen k steps) b') ! k \<and>
    \<not> eb_panic (fold step_apply steps b)"
  using assms
proof (induction steps arbitrary: b b')
  case (Cons x steps)
  let ?b = "step_apply x b" and ?b' = "fold bus_apply (as_seen k [x]) b'"
  have x: "step_listed (eb_listeners b) x" using Cons.prems(7) by simp
  have ok: "bus_ok ?b" using Cons.prems(1) x by (rule bus_ok_step)
  have "eb_chans ?b' ! k = eb_chans ?b ! k \<and> bus_ok ?b' \<and> eb_listeners ?b' = eb_listeners b \<and>
      k < length (eb_chans ?b) \<and> k < length (eb_chans ?b')"
  proof (cases x)
    case (Sent e ch)
    with x Cons.prems(1) have ch: "ch < length (eb_chans b)" "\<not> ec_closed (eb_chans b ! ch)"
      by (auto simp: bus_ok_def)
    show ?thesis
      using offer_chans [OF ch, of e] offer_frame [of e ch b] publish_chans [OF Cons.prems(2), of e]
        bus_ok_publish [OF Cons.prems(2)] Cons.prems x Sent
      by (auto simp: listed_chans_def)
  next
    case (Taken ch)
    then show ?thesis
      using receive_frame [of ch] receive_chan [of k b ch] receive_chan [of k b' ch] bus_ok_receive [OF Cons.prems(2)]
        Cons.prems by auto
  qed
  then have ih: "eb_chans (fold step_apply steps ?b) ! k = eb_chans (fold bus_apply (as_seen k steps) ?b') ! k \<and>
    \<not> eb_panic (fold step_apply steps ?b)"
    using Cons.prems(7) step_frame [of x b] ok by (intro Cons.IH) auto
  have "as_seen k (x # steps) = as_seen k [x] @ as_seen k steps" by (cases x) simp_all
  with ih show ?case by (simp only: fold.simps(2) fold_append comp_apply simp_thms)
qed (simp add: bus_ok_def)

section \<open>What a subscriber gets\<close>

fun received :: "nat \<Rightarrow> bus_op list \<Rightarrow> event_bus \<Rightarrow> event list" where
  "received ch [] b = []"
| "received ch (op # ops) b =
     (if op = Receive ch then (case snd (eb_receive ch b) of None \<Rightarrow> [] | Some e \<Rightarrow> [e]) else []) @
     received ch ops (bus_apply op b)"

fun published :: "event_type \<Rightarrow> bus_op list \<Rightarrow> event list" where
  "published t [] = []"
| "published t (Publish e # ops) = (if ev_Type e = t then [e] else []) @ published t ops"
| "published t (op # ops) = published t ops"

definition only_type :: "event_bus \<Rightarrow> event_type \<Rightarrow> nat \<Rightarrow> bool" where
  "only_type b t ch \<longleftrightarrow> ch < length (eb_chans b) \<and> (\<forall>u. listed_chans b u ch \<longrightarrow> u = t)"

lemma only_type_apply: "bus_ok b \<Longrightarrow> op_ok op \<Longrightarrow> only_type b t ch \<Longrightarrow> only_type (bus_apply op b) t ch"
proof (cases op)
  case (UnsubscribeAll ts)
  assume "bus_ok b" "op_ok op" "only_type b t ch"
  moreover have "length (eb_chans (fold eb_close chs b)) = length (eb_chans b)" for chs b
    by (induction chs arbitrary: b) (simp_all add: eb_close_def Let_def)
  ultimately show ?thesis using UnsubscribeAll
    by (simp add: only_type_def listed_chans_def eb_UnsubscribeAll_def)
next
  case (Publish e)
  assume "bus_ok b" "only_type b t ch"
  with publish_chans [of b e] Publish show ?thesis by (simp add: only_type_def listed_chans_def)
qed (auto simp: only_type_def listed_chans_def eb_Subscribe_def eb_receive_def Let_def split: list.splits if_splits)

lemma unsubscribe_buf: "ec_buf (eb_chans (eb_UnsubscribeAll ts b) ! ch) = ec_buf (eb_chans b ! ch)"
proof -
  have "ec_buf (eb_chans (fold eb_close chs b) ! ch) = ec_buf (eb_chans b ! ch)" for chs b
    by (induction chs arbitrary: b) (simp_all add: eb_close_def Let_def nth_update)
  then show ?thesis by (simp add: eb_UnsubscribeAll_def)
qed

lemma subseq_prefix_trans: "subseq xs (b @ zs) \<Longrightarrow> subseq b c \<Longrightarrow> subseq xs (c @ zs)"
  by (meson list_emb_append_mono subseq_order.order_refl subseq_order.order_trans)

lemma delivered_subseq:
  "bus_ok b \<Longrightarrow> \<forall>op \<in> set ops. op_ok op \<Longrightarrow> only_type b t ch \<Longrightarrow>
   subseq (received ch ops b @ ec_buf (eb_chans (fold bus_apply ops b) ! ch))
     (ec_buf (eb_chans b ! ch) @ published t ops)"
proof (induction ops arbitrary: b)
  case (Cons op ops)
  let ?b = "bus_apply op b"
  have op: "op_ok op" and len: "ch < length (eb_chans b)" using Cons.prems by (auto simp: only_type_def)
  have ih: "subseq (received ch ops ?b @ ec_buf (eb_chans (fold bus_apply ops ?b) ! ch))
      (ec_buf (eb_chans ?b ! ch) @ published t ops)"
    using Cons.IH [of ?b] Cons.prems bus_ok_apply only_type_apply by simp
  show ?case
  proof (cases op)
    case (Subscribe u)
    with len have "ec_buf (eb_chans ?b ! ch) = ec_buf (eb_chans b ! ch)"
      by (simp add: eb_Subscribe_def Let_def nth_append)
    with ih Subscribe show ?thesis by simp
  next
    case (Publish e)
    have "ec_buf (eb_chans ?b ! ch) = ec_buf (eb_chans b ! ch) \<or>
        ev_Type e = t \<and> ec_buf (eb_chans ?b ! ch) = ec_buf (eb_chans b ! ch) @ [e]"
      using publish_chans [OF Cons.prems(1), of e] Cons.prems(3) Publish by (auto simp: only_type_def)
    then have "subseq (ec_buf (eb_chans ?b ! ch)) (ec_buf (eb_chans b ! ch) @ (if ev_Type e = t then [e] else []))"
      by auto
    from subseq_prefix_trans [OF ih this] Publish show ?thesis by simp
  next
    case (UnsubscribeAll ts)
    with ih show ?thesis by (simp add: unsubscribe_buf)
  next
    case (Receive c)
    show ?thesis
    proof (cases "ec_buf (eb_chans b ! c)")
      case Nil
      then show ?thesis using ih Receive by (cases "c = ch") (simp_all add: eb_receive_def)
    next
      case (Cons e es)
      then show ?thesis using ih Receive len
        by (cases "c = ch") (simp_all add: eb_receive_def)
    qed
  qed
qed simp

section \<open>Properties\<close>

text \<open>
  Property C22. A subscriber gets events of its type only, in the order they were published and
  none twice; it may miss some, when its channel is full. No run of operations makes the bus
  write to a closed channel or close one twice. (Calls of Publish are taken one after another; calls
  that overlap give a channel what they give it in the order in which they reach it, by
  publish_interleaved.)
\<close>

theorem events_in_order:
  assumes "\<forall>op \<in> set (before @ after). op_ok op"
    and "eb_Subscribe t (fold bus_apply before NewEventBus) = (b, ch)"
  shows "subseq (received ch after b) (published t after) \<and> \<not> eb_panic (fold bus_apply after b)"
proof
  let ?b0 = "fold bus_apply before NewEventBus"
  have b0: "bus_ok ?b0" using assms(1) by (intro bus_ok_run bus_ok_new) simp
  have b: "b = fst (eb_Subscribe t ?b0)" using assms(2) by simp
  then have ok: "bus_ok b" using bus_ok_subscribe [OF b0] by simp
  show "\<not> eb_panic (fold bus_apply after b)"
    using bus_ok_run [OF ok, of after] assms(1) by (simp add: bus_ok_def)
  have ch: "ch = length (eb_chans ?b0)" "ec_buf (eb_chans b ! ch) = []"
    using assms(2) by (auto simp: eb_Subscribe_def Let_def)
  moreover have "\<not> listed_chans ?b0 u (length (eb_chans ?b0))" for u
    using b0 unfolding bus_ok_def listed_chans_def by blast
  ultimately have "only_type b t ch"
    using b by (auto simp: only_type_def eb_Subscribe_def listed_chans_def Let_def split: if_splits)
  from delivered_subseq [OF ok _ this, of after] assms(1) ch(2)
  have "subseq (received ch after b @ ec_buf (eb_chans (fold bus_apply after b) ! ch)) (published t after)"
    by simp
  then show "subseq (received ch after b) (published t after)"
    by (meson list_emb_append2 list_emb_prefix subseq_order.order_trans subseq_order.refl)
qed

theorem events_in_order_witness:
  "\<exists>b ch. eb_Subscribe AgentConnected NewEventBus = (b, ch) \<and>
     subseq (received ch [Publish \<lparr>ev_Type = AgentConnected, ev_Timestamp = 1, ev_Source = ''a'', ev_Message = [], ev_Data = []\<rparr>, Receive 0] b)
       [\<lparr>ev_Type = AgentConnected, ev_Timestamp = 1, ev_Source = ''a'', ev_Message = [], ev_Data = []\<rparr>]"
proof -
  let ?e = "\<lparr>ev_Type = AgentConnected, ev_Timestamp = 1, ev_Source = ''a'', ev_Message = [], ev_Data = []\<rparr>"
  obtain b ch where b: "eb_Subscribe AgentConnected (fold bus_apply [] NewEventBus) = (b, ch)" by (metis surj_pair)
  from events_in_order [of "[]" "[Publish ?e, Receive 0]", OF _ b] b show ?thesis by auto
qed

end
