(* ===== verification/Agent_Service.thy ===== *)
theory Agent_Service
  imports Wire Go_Format Command_Registry Event_Bus
begin

text \<open>
  core/agent.go, agent/agent.go and agent/runtime.go: the agent on a managed machine. Handlers
  take the state and return it with what they did to the outside: the messages they handed to
  the encoder, the processes they started and whether they scheduled the end of the program.
  Clocks, identifiers, the network and the processes are arguments.
\<close>

section \<open>core/agent.go\<close>

record 'st core_agent =
  ca_ID :: string
  ca_Hostname :: string
  ca_IPAddress :: string
  ca_Port :: int
  ca_Registry :: "'st registry"
  ca_EventBus :: event_bus
  ca_Connected :: bool
  ca_LastHeartbeat :: instant

definition generateAgentID :: "string \<Rightarrow> string" where
  "generateAgentID hostname = hostname"

text \<open>NewAgent; the second argument is what os.Hostname returns.\<close>

definition NewAgent :: "string \<Rightarrow> string \<Rightarrow> instant \<Rightarrow> 'st core_agent" where
  "NewAgent hostname os_hostname now =
     (let actual = (if hostname = [] then os_hostname else hostname)
      in \<lparr>ca_ID = generateAgentID actual, ca_Hostname = actual, ca_IPAddress = [], ca_Port = 2222,
          ca_Registry = NewPluginRegistry, ca_EventBus = NewEventBus, ca_Connected = False,
          ca_LastHeartbeat = now\<rparr>)"

text \<open>GetLocalIP; \<open>local\<close> is the local address of a UDP socket, or the error of the dial.\<close>

definition GetLocalIP :: "string result \<Rightarrow> 'st core_agent \<Rightarrow> 'st core_agent \<times> string result" where
  "GetLocalIP local a =
     (case local of Inl e \<Rightarrow> (a, Inl e) | Inr ip \<Rightarrow> (a\<lparr>ca_IPAddress := ip\<rparr>, Inr ip))"

definition core_Start :: "string result \<Rightarrow> instant \<Rightarrow> 'st core_agent \<Rightarrow> 'st core_agent" where
  "core_Start local now a0 =
     (let a1 = (case GetLocalIP local a0 of
                  (a, Inl e) \<Rightarrow> a\<lparr>ca_IPAddress := ''127.0.0.1''\<rparr>
                | (a, Inr ip) \<Rightarrow> a);
          a2 = a1\<lparr>ca_Connected := True, ca_LastHeartbeat := now\<rparr>
      in a2\<lparr>ca_EventBus := eb_Publish \<lparr>ev_Type = AgentConnected, ev_Timestamp = now, ev_Source = ca_ID a2,
             ev_Message = ''Agent started on '' @ ca_Hostname a2 @ '' ('' @ ca_IPAddress a2 @ '':'' @ Itoa (ca_Port a2) @ '')'',
             ev_Data = [(''hostname'', EvString (ca_Hostname a2)), (''ip'', EvString (ca_IPAddress a2))]\<rparr>
           (ca_EventBus a2)\<rparr>)"

text \<open>The verb v of fmt on a list of texts and on an error.\<close>

definition show_args :: "string list \<Rightarrow> string" where
  "show_args args = ''['' @ join '' '' args @ '']''"

definition show_error :: "go_error option \<Rightarrow> string" where
  "show_error e = (case e of None \<Rightarrow> ''<nil>'' | Some x \<Rightarrow> error_text x)"

definition ExecuteCommand ::
  "instant \<Rightarrow> string \<Rightarrow> string list \<Rightarrow> 'st core_agent \<Rightarrow> 'st \<Rightarrow> 'st core_agent \<times> 'st \<times> exec_result" where
  "ExecuteCommand now cmdName args a st =
     (case cmd_Execute (ca_Registry a) cmdName args st of (st', out, err) \<Rightarrow>
        (a\<lparr>ca_EventBus := eb_Publish \<lparr>ev_Type = CommandExecuted, ev_Timestamp = now, ev_Source = ca_ID a,
             ev_Message = ''Executed: '' @ cmdName @ '' '' @ show_args args @ '' -> '' @ show_error err,
             ev_Data = [(''command'', EvString cmdName), (''args'', EvStrings args), (''error'', EvBool (err \<noteq> None))]\<rparr>
           (ca_EventBus a)\<rparr>, st', out, err))"

definition Heartbeat :: "instant \<Rightarrow> 'st core_agent \<Rightarrow> 'st core_agent" where
  "Heartbeat now a = a\<lparr>ca_LastHeartbeat := now\<rparr>"

section \<open>The service\<close>

text \<open>
  The connection, its decoder and its encoder are set and cleared together, so one flag stands
  for the three. \<open>as_shell\<close> is the state the commands share.
\<close>

record 'st agent_service =
  as_agent :: "'st core_agent"
  as_serverAddr :: string
  as_serverPort :: int
  as_listenPort :: int
  as_frozen :: bool
  as_online :: bool
  as_quit :: bool
  as_shell :: 'st

definition NewAgentService ::
  "string \<Rightarrow> string result \<Rightarrow> instant \<Rightarrow> 'st \<Rightarrow> string \<Rightarrow> int \<Rightarrow> int \<Rightarrow> 'st agent_service" where
  "NewAgentService hostname local now shell serverAddr serverPort listenPort =
     (let agent = core_Start local now (NewAgent hostname hostname now);
          listen = (if listenPort = 0 then 2222 else listenPort)
      in \<lparr>as_agent = agent\<lparr>ca_Port := listen\<rparr>,
          as_serverAddr = (if serverAddr = [] then ''127.0.0.1'' else serverAddr),
          as_serverPort = (if serverPort = 0 then 9999 else serverPort),
          as_listenPort = listen, as_frozen = False, as_online = False, as_quit = False, as_shell = shell\<rparr>)"

text \<open>The getters of a service.\<close>

definition as_Agent :: "'st agent_service \<Rightarrow> 'st core_agent" where
  [simp]: "as_Agent a = as_agent a"

definition isFrozen :: "'st agent_service \<Rightarrow> bool" where
  [simp]: "isFrozen a = as_frozen a"

definition machineID :: "'st agent_service \<Rightarrow> string" where
  [simp]: "machineID a = ca_Hostname (as_agent a)"

definition currentStatus :: "'st agent_service \<Rightarrow> string" where
  "currentStatus a = (if isFrozen a then ''frozen'' else ''online'')"

definition advertisedIP :: "'st agent_service \<Rightarrow> string" where
  "advertisedIP a =
     (if as_serverAddr a = ''localhost'' \<or> as_serverAddr a = ''127.0.0.1'' then ''127.0.0.1''
      else if ca_IPAddress (as_agent a) \<noteq> [] then ca_IPAddress (as_agent a) else ''127.0.0.1'')"

definition clearConnection :: "'st agent_service \<Rightarrow> 'st agent_service" where
  "clearConnection a = a\<lparr>as_online := False\<rparr>"

definition setFrozen :: "bool \<Rightarrow> 'st agent_service \<Rightarrow> 'st agent_service" where
  "setFrozen v a = a\<lparr>as_frozen := v\<rparr>"

text \<open>
  What a handler meets: the clock, the outcome of the encoder, the system it runs on, and what
  a process prints and returns. What it does: the messages written, the processes run and the
  exit code of a scheduled end.
\<close>

record agent_env =
  ae_now :: instant
  ae_encode :: "message \<Rightarrow> go_error option"
  ae_goos :: string
  ae_run :: "string list \<Rightarrow> exec_result" \<comment> \<open>CombinedOutput of exec.Command\<close>

record effects =
  ef_sent :: "message list"
  ef_ran :: "string list list"
  ef_exit :: "int option"

definition quiet :: effects where
  "quiet = \<lparr>ef_sent = [], ef_ran = [], ef_exit = None\<rparr>"

definition as_send :: "agent_env \<Rightarrow> message \<Rightarrow> 'st agent_service \<Rightarrow> message list \<times> go_error option" where
  "as_send ev msg a =
     (if \<not> as_online a then ([], Some (Errorf ''agent not connected'')) else ([msg], ae_encode ev msg))"

section \<open>superexec\<close>

definition runCombinedOutput :: "agent_env \<Rightarrow> string list \<Rightarrow> exec_result" where
  "runCombinedOutput ev cmd =
     (case ae_run ev cmd of
        (output, Some e) \<Rightarrow> (output, Some (Errorf (''superexec failed: '' @ error_text e)))
      | (output, None) \<Rightarrow> (output, None))"

definition commandForCMD :: "string \<Rightarrow> string list \<Rightarrow> string list" where
  "commandForCMD goos args =
     (if goos = ''windows'' then [''cmd.exe'', ''/C'', join '' '' args] else [''sh'', ''-lc'', join '' '' args])"

definition commandForPowerShell :: "string \<Rightarrow> string list \<Rightarrow> string list" where
  "commandForPowerShell goos args =
     (if goos = ''windows''
      then [''powershell.exe'', ''-NoProfile'', ''-NonInteractive'', ''-ExecutionPolicy'', ''Bypass'', ''-Command'', join '' '' args]
      else [''pwsh'', ''-NoProfile'', ''-NonInteractive'', ''-Command'', join '' '' args])"

text \<open>The command line executeSuperExec runs, or the error it returns instead.\<close>

definition superexec_command :: "string \<Rightarrow> message \<Rightarrow> string list result" where
  "superexec_command goos msg =
     (if \<not> m_TrustedAdmin msg then Inl (Errorf ''superexec requires a trusted admin request'')
      else case m_Args msg of
             [] \<Rightarrow> Inl (Errorf ''usage: superexec <cmd|powershell|exec> ...'')
           | a # commandArgs \<Rightarrow>
               (let mode = ToLower (TrimSpace a) in
                if mode = ''cmd'' then
                  (if commandArgs = [] then Inl (Errorf ''usage: superexec cmd <command...>'')
                   else Inr (commandForCMD goos commandArgs))
                else if mode \<in> {''powershell'', ''pwsh'', ''ps''} then
                  (if commandArgs = [] then Inl (Errorf ''usage: superexec powershell <command...>'')
                   else Inr (commandForPowerShell goos commandArgs))
                else if mode = ''exec'' then
                  (if commandArgs = [] then Inl (Errorf ''usage: superexec exec <program> [args...]'')
                   else Inr commandArgs)
                else Inr (commandForCMD goos (m_Args msg))))"

definition executeSuperExec :: "agent_env \<Rightarrow> message \<Rightarrow> string list list \<times> exec_result" where
  "executeSuperExec ev msg =
     (case superexec_command (ae_goos ev) msg of
        Inl e \<Rightarrow> ([], [], Some e)
      | Inr cmd \<Rightarrow> ([cmd], runCombinedOutput ev cmd))"

section \<open>Messages of the server\<close>

definition agent_reply :: "agent_env \<Rightarrow> mtype \<Rightarrow> message \<Rightarrow> 'st agent_service \<Rightarrow> message" where
  "agent_reply ev t msg a =
     (new_message t)\<lparr>m_RequestID := m_RequestID msg, m_CommandID := m_CommandID msg,
        m_AgentID := ca_ID (as_agent a), m_Timestamp := ae_now ev\<rparr>"

definition frozen_reply :: "agent_env \<Rightarrow> message \<Rightarrow> 'st agent_service \<Rightarrow> message" where
  "frozen_reply ev msg a =
     (agent_reply ev AgentExecResult msg a)
       \<lparr>m_Error := ''agent is frozen and not accepting commands'', m_Success := False, m_Status := ''frozen''\<rparr>"

definition exec_result_reply :: "agent_env \<Rightarrow> message \<Rightarrow> 'st agent_service \<Rightarrow> exec_result \<Rightarrow> message" where
  "exec_result_reply ev msg a r =
     (agent_reply ev AgentExecResult msg a)
       \<lparr>m_Result := fst r, m_Success := (snd r = None),
        m_Error := (case snd r of None \<Rightarrow> [] | Some e \<Rightarrow> error_text e)\<rparr>"

type_synonym 'st agent_handled = "('st agent_service \<times> go_error option) \<times> effects"

definition send_reply :: "agent_env \<Rightarrow> message \<Rightarrow> string list list \<Rightarrow> 'st agent_service \<Rightarrow> 'st agent_handled" where
  "send_reply ev reply procs a =
     (case as_send ev reply a of (out, e) \<Rightarrow> ((a, e), quiet\<lparr>ef_sent := out, ef_ran := procs\<rparr>))"

definition handle_server_exec :: "agent_env \<Rightarrow> message \<Rightarrow> 'st agent_service \<Rightarrow> 'st agent_handled" where
  "handle_server_exec ev msg a =
     (if isFrozen a then send_reply ev (frozen_reply ev msg a) [] a
      else if m_Command msg = ''superexec''
      then (case executeSuperExec ev msg of (procs, r) \<Rightarrow> send_reply ev (exec_result_reply ev msg a r) procs a)
      else (case ExecuteCommand (ae_now ev) (m_Command msg) (m_Args msg) (as_agent a) (as_shell a) of
              (agent, shell, r) \<Rightarrow>
                (let a' = a\<lparr>as_agent := agent, as_shell := shell\<rparr>
                 in send_reply ev (exec_result_reply ev msg a' r) [] a')))"

text \<open>A stop or a restart ends the program half a second after the reply was written.\<close>

definition send_then_exit :: "agent_env \<Rightarrow> message \<Rightarrow> int \<Rightarrow> 'st agent_service \<Rightarrow> 'st agent_handled" where
  "send_then_exit ev reply code a =
     (case as_send ev reply a of
        (out, Some e) \<Rightarrow> ((a, Some e), quiet\<lparr>ef_sent := out\<rparr>)
      | (out, None) \<Rightarrow> ((a, None), quiet\<lparr>ef_sent := out, ef_exit := Some code\<rparr>))"

definition handleControlMessage :: "agent_env \<Rightarrow> message \<Rightarrow> 'st agent_service \<Rightarrow> 'st agent_handled" where
  "handleControlMessage ev msg a =
     (let reply = (agent_reply ev AgentExecResult msg a)\<lparr>m_Success := True\<rparr>;
          control = m_Control msg
      in if control = ''freeze''
         then send_reply ev (reply\<lparr>m_Result := ''agent frozen'', m_Status := ''frozen''\<rparr>) [] (setFrozen True a)
         else if control = ''unfreeze''
         then send_reply ev (reply\<lparr>m_Result := ''agent unfrozen'', m_Status := ''online''\<rparr>) [] (setFrozen False a)
         else if control = ''stop''
         then send_then_exit ev (reply\<lparr>m_Result := ''agent stopping'', m_Status := ''stopping''\<rparr>) 0 a
         else if control = ''restart''
         then send_then_exit ev (reply\<lparr>m_Result := ''agent restarting'', m_Status := ''restarting''\<rparr>) 1 a
         else send_reply ev (reply\<lparr>m_Success := False,
                m_Error := ''unsupported agent control: '' @ control\<rparr>) [] a)"

definition handleServerMessage ::
  "(mtype \<Rightarrow> string) \<Rightarrow> agent_env \<Rightarrow> message \<Rightarrow> 'st agent_service \<Rightarrow> 'st agent_handled" where
  "handleServerMessage texts ev msg a =
     (case m_Type msg of
        ServerExec \<Rightarrow> handle_server_exec ev msg a
      | ServerControl \<Rightarrow> handleControlMessage ev msg a
      | ServerPing \<Rightarrow>
          send_reply ev ((agent_reply ev ServerPingResult msg a)
            \<lparr>m_Result := ''pong'', m_Status := currentStatus a, m_Success := True\<rparr>) [] a
      | ServerError \<Rightarrow> ((a, Some (Errorf0 (m_Error msg))), quiet)
      | _ \<Rightarrow> ((a, Some (Errorf (''unsupported server message: '' @ texts (m_Type msg)))), quiet))"

section \<open>The connection\<close>

text \<open>
  connectAndServe. The network is an argument: the outcome of the dial, of the registration
  and of its acknowledgement, then the messages that arrive, each with what its handling meets,
  until Decode fails with the error given last. A handler that fails ends the session early.
  The function always ends with an error; a session that never ends is one whose list of
  messages never ends, and every finite part of it is such a list.
\<close>

record 'st session_net =
  sn_dial :: "go_error option"
  sn_register_id :: string
  sn_now :: instant
  sn_order :: map_order
  sn_register :: "message \<Rightarrow> go_error option"
  sn_ack :: "message result"
  sn_messages :: "(agent_env \<times> message) list"
  sn_end :: go_error

definition register_message :: "string \<Rightarrow> 'st session_net \<Rightarrow> 'st agent_service \<Rightarrow> message" where
  "register_message version net a =
     (new_message AgentRegister)\<lparr>m_RequestID := sn_register_id net, m_AgentID := ca_ID (as_agent a),
        m_Agent := Some \<lparr>e_ID = ca_ID (as_agent a), e_MachineID = machineID a,
          e_Hostname = ca_Hostname (as_agent a), e_IPAddress = advertisedIP a, e_Port = ca_Port (as_agent a),
          e_Version = version, e_Status = ''online'', e_Connected = True,
          e_Commands = cmd_List (sn_order net) (ca_Registry (as_agent a)), e_Tags = [], e_Groups = [],
          e_LastSeen = 0\<rparr>,
        m_Timestamp := sn_now net\<rparr>"

text \<open>The loop over the inbound messages.\<close>

fun serve_loop ::
  "(mtype \<Rightarrow> string) \<Rightarrow> go_error \<Rightarrow> (agent_env \<times> message) list \<Rightarrow> 'st agent_service \<Rightarrow>
   ('st agent_service \<times> go_error) \<times> effects list" where
  "serve_loop texts final [] a = ((clearConnection a, final), [])"
| "serve_loop texts final ((ev, msg) # rest) a =
     (case handleServerMessage texts ev msg a of
        ((a', Some e), ef) \<Rightarrow> ((clearConnection a', e), [ef])
      | ((a', None), ef) \<Rightarrow>
          (case serve_loop texts final rest a' of (r, efs) \<Rightarrow> (r, ef # efs)))"

definition connectAndServe ::
  "(mtype \<Rightarrow> string) \<Rightarrow> string \<Rightarrow> 'st session_net \<Rightarrow> 'st agent_service \<Rightarrow> ('st agent_service \<times> go_error option) \<times> effects list" where
  "connectAndServe texts version net a =
     (case sn_dial net of
        Some e \<Rightarrow> ((a, Some e), [])
      | None \<Rightarrow>
          (let a1 = a\<lparr>as_online := True\<rparr> in
           case sn_register net (register_message version net a1) of
             Some e \<Rightarrow> ((clearConnection a1, Some e), [])
           | None \<Rightarrow>
               (case sn_ack net of
                  Inl e \<Rightarrow> ((clearConnection a1, Some e), [])
                | Inr ack \<Rightarrow>
                    (if m_Type ack \<noteq> ServerRegisterOK
                     then ((clearConnection a1,
                            Some (if m_Error ack \<noteq> [] then Errorf0 (m_Error ack)
                                  else Errorf (''unexpected register response: '' @ texts (m_Type ack)))), [])
                     else case serve_loop texts (sn_end net) (sn_messages net) a1 of
                            ((a2, e), efs) \<Rightarrow> ((a2, Some e), efs)))))"

text \<open>
  connectionLoop: the pauses between the sessions, in nanoseconds, one session per element of
  the list; quit ends the loop before a session.
\<close>

fun connection_loop ::
  "(mtype \<Rightarrow> string) \<Rightarrow> string \<Rightarrow> 'st session_net list \<Rightarrow> duration \<Rightarrow> 'st agent_service \<Rightarrow> duration list \<times> 'st agent_service" where
  "connection_loop texts version [] backoff a = ([], a)"
| "connection_loop texts version (net # nets) backoff a =
     (if as_quit a then ([], a)
      else case connectAndServe texts version net a of
             ((a', Some e), efs) \<Rightarrow>
               (case connection_loop texts version nets
                       (if backoff < 15 * second then backoff + 2 * second else backoff) a' of
                  (pauses, a2) \<Rightarrow> (backoff # pauses, a2))
           | ((a', None), efs) \<Rightarrow> connection_loop texts version nets (2 * second) a')"

definition connectionLoop ::
  "(mtype \<Rightarrow> string) \<Rightarrow> string \<Rightarrow> 'st session_net list \<Rightarrow> 'st agent_service \<Rightarrow> duration list \<times> 'st agent_service" where
  "connectionLoop texts version nets a = connection_loop texts version nets (2 * second) a"

text \<open>One tick of heartbeatLoop.\<close>

definition heartbeat_tick :: "agent_env \<Rightarrow> string \<Rightarrow> 'st agent_service \<Rightarrow> message list" where
  "heartbeat_tick ev hb_id a =
     fst (as_send ev ((new_message AgentHeartbeat)\<lparr>m_RequestID := hb_id, m_AgentID := ca_ID (as_agent a),
            m_Status := currentStatus a, m_Timestamp := ae_now ev\<rparr>) a)"

text \<open>Stop: the second component tells that the connection was closed.\<close>

definition as_Stop :: "'st agent_service \<Rightarrow> 'st agent_service \<times> bool" where
  "as_Stop a = (a\<lparr>as_quit := True\<rparr>, as_online a)"

section \<open>What the handlers keep\<close>

lemma send_reply_simps [simp]:
  "fst (fst (send_reply ev r procs a)) = a" "ef_ran (snd (send_reply ev r procs a)) = procs"
  "ef_exit (snd (send_reply ev r procs a)) = None"
  "ef_sent (snd (send_reply ev r procs a)) = (if as_online a then [r] else [])"
  by (simp_all add: send_reply_def as_send_def quiet_def)

lemma send_then_exit_simps [simp]:
  "fst (fst (send_then_exit ev r code a)) = a" "ef_ran (snd (send_then_exit ev r code a)) = []"
  "ef_sent (snd (send_then_exit ev r code a)) = (if as_online a then [r] else [])"
  by (simp_all add: send_then_exit_def as_send_def quiet_def split: option.split)

lemma executeSuperExec_untrusted:
  "\<not> m_TrustedAdmin msg \<Longrightarrow>
   executeSuperExec ev msg = ([], [], Some (Errorf ''superexec requires a trusted admin request''))"
  by (simp add: executeSuperExec_def superexec_command_def)

lemma connectAndServe_error: "\<exists>a' e efs. connectAndServe texts version net a = ((a', Some e), efs)"
  by (auto simp: connectAndServe_def Let_def split: option.splits sum.splits prod.splits)

lemma handle_quit: "as_quit (fst (fst (handleServerMessage texts ev msg a))) = as_quit a"
  by (cases "m_Type msg")
    (simp_all add: handleServerMessage_def handle_server_exec_def handleControlMessage_def setFrozen_def Let_def
      split: prod.split)

lemma serve_quit: "as_quit (fst (fst (serve_loop texts final msgs a))) = as_quit a"
proof (induction msgs arbitrary: a)
  case (Cons m msgs)
  obtain ev msg where m: "m = (ev, msg)" by (metis surj_pair)
  obtain a' r ef where h: "handleServerMessage texts ev msg a = ((a', r), ef)" by (metis surj_pair)
  obtain x efs where l: "serve_loop texts final msgs a' = (x, efs)" by (metis surj_pair)
  have "as_quit a' = as_quit a" using handle_quit [of texts ev msg a] by (simp add: h)
  then show ?case using Cons.IH [of a'] by (cases r) (simp_all add: m h l clearConnection_def)
qed (simp add: clearConnection_def)

lemma connect_quit: "as_quit (fst (fst (connectAndServe texts version net a))) = as_quit a"
proof -
  let ?a = "a\<lparr>as_online := True\<rparr>"
  obtain a2 e efs where l: "serve_loop texts (sn_end net) (sn_messages net) ?a = ((a2, e), efs)" by (metis surj_pair)
  have "as_quit a2 = as_quit a" using serve_quit [of texts "sn_end net" "sn_messages net" ?a] by (simp add: l)
  then show ?thesis
    by (cases "sn_dial net"; cases "sn_register net (register_message version net ?a)"; cases "sn_ack net")
      (simp_all add: connectAndServe_def clearConnection_def Let_def l)
qed

text \<open>The pauses: two seconds more each time, up to sixteen.\<close>

definition pause :: "nat \<Rightarrow> duration" where
  "pause n = min (2 + 2 * int n) 16 * second"

lemma pause_next: "(if pause n < 15 * second then pause n + 2 * second else pause n) = pause (Suc n)"
  by (auto simp: pause_def second_def min_def)

lemma connection_loop_pauses:
  "\<not> as_quit a \<Longrightarrow> fst (connection_loop texts version nets (pause n) a) = map pause [n..<n + length nets]"
proof (induction nets arbitrary: n a)
  case (Cons net nets)
  obtain a' e efs where c: "connectAndServe texts version net a = ((a', Some e), efs)"
    using connectAndServe_error by blast
  then have "\<not> as_quit a'" using connect_quit [of texts version net a] Cons.prems by simp
  from Cons.IH [OF this, of "Suc n"]
  have "fst (connection_loop texts version nets (pause (Suc n)) a') = map pause [Suc n..<Suc n + length nets]" .
  moreover have "[n..<n + length (net # nets)] = n # [Suc n..<Suc n + length nets]"
    by (simp add: upt_conv_Cons del: upt_Suc)
  ultimately show ?case
    using Cons.prems c pause_next [of n]
    by (cases "connection_loop texts version nets (pause (Suc n)) a'") (simp del: upt_Suc)
qed simp

end
