(* ===== verification/Agent_Laws.thy ===== *)
theory Agent_Laws
  imports Agent_Service
begin

text \<open>
  What the agent promises: a frozen agent runs nothing, superexec needs a trusted request,
  answers name the command they answer, control messages do what they say, and the pauses
  between sessions.
\<close>

section \<open>Samples\<close>

definition sample_agent :: "unit agent_service" where
  "sample_agent =
     (NewAgentService ''pc'' (Inr ''10.0.0.5'') 0 () ''10.0.0.1'' 9999 0)\<lparr>as_online := True\<rparr>"

definition sample_agent_env :: agent_env where
  "sample_agent_env = \<lparr>ae_now = 5, ae_encode = (\<lambda>m. None), ae_goos = ''windows'', ae_run = (\<lambda>c. (''out'', None))\<rparr>"

definition sample_exec :: "string \<Rightarrow> string list \<Rightarrow> message" where
  "sample_exec cmd args =
     (new_message ServerExec)\<lparr>m_RequestID := ''r1'', m_CommandID := ''cmd-1'', m_Command := cmd, m_Args := args\<rparr>"

lemma sample_agent_simps [simp]: "as_online sample_agent" "\<not> as_frozen sample_agent" "\<not> as_quit sample_agent"
  by (simp_all add: sample_agent_def NewAgentService_def Let_def)

section \<open>Properties\<close>

text \<open>
  Property C16. A frozen agent runs nothing: whatever command arrives, no process is started,
  no registered command is called, nothing of the state changes, and an agent that is connected
  answers with an error that names the command.
\<close>

theorem frozen_runs_nothing:
  assumes "as_frozen a" and "m_Type msg = ServerExec"
    and "handleServerMessage texts ev msg a = ((a', e), ef)"
  shows "a' = a \<and> ef_ran ef = [] \<and> ef_exit ef = None \<and>
    (as_online a \<longrightarrow> (\<exists>r. ef_sent ef = [r] \<and> m_Type r = AgentExecResult \<and> m_CommandID r = m_CommandID msg \<and>
       \<not> m_Success r \<and> m_Status r = ''frozen'' \<and> m_Error r = ''agent is frozen and not accepting commands''))"
proof -
  let ?r = "frozen_reply ev msg a"
  have h: "send_reply ev ?r [] a = ((a', e), ef)"
    using assms by (simp add: handleServerMessage_def handle_server_exec_def)
  have "m_Type ?r = AgentExecResult" "m_CommandID ?r = m_CommandID msg" "\<not> m_Success ?r"
    "m_Status ?r = ''frozen''" "m_Error ?r = ''agent is frozen and not accepting commands''"
    by (simp_all add: frozen_reply_def agent_reply_def)
  with send_reply_simps [of ev ?r "[]" a] h show ?thesis by auto
qed

theorem frozen_runs_nothing_witness:
  "\<exists>e ef. handleServerMessage (\<lambda>t. []) sample_agent_env (sample_exec ''superexec'' [''cmd'', ''dir''])
     (setFrozen True sample_agent) = ((setFrozen True sample_agent, e), ef) \<and> ef_ran ef = []"
proof -
  obtain a' e ef where h: "handleServerMessage (\<lambda>t. []) sample_agent_env (sample_exec ''superexec'' [''cmd'', ''dir''])
     (setFrozen True sample_agent) = ((a', e), ef)" by (metis surj_pair)
  have "as_frozen (setFrozen True sample_agent)" "m_Type (sample_exec ''superexec'' [''cmd'', ''dir'']) = ServerExec"
    by (simp_all add: setFrozen_def sample_exec_def)
  from frozen_runs_nothing [OF this h] h show ?thesis by auto
qed

text \<open>
  Property C15. superexec starts a process only for a request marked as trusted, and then one:
  the program of the mode with the arguments of the request; without the mark no process is
  started and the answer says so.
\<close>

theorem superexec_needs_trust:
  assumes "\<not> as_frozen a" and "m_Type msg = ServerExec" and "m_Command msg = ''superexec''"
    and "handleServerMessage texts ev msg a = ((a', e), ef)"
  shows "a' = a \<and> (ef_ran ef \<noteq> [] \<longrightarrow> m_TrustedAdmin msg) \<and>
    (\<forall>cmd. superexec_command (ae_goos ev) msg = Inr cmd \<longrightarrow> ef_ran ef = [cmd]) \<and>
    (\<not> m_TrustedAdmin msg \<longrightarrow> as_online a \<longrightarrow>
      (\<exists>r. ef_sent ef = [r] \<and> m_CommandID r = m_CommandID msg \<and> \<not> m_Success r \<and>
        m_Error r = ''superexec requires a trusted admin request''))"
proof -
  obtain procs res where x: "executeSuperExec ev msg = (procs, res)" by (metis surj_pair)
  have h: "send_reply ev (exec_result_reply ev msg a res) procs a = ((a', e), ef)"
    using assms by (simp add: handleServerMessage_def handle_server_exec_def x)
  have r: "m_CommandID (exec_result_reply ev msg a res) = m_CommandID msg"
    "m_Success (exec_result_reply ev msg a res) = (snd res = None)"
    by (simp_all add: exec_result_reply_def agent_reply_def)
  have s: "a' = a" "ef_ran ef = procs" "as_online a \<Longrightarrow> ef_sent ef = [exec_result_reply ev msg a res]"
    using send_reply_simps [of ev "exec_result_reply ev msg a res" procs a] h by auto
  show ?thesis
  proof (cases "m_TrustedAdmin msg")
    case True
    with x s show ?thesis by (auto simp: executeSuperExec_def)
  next
    case False
    with executeSuperExec_untrusted [of msg ev] x
    have "procs = []" "res = ([], Some (Errorf ''superexec requires a trusted admin request''))" by simp_all
    moreover have "superexec_command (ae_goos ev) msg = Inl (Errorf ''superexec requires a trusted admin request'')"
      using False by (simp add: superexec_command_def)
    ultimately show ?thesis using s r False by (auto simp: exec_result_reply_def)
  qed
qed

theorem superexec_needs_trust_witness:
  "\<exists>e ef. handleServerMessage (\<lambda>t. []) sample_agent_env
       ((sample_exec ''superexec'' [''exec'', ''whoami''])\<lparr>m_TrustedAdmin := True\<rparr>) sample_agent =
       ((sample_agent, e), ef) \<and> ef_ran ef = [[''whoami'']]"
proof -
  let ?m = "(sample_exec ''superexec'' [''exec'', ''whoami''])\<lparr>m_TrustedAdmin := True\<rparr>"
  obtain a' e ef where h: "handleServerMessage (\<lambda>t. []) sample_agent_env ?m sample_agent = ((a', e), ef)"
    by (metis surj_pair)
  have t: "ToLower (TrimSpace ''exec'') = ''exec''" by code_simp
  then have c: "superexec_command (ae_goos sample_agent_env) ?m = Inr [''whoami'']"
    by (simp add: superexec_command_def sample_exec_def Let_def)
  have "m_Type ?m = ServerExec" "m_Command ?m = ''superexec''" by (simp_all add: sample_exec_def)
  from superexec_needs_trust [OF sample_agent_simps(2) this h] h c show ?thesis by auto
qed

text \<open>
  Every command gets one answer that carries its identifiers and says success
  exactly when the command returned no error; a connected agent that is not frozen passes on
  what the command printed, error or not.
\<close>

theorem exec_answers:
  assumes "as_online a" and "\<not> as_frozen a" and "m_Type msg = ServerExec" and "m_Command msg \<noteq> ''superexec''"
    and "cmd_Execute (ca_Registry (as_agent a)) (m_Command msg) (m_Args msg) (as_shell a) = (shell, out, err)"
    and "handleServerMessage texts ev msg a = ((a', e), ef)"
  shows "\<exists>r. ef_sent ef = [r] \<and> m_CommandID r = m_CommandID msg \<and> m_RequestID r = m_RequestID msg \<and>
    m_Result r = out \<and> (m_Success r \<longleftrightarrow> err = None) \<and>
    m_Error r = (case err of None \<Rightarrow> [] | Some x \<Rightarrow> error_text x) \<and> m_Status r = [] \<and>
    as_shell a' = shell \<and> ef_ran ef = []"
proof -
  obtain agent where x: "ExecuteCommand (ae_now ev) (m_Command msg) (m_Args msg) (as_agent a) (as_shell a) =
      (agent, shell, out, err)" using assms(5) by (simp add: ExecuteCommand_def)
  let ?a = "a\<lparr>as_agent := agent, as_shell := shell\<rparr>"
  let ?r = "exec_result_reply ev msg ?a (out, err)"
  have "send_reply ev ?r [] ?a = ((a', e), ef)"
    using assms(2-4,6) x by (simp add: handleServerMessage_def handle_server_exec_def Let_def)
  with send_reply_simps [of ev ?r "[]" ?a] assms(1)
  have "a' = ?a" "ef_sent ef = [?r]" "ef_ran ef = []" by auto
  then show ?thesis by (simp add: exec_result_reply_def agent_reply_def)
qed

theorem exec_answers_witness:
  "\<exists>a' e ef r. handleServerMessage (\<lambda>t. []) sample_agent_env (sample_exec ''nope'' []) sample_agent = ((a', e), ef) \<and>
     ef_sent ef = [r] \<and> m_CommandID r = ''cmd-1'' \<and> m_Error r = ''command nope not found''"
proof -
  obtain a' e ef where h: "handleServerMessage (\<lambda>t. []) sample_agent_env (sample_exec ''nope'' []) sample_agent = ((a', e), ef)"
    by (metis surj_pair)
  have c: "cmd_Execute (ca_Registry (as_agent sample_agent)) (m_Command (sample_exec ''nope'' []))
      (m_Args (sample_exec ''nope'' [])) (as_shell sample_agent) =
      (as_shell sample_agent, [], Some (Errorf ''command nope not found''))"
    by (simp add: cmd_Execute_def sample_exec_def sample_agent_def NewAgentService_def NewAgent_def core_Start_def
        GetLocalIP_def NewPluginRegistry_def Let_def)
  have "m_Type (sample_exec ''nope'' []) = ServerExec" "m_Command (sample_exec ''nope'' []) \<noteq> ''superexec''"
    by (simp_all add: sample_exec_def)
  from exec_answers [OF sample_agent_simps(1,2) this c h] h show ?thesis by (auto simp: sample_exec_def)
qed

text \<open>
  Freeze and unfreeze set the state that the next ping reports, stop and restart
  end the program with codes 0 and 1 if their answer could be written, and no other control
  does either.
\<close>

theorem control_effects:
  assumes "m_Type msg = ServerControl" and "handleServerMessage texts ev msg a = ((a', e), ef)"
  shows "currentStatus a' = (if m_Control msg = ''freeze'' then ''frozen''
      else if m_Control msg = ''unfreeze'' then ''online'' else currentStatus a) \<and>
    ef_exit ef = (if e \<noteq> None then None else if m_Control msg = ''stop'' then Some 0
      else if m_Control msg = ''restart'' then Some 1 else None) \<and> ef_ran ef = []"
proof -
  have exit: "ef_exit (snd (send_then_exit ev r code b)) =
      (if snd (fst (send_then_exit ev r code b)) \<noteq> None then None else Some code)" for r code b
    by (simp add: send_then_exit_def quiet_def split: prod.split option.split)
  have h: "handleControlMessage ev msg a = ((a', e), ef)" using assms by (simp add: handleServerMessage_def)
  consider "m_Control msg = ''freeze''" | "m_Control msg = ''unfreeze''" | "m_Control msg = ''stop''"
    | "m_Control msg = ''restart''"
    | "m_Control msg \<notin> {''freeze'', ''unfreeze'', ''stop'', ''restart''}" by blast
  then show ?thesis
  proof cases
    case 1
    with h send_reply_simps show ?thesis
      by (auto simp: handleControlMessage_def Let_def setFrozen_def currentStatus_def send_reply_def quiet_def split: prod.splits)
  next
    case 2
    with h show ?thesis
      by (auto simp: handleControlMessage_def Let_def setFrozen_def currentStatus_def send_reply_def quiet_def split: prod.splits)
  next
    case 3
    with h show ?thesis
      by (auto simp: handleControlMessage_def Let_def send_then_exit_def quiet_def split: prod.splits option.splits)
  next
    case 4
    with h show ?thesis
      by (auto simp: handleControlMessage_def Let_def send_then_exit_def quiet_def split: prod.splits option.splits)
  next
    case 5
    with h show ?thesis
      by (auto simp: handleControlMessage_def Let_def send_reply_def quiet_def split: prod.splits)
  qed
qed

theorem control_effects_witness:
  "\<exists>a' e ef. handleServerMessage (\<lambda>t. []) sample_agent_env ((new_message ServerControl)\<lparr>m_Control := ''freeze''\<rparr>) sample_agent =
     ((a', e), ef) \<and> currentStatus a' = ''frozen''"
proof -
  let ?m = "(new_message ServerControl)\<lparr>m_Control := ''freeze''\<rparr>"
  obtain a' e ef where h: "handleServerMessage (\<lambda>t. []) sample_agent_env ?m sample_agent = ((a', e), ef)"
    by (metis surj_pair)
  from control_effects [OF _ h] h show ?thesis by auto
qed

text \<open>
  The pauses between sessions are 2, 4, ..., 16 seconds and then always 16:
  connectAndServe has no way to return without an error, so the branch of connectionLoop that
  resets the pause is never taken, however long the sessions lasted.
\<close>

theorem pauses_never_reset:
  assumes "\<not> as_quit a"
  shows "fst (connectionLoop texts version nets a) =
    map (\<lambda>n. min (2 + 2 * int n) 16 * second) [0..<length nets]"
proof -
  have "pause 0 = 2 * second" by (simp add: pause_def)
  with connection_loop_pauses [OF assms, of texts version nets 0] show ?thesis
    by (simp add: connectionLoop_def pause_def)
qed

theorem pauses_never_reset_witness:
  "fst (connectionLoop (\<lambda>t. []) ''1'' (replicate 9 (undefined\<lparr>sn_dial := Some (Errorf ''refused'')\<rparr>)) sample_agent) ! 8 = 16 * second"
  by (subst pauses_never_reset) simp_all

end
