(* ===== verification/End_To_End.thy ===== *)
theory End_To_End
  imports Server_Laws Agent_Laws
begin

text \<open>
  Server and agent together: the request of an administrator goes through the exec handler of
  the server to an agent, and the agent's answer comes back through the reader of its session
  while the dispatch waits.
\<close>

text \<open>
  What happens while dispatch waits: the reader of the agent's session handles the answer \<open>r\<close>
  with handleAgentMessage.
\<close>

definition reader_handles ::
  "'r srv_lib \<Rightarrow> instant \<Rightarrow> string \<Rightarrow> message \<Rightarrow> session_manager \<times> 'r server \<Rightarrow> session_manager \<times> 'r server" where
  "reader_handles B now agentID r = (\<lambda>(m, s).
     case handleAgentMessage B now agentID r (s\<lparr>sv_sessions := m\<rparr>) of
       None \<Rightarrow> (m, s)
     | Some (s', out) \<Rightarrow> (sv_sessions s', s'))"

lemma handle_result_eq:
  assumes "m_Type r = AgentExecResult" and "m_Status r = []"
  shows "handleAgentMessage B now a r s =
    sv_resolve (r\<lparr>m_AgentID := a, m_Success := (m_Error r = [])\<rparr>)
      (s\<lparr>sv_registry := fst (reg_UpdateStatus (lib_registry B) now a True (sv_registry s))\<rparr>)"
  using assms by (simp add: handleAgentMessage_def Let_def)

text \<open>The dispatch that meets exactly this returns the answer as the reader completed it.\<close>

lemma dispatch_reader:
  assumes "sm_get a (sv_sessions s) = Some session"
    and "env_send env = None" and "\<not> env_timer env" and "env_others env = reader_handles B now a r"
    and "m_Type r = AgentExecResult" and "m_Status r = []" and "m_CommandID r = m_CommandID d"
  shows "\<exists>m s'. sm_dispatch env a d (sv_sessions s, s) =
      ((m, s'), Inr (r\<lparr>m_AgentID := a, m_Success := (m_Error r = [])\<rparr>)) \<and>
    sv_registry s' = fst (reg_UpdateStatus (lib_registry B) now a True (sv_registry s)) \<and>
    sv_plugins s' = sv_plugins s \<and> sv_groups s' = sv_groups s \<and> sv_disk s' = sv_disk s"
  using assms
  by (simp add: sm_dispatch_def sm_registerPending_def reader_handles_def handle_result_eq sv_resolve_def
      sm_resolvePending_def sm_take_def sm_send_chan_def sm_close_chan_def Let_def update_conv' delete_conv')

section \<open>Samples\<close>

definition sample_cmd_request :: "string \<Rightarrow> string list \<Rightarrow> message" where
  "sample_cmd_request cmd args = (new_message CLIExec)\<lparr>m_AgentID := ''pc'', m_Command := cmd, m_Args := args\<rparr>"

definition reader_env :: "message \<Rightarrow> entry gomap srv_env" where
  "reader_env r = sample_env\<lparr>ev_dispatch := \<lparr>env_send = None,
     env_others = reader_handles sample_bundle 7 ''pc'' r, env_timer = False\<rparr>\<rparr>"

lemma reader_env_simps [simp]:
  "env_send (ev_dispatch (reader_env r)) = None" "\<not> env_timer (ev_dispatch (reader_env r))"
  "env_others (ev_dispatch (reader_env r)) = reader_handles sample_bundle 7 ''pc'' r"
  "ev_order (reader_env r) = rev" "ev_command_id (reader_env r) = ''cmd-1''"
  by (simp_all add: reader_env_def sample_env_def)

lemma sample_no_plugin: "c \<noteq> ''hi'' \<Longrightarrow> ps_findCommand rev (sv_plugins sample_server) c = None"
  by (simp add: ps_findCommand_def sample_server_def sample_store_def map_values_def map_range_def
      map_filter_simps recordFromPackage_def activePluginPackage_def Let_def sample_package_def)

definition sample_dispatched :: "string \<Rightarrow> string list \<Rightarrow> message" where
  "sample_dispatched cmd args = (new_message ServerExec)\<lparr>m_RequestID := ''dispatch-1'', m_CommandID := ''cmd-1'',
     m_AgentID := ''pc'', m_Command := cmd, m_Args := args, m_Timestamp := unix_epoch + 5 * second\<rparr>"

lemma sample_dispatch:
  "c \<noteq> ''hi'' \<Longrightarrow> exec_request sample_bundle (reader_env r) (sample_cmd_request c as) sample_server =
     Inr (sample_dispatched c as)"
  using sample_no_plugin [of c]
  by (simp add: exec_request_def sample_cmd_request_def sample_dispatched_def Let_def)
    (simp add: reader_env_def sample_env_def)

lemma sample_session: "sm_get (m_AgentID (sample_cmd_request c as)) (sv_sessions sample_server) =
    Some \<lparr>ss_ptr = 1, ss_id = ''pc'', ss_conn = 7\<rparr>"
  by (simp add: sm_get_def sample_server_def sample_cmd_request_def)

section \<open>Properties\<close>

text \<open>
  Server and agent from end to end: an administrator runs a command that no plugin offers on an
  agent that has a session and is not frozen. The server sends the command unchanged, the agent
  runs it and answers once, and when the answer arrives before the timer, the administrator
  gets what the command printed and the text of its error, under the identifier of the command,
  with success exactly when the error text is empty.
\<close>

theorem exec_end_to_end:
  assumes "ps_findCommand (ev_order ev) (sv_plugins s) (m_Command msg) = None"
    and "m_Command msg \<noteq> ''superexec''"
    and "exec_request B ev msg s = Inr d"
    and "sm_get (m_AgentID msg) (sv_sessions s) = Some session"
    and "as_online agent" and "\<not> as_frozen agent"
    and "cmd_Execute (ca_Registry (as_agent agent)) (m_Command msg) (m_Args msg) (as_shell agent) = (shell, out, err)"
    and "handleServerMessage texts aev d agent = ((agent', e), ef)" and "ef_sent ef = [r]"
    and "env_send (ev_dispatch ev) = None" and "\<not> env_timer (ev_dispatch ev)"
    and "env_others (ev_dispatch ev) = reader_handles B now (m_AgentID msg) r"
  shows "as_shell agent' = shell \<and> (\<exists>s' reply. handle_exec B ev msg s = (s', [reply]) \<and>
    m_CommandID reply = ev_command_id ev \<and> m_Result reply = out \<and>
    m_Error reply = (case err of None \<Rightarrow> [] | Some x \<Rightarrow> error_text x) \<and>
    (m_Success reply \<longleftrightarrow> m_Error reply = []) \<and> sv_plugins s' = sv_plugins s \<and> sv_groups s' = sv_groups s)"
proof -
  have d: "m_Type d = ServerExec" "m_Command d = m_Command msg" "m_Args d = m_Args msg" "m_CommandID d = ev_command_id ev"
    using assms(1,3) by (auto simp: exec_request_def Let_def)
  have c: "cmd_Execute (ca_Registry (as_agent agent)) (m_Command d) (m_Args d) (as_shell agent) = (shell, out, err)"
    using assms(7) d by simp
  have r: "r = exec_result_reply aev d (agent\<lparr>as_agent := as_agent agent', as_shell := shell\<rparr>) (out, err) \<and> as_shell agent' = shell"
  proof -
    obtain ca where x: "ExecuteCommand (ae_now aev) (m_Command d) (m_Args d) (as_agent agent) (as_shell agent) =
        (ca, shell, out, err)" using c by (simp add: ExecuteCommand_def)
    let ?a = "agent\<lparr>as_agent := ca, as_shell := shell\<rparr>"
    have "send_reply aev (exec_result_reply aev d ?a (out, err)) [] ?a = ((agent', e), ef)"
      using assms(2,6,8) x d(1,2) by (simp add: handleServerMessage_def handle_server_exec_def Let_def)
    with send_reply_simps [of aev "exec_result_reply aev d ?a (out, err)" "[]" ?a] assms(5,9)
    show ?thesis by auto
  qed
  then have rf: "m_Type r = AgentExecResult" "m_Status r = []" "m_CommandID r = m_CommandID d" "m_Result r = out"
    "m_Error r = (case err of None \<Rightarrow> [] | Some x \<Rightarrow> error_text x)"
    by (simp_all add: exec_result_reply_def agent_reply_def)
  from dispatch_reader [OF assms(4,10,11,12) rf(1-3)] obtain m s' where
    "sm_dispatch (ev_dispatch ev) (m_AgentID msg) d (sv_sessions s, s) =
      ((m, s'), Inr (r\<lparr>m_AgentID := m_AgentID msg, m_Success := (m_Error r = [])\<rparr>))"
    "sv_plugins s' = sv_plugins s" "sv_groups s' = sv_groups s" by blast
  with assms(3) r rf d show ?thesis
    by (simp add: handle_exec_def sv_dispatch_def exec_reply_def)
qed

theorem exec_end_to_end_witness:
  "\<exists>r s' reply. handle_exec sample_bundle (reader_env r) (sample_cmd_request ''nope'' []) sample_server = (s', [reply]) \<and>
     m_Error reply = ''command nope not found'' \<and> \<not> m_Success reply"
proof -
  let ?m = "sample_cmd_request ''nope'' []" and ?d = "sample_dispatched ''nope'' []"
  obtain a' e ef where h: "handleServerMessage (\<lambda>t. []) sample_agent_env ?d sample_agent = ((a', e), ef)"
    by (metis surj_pair)
  have reg: "ca_Registry (as_agent sample_agent) = []"
    by (simp add: sample_agent_def NewAgentService_def NewAgent_def core_Start_def
        GetLocalIP_def NewPluginRegistry_def Let_def)
  have c: "cmd_Execute (ca_Registry (as_agent sample_agent)) (m_Command ?m) (m_Args ?m) (as_shell sample_agent) =
      (as_shell sample_agent, [], Some (Errorf ''command nope not found''))"
    by (simp add: cmd_Execute_def reg sample_cmd_request_def)
  obtain r where sent: "ef_sent ef = [r]"
    using h by (auto simp: handleServerMessage_def handle_server_exec_def sample_dispatched_def send_reply_def as_send_def
        quiet_def Let_def split: prod.splits)
  have n: "ps_findCommand (ev_order (reader_env r)) (sv_plugins sample_server) (m_Command ?m) = None"
    using sample_no_plugin [of "''nope''"] by (simp add: sample_cmd_request_def)
  have x: "m_Command ?m \<noteq> ''superexec''" by (simp add: sample_cmd_request_def)
  have "env_others (ev_dispatch (reader_env r)) = reader_handles sample_bundle 7 (m_AgentID ?m) r"
    by (simp add: sample_cmd_request_def)
  from exec_end_to_end [OF n x sample_dispatch sample_session sample_agent_simps(1,2) c h sent reader_env_simps(1,2) this]
  show ?thesis by fastforce
qed

text \<open>
  README.md documents \<open>exec <agent> superexec ...\<close>, and the file browser of the
  GUI relies on it; but the server marks a request as trusted only when it runs a plugin. As
  long as no plugin offers a command named superexec, every such request is refused by the
  agent, runs no process, and comes back as an error.
\<close>

theorem superexec_always_refused:
  assumes "ps_findCommand (ev_order ev) (sv_plugins s) ''superexec'' = None"
    and "m_Command msg = ''superexec''" and "exec_request B ev msg s = Inr d"
    and "sm_get (m_AgentID msg) (sv_sessions s) = Some session"
    and "as_online agent" and "\<not> as_frozen agent"
    and "handleServerMessage texts aev d agent = ((agent', e), ef)" and "ef_sent ef = [r]"
    and "env_send (ev_dispatch ev) = None" and "\<not> env_timer (ev_dispatch ev)"
    and "env_others (ev_dispatch ev) = reader_handles B now (m_AgentID msg) r"
  shows "agent' = agent \<and> ef_ran ef = [] \<and> (\<exists>s' reply. handle_exec B ev msg s = (s', [reply]) \<and>
    \<not> m_Success reply \<and> m_Error reply = ''superexec requires a trusted admin request'')"
proof -
  have d: "m_Type d = ServerExec" "m_Command d = ''superexec''" "\<not> m_TrustedAdmin d"
    using assms(1-3) by (auto simp: exec_request_def Let_def)
  let ?r = "exec_result_reply aev d agent ([], Some (Errorf ''superexec requires a trusted admin request''))"
  have "send_reply aev ?r [] agent = ((agent', e), ef)"
    using assms(6,7) d executeSuperExec_untrusted [of d aev]
    by (simp add: handleServerMessage_def handle_server_exec_def)
  with send_reply_simps [of aev ?r "[]" agent] assms(5,8) have x: "agent' = agent" "ef_ran ef = []" "r = ?r" by auto
  have rf: "m_Type r = AgentExecResult" "m_Status r = []" "m_CommandID r = m_CommandID d"
    "m_Error r = ''superexec requires a trusted admin request''"
    by (simp_all add: x(3) exec_result_reply_def agent_reply_def)
  from dispatch_reader [OF assms(4,9,10,11) rf(1-3)] obtain m s' where
    "sm_dispatch (ev_dispatch ev) (m_AgentID msg) d (sv_sessions s, s) =
      ((m, s'), Inr (r\<lparr>m_AgentID := m_AgentID msg, m_Success := (m_Error r = [])\<rparr>))" by blast
  with assms(3) x(1,2) rf(4) show ?thesis
    by (simp add: handle_exec_def sv_dispatch_def exec_reply_def)
qed

theorem superexec_always_refused_witness:
  "\<exists>r s' reply. handle_exec sample_bundle (reader_env r) (sample_cmd_request ''superexec'' [''exec'', ''whoami.exe''])
       sample_server = (s', [reply]) \<and> \<not> m_Success reply \<and>
     m_Error reply = ''superexec requires a trusted admin request''"
proof -
  let ?as = "[''exec'', ''whoami.exe'']"
  let ?m = "sample_cmd_request ''superexec'' ?as" and ?d = "sample_dispatched ''superexec'' ?as"
  obtain a' e ef where h: "handleServerMessage (\<lambda>t. []) sample_agent_env ?d sample_agent = ((a', e), ef)"
    by (metis surj_pair)
  obtain r where sent: "ef_sent ef = [r]"
    using h by (auto simp: handleServerMessage_def handle_server_exec_def sample_dispatched_def send_reply_def as_send_def
        quiet_def Let_def split: prod.splits)
  have n: "ps_findCommand (ev_order (reader_env r)) (sv_plugins sample_server) ''superexec'' = None"
    using sample_no_plugin [of "''superexec''"] by simp
  have c: "m_Command ?m = ''superexec''" by (simp add: sample_cmd_request_def)
  have "env_others (ev_dispatch (reader_env r)) = reader_handles sample_bundle 7 (m_AgentID ?m) r"
    by (simp add: sample_cmd_request_def)
  from superexec_always_refused [OF n c sample_dispatch sample_session sample_agent_simps(1,2) h sent reader_env_simps(1,2) this]
  show ?thesis by fastforce
qed

end
