(* ===== verification/Round_Trip.thy ===== *)
theory Round_Trip
  imports Cli_Commands Gui_Server End_To_End
begin

text \<open>
  The way of a command through the three programs: the command line signs a request and sends
  it, the server checks it and asks the agent, the agent runs the command, and its answer comes
  back through the server to the terminal, if the deadline of the client has not passed.
\<close>

section \<open>A client that is connected to the server\<close>

text \<open>What handleConnection of the server writes to a connection whose first message is \<open>req\<close>.\<close>

definition server_replies ::
  "'r srv_lib \<Rightarrow> 'r srv_env \<Rightarrow> agent_session \<Rightarrow> 'r server \<Rightarrow> message \<Rightarrow> message list" where
  "server_replies B ev session s req =
     (case handleConnection B ev session (Inr req) [] s of None \<Rightarrow> [] | Some (s', out) \<Rightarrow> out)"

text \<open>
  What Decode of the client reads when the reply took \<open>took\<close> since SetDeadline: the reply, or
  the error \<open>fails\<close> of a read whose deadline has passed or whose connection the server has closed
  without a reply.
\<close>

definition client_reads :: "client \<Rightarrow> duration \<Rightarrow> go_error \<Rightarrow> message list \<Rightarrow> message result" where
  "client_reads c took fails out =
     (if cl_Timeout c \<le> took then Inl fails
      else case out of [] \<Rightarrow> Inl fails | resp # rest \<Rightarrow> Inr resp)"

definition connected_to ::
  "'r srv_lib \<Rightarrow> 'r srv_env \<Rightarrow> agent_session \<Rightarrow> 'r server \<Rightarrow> client \<Rightarrow> duration \<Rightarrow> go_error \<Rightarrow> do_env \<Rightarrow> do_env" where
  "connected_to B ev session s c took fails env =
     env\<lparr>env_dial := None, env_deadline := None, env_encode := \<lambda>m. None,
         env_decode := \<lambda>req. client_reads c took fails (server_replies B ev session s req)\<rparr>"

text \<open>
  Client and server fit together: the secret is the same, the nonce has not been used, and the
  clocks differ by at most DefaultAuthMaxSkew less one second.
\<close>

definition fits :: "core_lib \<Rightarrow> 'r srv_env \<Rightarrow> 'r server \<Rightarrow> client \<Rightarrow> do_env \<Rightarrow> bool" where
  "fits L ev s c env \<longleftrightarrow> cl_AdminSecret c = sv_adminSecret s \<and> TrimSpace (cl_ID c) \<noteq> [] \<and>
     (\<exists>nonce. env_nonce env = Inr nonce \<and> TrimSpace nonce \<noteq> [] \<and> map_of (sv_seenNonces s) nonce = None) \<and>
     unix_seconds (env_now env) \<noteq> 0 \<and> \<bar>env_now env\<bar> < 2 ^ 62 * second \<and>
     \<bar>ev_now ev - env_now env\<bar> \<le> max_skew L - second"

text \<open>What runExec asks for, and what the client makes of the reply.\<close>

definition exec_message :: "string \<Rightarrow> string \<Rightarrow> string list \<Rightarrow> message" where
  "exec_message i cmd args = (new_message CLIExec)\<lparr>m_AgentID := i, m_Command := cmd, m_Args := args\<rparr>"

definition reply_text :: "message result \<Rightarrow> string result" where
  "reply_text r = (case r of Inl e \<Rightarrow> Inl e
     | Inr resp \<Rightarrow> if m_Error resp \<noteq> [] then Inl (Errorf0 (m_Error resp)) else Inr (m_Result resp))"

text \<open>What runExec prints, and its exit code.\<close>

definition exec_shown :: "cli_env \<Rightarrow> string result \<Rightarrow> printed \<times> exit" where
  "exec_shown E r = (case r of Inl e \<Rightarrow> (Stderr (red (nocolor E) (error_text e) @ NL), Code 1)
     | Inr text \<Rightarrow> (Stdout (text @ NL), Code 0))"

lemma answer_signed:
  assumes "ce_do E n = connected_to B ev session s c took fails env"
    and "cl_signMessage (ce_lib E) (env_nonce env) (env_now env) c
      ((exec_message i cmd args)\<lparr>m_RequestID := env_request_id env\<rparr>) = Inr req"
  shows "answer E n (\<lambda>L d. ExecuteOnAgent L d c i cmd args) =
      reply_text (client_reads c took fails (server_replies B ev session s req))"
    and "sent_by E n (\<lambda>L d. ExecuteOnAgent L d c i cmd args) = [req]"
  using assms
  by (auto simp: answer_def sent_by_def ExecuteOnAgent_def cl_do_def connected_to_def exec_message_def reply_text_def Let_def
      split: sum.splits if_splits)

lemma shown_exec:
  assumes "answer E (w_requests w) (\<lambda>L d. ExecuteOnAgent L d c i cmd args) = x"
    and "sent_by E (w_requests w) (\<lambda>L d. ExecuteOnAgent L d c i cmd args) = [req]"
  shows "run_state (runExec E c i cmd args) w = (snd (exec_shown E x),
    w\<lparr>w_requests := Suc (w_requests w), w_sent := w_sent w @ [req], w_out := w_out w @ [fst (exec_shown E x)]\<rparr>)"
  by (simp add: runExec_def run_ask assms exec_shown_def fail_err_def fail_with_def err_Println_def
      fmt_Println_def fmt_Print_def split: sum.split)

section \<open>The server's side\<close>

lemma signed_fields:
  assumes "signing_ok L" and "cl_signMessage L n now c msg = Inr req"
  shows "m_Type req = m_Type msg" "m_AgentID req = m_AgentID msg" "m_Command req = m_Command msg"
    "m_Args req = m_Args msg"
proof -
  obtain k where "sign_message L (msg\<lparr>m_AuthClientID := cl_ID c, m_AuthTimestamp := unix_seconds now,
      m_AuthNonce := k\<rparr>) (cl_AdminSecret c) = Inr req"
    using assms(2) by (auto simp: cl_signMessage_def split: if_splits sum.splits)
  with assms(1) have r: "req = msg\<lparr>m_AuthClientID := cl_ID c, m_AuthTimestamp := unix_seconds now,
      m_AuthNonce := k, m_AuthSignature := m_AuthSignature req\<rparr>"
    unfolding signing_ok_def by fastforce
  show "m_Type req = m_Type msg" "m_AgentID req = m_AgentID msg" "m_Command req = m_Command msg"
    "m_Args req = m_Args msg" by (subst r, simp)+
qed

lemma fitting_accepted:
  assumes "skew_ok L" and "signing_ok L" and "fits L ev s c env"
    and "cl_signMessage L (env_nonce env) (env_now env) c msg = Inr req"
  shows "snd (verifyCLIMessage L (sv_adminSecret s) (ev_now ev) t req (sv_seenNonces s)) = None"
proof -
  obtain nonce where n: "env_nonce env = Inr nonce" "TrimSpace nonce \<noteq> []" "map_of (sv_seenNonces s) nonce = None"
    and f: "cl_AdminSecret c = sv_adminSecret s" "TrimSpace (cl_ID c) \<noteq> []" "unix_seconds (env_now env) \<noteq> 0"
      "\<bar>env_now env\<bar> < 2 ^ 62 * second" "\<bar>ev_now ev - env_now env\<bar> \<le> max_skew L - second"
    using assms(3) unfolding fits_def by blast
  show ?thesis using signed_accepted [OF assms(1,2) assms(4) [unfolded n(1)] f(2) n(2,3) f(3-5)] f(1) by simp
qed

lemma request_handled:
  assumes "type_text_ok (lib_core B)" and "skew_ok (lib_core B)" and "signing_ok (lib_core B)"
    and "fits (lib_core B) ev s c env" and "is_cli_type (m_Type msg)"
    and "cl_signMessage (lib_core B) (env_nonce env) (env_now env) c msg = Inr req"
  shows "\<exists>seen. server_replies B ev session s req = snd (handle_cli_switch B ev req (s\<lparr>sv_seenNonces := seen\<rparr>))"
proof -
  obtain seen where "verifyCLIMessage (lib_core B) (sv_adminSecret s) (ev_now ev) (ev_now_locked ev) req (sv_seenNonces s) = (seen, None)"
    using fitting_accepted [OF assms(2-4,6)] by (metis prod.collapse)
  moreover have "HasPrefix (type_text (lib_core B) (m_Type req)) ''cli.''"
    using assms(1,5) signed_fields(1) [OF assms(3,6)] by (simp add: type_text_ok_def)
  ultimately have "handleConnection B ev session (Inr req) [] s =
      Some (handle_cli_switch B ev req (s\<lparr>sv_seenNonces := seen\<rparr>))"
    by (simp add: handleConnection_def handleCLIMessage_def)
  then show ?thesis by (intro exI [of _ seen]) (simp add: server_replies_def split: prod.split)
qed

text \<open>What an agent that is not frozen answers to a command.\<close>

lemma exec_sent_fields:
  assumes "handleServerMessage texts aev d agent = ((agent', e), ef)" and "m_Type d = ServerExec"
    and "as_online agent" and "\<not> as_frozen agent"
  shows "\<exists>r. ef_sent ef = [r] \<and> m_Type r = AgentExecResult \<and> m_CommandID r = m_CommandID d \<and> m_Status r = []"
  using assms
  by (auto simp: handleServerMessage_def handle_server_exec_def send_reply_def as_send_def exec_result_reply_def agent_reply_def
      quiet_def ExecuteCommand_def Let_def split: prod.splits if_splits)

lemma exec_request_fields:
  "exec_request B ev req s = Inr d \<Longrightarrow> m_Type d = ServerExec \<and> m_CommandID d = ev_command_id ev"
  by (auto simp: exec_request_def Let_def split: option.splits sum.splits)

text \<open>
  Every exec request that is dispatched and answered in time gives the client the text and the error of
  the agent's answer; after the deadline it gives the error of the read.
\<close>

definition client_gets :: "client \<Rightarrow> duration \<Rightarrow> go_error \<Rightarrow> message \<Rightarrow> string result" where
  "client_gets c took fails r =
     (if cl_Timeout c \<le> took then Inl fails
      else if m_Error r \<noteq> [] then Inl (Errorf0 (m_Error r)) else Inr (m_Result r))"

lemma reply_reaches_client:
  assumes "type_text_ok (lib_core B)" and "skew_ok (lib_core B)" and "signing_ok (lib_core B)"
    and "fits (lib_core B) ev s c env"
    and "ce_lib E = lib_core B" and "ce_do E n = connected_to B ev session s c took fails env"
    and "cl_signMessage (lib_core B) (env_nonce env) (env_now env) c
      ((exec_message i cmd args)\<lparr>m_RequestID := env_request_id env\<rparr>) = Inr req"
    and "exec_request B ev req s = Inr d" and "sm_get i (sv_sessions s) = Some ses"
    and "as_online agent" and "\<not> as_frozen agent"
    and "handleServerMessage texts aev d agent = ((agent', e), ef)" and "ef_sent ef = [r]"
    and "env_send (ev_dispatch ev) = None" and "\<not> env_timer (ev_dispatch ev)"
    and "env_others (ev_dispatch ev) = reader_handles B now i r"
  shows "answer E n (\<lambda>L d. ExecuteOnAgent L d c i cmd args) = client_gets c took fails r"
    and "sent_by E n (\<lambda>L d. ExecuteOnAgent L d c i cmd args) = [req]"
proof -
  have q: "m_Type req = CLIExec" "m_AgentID req = i"
    using signed_fields [OF assms(3,7)] by (simp_all add: exec_message_def)
  obtain seen where sr: "server_replies B ev session s req =
      snd (handle_cli_switch B ev req (s\<lparr>sv_seenNonces := seen\<rparr>))"
    using request_handled [OF assms(1-4) _ assms(7)] by (auto simp: is_cli_type_def exec_message_def)
  let ?s = "s\<lparr>sv_seenNonces := seen\<rparr>"
  have x: "exec_request B ev req ?s = Inr d" using assms(8) by (simp add: exec_request_def)
  have g: "sm_get i (sv_sessions ?s) = Some ses" using assms(9) by simp
  have f: "m_Type r = AgentExecResult" "m_Status r = []" "m_CommandID r = m_CommandID d"
    using exec_sent_fields [OF assms(12) _ assms(10,11)] exec_request_fields [OF assms(8)] assms(13) by auto
  from dispatch_reader [OF g assms(14-16) f] obtain m s' where
    "sm_dispatch (ev_dispatch ev) i d (sv_sessions ?s, ?s) = ((m, s'), Inr (r\<lparr>m_AgentID := i, m_Success := (m_Error r = [])\<rparr>))"
    by blast
  then have "\<exists>reply. server_replies B ev session s req = [reply] \<and> m_Result reply = m_Result r \<and> m_Error reply = m_Error r"
    using q x by (simp add: sr handle_cli_switch_def handle_exec_def sv_dispatch_def exec_reply_def)
  then have "reply_text (client_reads c took fails (server_replies B ev session s req)) = client_gets c took fails r"
    by (auto simp: client_reads_def reply_text_def client_gets_def)
  then show "answer E n (\<lambda>L d. ExecuteOnAgent L d c i cmd args) = client_gets c took fails r"
    "sent_by E n (\<lambda>L d. ExecuteOnAgent L d c i cmd args) = [req]"
    using answer_signed [OF assms(6), unfolded assms(5), OF assms(7)] by simp_all
qed

section \<open>Property\<close>

text \<open>
  Property C1. From terminal to agent and back. An administrator runs a command other than superexec
  that no plugin offers, on an agent that is connected and not frozen. The client fits the server:
  same secret, a nonce that was not used, clocks that differ by at most DefaultAuthMaxSkew less one
  second; no write fails, and the answer reaches the server before its timeout. Then the request
  that goes out is accepted, the command reaches the agent unchanged, the agent runs it and answers
  once. When the answer comes back before the deadline of the client, the terminal shows exactly
  what the command printed, with exit code 0, or the text of its error, as fmt.Errorf takes it, with
  exit code 1; when it comes later, the terminal reports a failure although the agent has run the
  command all the same. (superexec is the exception: without a plugin of that name the agent refuses
  it, see superexec_needs_trust.)
\<close>

theorem exec_round_trip:
  assumes "type_text_ok (lib_core B)" and "skew_ok (lib_core B)" and "signing_ok (lib_core B)"
    and "fits (lib_core B) ev s c env"
    and "ce_lib E = lib_core B" and "ce_do E (w_requests w) = connected_to B ev session s c took fails env"
    and "cl_signMessage (lib_core B) (env_nonce env) (env_now env) c
      ((exec_message i cmd args)\<lparr>m_RequestID := env_request_id env\<rparr>) = Inr req"
    and "ps_findCommand (ev_order ev) (sv_plugins s) cmd = None" and "cmd \<noteq> ''superexec''"
    and "exec_request B ev req s = Inr d" and "sm_get i (sv_sessions s) = Some ses"
    and "as_online agent" and "\<not> as_frozen agent"
    and "cmd_Execute (ca_Registry (as_agent agent)) cmd args (as_shell agent) = (shell, out, err)"
    and "handleServerMessage texts aev d agent = ((agent', e), ef)" and "ef_sent ef = [r]"
    and "env_send (ev_dispatch ev) = None" and "\<not> env_timer (ev_dispatch ev)"
    and "env_others (ev_dispatch ev) = reader_handles B now i r"
  shows "as_shell agent' = shell \<and>
    (let got = (if cl_Timeout c \<le> took then Inl fails
                else case err of None \<Rightarrow> Inr out
                | Some x \<Rightarrow> if error_text x = [] then Inr out else Inl (Errorf0 (error_text x)))
     in run_state (runExec E c i cmd args) w =
       (snd (exec_shown E got),
        w\<lparr>w_requests := Suc (w_requests w), w_sent := w_sent w @ [req], w_out := w_out w @ [fst (exec_shown E got)]\<rparr>))"
proof -
  have q: "m_Command req = cmd" "m_Args req = args"
    using signed_fields [OF assms(3,7)] by (simp_all add: exec_message_def)
  then have d: "m_Type d = ServerExec" "m_Command d = cmd" "m_Args d = args"
    using assms(8,10) by (auto simp: exec_request_def Let_def)
  have a: "as_shell agent' = shell" "m_Result r = out" "m_Error r = (case err of None \<Rightarrow> [] | Some x \<Rightarrow> error_text x)"
    using exec_answers [OF assms(12,13) d(1) _ _ assms(15)] assms(9,14,16) d by auto
  from reply_reaches_client [OF assms(1-7,10-13,15-19)] a show ?thesis
    by (simp add: shown_exec client_gets_def Let_def split: option.split)
qed

text \<open>A sample: the agent offers a command that prints its arguments; the second request takes too long.\<close>

definition echo_command :: "unit agent_command" where
  "echo_command = \<lparr>ac_Name = ''echo'', ac_Description = [], ac_Execute = (\<lambda>args st. (st, join '' '' args, None))\<rparr>"

definition echo_agent :: "unit agent_service" where
  "echo_agent = sample_agent\<lparr>as_agent := (as_agent sample_agent)\<lparr>ca_Registry := [(''echo'', echo_command)]\<rparr>\<rparr>"

lemma echo_agent_simps [simp]: "as_online echo_agent" "\<not> as_frozen echo_agent"
  by (simp_all add: echo_agent_def)

definition sample_net :: do_env where
  "sample_net = \<lparr>env_dial = None, env_deadline = None, env_request_id = ''cli-1'', env_nonce = Inr ''n1'',
     env_now = unix_epoch + 5 * second, env_encode = (\<lambda>m. None), env_decode = Inr\<rparr>"

definition sample_terminal :: "message \<Rightarrow> duration \<Rightarrow> cli_env" where
  "sample_terminal r took = (sample_cli Inr)\<lparr>ce_do := \<lambda>n. connected_to sample_bundle (reader_env r) (newAgentSession 2 8)
     sample_server sample_client took (Errorf ''i/o timeout'') sample_net\<rparr>"

lemma sample_id: "cl_ID sample_client = ''client-1''" "cl_AdminSecret sample_client = ''k''"
    "cl_Timeout sample_client = 5 * second"
  by (simp_all add: sample_client_def NewClient_def) (code_simp)

lemma sample_fits: "fits sample_lib (reader_env r) sample_server sample_client sample_net"
proof -
  have "unix_seconds (unix_epoch + 5 * second) = 5" by (simp add: unix_seconds_def unix_epoch_def flip: distrib_right)
  moreover have "TrimSpace ''client-1'' \<noteq> []" by code_simp
  ultimately show ?thesis
    by (simp add: fits_def sample_id sample_net_def sample_server_def reader_env_def sample_env_def sample_texts)
      (simp add: sample_lib_def unix_epoch_def second_def)
qed

lemma sample_signed:
  "\<exists>req. cl_signMessage sample_lib (env_nonce sample_net) (env_now sample_net) sample_client
     ((exec_message i cmd args)\<lparr>m_RequestID := env_request_id sample_net\<rparr>) = Inr req"
proof -
  have "TrimSpace ''k/client-1/n1'' \<noteq> []" "TrimSpace ''k'' \<noteq> []" by code_simp+
  then show ?thesis by (simp add: cl_signMessage_def sample_id sample_net_def sample_lib_def sample_sign_def)
qed

lemma sample_asks:
  assumes "cmd \<noteq> ''hi''"
  shows "\<exists>req. cl_signMessage (lib_core sample_bundle) (env_nonce sample_net) (env_now sample_net) sample_client
      ((exec_message ''pc'' cmd args)\<lparr>m_RequestID := env_request_id sample_net\<rparr>) = Inr req \<and>
    (\<forall>r. exec_request sample_bundle (reader_env r) req sample_server = Inr (sample_dispatched cmd args))"
proof -
  obtain req where q: "cl_signMessage sample_lib (env_nonce sample_net) (env_now sample_net) sample_client
      ((exec_message ''pc'' cmd args)\<lparr>m_RequestID := env_request_id sample_net\<rparr>) = Inr req"
    using sample_signed [of "''pc''" cmd args] by auto
  note f = signed_fields [OF sample_lib_ok(2) q]
  have "exec_request sample_bundle (reader_env r) req sample_server = Inr (sample_dispatched cmd args)" for r
    using sample_no_plugin [OF assms] f
    by (simp add: exec_request_def exec_message_def sample_dispatched_def Let_def)
      (simp add: reader_env_def sample_env_def)
  with q show ?thesis by auto
qed

lemma sample_sends:
  "handleServerMessage texts sample_agent_env (sample_dispatched cmd args) a = ((a', e), ef) \<Longrightarrow> as_online a \<Longrightarrow>
   \<exists>r. ef_sent ef = [r]"
  by (auto simp: handleServerMessage_def handle_server_exec_def sample_dispatched_def send_reply_def as_send_def
      sample_agent_env_def quiet_def Let_def split: prod.splits if_splits)

lemma sample_pc: "sm_get ''pc'' (sv_sessions sample_server) = Some \<lparr>ss_ptr = 1, ss_id = ''pc'', ss_conn = 7\<rparr>"
  using sample_session by (simp add: sample_cmd_request_def)

lemma sample_terminal_simps:
  "ce_lib (sample_terminal r t) = lib_core sample_bundle"
  "ce_do (sample_terminal r t) n = connected_to sample_bundle (reader_env r) (newAgentSession 2 8)
     sample_server sample_client t (Errorf ''i/o timeout'') sample_net"
  by (simp_all add: sample_terminal_def sample_cli_def)

theorem exec_round_trip_witness:
  "\<exists>r sent. w_out (snd (run_state (runExec (sample_terminal r second) sample_client ''pc'' ''echo'' [''hi'', ''there''])
       (sample_world []))) = [Stdout (''hi there'' @ NL)] \<and>
     run_state (runExec (sample_terminal r (7 * second)) sample_client ''pc'' ''echo'' [''hi'', ''there'']) (sample_world []) =
       (Code 1, (sample_world [])\<lparr>w_requests := 1, w_sent := [sent], w_out := [Stderr (''i/o timeout'' @ NL)]\<rparr>)"
proof -
  let ?as = "[''hi'', ''there'']" and ?d = "sample_dispatched ''echo'' [''hi'', ''there'']"
  obtain req where q: "cl_signMessage (lib_core sample_bundle) (env_nonce sample_net) (env_now sample_net) sample_client
      ((exec_message ''pc'' ''echo'' ?as)\<lparr>m_RequestID := env_request_id sample_net\<rparr>) = Inr req"
    and d: "exec_request sample_bundle (reader_env r) req sample_server = Inr ?d" for r
    using sample_asks [of "''echo''" ?as] by auto
  obtain a' e ef where h: "handleServerMessage (\<lambda>t. []) sample_agent_env ?d echo_agent = ((a', e), ef)" by (metis surj_pair)
  obtain r where sent: "ef_sent ef = [r]" using sample_sends [OF h] by auto
  have c: "cmd_Execute (ca_Registry (as_agent echo_agent)) ''echo'' ?as (as_shell echo_agent) =
      (as_shell echo_agent, ''hi there'', None)"
    by (simp add: cmd_Execute_def echo_agent_def echo_command_def)
  have n: "ps_findCommand (ev_order (reader_env r)) (sv_plugins sample_server) ''echo'' = None"
    using sample_no_plugin [of "''echo''"] by simp
  have "TrimSpace ''1'' \<noteq> []" by code_simp
  then have "nocolor (sample_terminal r t)" for t by (simp add: sample_terminal_def sample_cli_def noColor_def)
  then have red: "red (nocolor (sample_terminal r t)) x = x" for t x by (simp add: red_def color_def)
  note trip = exec_round_trip [OF _ sample_skew_ok [folded sample_bundle_simps(1)] _ _ sample_terminal_simps q n _ d sample_pc echo_agent_simps c h sent
      reader_env_simps(1,2,3)]
  show ?thesis
    using trip [of second "sample_world []"] trip [of "7 * second" "sample_world []"] sample_lib_ok sample_fits
    by (intro exI [of _ r] exI [of _ req])
      (simp add: sample_id exec_shown_def red sample_world_def second_def)
qed

section \<open>Plugins\<close>

lemma trusted_runs:
  assumes "m_TrustedAdmin d" and "m_Args d = [''powershell'', script]"
  shows "executeSuperExec aev d =
    ([commandForPowerShell (ae_goos aev) [script]], runCombinedOutput aev (commandForPowerShell (ae_goos aev) [script]))"
proof -
  have "ToLower (TrimSpace ''powershell'') = ''powershell''" by code_simp
  then show ?thesis using assms by (simp add: executeSuperExec_def superexec_command_def Let_def)
qed

text \<open>
  Property C17. A plugin from terminal to agent and back: an enabled plugin offers the command, its
  script can be built, and the agent is connected and not frozen (a frozen agent runs nothing:
  frozen_runs_nothing). The client fits the server: same secret, a nonce that was not used, clocks
  that differ by at most DefaultAuthMaxSkew less one second; no write fails, and the answer reaches
  the server before its timeout. Then the agent starts exactly one process, PowerShell with the
  script the server has built from the plugin and the arguments of the request, and its own state
  does not change. When the answer comes before the deadline of the client, the terminal shows what
  the process printed, or that it failed; when it comes later, it reports a failure.
\<close>

theorem plugin_round_trip:
  assumes "type_text_ok (lib_core B)" and "skew_ok (lib_core B)" and "signing_ok (lib_core B)"
    and "fits (lib_core B) ev s c env"
    and "ce_lib E = lib_core B" and "ce_do E (w_requests w) = connected_to B ev session s c took fails env"
    and "cl_signMessage (lib_core B) (env_nonce env) (env_now env) c
      ((exec_message i cmd args)\<lparr>m_RequestID := env_request_id env\<rparr>) = Inr req"
    and "ps_findCommand (ev_order ev) (sv_plugins s) cmd = Some pkg"
    and "exec_request B ev req s = Inr d" and "sm_get i (sv_sessions s) = Some ses"
    and "as_online agent" and "\<not> as_frozen agent"
    and "handleServerMessage texts aev d agent = ((agent', e), ef)" and "ef_sent ef = [r]"
    and "env_send (ev_dispatch ev) = None" and "\<not> env_timer (ev_dispatch ev)"
    and "env_others (ev_dispatch ev) = reader_handles B now i r"
  shows "\<exists>script process. buildPluginPowerShell (lib_core B) (lib_paths B) pkg args = Inr script \<and>
    process = commandForPowerShell (ae_goos aev) [script] \<and> agent' = agent \<and> ef_ran ef = [process] \<and>
    (let got = (if cl_Timeout c \<le> took then Inl fails
                else case ae_run aev process of
                  (out, None) \<Rightarrow> Inr out
                | (out, Some x) \<Rightarrow> Inl (Errorf0 (''superexec failed: '' @ error_text x)))
     in run_state (runExec E c i cmd args) w =
       (snd (exec_shown E got),
        w\<lparr>w_requests := Suc (w_requests w), w_sent := w_sent w @ [req], w_out := w_out w @ [fst (exec_shown E got)]\<rparr>))"
proof -
  have "m_Command req = cmd" "m_Args req = args"
    using signed_fields [OF assms(3,7)] by (simp_all add: exec_message_def)
  then obtain script where b: "buildPluginPowerShell (lib_core B) (lib_paths B) pkg args = Inr script"
    and d: "m_Type d = ServerExec" "m_Command d = ''superexec''" "m_TrustedAdmin d" "m_Args d = [''powershell'', script]"
    using assms(8,9) by (auto simp: exec_request_def Let_def split: sum.splits)
  let ?p = "commandForPowerShell (ae_goos aev) [script]"
  let ?r = "exec_result_reply aev d agent (runCombinedOutput aev ?p)"
  have "send_reply aev ?r [?p] agent = ((agent', e), ef)"
    using assms(12,13) d trusted_runs [OF d(3,4)] by (simp add: handleServerMessage_def handle_server_exec_def)
  with send_reply_simps [of aev ?r "[?p]" agent] assms(11,14) have x: "agent' = agent" "ef_ran ef = [?p]" "r = ?r" by auto
  have "client_gets c took fails r = (if cl_Timeout c \<le> took then Inl fails
      else case ae_run aev ?p of (out, None) \<Rightarrow> Inr out
      | (out, Some y) \<Rightarrow> Inl (Errorf0 (''superexec failed: '' @ error_text y)))"
    by (simp add: client_gets_def x(3) exec_result_reply_def runCombinedOutput_def split: prod.split option.split)
  with shown_exec [OF reply_reaches_client [OF assms(1-7,9-17)]] b x(1,2) show ?thesis
    by (intro exI [of _ script] exI [of _ ?p]) (simp add: Let_def)
qed

theorem plugin_round_trip_witness:
  "\<exists>r. w_out (snd (run_state (runExec (sample_terminal r second) sample_client ''pc'' ''hi'' [''you'']) (sample_world []))) =
     [Stdout (''out'' @ NL)]"
proof -
  let ?p = "sample_package ''hello'' ''1.0'' ''hi''"
  obtain req where q: "cl_signMessage (lib_core sample_bundle) (env_nonce sample_net) (env_now sample_net) sample_client
      ((exec_message ''pc'' ''hi'' [''you''])\<lparr>m_RequestID := env_request_id sample_net\<rparr>) = Inr req"
    using sample_signed [of "''pc''" "''hi''" "[''you'']"] by auto
  have f: "m_Command req = ''hi''" "m_Args req = [''you'']" "m_AgentID req = ''pc''"
    using signed_fields [OF sample_lib_ok(2) q [simplified]] by (simp_all add: exec_message_def)
  have n: "ps_findCommand (ev_order (reader_env r)) (sv_plugins sample_server) ''hi'' = Some ?p" for r
    by (simp add: sample_finds sample_server_def)
  obtain script where b: "buildPluginPowerShell (lib_core sample_bundle) (lib_paths sample_bundle) ?p [''you''] = Inr script"
    using validate_sample [of "''hello''" "''1.0''" "''hi''"]
    by (simp add: buildPluginPowerShell_def trim_samples) (simp add: sample_package_def sample_lib_def)
  define d where "d = (sample_dispatched ''superexec'' [''powershell'', script])\<lparr>m_TrustedAdmin := True\<rparr>"
  have d: "exec_request sample_bundle (reader_env r) req sample_server = Inr d" for r
    using n [of r] b f by (simp add: exec_request_def d_def sample_dispatched_def Let_def)
      (simp add: reader_env_def sample_env_def)
  obtain a' e ef where h: "handleServerMessage (\<lambda>t. []) sample_agent_env d sample_agent = ((a', e), ef)" by (metis surj_pair)
  obtain r where sent: "ef_sent ef = [r]"
    using exec_sent_fields [OF h] by (auto simp: d_def sample_dispatched_def)
  have "\<exists>script process. buildPluginPowerShell (lib_core sample_bundle) (lib_paths sample_bundle) ?p [''you''] = Inr script \<and>
    process = commandForPowerShell (ae_goos sample_agent_env) [script] \<and> a' = sample_agent \<and> ef_ran ef = [process] \<and>
    (let got = (if cl_Timeout sample_client \<le> second then Inl (Errorf ''i/o timeout'')
                else case ae_run sample_agent_env process of
                  (out, None) \<Rightarrow> Inr out
                | (out, Some x) \<Rightarrow> Inl (Errorf0 (''superexec failed: '' @ error_text x)))
     in run_state (runExec (sample_terminal r second) sample_client ''pc'' ''hi'' [''you'']) (sample_world []) =
       (snd (exec_shown (sample_terminal r second) got), (sample_world [])\<lparr>w_requests := Suc (w_requests (sample_world [])),
          w_sent := w_sent (sample_world []) @ [req],
          w_out := w_out (sample_world []) @ [fst (exec_shown (sample_terminal r second) got)]\<rparr>))"
    by (rule plugin_round_trip [OF _ sample_skew_ok [folded sample_bundle_simps(1)] _ _ sample_terminal_simps q n d sample_pc
      sample_agent_simps(1,2) h sent reader_env_simps(1,2,3)]) (use sample_lib_ok sample_fits in simp_all)
  then show ?thesis
    by (intro exI [of _ r]) (auto simp: Let_def sample_id second_def exec_shown_def sample_agent_env_def sample_world_def)
qed

section \<open>The file browser of the graphical interface\<close>

text \<open>
  Every request of the file browser is a superexec request, and the server never marks it as
  trusted: the agent refuses it, and its refusal is what the handler gets.
\<close>

definition refusal :: string where
  "refusal = ''superexec requires a trusted admin request''"

lemma script_refused:
  assumes "type_text_ok (lib_core B)" and "skew_ok (lib_core B)" and "signing_ok (lib_core B)"
    and "fits (lib_core B) ev s c env"
    and "ce_lib E = lib_core B" and "ce_do E (w_requests w) = connected_to B ev session s c took fails env"
    and "took < cl_Timeout c"
    and "cl_signMessage (lib_core B) (env_nonce env) (env_now env) c
      ((exec_message i ''superexec'' [''powershell'', script])\<lparr>m_RequestID := env_request_id env\<rparr>) = Inr req"
    and "ps_findCommand (ev_order ev) (sv_plugins s) ''superexec'' = None"
    and "exec_request B ev req s = Inr d" and "sm_get i (sv_sessions s) = Some ses"
    and "as_online agent" and "\<not> as_frozen agent"
    and "handleServerMessage texts aev d agent = ((agent', e), ef)" and "ef_sent ef = [r]"
    and "env_send (ev_dispatch ev) = None" and "\<not> env_timer (ev_dispatch ev)"
    and "env_others (ev_dispatch ev) = reader_handles B now i r"
  shows "agent' = agent \<and> ef_ran ef = [] \<and>
    run_state (run_script E c i script what rd) w =
      (Inl (Errorf refusal), w\<lparr>w_requests := Suc (w_requests w), w_sent := w_sent w @ [req]\<rparr>)"
proof -
  have "m_Command req = ''superexec''" using signed_fields [OF assms(3,8)] by (simp add: exec_message_def)
  then have d: "m_Type d = ServerExec" "m_Command d = ''superexec''" "\<not> m_TrustedAdmin d"
    using assms(9,10) by (auto simp: exec_request_def Let_def)
  let ?r = "exec_result_reply aev d agent ([], Some (Errorf refusal))"
  have "send_reply aev ?r [] agent = ((agent', e), ef)"
    using assms(13,14) d executeSuperExec_untrusted [of d aev]
    by (simp add: handleServerMessage_def handle_server_exec_def refusal_def)
  with send_reply_simps [of aev ?r "[]" agent] assms(12,15) have x: "agent' = agent" "ef_ran ef = []" "r = ?r" by auto
  have "errorf0_text refusal = refusal" by (rule errorf0_plain) (simp add: refusal_def)
  then have "client_gets c took fails r = Inl (Errorf refusal)"
    using assms(7) by (simp add: client_gets_def x(3) exec_result_reply_def Errorf0_def refusal_def)
  with reply_reaches_client [OF assms(1-6,8,10-18)] x(1,2) show ?thesis
    by (simp add: run_script_def run_ask superexec_request_def)
qed

lemma run_guiLog_eq: "run_state (guiLog G t) w = ((), w\<lparr>w_out := w_out w @ [Stdout (''['' @ ge_time G (length (w_out w)) @ ''] gui: '' @ t @ NL)]\<rparr>)"
  by (simp add: guiLog_def)

lemma run_bind: "run_state (State_Monad.bind m f) w = (case run_state m w of (a, w') \<Rightarrow> run_state (f a) w')"
  by simp

lemma guiLog_requests: "w_requests (snd (run_state (guiLog G t) w)) = w_requests w"
  by (simp add: run_guiLog_eq)

lemma browse_answer:
  assumes "TrimSpace name \<noteq> []" and "target = (if TrimSpace path = [] then ''C:'' @ [CHR 0x5C] else TrimSpace path)"
    and "\<And>w'. w_requests w' = w_requests w \<Longrightarrow>
      fst (run_state (browseRemotePath E G c (TrimSpace name) target) w') = Inl x"
  shows "fst (run_state (gui_browse E G c name path resp) w) = writeJSONError G x 502 resp"
proof -
  let ?log = "guiLog G (''browse: agent='' @ TrimSpace name @ '' path='' @ ge_quote G target)"
  define u where "u = snd (run_state ?log w)"
  have log: "run_state ?log w = ((), u)" by (simp add: u_def run_guiLog_eq)
  have "w_requests u = w_requests w" unfolding u_def by (rule guiLog_requests)
  then have "fst (run_state (browseRemotePath E G c (TrimSpace name) target) u) = Inl x" by (rule assms(3))
  then obtain v where v: "run_state (browseRemotePath E G c (TrimSpace name) target) u = (Inl x, v)"
    by (cases "run_state (browseRemotePath E G c (TrimSpace name) target) u") simp
  have "run_state (gui_browse E G c name path resp) w = run_state (do {
      a \<leftarrow> browseRemotePath E G c (TrimSpace name) target;
      case a of
        Inl e \<Rightarrow> do { guiLog G (''browse: error: '' @ error_text e); return (writeJSONError G e 502 resp) }
      | Inr resp' \<Rightarrow> do {
          guiLog G (''browse: ok path='' @ ge_quote G (br_Path resp') @ '' entries='' @
            Itoa (int (length (br_Entries resp'))));
          return (writeJSON G (ge_browse G resp') resp) } }) u"
    using assms(1) unfolding gui_browse_def Let_def assms(2) [symmetric] by (simp only: run_bind log if_False prod.case)
  then show ?thesis by (simp add: run_bind v run_guiLog_eq)
qed

text \<open>
  Property C36. The file browser of the graphical interface does not work: as long as no plugin offers
  a command named superexec, a request for a directory, with any path, of any agent that is
  connected and not frozen, is answered with status 502 and the agent's refusal to run superexec,
  and the agent runs nothing. This is said of requests that get through at all: the client fits the
  server (same secret, a nonce that was not used, clocks that differ by at most DefaultAuthMaxSkew
  less one second), no write fails, and the answer comes before the timeout of the server and the
  deadline of the client. (Otherwise the request fails too, with another error.)
\<close>

theorem browser_refused:
  assumes "type_text_ok (lib_core B)" and "skew_ok (lib_core B)" and "signing_ok (lib_core B)"
    and "fits (lib_core B) ev s c env"
    and "ce_lib E = lib_core B" and "ce_do E (w_requests w) = connected_to B ev session s c took fails env"
    and "took < cl_Timeout c" and "TrimSpace name \<noteq> []"
    and "target = (if TrimSpace path = [] then ''C:'' @ [CHR 0x5C] else TrimSpace path)"
    and "cl_signMessage (lib_core B) (env_nonce env) (env_now env) c
      ((exec_message (TrimSpace name) ''superexec'' [''powershell'', browse_script target (TrimSpace name)])
        \<lparr>m_RequestID := env_request_id env\<rparr>) = Inr req"
    and "ps_findCommand (ev_order ev) (sv_plugins s) ''superexec'' = None"
    and "exec_request B ev req s = Inr d" and "sm_get (TrimSpace name) (sv_sessions s) = Some ses"
    and "as_online agent" and "\<not> as_frozen agent"
    and "handleServerMessage texts aev d agent = ((agent', e), ef)" and "ef_sent ef = [r]"
    and "env_send (ev_dispatch ev) = None" and "\<not> env_timer (ev_dispatch ev)"
    and "env_others (ev_dispatch ev) = reader_handles B now (TrimSpace name) r"
  shows "agent' = agent \<and> ef_ran ef = [] \<and>
    fst (run_state (gui_browse E G c name path resp) w) = writeJSONError G (Errorf refusal) 502 resp"
proof -
  have no: "agent' = agent \<and> ef_ran ef = [] \<and> run_state (run_script E c (TrimSpace name) (browse_script target (TrimSpace name))
      what rd) w' = (Inl (Errorf refusal), w'\<lparr>w_requests := Suc (w_requests w'), w_sent := w_sent w' @ [req]\<rparr>)"
    if "w_requests w' = w_requests w" for w' and what :: string and rd :: "string \<Rightarrow> browse_response result"
    using assms(6) unfolding that [symmetric]
    by (rule script_refused [OF assms(1-5) _ assms(7,10-20)])
  have "fst (run_state (gui_browse E G c name path resp) w) = writeJSONError G (Errorf refusal) 502 resp"
    by (rule browse_answer [OF assms(8,9)]) (use no in \<open>simp add: browseRemotePath_def\<close>)
  with no [of w] show ?thesis by blast
qed

theorem browser_refused_witness:
  "\<exists>r. \<forall>G resp. fst (run_state (gui_browse (sample_terminal r second) G sample_client '' pc'' [] resp) (sample_world [])) =
     writeJSONError G (Errorf refusal) 502 resp"
proof -
  have t: "TrimSpace '' pc'' = ''pc''" "TrimSpace [] = []" by code_simp+
  let ?as = "[''powershell'', browse_script (''C:'' @ [CHR 0x5C]) ''pc'']"
  obtain req where q: "cl_signMessage (lib_core sample_bundle) (env_nonce sample_net) (env_now sample_net) sample_client
      ((exec_message ''pc'' ''superexec'' ?as)\<lparr>m_RequestID := env_request_id sample_net\<rparr>) = Inr req"
    and d: "exec_request sample_bundle (reader_env r) req sample_server = Inr (sample_dispatched ''superexec'' ?as)" for r
    using sample_asks [of "''superexec''" ?as] by auto
  obtain a' e ef where h: "handleServerMessage (\<lambda>t. []) sample_agent_env (sample_dispatched ''superexec'' ?as) sample_agent =
      ((a', e), ef)" by (metis surj_pair)
  obtain r where sent: "ef_sent ef = [r]" using sample_sends [OF h] by auto
  have n: "ps_findCommand (ev_order (reader_env r)) (sv_plugins sample_server) ''superexec'' = None"
    using sample_no_plugin [of "''superexec''"] by simp
  have "fst (run_state (gui_browse (sample_terminal r second) G sample_client '' pc'' [] resp) (sample_world [])) =
     writeJSONError G (Errorf refusal) 502 resp" for G resp
    using browser_refused [of sample_bundle "reader_env r" sample_server sample_client sample_net "sample_terminal r second"
        "sample_world []" "newAgentSession 2 8" second "Errorf ''i/o timeout''" "'' pc''" "''C:'' @ [CHR 0x5C]" "[]",
        unfolded t, OF _ _ _ _ sample_terminal_simps _ _ _ q n d sample_pc sample_agent_simps(1,2) h sent reader_env_simps(1,2,3)]
      sample_lib_ok sample_fits sample_skew_ok
    by (simp add: sample_id second_def)
  then show ?thesis by blast
qed

end
