(* ===== verification/Server_Steps.thy ===== *)
theory Server_Steps
  imports Server_Laws
begin

text \<open>
  The goroutines of server/server.go: the accept loop, one handler for every connection, the
  sweep, and Stop. Between two steps of one of them all others may move. A step of a handler is
  one operation on the registry or on the session manager, or a whole request of an
  administrator, except that a request that waits for an agent is two steps, before and after
  the wait. The operations of a dispatch one by one are in Dispatch_Steps.
\<close>

section \<open>A request in two parts\<close>

text \<open>The message a request has dispatched to the agent, when it has one.\<close>

definition cli_dispatch :: "'r srv_lib \<Rightarrow> 'r srv_env \<Rightarrow> message \<Rightarrow> 'r server \<Rightarrow> message option" where
  "cli_dispatch B ev msg s =
     (case m_Type msg of
        CLIExec \<Rightarrow> (case exec_request B ev msg s of Inl e \<Rightarrow> None | Inr d \<Rightarrow> Some d)
      | CLIPing \<Rightarrow>
          (if m_AgentID msg = [] then None
           else Some ((new_message ServerPing)\<lparr>m_RequestID := ev_request_id ev, m_CommandID := ev_command_id ev,
             m_AgentID := m_AgentID msg, m_Timestamp := ev_stamp ev\<rparr>))
      | CLIAgentControl \<Rightarrow>
          Some ((new_message ServerControl)\<lparr>m_RequestID := ev_request_id ev, m_CommandID := ev_command_id ev,
            m_AgentID := m_AgentID msg, m_Control := m_Control msg, m_Timestamp := ev_stamp ev\<rparr>)
      | _ \<Rightarrow> None)"

text \<open>Up to the wait; nothing is left to wait for when the agent is offline or the write fails.\<close>

definition dispatch_begin ::
  "'r srv_env \<Rightarrow> string \<Rightarrow> message \<Rightarrow> 'r server \<Rightarrow> 'r server \<times> (message \<times> nat) option" where
  "dispatch_begin ev agentID d s =
     (case sm_get agentID (sv_sessions s) of
        None \<Rightarrow> (s, None)
      | Some session \<Rightarrow>
          (case sm_registerPending (m_CommandID d) (sv_sessions s) of
             (m, ch) \<Rightarrow>
               (case env_send (ev_dispatch ev) of
                  Some e \<Rightarrow> (s\<lparr>sv_sessions := sm_cancelPending (m_CommandID d) m\<rparr>, None)
                | None \<Rightarrow> (s\<lparr>sv_sessions := m\<rparr>, Some (d, ch)))))"

definition cli_open ::
  "'r srv_lib \<Rightarrow> 'r srv_env \<Rightarrow> message \<Rightarrow> 'r server \<Rightarrow> 'r server \<times> (message \<times> nat) option" where
  "cli_open B ev msg s =
     (case verifyCLIMessage (lib_core B) (sv_adminSecret s) (ev_now ev) (ev_now_locked ev) msg (sv_seenNonces s) of
        (seen, Some e) \<Rightarrow> (s\<lparr>sv_seenNonces := seen\<rparr>, None)
      | (seen, None) \<Rightarrow>
          (let s1 = s\<lparr>sv_seenNonces := seen\<rparr> in
           case cli_dispatch B ev msg s1 of
             None \<Rightarrow> (fst (handle_cli_switch B ev msg s1), None)
           | Some d \<Rightarrow> dispatch_begin ev (m_AgentID msg) d s1))"

text \<open>After the wait, on whatever the server has become meanwhile.\<close>

definition cli_close :: "'r srv_lib \<Rightarrow> 'r srv_env \<Rightarrow> message \<Rightarrow> message \<Rightarrow> nat \<Rightarrow> 'r server \<Rightarrow> 'r server" where
  "cli_close B ev msg d ch s =
     (let m = sv_sessions s; c = sm_chans m ! ch in
      if env_timer (ev_dispatch ev) \<or> (ch_buf c = None \<and> \<not> ch_closed c)
      then s\<lparr>sv_sessions := sm_cancelPending (m_CommandID d) m\<rparr>
      else case ch_buf c of
             None \<Rightarrow> s
           | Some resp \<Rightarrow>
               (let s' = s\<lparr>sv_sessions := m\<lparr>sm_chans := (sm_chans m)[ch := c\<lparr>ch_buf := None\<rparr>]\<rparr>\<rparr> in
                if m_Type msg = CLIAgentControl
                then control_update B (ev_stamp ev) (m_AgentID msg) (m_Status resp) s'
                else s'))"

text \<open>The two parts with what the others do between them are the handler.\<close>

definition waits_as :: "('r server \<Rightarrow> 'r server) \<Rightarrow> session_manager \<times> 'r server \<Rightarrow> session_manager \<times> 'r server" where
  "waits_as W = (\<lambda>(m, x). let y = W (x\<lparr>sv_sessions := m\<rparr>) in (sv_sessions y, y))"

lemma dispatch_in_two:
  assumes "env_others (ev_dispatch ev) = waits_as W"
  shows "fst (sv_dispatch ev a d s) =
    (case dispatch_begin ev a d s of
       (s1, None) \<Rightarrow> s1
     | (s1, Some (d, ch)) \<Rightarrow> cli_close B ev ((new_message CLIExec)) d ch (W s1))"
  by (simp add: sv_dispatch_def sm_dispatch_def dispatch_begin_def cli_close_def assms waits_as_def Let_def
      sm_registerPending_def split: option.split)

lemma control_in_two:
  assumes "env_others (ev_dispatch ev) = waits_as W" and "m_Type msg = CLIAgentControl"
    and "cli_dispatch B ev msg s = Some d"
  shows "fst (handle_control B ev msg s) =
    (case dispatch_begin ev (m_AgentID msg) d s of
       (s1, None) \<Rightarrow> s1
     | (s1, Some (d, ch)) \<Rightarrow> cli_close B ev msg d ch (W s1))"
  using assms(2,3)
  by (simp add: handle_control_def sv_dispatch_def sm_dispatch_def dispatch_begin_def cli_close_def cli_dispatch_def
      assms(1) waits_as_def Let_def sm_registerPending_def split: option.split)

lemma close_not_control: "m_Type msg \<noteq> CLIAgentControl \<Longrightarrow> cli_close B ev msg d ch s = cli_close B ev (new_message CLIExec) d ch s"
  by (simp add: cli_close_def Let_def split: option.split)

lemma dispatching_types: "cli_dispatch B ev msg s = Some d \<Longrightarrow> m_Type msg \<in> {CLIAgentControl, CLIExec, CLIPing}"
  by (cases "m_Type msg") (simp_all add: cli_dispatch_def)

lemma handler_in_two:
  assumes "env_others (ev_dispatch ev) = waits_as W"
  shows "fst (handleCLIMessage B ev msg s) =
    (case cli_open B ev msg s of
       (s1, None) \<Rightarrow> s1
     | (s1, Some (d, ch)) \<Rightarrow> cli_close B ev msg d ch (W s1))"
proof -
  obtain seen e where v: "verifyCLIMessage (lib_core B) (sv_adminSecret s) (ev_now ev) (ev_now_locked ev) msg (sv_seenNonces s) = (seen, e)"
    by fastforce
  let ?s = "s\<lparr>sv_seenNonces := seen\<rparr>"
  have "fst (handle_cli_switch B ev msg ?s) =
      (case dispatch_begin ev (m_AgentID msg) d ?s of
         (s1, None) \<Rightarrow> s1
       | (s1, Some (d, ch)) \<Rightarrow> cli_close B ev msg d ch (W s1))" if d: "cli_dispatch B ev msg ?s = Some d" for d
  proof -
    obtain s' r where r: "sv_dispatch ev (m_AgentID msg) d ?s = (s', r)" by fastforce
    consider "m_Type msg = CLIAgentControl" | "m_Type msg = CLIExec" | "m_Type msg = CLIPing"
      using dispatching_types [OF d] by auto
    then show ?thesis
    proof cases
      case 1
      then show ?thesis using control_in_two [OF assms 1 d] by (simp add: handle_cli_switch_def)
    next
      case 2
      have e: "exec_request B ev msg ?s = Inr d" using d 2 by (simp add: cli_dispatch_def split: sum.splits)
      have "fst (handle_cli_switch B ev msg ?s) = fst (sv_dispatch ev (m_AgentID msg) d ?s)"
        by (cases r) (simp_all add: 2 handle_cli_switch_def handle_exec_def e r)
      then show ?thesis using 2 by (simp add: dispatch_in_two [OF assms, where B = B] close_not_control [of msg])
    next
      case 3
      have p: "m_AgentID msg \<noteq> []" "d = (new_message ServerPing)\<lparr>m_RequestID := ev_request_id ev,
          m_CommandID := ev_command_id ev, m_AgentID := m_AgentID msg, m_Timestamp := ev_stamp ev\<rparr>"
        using d 3 by (simp_all add: cli_dispatch_def split: if_splits)
      have "fst (handle_cli_switch B ev msg ?s) = fst (sv_dispatch ev (m_AgentID msg) d ?s)"
        by (cases r) (simp_all add: 3 handle_cli_switch_def handle_ping_def p(1) p(2) [symmetric] r)
      then show ?thesis using 3 by (simp add: dispatch_in_two [OF assms, where B = B] close_not_control [of msg])
    qed
  qed
  then show ?thesis
    by (simp add: handleCLIMessage_def cli_open_def v Let_def split: option.split)
qed

section \<open>The steps\<close>

text \<open>
  A handler: before its first message; of an agent between its two registrations, in its
  loop, between the two operations that end it; of an administrator that waits for an agent; at its end.
\<close>

datatype 'r handler_phase =
    Fresh
  | Joining string
  | In_session string
  | Leaving string
  | Awaiting "'r srv_env" message message nat
  | Finished

record 'r server_run =
  run_server :: "'r server"
  run_handlers :: "'r handler_phase list" \<comment> \<open>the handler of connection i and its session\<close>
  run_accepting :: bool \<comment> \<open>acceptConnections has not returned\<close>
  run_sweeping :: bool \<comment> \<open>markOfflineLoop has not returned\<close>
  run_listening :: bool
  run_quit :: bool

definition run_started :: "'r server \<Rightarrow> 'r server_run" where
  "run_started srv = \<lparr>run_server = srv, run_handlers = [], run_accepting = True, run_sweeping = True,
     run_listening = True, run_quit = False\<rparr>"

definition at_phase :: "'r server_run \<Rightarrow> nat \<Rightarrow> 'r handler_phase \<Rightarrow> bool" where
  "at_phase s i p \<longleftrightarrow> i < length (run_handlers s) \<and> run_handlers s ! i = p"

definition moves_to :: "nat \<Rightarrow> 'r handler_phase \<Rightarrow> 'r server \<Rightarrow> 'r server_run \<Rightarrow> 'r server_run" where
  "moves_to i p srv s = s\<lparr>run_server := srv, run_handlers := (run_handlers s)[i := p]\<rparr>"

text \<open>handleAgentSession up to the loop is the first operation, then the second.\<close>

definition agent_known :: "'r srv_lib \<Rightarrow> instant \<Rightarrow> entry \<Rightarrow> 'r server \<Rightarrow> 'r server \<times> go_error option" where
  "agent_known B now a s =
     (case reg_Register (lib_registry B) now (agent_online now a) (sv_registry s) of
        (r, e) \<Rightarrow> (s\<lparr>sv_registry := r\<rparr>, e))"

definition agent_joins :: "string \<Rightarrow> agent_session \<Rightarrow> 'r server \<Rightarrow> 'r server" where
  "agent_joins agentID session s = s\<lparr>sv_sessions := sm_register agentID session (sv_sessions s)\<rparr>"

definition session_gone :: "string \<Rightarrow> agent_session \<Rightarrow> 'r server \<Rightarrow> 'r server" where
  "session_gone agentID session s = s\<lparr>sv_sessions := sm_unregister agentID session (sv_sessions s)\<rparr>"

definition agent_offline :: "'r srv_lib \<Rightarrow> instant \<Rightarrow> string \<Rightarrow> 'r server \<Rightarrow> 'r server" where
  "agent_offline B now agentID s =
     s\<lparr>sv_registry := fst (reg_UpdateStatus (lib_registry B) now agentID False (sv_registry s))\<rparr>"

text \<open>Stop closes the channel quit and the listener; the connections stay open.\<close>

definition run_Stop :: "'r server_run \<Rightarrow> 'r server_run" where
  "run_Stop s = s\<lparr>run_quit := True, run_listening := False\<rparr>"

lemma run_Stop_simps [simp]:
  "run_server (run_Stop s) = run_server s" "run_handlers (run_Stop s) = run_handlers s"
  "run_accepting (run_Stop s) = run_accepting s"
  by (simp_all add: run_Stop_def)

lemma register_in_two:
  "m_Agent msg = Some a \<Longrightarrow> fst (fst (agent_register B now session msg s)) =
     (case agent_known B now a s of
        (s1, Some e) \<Rightarrow> s1
      | (s1, None) \<Rightarrow> agent_joins (e_ID a) session s1)"
  by (simp add: agent_register_def agent_known_def agent_joins_def agent_online_def Let_def split: prod.split option.split)

lemma leave_in_two: "agent_leave B now i session s = agent_offline B now i (session_gone i session s)"
  by (simp add: agent_leave_def agent_offline_def session_gone_def)

inductive srv_step :: "'r srv_lib \<Rightarrow> 'r server_run \<Rightarrow> 'r server_run \<Rightarrow> bool" for B :: "'r srv_lib" where
  accept: "run_accepting s \<Longrightarrow> run_listening s \<Longrightarrow> srv_step B s (s\<lparr>run_handlers := run_handlers s @ [Fresh]\<rparr>)"
| accept_error: "run_accepting s \<Longrightarrow> srv_step B s (s\<lparr>run_accepting := False\<rparr>)"
| no_message: "at_phase s i Fresh \<Longrightarrow> srv_step B s (moves_to i Finished (run_server s) s)"
| cli_done: "at_phase s i Fresh \<Longrightarrow> cli_open B ev msg (run_server s) = (srv, None) \<Longrightarrow>
    srv_step B s (moves_to i Finished srv s)"
| cli_waits: "at_phase s i Fresh \<Longrightarrow> cli_open B ev msg (run_server s) = (srv, Some (d, ch)) \<Longrightarrow>
    srv_step B s (moves_to i (Awaiting ev msg d ch) srv s)"
| cli_ends: "at_phase s i (Awaiting ev msg d ch) \<Longrightarrow>
    srv_step B s (moves_to i Finished (cli_close B ev msg d ch (run_server s)) s)"
| agent_refused: "at_phase s i Fresh \<Longrightarrow> agent_known B now a (run_server s) = (srv, Some e) \<Longrightarrow>
    srv_step B s (moves_to i Finished srv s)"
| agent_registers: "at_phase s i Fresh \<Longrightarrow> agent_known B now a (run_server s) = (srv, None) \<Longrightarrow>
    srv_step B s (moves_to i (Joining (e_ID a)) srv s)"
| agent_enters: "at_phase s i (Joining agentID) \<Longrightarrow>
    srv_step B s (moves_to i (In_session agentID) (agent_joins agentID (newAgentSession i i) (run_server s)) s)"
| agent_says: "at_phase s i (In_session agentID) \<Longrightarrow>
    handleAgentMessage B now agentID msg (run_server s) = Some (srv, out) \<Longrightarrow>
    srv_step B s (moves_to i (In_session agentID) srv s)"
| agent_hangs_up: "at_phase s i (In_session agentID) \<Longrightarrow>
    srv_step B s (moves_to i (Leaving agentID) (session_gone agentID (newAgentSession i i) (run_server s)) s)"
| agent_leaves: "at_phase s i (Leaving agentID) \<Longrightarrow>
    srv_step B s (moves_to i Finished (agent_offline B now agentID (run_server s)) s)"
| sweep: "run_sweeping s \<Longrightarrow> srv_step B s (s\<lparr>run_server := markOffline_tick B now (run_server s)\<rparr>)"
| sweep_returns: "run_sweeping s \<Longrightarrow> run_quit s \<Longrightarrow> srv_step B s (s\<lparr>run_sweeping := False\<rparr>)"
| stop: "srv_step B s (run_Stop s)"

inductive srv_reach :: "'r srv_lib \<Rightarrow> 'r server \<Rightarrow> 'r server_run \<Rightarrow> bool" for B srv where
  reach_start: "srv_reach B srv (run_started srv)"
| reach_step: "srv_reach B srv s \<Longrightarrow> srv_step B s t \<Longrightarrow> srv_reach B srv t"

inductive_cases srv_stepE: "srv_step B s t"

end
