(* ===== verification/Server_Run.thy ===== *)
theory Server_Run
  imports Server_Steps
begin

text \<open>
  What holds in every state of a running server, with any connections and in any order of
  their steps: the table of sessions and the table of pending commands agree with the handlers.
\<close>

section \<open>The tables and the handlers\<close>

definition phase_at :: "'r handler_phase list \<Rightarrow> nat \<Rightarrow> 'r handler_phase \<Rightarrow> bool" where
  "phase_at hs i p \<longleftrightarrow> i < length hs \<and> hs ! i = p"

lemma phase_at_update [simp]: "phase_at (hs[i := q]) j p \<longleftrightarrow> (if i = j then i < length hs \<and> p = q else phase_at hs j p)"
  by (auto simp: phase_at_def)

lemma phase_at_snoc [simp]: "p \<noteq> Fresh \<Longrightarrow> phase_at (hs @ [Fresh]) i p \<longleftrightarrow> phase_at hs i p"
  by (auto simp: phase_at_def nth_append less_Suc_eq)

lemma phase_unique: "phase_at hs i p \<Longrightarrow> phase_at hs i q \<Longrightarrow> p = q"
  by (simp add: phase_at_def)

lemma phase_bound: "phase_at hs i p \<Longrightarrow> i < length hs"
  by (simp add: phase_at_def)

text \<open>A session of the table is the one of a handler in its loop; a handler in its loop that is not in the table has lost its connection.\<close>

definition sessions_inv :: "session_manager \<Rightarrow> 'r handler_phase list \<Rightarrow> bool" where
  "sessions_inv m hs \<longleftrightarrow>
     (\<forall>i ses. map_of (sm_sessions m) i = Some ses \<longrightarrow> ss_conn ses = ss_ptr ses \<and> phase_at hs (ss_ptr ses) (In_session i)) \<and>
     (\<forall>h i. phase_at hs h (In_session i) \<longrightarrow>
        (\<exists>ses. map_of (sm_sessions m) i = Some ses \<and> ss_ptr ses = h) \<or> h \<in> set (sm_closed_conns m))"

text \<open>Every handler that waits has a channel of its own; a pending command is waited for, and its channel is empty and open.\<close>

definition waits_inv :: "session_manager \<Rightarrow> 'r handler_phase list \<Rightarrow> bool" where
  "waits_inv m hs \<longleftrightarrow>
     (\<forall>h ev msg d ch. phase_at hs h (Awaiting ev msg d ch) \<longrightarrow> ch < length (sm_chans m)) \<and>
     (\<forall>h h' ev ev' msg msg' d d' ch. phase_at hs h (Awaiting ev msg d ch) \<longrightarrow>
        phase_at hs h' (Awaiting ev' msg' d' ch) \<longrightarrow> h = h') \<and>
     (\<forall>c ch. map_of (sm_pending m) c = Some ch \<longrightarrow> sm_chans m ! ch = \<lparr>ch_buf = None, ch_closed = False\<rparr> \<and>
        (\<exists>h ev msg d. phase_at hs h (Awaiting ev msg d ch) \<and> m_CommandID d = c))"

definition in_loop :: "'r handler_phase \<Rightarrow> bool" where
  "in_loop p \<longleftrightarrow> (\<exists>i. p = In_session i)"

definition waiting :: "'r handler_phase \<Rightarrow> bool" where
  "waiting p \<longleftrightarrow> (\<exists>ev msg d ch. p = Awaiting ev msg d ch)"

lemma loop_same:
  "phase_at hs i p \<Longrightarrow> \<not> in_loop p \<Longrightarrow> \<not> in_loop q \<Longrightarrow> phase_at (hs[i := q]) h (In_session a) = phase_at hs h (In_session a)"
  by (cases "h = i") (auto simp: in_loop_def phase_at_def)

lemma waits_same:
  "phase_at hs i p \<Longrightarrow> \<not> waiting p \<Longrightarrow> \<not> waiting q \<Longrightarrow>
   phase_at (hs[i := q]) h (Awaiting ev msg d ch) = phase_at hs h (Awaiting ev msg d ch)"
  by (cases "h = i") (auto simp: waiting_def phase_at_def)

lemma sessions_move:
  "sessions_inv m hs \<Longrightarrow> sm_sessions m' = sm_sessions m \<Longrightarrow> sm_closed_conns m' = sm_closed_conns m \<Longrightarrow>
   phase_at hs i p \<Longrightarrow> \<not> in_loop p \<Longrightarrow> \<not> in_loop q \<Longrightarrow> sessions_inv m' (hs[i := q])"
  by (simp add: sessions_inv_def loop_same del: phase_at_update)

lemma sessions_stay:
  "sessions_inv m hs \<Longrightarrow> sm_sessions m' = sm_sessions m \<Longrightarrow> sm_closed_conns m' = sm_closed_conns m \<Longrightarrow> sessions_inv m' hs"
  by (simp add: sessions_inv_def)

lemma waits_move:
  "waits_inv m hs \<Longrightarrow> sm_pending m' = sm_pending m \<Longrightarrow> sm_chans m' = sm_chans m \<Longrightarrow>
   phase_at hs i p \<Longrightarrow> \<not> waiting p \<Longrightarrow> \<not> waiting q \<Longrightarrow> waits_inv m' (hs[i := q])"
  by (simp add: waits_inv_def waits_same del: phase_at_update)

lemma waits_stay:
  "waits_inv m hs \<Longrightarrow> sm_pending m' = sm_pending m \<Longrightarrow> sm_chans m' = sm_chans m \<Longrightarrow> waits_inv m' hs"
  by (simp add: waits_inv_def)

section \<open>Operations of the session manager\<close>

text \<open>The two halves of the invariant as rules.\<close>

lemma sessions_held:
  "sessions_inv m hs \<Longrightarrow> map_of (sm_sessions m) a = Some ses \<Longrightarrow>
   ss_conn ses = ss_ptr ses \<and> phase_at hs (ss_ptr ses) (In_session a)"
  by (simp add: sessions_inv_def)

lemma sessions_loop:
  "sessions_inv m hs \<Longrightarrow> phase_at hs h (In_session a) \<Longrightarrow>
   (\<exists>ses. map_of (sm_sessions m) a = Some ses \<and> ss_ptr ses = h) \<or> h \<in> set (sm_closed_conns m)"
  by (simp add: sessions_inv_def)

lemma enter_sessions:
  assumes inv: "sessions_inv m hs" and at: "phase_at hs i (Joining a)"
  shows "sessions_inv (sm_register a (newAgentSession i i) m) (hs[i := In_session a])"
proof -
  note held = sessions_held [OF inv] and loop = sessions_loop [OF inv]
  have other: "ss_ptr ses \<noteq> i" if "map_of (sm_sessions m) b = Some ses" for b ses
    using held [OF that] at by (auto simp: phase_at_def)
  let ?m = "sm_register a (newAgentSession i i) m"
  have table: "map_of (sm_sessions ?m) = (map_of (sm_sessions m))(a \<mapsto> (newAgentSession i i)\<lparr>ss_id := a\<rparr>)"
    by (simp add: sm_register_def Let_def update_conv' split: option.split)
  have closed: "set (sm_closed_conns m) \<subseteq> set (sm_closed_conns ?m)"
    "map_of (sm_sessions m) a = Some ses \<Longrightarrow> ss_ptr ses \<in> set (sm_closed_conns ?m)" for ses
    using other [of a] held [of a]
    by (auto simp: sm_register_def Let_def newAgentSession_def split: option.split)
  show ?thesis unfolding sessions_inv_def table
  proof (intro conjI allI impI)
    fix h b
    assume "phase_at (hs[i := In_session a]) h (In_session b)"
    then show "(\<exists>ses. ((map_of (sm_sessions m))(a \<mapsto> (newAgentSession i i)\<lparr>ss_id := a\<rparr>)) b = Some ses \<and> ss_ptr ses = h) \<or>
        h \<in> set (sm_closed_conns ?m)"
      using loop [of h b] closed by (cases "h = i") (auto simp: newAgentSession_def)
  qed (use held other phase_bound [OF at] in \<open>auto simp: newAgentSession_def split: if_splits\<close>)
qed

lemma hang_up_sessions:
  assumes inv: "sessions_inv m hs" and at: "phase_at hs i (In_session a)"
  shows "sessions_inv (sm_unregister a (newAgentSession i i) m) (hs[i := Leaving a])"
proof -
  note held = sessions_held [OF inv] and loop = sessions_loop [OF inv]
  have own: "b = a" if "map_of (sm_sessions m) b = Some ses" "ss_ptr ses = i" for b ses
    using held [OF that(1)] phase_unique [OF at] that(2) by auto
  let ?m = "sm_unregister a (newAgentSession i i) m"
  have table: "map_of (sm_sessions ?m) b = Some ses \<longleftrightarrow> map_of (sm_sessions m) b = Some ses \<and> ss_ptr ses \<noteq> i" for b ses
    using own [of b ses]
    by (cases "map_of (sm_sessions m) a") (auto simp: sm_unregister_def newAgentSession_def delete_conv')
  have closed: "sm_closed_conns ?m = sm_closed_conns m"
    by (simp add: sm_unregister_def split: option.split)
  show ?thesis unfolding sessions_inv_def table closed
  proof (intro conjI allI impI)
    fix h b
    assume "phase_at (hs[i := Leaving a]) h (In_session b)"
    then have "phase_at hs h (In_session b)" "h \<noteq> i" by (auto split: if_splits)
    with loop [of h b]
    show "(\<exists>ses. (map_of (sm_sessions m) b = Some ses \<and> ss_ptr ses \<noteq> i) \<and> ss_ptr ses = h) \<or> h \<in> set (sm_closed_conns m)"
      by auto
  qed (use held in \<open>auto split: if_splits\<close>)
qed

lemma cancel_sessions [simp]:
  "sm_sessions (sm_cancelPending c m) = sm_sessions m" "sm_closed_conns (sm_cancelPending c m) = sm_closed_conns m"
  by (auto simp: sm_cancelPending_def sm_take_def sm_close_chan_def split: option.split prod.split)

lemma resolve_sessions:
  "sm_resolvePending msg m = Some (m', b) \<Longrightarrow> sm_sessions m' = sm_sessions m \<and> sm_closed_conns m' = sm_closed_conns m"
  by (auto simp: sm_resolvePending_def sm_take_def sm_close_chan_def sm_send_chan_def split: option.splits prod.splits if_splits)

lemma membership_pending [simp]:
  "sm_pending (sm_register a ses m) = sm_pending m" "sm_chans (sm_register a ses m) = sm_chans m"
  "sm_pending (sm_unregister a ses m) = sm_pending m" "sm_chans (sm_unregister a ses m) = sm_chans m"
  by (simp_all add: sm_register_def sm_unregister_def Let_def split: option.split)

section \<open>Operations on pending commands\<close>

lemma waits_pending:
  "waits_inv m hs \<Longrightarrow> map_of (sm_pending m) c = Some ch \<Longrightarrow>
   sm_chans m ! ch = \<lparr>ch_buf = None, ch_closed = False\<rparr> \<and> ch < length (sm_chans m) \<and>
   (\<exists>h ev msg d. phase_at hs h (Awaiting ev msg d ch) \<and> m_CommandID d = c)"
  unfolding waits_inv_def by blast

lemma waits_bound: "waits_inv m hs \<Longrightarrow> phase_at hs h (Awaiting ev msg d ch) \<Longrightarrow> ch < length (sm_chans m)"
  unfolding waits_inv_def by blast

lemma waits_own:
  "waits_inv m hs \<Longrightarrow> phase_at hs h (Awaiting ev msg d ch) \<Longrightarrow> phase_at hs h' (Awaiting ev' msg' d' ch) \<Longrightarrow> h = h'"
  unfolding waits_inv_def by blast

lemma pending_apart:
  assumes inv: "waits_inv m hs" and "map_of (sm_pending m) c = Some ch" and "map_of (sm_pending m) c' = Some ch"
  shows "c = c'"
proof -
  obtain h ev msg d h' ev' msg' d' where "phase_at hs h (Awaiting ev msg d ch)" "m_CommandID d = c"
    "phase_at hs h' (Awaiting ev' msg' d' ch)" "m_CommandID d' = c'"
    using waits_pending [OF inv assms(2)] waits_pending [OF inv assms(3)] by blast
  moreover from calculation have "h = h'" using waits_own [OF inv] by blast
  ultimately show ?thesis using phase_unique by fastforce
qed

text \<open>Taking a command out of the table leaves the others as they are, whatever is done to its channel.\<close>

lemma drop_pending:
  assumes inv: "waits_inv m hs" and ch: "map_of (sm_pending m) c = Some ch"
    and m': "sm_pending m' = AList.delete c (sm_pending m)" "sm_chans m' = (sm_chans m)[ch := x]"
  shows "waits_inv m' hs"
proof -
  have "sm_chans m' ! k = sm_chans m ! k" if "map_of (sm_pending m) b = Some k" "b \<noteq> c" for b k
    using that pending_apart [OF inv ch, of b] m'(2) by (cases "k = ch") auto
  with waits_pending [OF inv] waits_bound [OF inv] waits_own [OF inv] show ?thesis
    unfolding waits_inv_def m'(1) delete_conv' by (auto simp: m'(2))
qed

lemma resolve_waits:
  assumes inv: "waits_inv m hs" and r: "sm_resolvePending msg m = Some (m', b)"
  shows "waits_inv m' hs"
proof (cases "map_of (sm_pending m) (m_CommandID msg)")
  case None
  then show ?thesis using assms by (simp add: sm_resolvePending_def sm_take_def)
next
  case (Some ch)
  with waits_pending [OF inv Some] r show ?thesis
    by (intro drop_pending [OF inv Some])
      (auto simp: sm_resolvePending_def sm_take_def sm_send_chan_def sm_close_chan_def)
qed

lemma resolve_returns: "waits_inv m hs \<Longrightarrow> sm_resolvePending msg m \<noteq> None"
  using waits_pending [of m hs "m_CommandID msg"]
  by (auto simp: sm_resolvePending_def sm_take_def sm_send_chan_def split: option.split)

lemma cancel_waits:
  assumes inv: "waits_inv m hs"
  shows "waits_inv (sm_cancelPending c m) hs" and "map_of (sm_pending (sm_cancelPending c m)) = (map_of (sm_pending m))(c := None)"
proof -
  show "waits_inv (sm_cancelPending c m) hs"
  proof (cases "map_of (sm_pending m) c")
    case None
    then show ?thesis using inv by (simp add: sm_cancelPending_def sm_take_def)
  next
    case (Some ch)
    with waits_pending [OF inv Some] show ?thesis
      by (intro drop_pending [OF inv Some])
        (auto simp: sm_cancelPending_def sm_take_def sm_close_chan_def)
  qed
  show "map_of (sm_pending (sm_cancelPending c m)) = (map_of (sm_pending m))(c := None)"
    by (auto simp: sm_cancelPending_def sm_take_def sm_close_chan_def delete_conv' fun_eq_iff split: option.split)
qed

lemma register_waits:
  assumes inv: "waits_inv m hs" and at: "phase_at hs i Fresh"
    and r: "sm_registerPending (m_CommandID d) m = (m', ch)"
  shows "waits_inv m' (hs[i := Awaiting ev msg d ch])"
proof -
  have m': "ch = length (sm_chans m)" "sm_chans m' = sm_chans m @ [\<lparr>ch_buf = None, ch_closed = False\<rparr>]"
    "map_of (sm_pending m') = (map_of (sm_pending m))(m_CommandID d \<mapsto> ch)"
    using r by (auto simp: sm_registerPending_def Let_def update_conv')
  have old: "h = i \<and> k = ch \<or> h \<noteq> i \<and> phase_at hs h (Awaiting ev' msg' d' k) \<and> k < length (sm_chans m)"
    if "phase_at (hs[i := Awaiting ev msg d ch]) h (Awaiting ev' msg' d' k)" for h ev' msg' d' k
    using that waits_bound [OF inv] by (auto split: if_splits)
  show ?thesis unfolding waits_inv_def
  proof (intro conjI allI impI)
    fix h ev' msg' d' k
    assume "phase_at (hs[i := Awaiting ev msg d ch]) h (Awaiting ev' msg' d' k)"
    from old [OF this] show "k < length (sm_chans m')" using m' by auto
  next
    fix h h' ev1 ev2 msg1 msg2 d1 d2 k
    assume "phase_at (hs[i := Awaiting ev msg d ch]) h (Awaiting ev1 msg1 d1 k)"
      "phase_at (hs[i := Awaiting ev msg d ch]) h' (Awaiting ev2 msg2 d2 k)"
    from old [OF this(1)] old [OF this(2)] show "h = h'" using waits_own [OF inv] m'(1) by blast
  next
    fix c k
    assume k: "map_of (sm_pending m') c = Some k"
    show "sm_chans m' ! k = \<lparr>ch_buf = None, ch_closed = False\<rparr>"
      using k waits_pending [OF inv, of c k] m' by (auto simp: nth_append split: if_splits)
    show "\<exists>h ev' msg' d'. phase_at (hs[i := Awaiting ev msg d ch]) h (Awaiting ev' msg' d' k) \<and> m_CommandID d' = c"
    proof (cases "c = m_CommandID d")
      case True
      then show ?thesis using k m' phase_bound [OF at] by (intro exI [of _ i]) auto
    next
      case False
      then obtain h ev' msg' d' where h: "phase_at hs h (Awaiting ev' msg' d' k)" "m_CommandID d' = c"
        using k m' waits_pending [OF inv, of c k] by auto
      then have "h \<noteq> i" using phase_unique [OF at] by blast
      with h show ?thesis by (intro exI [of _ h] exI [of _ ev'] exI [of _ msg'] exI [of _ d']) simp
    qed
  qed
qed

text \<open>A handler may end its wait when its channel is not the one of a pending command.\<close>

lemma finish_waits:
  assumes inv: "waits_inv m hs" and at: "phase_at hs i (Awaiting ev msg d ch)"
    and free: "\<And>c. map_of (sm_pending m) c \<noteq> Some ch"
    and m': "sm_pending m' = sm_pending m" "sm_chans m' = (sm_chans m)[ch := x]"
  shows "waits_inv m' (hs[i := Finished])"
proof -
  have other: "phase_at (hs[i := Finished]) h (Awaiting ev' msg' d' k) \<longleftrightarrow> phase_at hs h (Awaiting ev' msg' d' k) \<and> h \<noteq> i"
    for h ev' msg' d' k using phase_bound [OF at] by auto
  show ?thesis unfolding waits_inv_def other
  proof (intro conjI allI impI)
    fix c k
    assume k: "map_of (sm_pending m') c = Some k"
    then have ne: "k \<noteq> ch" using free m' by auto
    obtain h ev' msg' d' where h: "phase_at hs h (Awaiting ev' msg' d' k)" "m_CommandID d' = c"
      using k m' waits_pending [OF inv, of c k] by auto
    with ne phase_unique [OF at] show "\<exists>h ev' msg' d'. (phase_at hs h (Awaiting ev' msg' d' k) \<and> h \<noteq> i) \<and> m_CommandID d' = c"
      by blast
    show "sm_chans m' ! k = \<lparr>ch_buf = None, ch_closed = False\<rparr>"
      using k m' ne waits_pending [OF inv, of c k] by auto
  qed (use waits_bound [OF inv] waits_own [OF inv] m' in auto)
qed

lemma only_own_pending:
  assumes inv: "waits_inv m hs" and at: "phase_at hs i (Awaiting ev msg d ch)" and "map_of (sm_pending m) c = Some ch"
  shows "c = m_CommandID d"
proof -
  obtain h ev' msg' d' where h: "phase_at hs h (Awaiting ev' msg' d' ch)" "m_CommandID d' = c"
    using waits_pending [OF inv assms(3)] by blast
  then have "h = i" using waits_own [OF inv] at by blast
  then show ?thesis using phase_unique [OF at] h by auto
qed

lemma give_up_waits:
  assumes inv: "waits_inv m hs" and at: "phase_at hs i (Awaiting ev msg d ch)"
  shows "waits_inv (sm_cancelPending (m_CommandID d) m) (hs[i := Finished])"
proof -
  let ?m = "sm_cancelPending (m_CommandID d) m"
  note c = cancel_waits [OF inv, of "m_CommandID d"]
  have "map_of (sm_pending ?m) c \<noteq> Some ch" for c
    using only_own_pending [OF inv at, of c] by (auto simp: c(2))
  from finish_waits [OF c(1) at this refl, of "sm_chans ?m ! ch"] show ?thesis by simp
qed

lemma answered_waits:
  assumes inv: "waits_inv m hs" and at: "phase_at hs i (Awaiting ev msg d ch)"
    and "sm_chans m ! ch \<noteq> \<lparr>ch_buf = None, ch_closed = False\<rparr>"
    and m': "sm_pending m' = sm_pending m" "sm_chans m' = (sm_chans m)[ch := x]"
  shows "waits_inv m' (hs[i := Finished])"
  using assms(3) waits_pending [OF inv] by (intro finish_waits [OF inv at _ m']) auto

section \<open>What a request does to the session manager\<close>

lemma plugins_sessions [simp]: "sv_sessions (fst (handle_plugins B ev msg s)) = sv_sessions s"
  by (cases "m_Type msg")
    (simp_all add: handle_plugins_def Let_def plugins_changed_def set_plugins_def split: sum.split)

lemma groups_sessions [simp]: "sv_sessions (fst (handle_groups B ev msg s)) = sv_sessions s"
  by (simp add: handle_groups_def Let_def set_groups_def split: mtype.split prod.split option.split)

lemma inventory_sessions [simp]:
  "sv_sessions (fst (handle_inventory B ev msg s)) = sv_sessions s"
  "sv_sessions (fst (handle_tags B msg s)) = sv_sessions s"
  by (simp_all add: handle_inventory_def handle_tags_def Let_def split: sum.split prod.split)

lemma switch_sessions:
  assumes "cli_dispatch B ev msg s = None"
  shows "sv_sessions (fst (handle_cli_switch B ev msg s)) = sv_sessions s"
proof -
  have "sv_sessions (fst (handle_exec B ev msg s)) = sv_sessions s" if "m_Type msg = CLIExec"
    using assms that by (simp add: cli_dispatch_def handle_exec_def split: sum.splits)
  moreover have "sv_sessions (fst (handle_ping ev msg s)) = sv_sessions s" if "m_Type msg = CLIPing"
    using assms that by (simp add: cli_dispatch_def handle_ping_def split: if_splits)
  moreover have "m_Type msg \<noteq> CLIAgentControl" using assms by (auto simp: cli_dispatch_def)
  ultimately show ?thesis by (simp add: handle_cli_switch_def)
qed

lemma cli_open_sessions:
  assumes "cli_open B ev msg s = (srv, r)"
  obtains (same) "r = None" "sv_sessions srv = sv_sessions s"
  | (failed) d :: message and m ch where "r = None" "sm_registerPending (m_CommandID d) (sv_sessions s) = (m, ch)"
      "sv_sessions srv = sm_cancelPending (m_CommandID d) m"
  | (waits) d :: message and m ch where "r = Some (d, ch)" "sm_registerPending (m_CommandID d) (sv_sessions s) = (m, ch)"
      "sv_sessions srv = m"
proof -
  obtain seen e where v: "verifyCLIMessage (lib_core B) (sv_adminSecret s) (ev_now ev) (ev_now_locked ev) msg (sv_seenNonces s) = (seen, e)"
    by fastforce
  let ?s = "s\<lparr>sv_seenNonces := seen\<rparr>"
  show thesis
  proof (cases e)
    case (Some x)
    with assms v show thesis by (intro same) (auto simp: cli_open_def)
  next
    case e: None
    show thesis
    proof (cases "cli_dispatch B ev msg ?s")
      case None
      with assms v e switch_sessions [OF None] show thesis by (intro same) (auto simp: cli_open_def Let_def)
    next
      case (Some d)
      obtain m ch where m: "sm_registerPending (m_CommandID d) (sv_sessions s) = (m, ch)" by fastforce
      from assms v e Some have b: "dispatch_begin ev (m_AgentID msg) d ?s = (srv, r)" by (simp add: cli_open_def Let_def)
      show thesis
      proof (cases "sm_get (m_AgentID msg) (sv_sessions s)")
        case None
        with b show thesis by (intro same) (auto simp: dispatch_begin_def)
      next
        case (Some ses)
        show thesis
        proof (cases "env_send (ev_dispatch ev)")
          case None
          with b Some m show thesis by (intro waits [of d ch m]) (auto simp: dispatch_begin_def)
        next
          case (Some x)
          with b \<open>sm_get _ _ = _\<close> m show thesis by (intro failed [of d m ch]) (auto simp: dispatch_begin_def)
        qed
      qed
    qed
  qed
qed

lemma control_update_sessions [simp]: "sv_sessions (control_update B now a st s) = sv_sessions s"
  by (simp add: control_update_def split: sum.split)

lemma cli_close_sessions:
  fixes s :: "'r server"
  defines "m \<equiv> sv_sessions s"
  obtains (cancel) "sv_sessions (cli_close B ev msg d ch s) = sm_cancelPending (m_CommandID d) m"
  | (answer) x where "sm_chans m ! ch \<noteq> \<lparr>ch_buf = None, ch_closed = False\<rparr>"
      "sv_sessions (cli_close B ev msg d ch s) = m\<lparr>sm_chans := (sm_chans m)[ch := x]\<rparr>"
proof (cases "env_timer (ev_dispatch ev) \<or> (ch_buf (sm_chans m ! ch) = None \<and> \<not> ch_closed (sm_chans m ! ch))")
  case True
  then show thesis by (intro cancel) (simp add: cli_close_def Let_def m_def)
next
  case False
  show thesis
  proof (cases "ch_buf (sm_chans m ! ch)")
    case None
    with False show thesis by (intro answer [of "sm_chans m ! ch"]) (auto simp: cli_close_def Let_def m_def)
  next
    case (Some resp)
    with False show thesis
      by (intro answer [of "(sm_chans m ! ch)\<lparr>ch_buf := None\<rparr>"]) (auto simp: cli_close_def Let_def m_def)
  qed
qed

lemma agent_message_sessions:
  assumes "handleAgentMessage B now a msg s = Some (srv, out)"
  shows "sv_sessions srv = sv_sessions s \<or> (\<exists>msg' b. sm_resolvePending msg' (sv_sessions s) = Some (sv_sessions srv, b))"
proof -
  have touch: "sv_sessions (touch_entry B now a f s) = sv_sessions s" for f
    by (simp add: touch_entry_def split: sum.split)
  have "sv_resolve m t = Some (srv, out) \<Longrightarrow> \<exists>b. sm_resolvePending m (sv_sessions t) = Some (sv_sessions srv, b)" for m t
    by (auto simp: sv_resolve_def)
  with assms touch show ?thesis
    by (cases "m_Type msg") (auto simp: handleAgentMessage_def Let_def split: if_splits, fastforce+)
qed

lemma other_sessions [simp]:
  "sv_sessions (agent_offline B now a s) = sv_sessions s" "sv_sessions (markOffline_tick B now s) = sv_sessions s"
  by (simp_all add: agent_offline_def markOffline_tick_def Let_def)

lemma agent_known_sessions: "agent_known B now a s = (srv, e) \<Longrightarrow> sv_sessions srv = sv_sessions s"
  by (auto simp: agent_known_def split: prod.splits)

section \<open>The invariant\<close>

definition run_inv :: "'r server_run \<Rightarrow> bool" where
  "run_inv s \<longleftrightarrow> sessions_inv (sv_sessions (run_server s)) (run_handlers s) \<and>
     waits_inv (sv_sessions (run_server s)) (run_handlers s)"

lemma at_phase_iff: "at_phase s i p = phase_at (run_handlers s) i p"
  by (simp add: at_phase_def phase_at_def)

lemma idle_move:
  assumes "run_inv s" and "at_phase s i p" and "\<not> in_loop p" "\<not> waiting p" "\<not> in_loop q" "\<not> waiting q"
    and "sv_sessions srv = sv_sessions (run_server s)"
  shows "run_inv (moves_to i q srv s)"
  using assms sessions_move [OF _ refl refl, of _ "run_handlers s" i p q]
    waits_move [OF _ refl refl, of _ "run_handlers s" i p q]
  by (simp add: run_inv_def moves_to_def at_phase_iff)

lemma idle_phases [simp]:
  "\<not> in_loop Fresh" "\<not> waiting Fresh" "\<not> in_loop Finished" "\<not> waiting Finished" "\<not> in_loop (Joining a)"
  "\<not> waiting (Joining a)" "\<not> in_loop (Leaving a)" "\<not> waiting (Leaving a)" "\<not> waiting (In_session a)"
  "\<not> in_loop (Awaiting ev msg d ch)"
  by (simp_all add: in_loop_def waiting_def)

lemma register_sessions:
  "sm_registerPending c m = (m', ch) \<Longrightarrow> sm_sessions m' = sm_sessions m \<and> sm_closed_conns m' = sm_closed_conns m"
  by (auto simp: sm_registerPending_def Let_def)

lemma open_inv:
  assumes inv: "run_inv s" and at: "at_phase s i Fresh" and o: "cli_open B ev msg (run_server s) = (srv, r)"
  shows "run_inv (moves_to i (case r of None \<Rightarrow> Finished | Some (d, ch) \<Rightarrow> Awaiting ev msg d ch) srv s)"
  using o
proof (cases rule: cli_open_sessions)
  case same
  then show ?thesis using idle_move [OF inv at] by simp
next
  case (failed d m ch)
  have at': "phase_at (run_handlers s) i Fresh" using at by (simp add: at_phase_iff)
  have inv': "sessions_inv (sv_sessions (run_server s)) (run_handlers s)" "waits_inv (sv_sessions (run_server s)) (run_handlers s)"
    using inv by (simp_all add: run_inv_def)
  have "waits_inv m ((run_handlers s)[i := Awaiting ev msg d ch])" by (rule register_waits [OF inv'(2) at' failed(2)])
  from give_up_waits [OF this, of i ev msg d ch] phase_bound [OF at']
  have "waits_inv (sv_sessions srv) ((run_handlers s)[i := Finished])" by (simp add: failed(3))
  moreover have "sessions_inv (sv_sessions srv) ((run_handlers s)[i := Finished])"
    using register_sessions [OF failed(2)] by (intro sessions_move [OF inv'(1) _ _ at']) (simp_all add: failed(3))
  ultimately show ?thesis by (simp add: failed(1) run_inv_def moves_to_def)
next
  case (waits d m ch)
  have at': "phase_at (run_handlers s) i Fresh" using at by (simp add: at_phase_iff)
  have inv': "sessions_inv (sv_sessions (run_server s)) (run_handlers s)" "waits_inv (sv_sessions (run_server s)) (run_handlers s)"
    using inv by (simp_all add: run_inv_def)
  have "waits_inv m ((run_handlers s)[i := Awaiting ev msg d ch])" by (rule register_waits [OF inv'(2) at' waits(2)])
  moreover have "sessions_inv m ((run_handlers s)[i := Awaiting ev msg d ch])"
    using register_sessions [OF waits(2)] by (intro sessions_move [OF inv'(1) _ _ at']) simp_all
  ultimately show ?thesis by (simp add: waits(1,3) run_inv_def moves_to_def)
qed

lemma close_inv:
  assumes inv: "run_inv s" and at: "at_phase s i (Awaiting ev msg d ch)"
  shows "run_inv (moves_to i Finished (cli_close B ev msg d ch (run_server s)) s)"
proof -
  let ?m = "sv_sessions (run_server s)" and ?srv = "cli_close B ev msg d ch (run_server s)"
  have at': "phase_at (run_handlers s) i (Awaiting ev msg d ch)" using at by (simp add: at_phase_iff)
  have inv': "sessions_inv ?m (run_handlers s)" "waits_inv ?m (run_handlers s)" using inv by (simp_all add: run_inv_def)
  have "sessions_inv (sv_sessions ?srv) ((run_handlers s)[i := Finished]) \<and> waits_inv (sv_sessions ?srv) ((run_handlers s)[i := Finished])"
  proof (cases rule: cli_close_sessions [of B ev msg d ch "run_server s"])
    case cancel
    then show ?thesis using give_up_waits [OF inv'(2) at'] sessions_move [OF inv'(1) _ _ at', of _ Finished] by simp
  next
    case (answer x)
    then show ?thesis
      using answered_waits [OF inv'(2) at', of _ x] sessions_move [OF inv'(1) _ _ at', of _ Finished] by simp
  qed
  then show ?thesis by (simp add: run_inv_def moves_to_def)
qed

lemma says_inv:
  assumes inv: "run_inv s" and at: "at_phase s i (In_session a)"
    and r: "handleAgentMessage B now a msg (run_server s) = Some (srv, out)"
  shows "run_inv (moves_to i (In_session a) srv s)"
proof -
  have hs: "(run_handlers s)[i := In_session a] = run_handlers s" using at by (metis at_phase_def list_update_id)
  have inv': "sessions_inv (sv_sessions (run_server s)) (run_handlers s)" "waits_inv (sv_sessions (run_server s)) (run_handlers s)"
    using inv by (simp_all add: run_inv_def)
  from agent_message_sessions [OF r]
  have "sessions_inv (sv_sessions srv) (run_handlers s) \<and> waits_inv (sv_sessions srv) (run_handlers s)"
  proof
    assume "\<exists>msg' b. sm_resolvePending msg' (sv_sessions (run_server s)) = Some (sv_sessions srv, b)"
    then obtain msg' b where "sm_resolvePending msg' (sv_sessions (run_server s)) = Some (sv_sessions srv, b)" by blast
    then show ?thesis using resolve_waits [OF inv'(2)] resolve_sessions sessions_stay [OF inv'(1)] by blast
  qed (use inv' in simp)
  then show ?thesis by (simp add: run_inv_def moves_to_def hs)
qed

lemma run_inv_step:
  assumes inv: "run_inv s" and step: "srv_step B s t"
  shows "run_inv t"
proof -
  have enters: "run_inv (moves_to i (In_session a) (agent_joins a (newAgentSession i i) (run_server s)) s)"
    if "at_phase s i (Joining a)" for i a
    using that inv enter_sessions [of "sv_sessions (run_server s)" "run_handlers s" i a]
      waits_move [of "sv_sessions (run_server s)" "run_handlers s" _ i "Joining a" "In_session a"]
    by (simp add: run_inv_def moves_to_def agent_joins_def at_phase_iff)
  have hangs: "run_inv (moves_to i (Leaving a) (session_gone a (newAgentSession i i) (run_server s)) s)"
    if "at_phase s i (In_session a)" for i a
    using that inv hang_up_sessions [of "sv_sessions (run_server s)" "run_handlers s" i a]
      waits_move [of "sv_sessions (run_server s)" "run_handlers s" _ i "In_session a" "Leaving a"]
    by (simp add: run_inv_def moves_to_def session_gone_def at_phase_iff)
  have fresh: "run_inv (s\<lparr>run_handlers := run_handlers s @ [Fresh]\<rparr>)"
    using inv by (simp add: run_inv_def sessions_inv_def waits_inv_def)
  from step show ?thesis
  proof cases
    case accept
    with fresh show ?thesis by simp
  next
    case (cli_done i ev msg srv)
    then show ?thesis using open_inv [OF inv, of i B ev msg srv None] by simp
  next
    case (cli_waits i ev msg srv d ch)
    then show ?thesis using open_inv [OF inv, of i B ev msg srv "Some (d, ch)"] by simp
  next
    case (cli_ends i ev msg d ch)
    then show ?thesis using close_inv [OF inv] by simp
  next
    case (agent_says i a now msg srv out)
    then show ?thesis using says_inv [OF inv] by blast
  next
    case (agent_enters i a)
    then show ?thesis using enters by simp
  next
    case (agent_hangs_up i a)
    then show ?thesis using hangs by simp
  qed (use inv idle_move [OF inv] agent_known_sessions in \<open>(fastforce simp: run_inv_def)+\<close>)
qed

lemma run_inv_reach:
  assumes "srv_reach B srv s" and "sv_sessions srv = newSessionManager"
  shows "run_inv s"
  using assms
proof (induction rule: srv_reach.induct)
  case reach_start
  then show ?case
    by (simp add: run_inv_def run_started_def sessions_inv_def waits_inv_def newSessionManager_def phase_at_def)
qed (blast intro: run_inv_step)

section \<open>The stores\<close>

lemma switch_stores:
  assumes "stores_ok B s" and "cli_dispatch B ev msg s = None"
  shows "stores_ok B (fst (handle_cli_switch B ev msg s))"
proof -
  have "fst (handle_exec B ev msg s) = s" if "m_Type msg = CLIExec"
    using assms(2) that by (simp add: cli_dispatch_def handle_exec_def split: sum.splits)
  moreover have "fst (handle_ping ev msg s) = s" if "m_Type msg = CLIPing"
    using assms(2) that by (simp add: cli_dispatch_def handle_ping_def split: if_splits)
  moreover have "m_Type msg \<noteq> CLIAgentControl" using assms(2) by (auto simp: cli_dispatch_def)
  ultimately show ?thesis
    using assms handle_plugins_stores [OF assms(1)] handle_groups_stores [OF assms(1)] handle_quiet_stores [OF assms(1)]
    by (simp add: handle_cli_switch_def)
qed

lemma open_stores:
  assumes "stores_ok B s" and "cli_open B ev msg s = (srv, r)"
  shows "stores_ok B srv"
proof -
  obtain seen e where v: "verifyCLIMessage (lib_core B) (sv_adminSecret s) (ev_now ev) (ev_now_locked ev) msg (sv_seenNonces s) = (seen, e)"
    by fastforce
  have seen: "stores_ok B (s\<lparr>sv_seenNonces := seen\<rparr>)" using assms(1) by (simp add: stores_ok_def)
  have "stores_ok B srv" if "dispatch_begin ev a d (s\<lparr>sv_seenNonces := seen\<rparr>) = (srv, r)" for a d
    using that assms(1) by (auto simp: dispatch_begin_def stores_ok_def split: option.splits prod.splits)
  then show ?thesis using assms(2) v seen switch_stores [OF seen]
    by (cases e) (auto simp: cli_open_def Let_def split: option.splits)
qed

lemma quiet_stores:
  "stores_ok B (cli_close B ev msg d ch s) = stores_ok B s"
  "stores_ok B (agent_joins a ses s) = stores_ok B s" "stores_ok B (session_gone a ses s) = stores_ok B s"
  "stores_ok B (agent_offline B now a s) = stores_ok B s" "stores_ok B (markOffline_tick B now s) = stores_ok B s"
  by (simp_all add: cli_close_def agent_joins_def session_gone_def agent_offline_def markOffline_tick_def Let_def
      stores_ok_def control_update_def split: option.split sum.split)

lemma known_stores: "agent_known B now a s = (srv, e) \<Longrightarrow> stores_ok B srv = stores_ok B s"
  by (auto simp: agent_known_def stores_ok_def split: prod.splits)

lemma says_stores: "handleAgentMessage B now a msg s = Some (srv, out) \<Longrightarrow> stores_ok B srv = stores_ok B s"
  by (cases "m_Type msg")
    (auto simp: handleAgentMessage_def touch_entry_def sv_resolve_def Let_def stores_ok_def split: if_splits sum.splits)

lemma stores_step:
  assumes "stores_ok B (run_server s)" and "srv_step B s t"
  shows "stores_ok B (run_server t)"
  using assms(2)
proof cases
  case (agent_says i a now msg srv out)
  then show ?thesis using says_stores [OF agent_says(3)] assms(1) by (simp add: moves_to_def)
qed (use assms(1) open_stores [OF assms(1)] in \<open>auto simp: moves_to_def quiet_stores dest: known_stores\<close>)

lemma stores_reach:
  assumes "srv_reach B srv s" and "stores_ok B srv"
  shows "stores_ok B (run_server s)"
  using assms by (induction rule: srv_reach.induct) (auto simp: run_started_def intro: stores_step)

lemma says_returns:
  assumes "waits_inv (sv_sessions s) hs"
  shows "handleAgentMessage B now a msg s \<noteq> None"
proof -
  have "sv_resolve msg' (s\<lparr>sv_registry := r\<rparr>) \<noteq> None" "sv_resolve msg' s \<noteq> None" for msg' r
    using resolve_returns [OF assms] by (simp_all add: sv_resolve_def)
  then show ?thesis
    by (cases "m_Type msg")
      (simp_all add: handleAgentMessage_def touch_entry_def Let_def del: not_None_eq split: sum.split)
qed

section \<open>Properties\<close>

text \<open>
  Property C19. Stores that are well-formed at the start, as newPluginStore and newGroupStore make
  them, stay so while the server runs, with any number of connections at once and any order of
  their steps: every plugin record is filed under its own name, holds only
  packages of that name that core.Validate has returned, whatever Validate does, and its active
  version is one of them; and the store of groups holds each group once, under a trimmed name that
  is not empty.
\<close>

theorem server_run_stores:
  assumes "srv_reach B srv s" and "ps_ok (lib_core B) (sv_plugins srv)" and "gs_ok (sv_groups srv)"
  shows "ps_ok (lib_core B) (sv_plugins (run_server s)) \<and> gs_ok (sv_groups (run_server s))"
  using stores_reach [OF assms(1)] assms(2,3) by (simp add: stores_ok_def)

text \<open>
  Property C18. One session for an agent: a handler that is in its loop for an agent and whose
  connection has not been closed is the one that the table of sessions names for that agent, so there
  is at most one; and the table names only handlers that are in their loop for that agent. No message of an agent blocks its handler. When all handlers have returned, both
  tables are empty.
\<close>

theorem server_run_sessions:
  assumes "srv_reach B srv s" and "sv_sessions srv = newSessionManager"
  defines "m \<equiv> sv_sessions (run_server s)"
  shows "(\<forall>h a. at_phase s h (In_session a) \<and> h \<notin> set (sm_closed_conns m) \<longrightarrow>
           (\<exists>ses. sm_get a m = Some ses \<and> ss_ptr ses = h)) \<and>
    (\<forall>h h' a. at_phase s h (In_session a) \<and> at_phase s h' (In_session a) \<and>
           h \<notin> set (sm_closed_conns m) \<and> h' \<notin> set (sm_closed_conns m) \<longrightarrow> h = h') \<and>
    (\<forall>a ses. sm_get a m = Some ses \<longrightarrow> at_phase s (ss_ptr ses) (In_session a)) \<and>
    (\<forall>now a msg. handleAgentMessage B now a msg (run_server s) \<noteq> None) \<and>
    (set (run_handlers s) \<subseteq> {Finished} \<longrightarrow> sm_sessions m = [] \<and> sm_pending m = [])"
proof -
  have "run_inv s" by (rule run_inv_reach [OF assms(1,2)])
  then have inv: "sessions_inv m (run_handlers s)" "waits_inv m (run_handlers s)" by (simp_all add: run_inv_def m_def)
  have "handleAgentMessage B now a msg (run_server s) \<noteq> None" for now a msg
    using says_returns inv(2) by (simp add: m_def)
  moreover have "sm_sessions m = [] \<and> sm_pending m = []" if "set (run_handlers s) \<subseteq> {Finished}"
  proof -
    have fin: "phase_at (run_handlers s) h p \<Longrightarrow> p = Finished" for h p
      using that by (metis nth_mem phase_at_def singletonD subsetD)
    have "map_of (sm_sessions m) a = None" for a
      using fin sessions_held [OF inv(1), of a] by (cases "map_of (sm_sessions m) a") auto
    moreover have "map_of (sm_pending m) c = None" for c
      using fin waits_pending [OF inv(2), of c] by (cases "map_of (sm_pending m) c") auto
    ultimately show ?thesis by (metis map_of_eq_empty_iff ext)
  qed
  moreover have "\<exists>ses. sm_get a m = Some ses \<and> ss_ptr ses = h"
    if "at_phase s h (In_session a)" "h \<notin> set (sm_closed_conns m)" for h a
    using sessions_loop [OF inv(1), of h a] that by (auto simp: at_phase_iff sm_get_def)
  moreover have "h = h'" if "at_phase s h (In_session a)" "at_phase s h' (In_session a)"
    "h \<notin> set (sm_closed_conns m)" "h' \<notin> set (sm_closed_conns m)" for h h' a
    using sessions_loop [OF inv(1), of h a] sessions_loop [OF inv(1), of h' a] that by (auto simp: at_phase_iff)
  moreover have "at_phase s (ss_ptr ses) (In_session a)" if "sm_get a m = Some ses" for a ses
    using sessions_held [OF inv(1)] that by (simp add: sm_get_def at_phase_iff)
  ultimately show ?thesis by blast
qed

text \<open>An agent connects and is in its session.\<close>

definition fresh_server :: "entry gomap server" where
  "fresh_server = sample_server\<lparr>sv_sessions := newSessionManager\<rparr>"

definition one_session :: "entry gomap server_run" where
  "one_session =
     moves_to 0 (In_session ''pc'')
       (agent_joins ''pc'' (newAgentSession 0 0) (fst (agent_known sample_bundle 0 (sample_entry ''pc'') fresh_server)))
       ((run_started fresh_server)\<lparr>run_handlers := [Fresh]\<rparr>)"

lemma sample_known: "snd (agent_known sample_bundle 0 (sample_entry ''pc'') fresh_server) = None"
  by (simp add: agent_known_def sample_registry_def split: prod.split)

lemma one_session_reach: "srv_reach sample_bundle fresh_server one_session"
proof -
  let ?s = "(run_started fresh_server)\<lparr>run_handlers := [Fresh]\<rparr>"
  let ?k = "fst (agent_known sample_bundle 0 (sample_entry ''pc'') fresh_server)"
  have k: "agent_known sample_bundle 0 (sample_entry ''pc'') fresh_server = (?k, None)"
    using sample_known by (metis prod.collapse)
  have "srv_reach sample_bundle fresh_server ?s"
    by (rule reach_step [OF reach_start]) (use accept [of "run_started fresh_server" sample_bundle] in \<open>simp add: run_started_def\<close>)
  then have "srv_reach sample_bundle fresh_server (moves_to 0 (Joining ''pc'') ?k ?s)"
    by (rule reach_step) (use agent_registers [of ?s 0 sample_bundle 0 "sample_entry ''pc''" ?k] k
        in \<open>simp add: run_started_def at_phase_def sample_entry_def\<close>)
  then show ?thesis unfolding one_session_def
    by (rule reach_step) (use agent_enters [of "moves_to 0 (Joining ''pc'') ?k ?s" 0 "''pc''" sample_bundle]
        in \<open>simp add: moves_to_def run_started_def at_phase_def\<close>)
qed

theorem server_run_sessions_witness:
  "\<exists>s ses. srv_reach sample_bundle fresh_server s \<and> sm_get ''pc'' (sv_sessions (run_server s)) = Some ses \<and>
     at_phase s (ss_ptr ses) (In_session ''pc'')"
proof -
  have "sv_sessions fresh_server = newSessionManager" by (simp add: fresh_server_def)
  note props = server_run_sessions [OF one_session_reach this]
  have "sv_sessions (fst (agent_known sample_bundle 0 (sample_entry ''pc'') fresh_server)) = newSessionManager"
    by (simp add: agent_known_sessions [OF prod.collapse [symmetric]] fresh_server_def)
  then have "sm_get ''pc'' (sv_sessions (run_server one_session)) = Some \<lparr>ss_ptr = 0, ss_id = ''pc'', ss_conn = 0\<rparr>"
    by (simp add: one_session_def moves_to_def agent_joins_def sm_get_def sm_register_def newSessionManager_def newAgentSession_def)
  with props one_session_reach show ?thesis by blast
qed

theorem server_run_stores_witness:
  "srv_reach sample_bundle fresh_server one_session \<and> ps_ok sample_lib (sv_plugins (run_server one_session)) \<and>
     gs_ok (sv_groups (run_server one_session))"
proof -
  from server_run_stores [OF one_session_reach] sample_stores_ok show ?thesis
    using one_session_reach by (simp add: stores_ok_def fresh_server_def)
qed

text \<open>
  acceptConnections returns on every error of Accept, although its code asks whether the server
  is stopping and answers no differently: after one error (too many open files, say) the server
  runs on, keeps its port and takes no connection any more.
\<close>

lemma accept_error_final: "srv_step B s t \<Longrightarrow> \<not> run_accepting s \<Longrightarrow>
  \<not> run_accepting t \<and> length (run_handlers t) = length (run_handlers s)"
  by (cases rule: srv_step.cases) (auto simp: moves_to_def)

lemma accept_error_deaf:
  "\<exists>s. srv_reach B srv s \<and> run_listening s \<and> \<not> run_quit s \<and> \<not> run_accepting s"
proof -
  have "srv_reach B srv ((run_started srv)\<lparr>run_accepting := False\<rparr>)"
    by (rule reach_step [OF reach_start accept_error]) (simp add: run_started_def)
  then show ?thesis by (intro exI [of _ "(run_started srv)\<lparr>run_accepting := False\<rparr>"]) (simp add: run_started_def)
qed

end
