(* ===== verification/Whole_System.thy ===== *)
theory Whole_System
  imports Server_Run Agent_Laws "HOL-Library.Multiset"
begin

text \<open>
  One server, any number of agents, and whoever else connects: the steps of Server_Steps with the
  messages that are on the connections. Connection \<open>i\<close> of the server is the link \<open>i\<close>. An
  agent has at most one connection at a time; what is on a link is delivered in order or lost with
  what follows it. Everybody who is not one of the agents may send anything.
\<close>

section \<open>The state\<close>

datatype link_phase = Unacked | Served | Cut \<comment> \<open>the end of the agent\<close>

record link =
  lk_owner :: "nat option" \<comment> \<open>the agent that has dialled, None for anybody else\<close>
  lk_acked :: bool \<comment> \<open>the server has answered the registration\<close>
  lk_phase :: link_phase
  lk_down :: "message list" \<comment> \<open>from the server\<close>
  lk_up :: "message list"

text \<open>
  The last two components only record: the requests with the messages that were dispatched for
  them, and the commands that agents have handled with what they answered.
\<close>

record ('r, 'st) system =
  sy_run :: "'r server_run"
  sy_agents :: "'st agent_service list"
  sy_links :: "link list"
  sy_asked :: "(message \<times> message) list"
  sy_handled :: "(nat \<times> message \<times> message list) list"

definition agent_id :: "'st agent_service \<Rightarrow> string" where
  "agent_id a = ca_ID (as_agent a)"

definition sy_ids :: "('r, 'st) system \<Rightarrow> string list" where
  "sy_ids s = map agent_id (sy_agents s)"

definition is_command :: "message \<Rightarrow> bool" where
  "is_command m \<longleftrightarrow> m_Type m \<in> {ServerExec, ServerControl, ServerPing}"

definition system_start :: "'r server \<Rightarrow> 'st agent_service list \<Rightarrow> ('r, 'st) system" where
  "system_start srv agents =
     \<lparr>sy_run = run_started srv, sy_agents = agents, sy_links = [], sy_asked = [], sy_handled = []\<rparr>"

definition new_link :: "nat option \<Rightarrow> message list \<Rightarrow> link" where
  "new_link k up = \<lparr>lk_owner = k, lk_acked = False, lk_phase = Unacked, lk_down = [], lk_up = up\<rparr>"

definition on_link :: "nat \<Rightarrow> (link \<Rightarrow> link) \<Rightarrow> ('r, 'st) system \<Rightarrow> ('r, 'st) system" where
  "on_link i f s = s\<lparr>sy_links := (sy_links s)[i := f (sy_links s ! i)]\<rparr>"

definition link_at :: "('r, 'st) system \<Rightarrow> nat \<Rightarrow> link \<Rightarrow> bool" where
  "link_at s i l \<longleftrightarrow> i < length (sy_links s) \<and> sy_links s ! i = l"

definition down :: "message list \<Rightarrow> link \<Rightarrow> link" where
  "down ms l = l\<lparr>lk_down := lk_down l @ ms\<rparr>"

definition up :: "message list \<Rightarrow> link \<Rightarrow> link" where
  "up ms l = l\<lparr>lk_up := lk_up l @ ms\<rparr>"

text \<open>The handler of a link reads the next message of an agent, or anything that somebody else sends.\<close>

definition arrives :: "message \<Rightarrow> link \<Rightarrow> bool" where
  "arrives m l \<longleftrightarrow> lk_owner l = None \<or> (\<exists>ms. lk_up l = m # ms)"

definition taken :: "link \<Rightarrow> link" where
  "taken l = l\<lparr>lk_up := tl (lk_up l)\<rparr>"

definition with_agent :: "nat \<Rightarrow> 'st agent_service \<Rightarrow> ('r, 'st) system \<Rightarrow> ('r, 'st) system" where
  "with_agent k a s = s\<lparr>sy_agents := (sy_agents s)[k := a]\<rparr>"

definition handler :: "nat \<Rightarrow> 'r handler_phase \<Rightarrow> 'r server \<Rightarrow> ('r, 'st) system \<Rightarrow> ('r, 'st) system" where
  "handler i p srv s = s\<lparr>sy_run := moves_to i p srv (sy_run s)\<rparr>"

definition connects :: "link \<Rightarrow> ('r, 'st) system \<Rightarrow> ('r, 'st) system" where
  "connects l s = s\<lparr>sy_run := (sy_run s)\<lparr>run_handlers := run_handlers (sy_run s) @ [Fresh]\<rparr>,
     sy_links := sy_links s @ [l]\<rparr>"

abbreviation phase :: "('r, 'st) system \<Rightarrow> nat \<Rightarrow> 'r handler_phase \<Rightarrow> bool" where
  "phase s \<equiv> at_phase (sy_run s)"

abbreviation srv_of :: "('r, 'st) system \<Rightarrow> 'r server" where
  "srv_of s \<equiv> run_server (sy_run s)"

definition registered_ok :: "instant \<Rightarrow> message \<Rightarrow> string \<Rightarrow> message" where
  "registered_ok now m agentID =
     (new_message ServerRegisterOK)\<lparr>m_RequestID := m_RequestID m, m_AgentID := agentID, m_Success := True,
        m_Timestamp := now\<rparr>"

text \<open>What an agent does with a message from its link, and what it leaves of its link.\<close>

definition agent_link :: "go_error option \<Rightarrow> effects \<Rightarrow> link \<Rightarrow> link" where
  "agent_link e ef l =
     l\<lparr>lk_down := tl (lk_down l), lk_up := lk_up l @ ef_sent ef, lk_phase := (if e = None then Served else Cut)\<rparr>"

definition agent_after :: "'st agent_service \<Rightarrow> go_error option \<Rightarrow> 'st agent_service" where
  "agent_after a e = (if e = None then a else clearConnection a)"

definition record_handled :: "nat \<Rightarrow> message \<Rightarrow> message list \<Rightarrow> ('r, 'st) system \<Rightarrow> ('r, 'st) system" where
  "record_handled k m rs s =
     (if is_command m then s\<lparr>sy_handled := sy_handled s @ [(k, m, rs)]\<rparr> else s)"

section \<open>The steps\<close>

text \<open>
  Dialling, Accept and the write of the registration are one step. A stranger may take part as an
  agent, which the server cannot know, only if \<open>strangers\<close> holds. In \<open>acks\<close> the server answers a
  registration after the session is in the table, as the code does.
\<close>

inductive sys_step ::
  "'r srv_lib \<Rightarrow> (mtype \<Rightarrow> string) \<Rightarrow> string \<Rightarrow> bool \<Rightarrow> ('r, 'st) system \<Rightarrow> ('r, 'st) system \<Rightarrow> bool"
  for B texts version strangers where
  dials: "k < length (sy_agents s) \<Longrightarrow> sy_agents s ! k = a \<Longrightarrow> \<not> as_online a \<Longrightarrow> \<not> as_quit a \<Longrightarrow>
    run_accepting (sy_run s) \<Longrightarrow> run_listening (sy_run s) \<Longrightarrow>
    sys_step B texts version strangers s (with_agent k (a\<lparr>as_online := True\<rparr>)
      (connects (new_link (Some k) [register_message version net (a\<lparr>as_online := True\<rparr>)]) s))"
| comes: "run_accepting (sy_run s) \<Longrightarrow> run_listening (sy_run s) \<Longrightarrow>
    sys_step B texts version strangers s (connects (new_link None []) s)"
| no_message: "phase s i Fresh \<Longrightarrow> sys_step B texts version strangers s (handler i Finished (srv_of s) s)"
| cli_done: "phase s i Fresh \<Longrightarrow> link_at s i l \<Longrightarrow> arrives msg l \<Longrightarrow> is_cli_type (m_Type msg) \<Longrightarrow>
    cli_open B ev msg (srv_of s) = (srv, None) \<Longrightarrow>
    sys_step B texts version strangers s (on_link i taken (handler i Finished srv s))"
| cli_asks: "phase s i Fresh \<Longrightarrow> link_at s i l \<Longrightarrow> arrives msg l \<Longrightarrow> is_cli_type (m_Type msg) \<Longrightarrow>
    cli_open B ev msg (srv_of s) = (srv, Some (d, ch)) \<Longrightarrow>
    sm_get (m_AgentID msg) (sv_sessions (srv_of s)) = Some ses \<Longrightarrow>
    sys_step B texts version strangers s ((on_link (ss_conn ses) (down [d]) (on_link i taken
      (handler i (Awaiting ev msg d ch) srv s)))\<lparr>sy_asked := sy_asked s @ [(msg, d)]\<rparr>)"
| cli_ends: "phase s i (Awaiting ev msg d ch) \<Longrightarrow>
    sys_step B texts version strangers s (handler i Finished (cli_close B ev msg d ch (srv_of s)) s)"
| refuses: "phase s i Fresh \<Longrightarrow> link_at s i l \<Longrightarrow> arrives m l \<Longrightarrow> m_Type m = AgentRegister \<Longrightarrow>
    m_Agent m = Some a \<Longrightarrow> agent_known B now a (srv_of s) = (srv, Some e) \<Longrightarrow>
    sys_step B texts version strangers s (on_link i (down [err_reply e] \<circ> taken) (handler i Finished srv s))"
| registers: "phase s i Fresh \<Longrightarrow> link_at s i l \<Longrightarrow> arrives m l \<Longrightarrow> m_Type m = AgentRegister \<Longrightarrow>
    m_Agent m = Some a \<Longrightarrow> lk_owner l \<noteq> None \<or> strangers \<Longrightarrow> agent_known B now a (srv_of s) = (srv, None) \<Longrightarrow>
    sys_step B texts version strangers s (on_link i taken (handler i (Joining (e_ID a)) srv s))"
| enters: "phase s i (Joining agentID) \<Longrightarrow>
    sys_step B texts version strangers s
      (handler i (In_session agentID) (agent_joins agentID (newAgentSession i i) (srv_of s)) s)"
| acks: "phase s i (In_session agentID) \<Longrightarrow> link_at s i l \<Longrightarrow> \<not> lk_acked l \<Longrightarrow>
    sys_step B texts version strangers s (on_link i (\<lambda>l. (down [registered_ok now m agentID] l)\<lparr>lk_acked := True\<rparr>) s)"
| hears: "phase s i (In_session agentID) \<Longrightarrow> link_at s i l \<Longrightarrow> lk_acked l \<Longrightarrow> arrives m l \<Longrightarrow>
    handleAgentMessage B now agentID m (srv_of s) = Some (srv, out) \<Longrightarrow>
    sys_step B texts version strangers s (on_link i (down out \<circ> taken) (handler i (In_session agentID) srv s))"
| hangs_up: "phase s i (In_session agentID) \<Longrightarrow>
    sys_step B texts version strangers s
      (handler i (Leaving agentID) (session_gone agentID (newAgentSession i i) (srv_of s)) s)"
| leaves: "phase s i (Leaving agentID) \<Longrightarrow>
    sys_step B texts version strangers s (handler i Finished (agent_offline B now agentID (srv_of s)) s)"
| accept_error: "run_accepting (sy_run s) \<Longrightarrow>
    sys_step B texts version strangers s (s\<lparr>sy_run := (sy_run s)\<lparr>run_accepting := False\<rparr>\<rparr>)"
| sweeps: "run_sweeping (sy_run s) \<Longrightarrow> sys_step B texts version strangers s
    (s\<lparr>sy_run := (sy_run s)\<lparr>run_server := markOffline_tick B now (srv_of s)\<rparr>\<rparr>)"
| sweep_returns: "run_sweeping (sy_run s) \<Longrightarrow> run_quit (sy_run s) \<Longrightarrow>
    sys_step B texts version strangers s (s\<lparr>sy_run := (sy_run s)\<lparr>run_sweeping := False\<rparr>\<rparr>)"
| stops: "sys_step B texts version strangers s (s\<lparr>sy_run := run_Stop (sy_run s)\<rparr>)"
| agent_acked: "link_at s i l \<Longrightarrow> lk_owner l = Some k \<Longrightarrow> lk_phase l = Unacked \<Longrightarrow> lk_down l = m # ms \<Longrightarrow>
    m_Type m = ServerRegisterOK \<Longrightarrow>
    sys_step B texts version strangers s (on_link i (\<lambda>l. l\<lparr>lk_down := tl (lk_down l), lk_phase := Served\<rparr>) s)"
| agent_turned_away: "link_at s i l \<Longrightarrow> lk_owner l = Some k \<Longrightarrow> lk_phase l = Unacked \<Longrightarrow> lk_down l = m # ms \<Longrightarrow>
    m_Type m \<noteq> ServerRegisterOK \<Longrightarrow>
    sys_step B texts version strangers s (with_agent k (clearConnection (sy_agents s ! k))
      (on_link i (\<lambda>l. l\<lparr>lk_down := tl (lk_down l), lk_phase := Cut\<rparr>) s))"
| agent_handles: "link_at s i l \<Longrightarrow> lk_owner l = Some k \<Longrightarrow> lk_phase l = Served \<Longrightarrow> lk_down l = m # ms \<Longrightarrow>
    handleServerMessage texts aev m (sy_agents s ! k) = ((a', e), ef) \<Longrightarrow>
    sys_step B texts version strangers s (record_handled k m (ef_sent ef)
      (with_agent k (agent_after a' e) (on_link i (agent_link e ef) s)))"
| agent_beats: "link_at s i l \<Longrightarrow> lk_owner l = Some k \<Longrightarrow> lk_phase l = Served \<Longrightarrow>
    sys_step B texts version strangers s (on_link i (up (heartbeat_tick aev hb (sy_agents s ! k))) s)"
| agent_drops: "link_at s i l \<Longrightarrow> lk_owner l = Some k \<Longrightarrow> lk_phase l \<noteq> Cut \<Longrightarrow>
    sys_step B texts version strangers s (with_agent k (clearConnection (sy_agents s ! k))
      (on_link i (\<lambda>l. l\<lparr>lk_phase := Cut\<rparr>) s))"
| agent_restarts: "k < length (sy_agents s) \<Longrightarrow> \<not> as_online (sy_agents s ! k) \<Longrightarrow> \<not> as_online a \<Longrightarrow>
    agent_id a = agent_id (sy_agents s ! k) \<Longrightarrow>
    sys_step B texts version strangers s (with_agent k a s)"
| loses: "link_at s i l \<Longrightarrow>
    sys_step B texts version strangers s (on_link i (\<lambda>l. l\<lparr>lk_down := take n (lk_down l), lk_up := take m (lk_up l)\<rparr>) s)"

inductive sys_reach ::
  "'r srv_lib \<Rightarrow> (mtype \<Rightarrow> string) \<Rightarrow> string \<Rightarrow> bool \<Rightarrow> 'r server \<Rightarrow> 'st agent_service list \<Rightarrow> ('r, 'st) system \<Rightarrow> bool"
  for B texts version strangers srv agents where
  sys_starts: "sys_reach B texts version strangers srv agents (system_start srv agents)"
| sys_steps: "sys_reach B texts version strangers srv agents s \<Longrightarrow> sys_step B texts version strangers s t \<Longrightarrow>
    sys_reach B texts version strangers srv agents t"

lemmas sys_defs = on_link_def with_agent_def handler_def connects_def record_handled_def

lemma run_of_simps [simp]:
  "sy_run (on_link i f s) = sy_run s" "sy_run (with_agent k a s) = sy_run s"
  "sy_run (record_handled k m rs s) = sy_run s" "sy_run (handler i p srv s) = moves_to i p srv (sy_run s)"
  "sy_run (connects l s) = (sy_run s)\<lparr>run_handlers := run_handlers (sy_run s) @ [Fresh]\<rparr>"
  by (simp_all add: sys_defs)

text \<open>The system refines the server: every step of it is one of the server or none.\<close>

lemma sys_step_server:
  assumes "sys_step B texts version strangers s t"
  shows "srv_step B (sy_run s) (sy_run t) \<or> sy_run t = sy_run s"
  using assms
proof cases
  case (hears i a l m now srv out)
  then show ?thesis using agent_says by (metis run_of_simps(1,4))
qed (use srv_step.intros in \<open>auto simp: o_def\<close>)

lemma sys_reach_server:
  assumes "sys_reach B texts version strangers srv agents s"
  shows "srv_reach B srv (sy_run s)"
  using assms
proof induction
  case sys_starts
  then show ?case by (simp add: system_start_def reach_start)
next
  case (sys_steps s t)
  then show ?case using sys_step_server reach_step by metis
qed

section \<open>What is on the links\<close>

lemma system_simps [simp]:
  "sy_links (on_link i f s) = (sy_links s)[i := f (sy_links s ! i)]" "sy_links (with_agent k a s) = sy_links s"
  "sy_links (record_handled k m rs s) = sy_links s" "sy_links (handler i p srv s) = sy_links s"
  "sy_links (connects l s) = sy_links s @ [l]"
  "sy_agents (on_link i f s) = sy_agents s" "sy_agents (with_agent k a s) = (sy_agents s)[k := a]"
  "sy_agents (record_handled k m rs s) = sy_agents s" "sy_agents (handler i p srv s) = sy_agents s"
  "sy_agents (connects l s) = sy_agents s"
  "sy_asked (on_link i f s) = sy_asked s" "sy_asked (with_agent k a s) = sy_asked s"
  "sy_asked (record_handled k m rs s) = sy_asked s" "sy_asked (handler i p srv s) = sy_asked s"
  "sy_asked (connects l s) = sy_asked s"
  "sy_handled (on_link i f s) = sy_handled s" "sy_handled (with_agent k a s) = sy_handled s"
  "sy_handled (record_handled k m rs s) = sy_handled s @ (if is_command m then [(k, m, rs)] else [])"
  "sy_handled (handler i p srv s) = sy_handled s" "sy_handled (connects l s) = sy_handled s"
  by (simp_all add: sys_defs)

lemma moves_simps [simp]:
  "run_handlers (moves_to i p srv r) = (run_handlers r)[i := p]" "run_server (moves_to i p srv r) = srv"
  by (simp_all add: moves_to_def)

lemma link_simps [simp]:
  "lk_owner (down ms l) = lk_owner l" "lk_up (down ms l) = lk_up l" "lk_down (down ms l) = lk_down l @ ms"
  "lk_owner (up ms l) = lk_owner l" "lk_up (up ms l) = lk_up l @ ms" "lk_down (up ms l) = lk_down l"
  "lk_owner (taken l) = lk_owner l" "lk_up (taken l) = tl (lk_up l)" "lk_down (taken l) = lk_down l"
  "lk_owner (agent_link e ef l) = lk_owner l" "lk_up (agent_link e ef l) = lk_up l @ ef_sent ef"
  "lk_down (agent_link e ef l) = tl (lk_down l)"
  "lk_owner (new_link k ms) = k" "lk_up (new_link k ms) = ms" "lk_down (new_link k ms) = []"
  by (simp_all add: down_def up_def taken_def agent_link_def new_link_def)

lemma agent_id_simps [simp]:
  "agent_id (clearConnection a) = agent_id a" "agent_id (a\<lparr>as_online := b\<rparr>) = agent_id a"
  "agent_id (agent_after a e) = agent_id a"
  by (simp_all add: agent_id_def clearConnection_def agent_after_def)

lemma setFrozen_id [simp]: "agent_id (setFrozen v a) = agent_id a"
  by (simp add: agent_id_def setFrozen_def)

lemma control_id: "agent_id (fst (fst (handleControlMessage ev m a))) = agent_id a"
  unfolding handleControlMessage_def Let_def
  by (simp only: send_reply_simps send_then_exit_simps setFrozen_id split: if_split) simp

lemma exec_id: "agent_id (fst (fst (handle_server_exec ev m a))) = agent_id a"
proof -
  have "agent_id (a\<lparr>as_agent := fst (ExecuteCommand now c as (as_agent a) st), as_shell := st'\<rparr>) = agent_id a" for now c as st st'
    by (simp add: agent_id_def ExecuteCommand_def split: prod.split)
  then show ?thesis
    unfolding handle_server_exec_def Let_def case_prod_beta by (simp only: send_reply_simps split: if_split) simp
qed

lemma handle_id:
  assumes "handleServerMessage texts aev m a = ((a', e), ef)"
  shows "agent_id a' = agent_id a"
proof -
  have "agent_id (fst (fst (handleServerMessage texts aev m a))) = agent_id a"
    by (cases "m_Type m") (simp_all add: handleServerMessage_def control_id exec_id)
  then show ?thesis by (simp add: assms)
qed

lemma same_ids: "k < length as \<Longrightarrow> agent_id a = agent_id (as ! k) \<Longrightarrow> map agent_id (as[k := a]) = map agent_id as"
  by (metis list_update_id map_update)

lemma put_agent: "agent_id a = agent_id (sy_agents s ! k) \<Longrightarrow> sy_ids (with_agent k a s) = sy_ids s"
  by (cases "k < length (sy_agents s)") (simp_all add: sy_ids_def same_ids list_update_beyond)

lemma ids_simps [simp]:
  "sy_ids (on_link i f s) = sy_ids s" "sy_ids (record_handled k m rs s) = sy_ids s"
  "sy_ids (handler i p srv s) = sy_ids s" "sy_ids (connects l s) = sy_ids s" "sy_ids (s\<lparr>sy_run := r\<rparr>) = sy_ids s"
  "sy_ids (s\<lparr>sy_asked := qs\<rparr>) = sy_ids s"
  "length (sy_ids s) = length (sy_agents s)" "k < length (sy_agents s) \<Longrightarrow> sy_ids s ! k = agent_id (sy_agents s ! k)"
  by (simp_all add: sy_ids_def)

lemma ids_step:
  assumes "sys_step B texts version strangers s t"
  shows "sy_ids t = sy_ids s"
  using assms
proof cases
  case (agent_handles i l k m ms aev a' e ef)
  then show ?thesis using handle_id [OF agent_handles(6)] by (simp add: put_agent)
qed (simp_all add: put_agent)

section \<open>What agents say\<close>

definition is_answer :: "message \<Rightarrow> bool" where
  "is_answer m \<longleftrightarrow> m_Type m \<in> {AgentExecResult, ServerPingResult}"

text \<open>Every answer of an agent is one to a command, under its identifier.\<close>

definition answers :: "message \<Rightarrow> message list \<Rightarrow> bool" where
  "answers m rs \<longleftrightarrow> (\<forall>r \<in> set rs. is_command m \<and> is_answer r \<and> m_CommandID r = m_CommandID m)"

lemma answers_simps [simp]:
  "answers m []" "answers m [r] \<longleftrightarrow> is_command m \<and> is_answer r \<and> m_CommandID r = m_CommandID m"
  by (simp_all add: answers_def)

lemma reply_fields [simp]:
  "m_Type (agent_reply ev t msg a) = t" "m_CommandID (agent_reply ev t msg a) = m_CommandID msg"
  "m_Type (frozen_reply ev msg a) = AgentExecResult" "m_CommandID (frozen_reply ev msg a) = m_CommandID msg"
  "m_Type (exec_result_reply ev msg a r) = AgentExecResult" "m_CommandID (exec_result_reply ev msg a r) = m_CommandID msg"
  by (simp_all add: agent_reply_def frozen_reply_def exec_result_reply_def)

lemma control_answered: "m_Type m = ServerControl \<Longrightarrow> answers m (ef_sent (snd (handleControlMessage ev m a)))"
  unfolding handleControlMessage_def Let_def
  by (simp only: send_reply_simps send_then_exit_simps split: if_split) (simp add: is_command_def is_answer_def)

lemma exec_answered: "m_Type m = ServerExec \<Longrightarrow> answers m (ef_sent (snd (handle_server_exec ev m a)))"
  unfolding handle_server_exec_def Let_def case_prod_beta
  by (simp only: send_reply_simps split: if_split) (simp add: is_command_def is_answer_def)

lemma handle_answers:
  assumes "handleServerMessage texts aev m a = ((a', e), ef)"
  shows "answers m (ef_sent ef)"
proof -
  have "answers m (ef_sent (snd (handleServerMessage texts aev m a)))"
    by (cases "m_Type m")
      (simp_all add: handleServerMessage_def control_answered exec_answered is_command_def is_answer_def quiet_def)
  then show ?thesis by (simp add: assms)
qed

text \<open>What is on its way from agent \<open>k\<close>: a registration under its own identifier, or an answer it has given.\<close>

definition agent_said :: "string list \<Rightarrow> (nat \<times> message \<times> message list) set \<Rightarrow> nat \<Rightarrow> message \<Rightarrow> bool" where
  "agent_said ids H k m \<longleftrightarrow>
     (m_Type m = AgentRegister \<longrightarrow> (\<exists>e. m_Agent m = Some e \<and> e_ID e = ids ! k)) \<and>
     (is_answer m \<longrightarrow> (\<exists>d rs. (k, d, rs) \<in> H \<and> m \<in> set rs))"

lemma said_register [simp]:
  "agent_said ids H k (register_message version net a) \<longleftrightarrow> agent_id a = ids ! k"
  by (simp add: agent_said_def register_message_def is_answer_def agent_id_def)

lemma said_beat: "m \<in> set (heartbeat_tick aev hb a) \<Longrightarrow> agent_said ids H k m"
  by (auto simp: agent_said_def heartbeat_tick_def as_send_def is_answer_def split: if_splits)

lemma said_answer: "answers m rs \<Longrightarrow> (is_command m \<Longrightarrow> (k, m, rs) \<in> H) \<Longrightarrow> r \<in> set rs \<Longrightarrow> agent_said ids H k r"
  by (auto simp: answers_def agent_said_def is_answer_def)

lemma said_mono: "agent_said ids H k m \<Longrightarrow> H \<subseteq> H' \<Longrightarrow> agent_said ids H' k m"
  by (auto simp: agent_said_def)

section \<open>The invariant of the links\<close>

definition link_ok ::
  "string list \<Rightarrow> message set \<Rightarrow> (nat \<times> message \<times> message list) set \<Rightarrow> 'r handler_phase \<Rightarrow> link \<Rightarrow> bool" where
  "link_ok ids D H p l \<longleftrightarrow> (\<forall>k. lk_owner l = Some k \<longrightarrow> k < length ids \<and>
     (\<forall>m \<in> set (lk_up l). agent_said ids H k m) \<and>
     (\<forall>m \<in> set (lk_down l). is_command m \<longrightarrow> m \<in> D \<and> m_AgentID m = ids ! k) \<and>
     (\<forall>a. p = Joining a \<or> p = In_session a \<longrightarrow> a = ids ! k))"

definition links_ok ::
  "string list \<Rightarrow> message set \<Rightarrow> (nat \<times> message \<times> message list) set \<Rightarrow> 'r handler_phase list \<Rightarrow> link list \<Rightarrow> bool" where
  "links_ok ids D H hs ls \<longleftrightarrow> length ls = length hs \<and> (\<forall>i < length ls. link_ok ids D H (hs ! i) (ls ! i))"

lemma links_put: "links_ok ids D H hs ls \<Longrightarrow> link_ok ids D H p l \<Longrightarrow> links_ok ids D H (hs[i := p]) (ls[i := l])"
  by (cases "i < length ls") (auto simp: links_ok_def nth_list_update list_update_beyond)

lemma links_mono: "links_ok ids D H hs ls \<Longrightarrow> D \<subseteq> D' \<Longrightarrow> H \<subseteq> H' \<Longrightarrow> links_ok ids D' H' hs ls"
  by (fastforce simp: links_ok_def link_ok_def intro: said_mono)

lemma links_new: "links_ok ids D H hs ls \<Longrightarrow> link_ok ids D H (Fresh :: 'r handler_phase) l \<Longrightarrow> links_ok ids D H (hs @ [Fresh :: 'r handler_phase]) (ls @ [l])"
  by (auto simp: links_ok_def nth_append less_Suc_eq)

lemma links_at: "links_ok ids D H hs ls \<Longrightarrow> i < length ls \<Longrightarrow> link_ok ids D H (hs ! i) (ls ! i)"
  by (simp add: links_ok_def)

lemma links_handler:
  assumes "links_ok ids D H hs ls" and "\<And>a. p = Joining a \<or> p = In_session a \<Longrightarrow> i < length hs \<Longrightarrow> hs ! i = Joining a \<or> hs ! i = In_session a"
  shows "links_ok ids D H (hs[i := p]) ls"
  using assms by (cases "i < length hs") (fastforce simp: links_ok_def link_ok_def nth_list_update list_update_beyond)+

lemma links_link:
  assumes "links_ok ids D H hs ls" and "i < length ls \<Longrightarrow> link_ok ids D H (hs ! i) l"
  shows "links_ok ids D H hs (ls[i := l])"
  using assms by (cases "i < length ls") (auto simp: links_ok_def nth_list_update list_update_beyond)

lemma link_up_less: "link_ok ids D H p l \<Longrightarrow> lk_owner l' = lk_owner l \<Longrightarrow> set (lk_up l') \<subseteq> set (lk_up l) \<Longrightarrow>
    set (lk_down l') \<subseteq> set (lk_down l) \<Longrightarrow> link_ok ids D H p l'"
  by (fastforce simp: link_ok_def)

lemma set_tl: "set (tl xs) \<subseteq> set xs"
  by (cases xs) auto

lemma link_taken [simp]: "link_ok ids D H p l \<Longrightarrow> link_ok ids D H p (taken l)"
  by (erule link_up_less) (simp_all add: set_tl)

lemma link_down_plain: "link_ok ids D H p l \<Longrightarrow> \<forall>m \<in> set ms. \<not> is_command m \<Longrightarrow> link_ok ids D H p (down ms l)"
  by (auto simp: link_ok_def)

lemma link_calm: "link_ok ids D H q l \<Longrightarrow> \<forall>a. p \<noteq> Joining a \<and> p \<noteq> In_session a \<Longrightarrow> link_ok ids D H p l"
  by (simp add: link_ok_def)

lemma link_other [simp]: "lk_owner l = None \<Longrightarrow> link_ok ids D H p l"
  by (simp add: link_ok_def)

text \<open>What was asked for: a command for the agent that the request names, and the request is signed.\<close>

lemma dispatch_fields: "cli_dispatch B ev msg s = Some d \<Longrightarrow> is_command d \<and> m_AgentID d = m_AgentID msg"
  by (auto simp: cli_dispatch_def exec_request_def is_command_def Let_def
      split: mtype.splits if_splits option.splits sum.splits)

lemma cli_open_asked:
  assumes "cli_open B ev msg s = (srv, Some (d, ch))"
  shows "\<exists>seen. cli_dispatch B ev msg (s\<lparr>sv_seenNonces := seen\<rparr>) = Some d"
    and "compute_signature (lib_core B) msg (sv_adminSecret s) = Inr (m_AuthSignature msg)"
    and "is_command d" and "m_AgentID d = m_AgentID msg"
proof -
  obtain seen e where v: "verifyCLIMessage (lib_core B) (sv_adminSecret s) (ev_now ev) (ev_now_locked ev) msg (sv_seenNonces s) = (seen, e)"
    by fastforce
  with assms have e: "e = None" by (cases e) (simp_all add: cli_open_def)
  have "d' = d" if "dispatch_begin ev a d' x = (srv, Some (d, ch))" for a d' x
    using that by (auto simp: dispatch_begin_def split: option.splits prod.splits)
  with assms v e have d: "cli_dispatch B ev msg (s\<lparr>sv_seenNonces := seen\<rparr>) = Some d"
    by (auto simp: cli_open_def Let_def split: option.splits)
  then show "\<exists>seen. cli_dispatch B ev msg (s\<lparr>sv_seenNonces := seen\<rparr>) = Some d" by blast
  from dispatch_fields [OF d] show "is_command d" "m_AgentID d = m_AgentID msg" by simp_all
  show "compute_signature (lib_core B) msg (sv_adminSecret s) = Inr (m_AuthSignature msg)"
    using verify_unsigned v e by (metis Pair_inject option.distinct(1))
qed

abbreviation wires :: "('r, 'st) system \<Rightarrow> bool" where
  "wires s \<equiv> links_ok (sy_ids s) (snd ` set (sy_asked s)) (set (sy_handled s)) (run_handlers (sy_run s)) (sy_links s)"

lemma phase_nth: "at_phase r i p \<Longrightarrow> run_handlers r ! i = p \<and> i < length (run_handlers r)"
  by (simp add: at_phase_def)

lemma wires_put:
  assumes "wires s" and "phase s i q" and "link_ok (sy_ids s) (snd ` set (sy_asked s)) (set (sy_handled s)) q (sy_links s ! i) \<Longrightarrow>
    link_ok (sy_ids s) (snd ` set (sy_asked s)) (set (sy_handled s)) p (f (sy_links s ! i))"
  shows "wires (on_link i f (handler i p srv s))"
proof -
  have "i < length (sy_links s)" using assms(1,2) phase_nth by (fastforce simp: links_ok_def)
  with links_at [OF assms(1)] phase_nth [OF assms(2)]
  have "link_ok (sy_ids s) (snd ` set (sy_asked s)) (set (sy_handled s)) q (sy_links s ! i)" by fastforce
  from links_put [OF assms(1) assms(3) [OF this]] show ?thesis by simp
qed

lemma wires_handler:
  assumes "wires s" and "phase s i q" and "\<And>a. p = Joining a \<or> p = In_session a \<Longrightarrow> q = Joining a \<or> q = In_session a"
  shows "wires (handler i p srv s)"
  using links_handler [OF assms(1), of p i] assms(3) phase_nth [OF assms(2)] by simp

lemma wires_calm: "wires s \<Longrightarrow> phase s i q \<Longrightarrow> \<forall>a. p \<noteq> Joining a \<and> p \<noteq> In_session a \<Longrightarrow> wires (handler i p srv s)"
  by (rule wires_handler) auto

lemma wires_link:
  fixes s :: "('r, 'st) system"
  assumes "wires s" and "\<And>p :: 'r handler_phase. link_ok (sy_ids s) (snd ` set (sy_asked s)) (set (sy_handled s)) p (sy_links s ! i) \<Longrightarrow>
    link_ok (sy_ids s) (snd ` set (sy_asked s)) (set (sy_handled s)) p (f (sy_links s ! i))"
  shows "wires (on_link i f s)"
  using links_link [OF assms(1), of i] links_at [OF assms(1), of i] assms(2) by simp

lemma wires_asks:
  assumes inv: "wires s" "run_inv (sy_run s)" and at: "phase s i Fresh" and get: "sm_get a (sv_sessions (srv_of s)) = Some ses"
    and d: "m_AgentID d = a"
  shows "wires ((on_link (ss_conn ses) (down [d]) (on_link i taken (handler i (Awaiting ev msg d ch) srv s)))
    \<lparr>sy_asked := sy_asked s @ [(msg, d)]\<rparr>)"
proof -
  let ?c = "ss_conn ses" and ?s = "(on_link i taken (handler i (Awaiting ev msg d ch) srv s))\<lparr>sy_asked := sy_asked s @ [(msg, d)]\<rparr>"
  have c: "phase s ?c (In_session a)"
    using sessions_held [of "sv_sessions (srv_of s)" "run_handlers (sy_run s)" a ses] inv(2) get
    by (simp add: run_inv_def sm_get_def at_phase_iff)
  with at have ne: "?c \<noteq> i" by (auto simp: at_phase_def)
  have w0: "wires (on_link i taken (handler i (Awaiting ev msg d ch) srv s))"
    by (rule wires_put [OF inv(1) at], rule link_taken, erule link_calm) simp
  have "snd ` set (sy_asked s) \<subseteq> snd ` set (sy_asked s @ [(msg, d)])" by auto
  with w0 have w: "wires ?s" using links_mono [OF w0 _ subset_refl] by (simp add: sy_ids_def)
  have p: "run_handlers (sy_run ?s) ! ?c = In_session a" using c ne by (simp add: at_phase_def)
  have "wires (on_link ?c (down [d]) ?s)"
  proof -
    have "link_ok (sy_ids ?s) (snd ` set (sy_asked ?s)) (set (sy_handled ?s)) (run_handlers (sy_run ?s) ! ?c)
        (down [d] (sy_links ?s ! ?c))"
      if "?c < length (sy_links ?s)"
      using links_at [OF w that] d unfolding p by (auto simp: link_ok_def)
    then show ?thesis using links_link [OF w, of ?c] by (simp add: sy_ids_def)
  qed
  then show ?thesis by (simp add: on_link_def sy_ids_def)
qed

lemma said_first: "link_ok ids D H p l \<Longrightarrow> lk_owner l = Some k \<Longrightarrow> arrives m l \<Longrightarrow> agent_said ids H k m"
  by (auto simp: link_ok_def arrives_def)

lemma wires_handles:
  assumes inv: "wires s" and l: "link_at s i l" "lk_owner l = Some k"
    and h: "handleServerMessage texts aev m (sy_agents s ! k) = ((a', e), ef)"
  shows "wires (record_handled k m (ef_sent ef) (with_agent k (agent_after a' e) (on_link i (agent_link e ef) s)))"
proof -
  let ?H = "set (sy_handled s) \<union> (if is_command m then {(k, m, ef_sent ef)} else {})"
  let ?D = "snd ` set (sy_asked s)"
  have w: "links_ok (sy_ids s) ?D ?H (run_handlers (sy_run s)) (sy_links s)"
    by (rule links_mono [OF inv]) auto
  have i: "i < length (sy_links s)" "sy_links s ! i = l" using l(1) by (simp_all add: link_at_def)
  have "agent_said (sy_ids s) ?H k r" if "r \<in> set (ef_sent ef)" for r
    by (rule said_answer [OF handle_answers [OF h] _ that]) simp
  then have "link_ok (sy_ids s) ?D ?H (run_handlers (sy_run s) ! i) (agent_link e ef l)"
    using links_at [OF w i(1)] l(2) i(2) set_tl [of "lk_down l"] by (auto simp: link_ok_def)
  with links_link [OF w, of i] i(2) handle_id [OF h] show ?thesis
    by (simp add: put_agent split: if_splits)
qed

lemma wires_step:
  assumes inv: "wires s" "run_inv (sy_run s)" and step: "sys_step B texts version strangers s t"
  shows "wires t"
  using step
proof cases
  case (dials k a net)
  then show ?thesis
    using links_new [OF inv(1), of "new_link (Some k) [register_message version net (a\<lparr>as_online := True\<rparr>)]"]
    by (simp add: put_agent link_ok_def)
next
  case comes
  then show ?thesis using links_new [OF inv(1), of "new_link None []"] by simp
next
  case (cli_done i l msg ev srv)
  then show ?thesis by (simp only:) (rule wires_put [OF inv(1)], assumption, rule link_taken, erule link_calm, simp)
next
  case (cli_asks i l msg ev srv d ch ses)
  then show ?thesis using wires_asks [OF inv] cli_open_asked(4) by blast
next
  case (refuses i l m a now srv e)
  then show ?thesis
    by (simp only: o_def) (rule wires_put [OF inv(1)], assumption, rule link_down_plain, rule link_taken, erule link_calm,
      simp_all add: err_reply_def is_command_def)
next
  case (registers i l m a now srv)
  have "e_ID a = sy_ids s ! k" if "lk_owner l = Some k" "link_ok (sy_ids s) (snd ` set (sy_asked s)) (set (sy_handled s)) (Fresh :: 'a handler_phase) l" for k
    using said_first [OF that(2,1) registers(4)] registers(5,6) by (simp add: agent_said_def)
  then show ?thesis using registers
    by (simp only:) (rule wires_put [OF inv(1)], assumption, rule link_taken, auto simp: link_ok_def link_at_def)
next
  case (enters i a)
  then show ?thesis by (simp only:) (rule wires_handler [OF inv(1)], auto)
next
  case (acks i a l now m)
  then show ?thesis
    by (simp only:) (rule wires_link [OF inv(1)], auto simp: link_ok_def is_command_def registered_ok_def)
next
  case (hears i a l m now srv out)
  have "\<forall>m \<in> set out. \<not> is_command m"
    using hears(6) by (cases "m_Type m")
      (auto simp: handleAgentMessage_def sv_resolve_def err_reply_def is_command_def Let_def split: if_splits)
  with hears show ?thesis
    by (simp only: o_def) (rule wires_put [OF inv(1)], assumption, rule link_down_plain, rule link_taken, assumption+)
next
  case (agent_acked i l k m ms)
  then show ?thesis
    by (simp only:) (rule wires_link [OF inv(1)], erule link_up_less, simp_all add: set_tl)
next
  case (agent_turned_away i l k m ms)
  have "wires (on_link i (\<lambda>l. l\<lparr>lk_down := tl (lk_down l), lk_phase := Cut\<rparr>) s)"
    by (rule wires_link [OF inv(1)], erule link_up_less) (simp_all add: set_tl)
  with agent_turned_away show ?thesis by (simp add: put_agent)
next
  case (agent_handles i l k m ms aev a' e ef)
  then show ?thesis using wires_handles [OF inv(1)] by blast
next
  case (agent_beats i l k aev hb)
  then show ?thesis
    by (simp only:) (rule wires_link [OF inv(1)], auto simp: link_ok_def link_at_def said_beat)
next
  case (agent_drops i l k)
  have "wires (on_link i (\<lambda>l. l\<lparr>lk_phase := Cut\<rparr>) s)"
    by (rule wires_link [OF inv(1)], erule link_up_less) simp_all
  with agent_drops show ?thesis by (simp add: put_agent)
next
  case (loses i l n m)
  then show ?thesis
    by (simp only:) (rule wires_link [OF inv(1)], erule link_up_less, simp_all add: set_take_subset)
next
  case (no_message i)
  then show ?thesis by (simp only:) (rule wires_calm [OF inv(1)], assumption, simp)
next
  case (cli_ends i ev msg d ch)
  then show ?thesis by (simp only:) (rule wires_calm [OF inv(1)], assumption, simp)
next
  case (hangs_up i a)
  then show ?thesis by (simp only:) (rule wires_calm [OF inv(1)], assumption, simp)
next
  case (leaves i a now)
  then show ?thesis by (simp only:) (rule wires_calm [OF inv(1)], assumption, simp)
qed (use inv(1) in \<open>simp_all add: put_agent\<close>)

end
