(* ===== verification/Whole_Laws.thy ===== *)
theory Whole_Laws
  imports Whole_System
begin

text \<open>
  What holds of the system of Whole_System in every state: agents run only what signed requests
  have asked of them, and each command at most once; what comes back to a request is what the
  agent that it named has made of it.
\<close>

section \<open>Where commands come from\<close>

definition asked_ok :: "'r srv_lib \<Rightarrow> 'r server \<Rightarrow> ('r, 'st) system \<Rightarrow> bool" where
  "asked_ok B srv s \<longleftrightarrow> (\<forall>(msg, d) \<in> set (sy_asked s).
     \<exists>r ev x ch. srv_reach B srv r \<and> cli_open B ev msg (run_server r) = (x, Some (d, ch)))"

lemma asked_step:
  assumes "sys_reach B texts version strangers srv agents s" and "asked_ok B srv s" and "sys_step B texts version strangers s t"
  shows "asked_ok B srv t"
  using assms(3)
proof cases
  case (cli_asks i l msg ev x d ch ses)
  then show ?thesis using assms(2) sys_reach_server [OF assms(1)] by (auto simp: asked_ok_def)
qed (use assms(2) in \<open>simp_all add: asked_ok_def\<close>)

text \<open>What agent \<open>a\<close> makes of a command.\<close>

definition made_by :: "(mtype \<Rightarrow> string) \<Rightarrow> 'st agent_service \<Rightarrow> message \<Rightarrow> message list \<Rightarrow> bool" where
  "made_by texts a d rs \<longleftrightarrow> (\<exists>aev r ef. handleServerMessage texts aev d a = (r, ef) \<and> rs = ef_sent ef)"

definition handled_ok :: "(mtype \<Rightarrow> string) \<Rightarrow> ('r, 'st) system \<Rightarrow> bool" where
  "handled_ok texts s \<longleftrightarrow> (\<forall>(k, d, rs) \<in> set (sy_handled s). k < length (sy_agents s) \<and> is_command d \<and>
     m_AgentID d = sy_ids s ! k \<and> d \<in> snd ` set (sy_asked s) \<and>
     (\<exists>a :: 'st agent_service. agent_id a = sy_ids s ! k \<and> made_by texts a d rs))"

lemma handled_step:
  fixes s :: "('r, 'st) system"
  assumes inv: "handled_ok texts s" "wires s" and step: "sys_step B texts version strangers s t"
  shows "handled_ok texts t"
  using step
proof cases
  case (agent_handles i l k m ms aev a' e ef)
  have "link_ok (sy_ids s) (snd ` set (sy_asked s)) (set (sy_handled s)) (run_handlers (sy_run s) ! i) l"
    using links_at [OF inv(2), of i] agent_handles(2) by (simp add: link_at_def)
  with agent_handles(3,5) have "k < length (sy_agents s)"
    "is_command m \<Longrightarrow> m \<in> snd ` set (sy_asked s) \<and> m_AgentID m = sy_ids s ! k"
    by (simp_all add: link_ok_def)
  moreover from calculation(1) agent_handles(6)
  have "\<exists>a :: 'st agent_service. agent_id a = sy_ids s ! k \<and> made_by texts a m (ef_sent ef)"
    unfolding made_by_def by (intro exI [of _ "sy_agents s ! k"]) auto
  ultimately show ?thesis using inv(1) handle_id [OF agent_handles(6)] agent_handles(1)
    by (auto simp: handled_ok_def put_agent)
qed (use inv(1) in \<open>auto simp: handled_ok_def put_agent\<close>)

section \<open>At most once\<close>

definition cmds :: "link \<Rightarrow> message multiset" where
  "cmds l = filter_mset is_command (mset (lk_down l))"

definition flying :: "link list \<Rightarrow> message multiset" where
  "flying ls = sum_list (map cmds ls)"

lemma flying_simps [simp]: "flying [] = {#}" "flying (l # ls) = cmds l + flying ls" "flying (ls @ ls') = flying ls + flying ls'"
  by (simp_all add: flying_def)

lemma flying_put: "i < length ls \<Longrightarrow> flying (ls[i := l]) + cmds (ls ! i) = flying ls + cmds l"
proof (induction ls arbitrary: i)
  case (Cons x xs)
  then show ?case by (cases i) (simp_all add: ac_simps)
qed simp

lemma flying_less:
  assumes "i < length ls \<Longrightarrow> cmds l \<subseteq># cmds (ls ! i)"
  shows "flying (ls[i := l]) \<subseteq># flying ls"
proof (cases "i < length ls")
  case True
  have "flying (ls[i := l]) + cmds (ls ! i) \<subseteq># flying ls + cmds (ls ! i)"
    unfolding flying_put [OF True] using assms [OF True] by simp
  then show ?thesis by simp
qed (simp add: list_update_beyond)

lemma cmds_simps [simp]:
  "cmds (taken l) = cmds l" "cmds (up ms l) = cmds l" "cmds (down ms l) = cmds l + filter_mset is_command (mset ms)"
  "cmds (new_link k ms) = {#}" "cmds (agent_link e ef l) = filter_mset is_command (mset (tl (lk_down l)))"
  by (simp_all add: cmds_def)

definition once :: "('r, 'st) system \<Rightarrow> bool" where
  "once s \<longleftrightarrow> mset (map (fst \<circ> snd) (sy_handled s)) + flying (sy_links s) \<subseteq># mset (map snd (sy_asked s))"

lemma once_less:
  assumes "once s" and "sy_handled t = sy_handled s" and "sy_asked t = sy_asked s"
    and "flying (sy_links t) \<subseteq># flying (sy_links s)"
  shows "once t"
proof -
  have "mset (map (fst \<circ> snd) (sy_handled s)) + flying (sy_links t) \<subseteq># mset (map (fst \<circ> snd) (sy_handled s)) + flying (sy_links s)"
    using assms(4) by simp
  then show ?thesis using assms(1) unfolding once_def assms(2,3) by (rule subset_mset.order_trans)
qed

lemma once_link:
  assumes "once s" and "i < length (sy_links s) \<Longrightarrow> cmds (f (sy_links s ! i)) \<subseteq># cmds (sy_links s ! i)"
  shows "once (on_link i f s)"
  by (rule once_less [OF assms(1)]) (use flying_less [of i "sy_links s" "f (sy_links s ! i)"] assms(2) in simp_all)

lemma once_same: "once s \<Longrightarrow> once (handler i p srv s)" "once s \<Longrightarrow> once (with_agent k a s)"
    "once s \<Longrightarrow> once (connects (new_link own ms) s)" "once s \<Longrightarrow> once (s\<lparr>sy_run := r\<rparr>)"
  by (simp_all add: once_def)

lemma cmds_tl: "cmds (l\<lparr>lk_down := tl (lk_down l), lk_phase := p\<rparr>) \<subseteq># cmds l"
  by (cases "lk_down l") (simp_all add: cmds_def)

lemma cmds_take: "cmds (l\<lparr>lk_down := take n (lk_down l), lk_up := us\<rparr>) \<subseteq># cmds l"
proof -
  have "mset (take n (lk_down l)) \<subseteq># mset (lk_down l)"
    by (metis append_take_drop_id mset_append mset_subset_eq_add_left)
  then show ?thesis by (simp add: cmds_def multiset_filter_mono)
qed

lemma once_handles:
  assumes inv: "once s" and l: "link_at s i l" "lk_down l = m # ms"
  shows "once (record_handled k m rs (with_agent k a (on_link i (agent_link e ef) s)))"
proof -
  have i: "i < length (sy_links s)" "sy_links s ! i = l" using l(1) by (simp_all add: link_at_def)
  have "cmds l = cmds (agent_link e ef l) + (if is_command m then {#m#} else {#})" by (simp add: cmds_def l(2))
  with flying_put [OF i(1), of "agent_link e ef l"] i(2)
  have eq: "flying (sy_links s) = flying ((sy_links s)[i := agent_link e ef l]) + (if is_command m then {#m#} else {#})"
    by (simp add: ac_simps)
  show ?thesis using inv unfolding once_def eq by (cases "is_command m") (simp_all add: i(2))
qed

lemma once_asks:
  assumes inv: "once s" and d: "is_command d"
  shows "once ((on_link c (down [d]) (on_link i taken (handler i p srv s)))\<lparr>sy_asked := sy_asked s @ [(msg, d)]\<rparr>)"
proof -
  let ?ls = "(sy_links s)[i := taken (sy_links s ! i)]"
  have "flying (?ls[c := down [d] (?ls ! c)]) \<subseteq># flying ?ls + {#d#}"
  proof (cases "c < length ?ls")
    case True
    with flying_put [OF True, of "down [d] (?ls ! c)"] d show ?thesis by simp
  qed (simp add: list_update_beyond)
  moreover have "flying ?ls \<subseteq># flying (sy_links s)" by (rule flying_less) simp
  ultimately have "flying (?ls[c := down [d] (?ls ! c)]) \<subseteq># flying (sy_links s) + {#d#}"
    by (meson subset_mset.add_right_mono subset_mset.order_trans)
  then have "mset (map (fst \<circ> snd) (sy_handled s)) + flying (?ls[c := down [d] (?ls ! c)]) \<subseteq>#
      (mset (map (fst \<circ> snd) (sy_handled s)) + flying (sy_links s)) + {#d#}"
    by (simp add: add.assoc)
  also have "\<dots> \<subseteq># mset (map snd (sy_asked s)) + {#d#}" using inv by (simp add: once_def)
  finally show ?thesis by (simp add: once_def)
qed

lemma once_step:
  assumes inv: "once s" and step: "sys_step B texts version strangers s t"
  shows "once t"
  using step
proof cases
  case (cli_asks i l msg ev srv d ch ses)
  then show ?thesis using once_asks [OF inv] cli_open_asked(3) by blast
next
  case (agent_handles i l k m ms aev a' e ef)
  then show ?thesis using once_handles [OF inv] by blast
next
  case (hears i a l m now srv out)
  have "filter_mset is_command (mset out) = {#}"
    using hears(6) by (cases "m_Type m")
      (auto simp: handleAgentMessage_def sv_resolve_def err_reply_def is_command_def Let_def split: if_splits)
  with hears show ?thesis by (simp only:) (intro once_link once_same inv, simp)
next
  case (acks i a l now m)
  have "cmds ((down [registered_ok now m a] l)\<lparr>lk_acked := True\<rparr>) = cmds l" for l
    by (simp add: cmds_def registered_ok_def is_command_def)
  with acks show ?thesis by (simp only:) (intro once_link once_same inv, simp)
next
  case (refuses i l m a now srv e)
  then show ?thesis by (simp only:) (intro once_link once_same inv, simp add: err_reply_def is_command_def)
next
  case (agent_acked i l k m ms)
  then show ?thesis by (simp only:) (intro once_link once_same inv cmds_tl)
next
  case (agent_turned_away i l k m ms)
  then show ?thesis by (simp only:) (intro once_link once_same inv cmds_tl)
next
  case (agent_drops i l k)
  then show ?thesis by (simp only:) (intro once_link once_same inv, simp add: cmds_def)
next
  case (loses i l n m)
  then show ?thesis by (simp only:) (intro once_link once_same inv cmds_take)
qed (simp_all only:, (intro once_link once_same inv, simp?)+)

section \<open>What comes back\<close>

text \<open>An answer as the reader of the session of agent \<open>a\<close> completes it.\<close>

definition completed :: "string \<Rightarrow> message \<Rightarrow> message" where
  "completed a r = r\<lparr>m_AgentID := a, m_Success := (m_Error r = [])\<rparr>"

definition real_answer :: "string list \<Rightarrow> (nat \<times> message \<times> message list) set \<Rightarrow> message \<Rightarrow> message \<Rightarrow> bool" where
  "real_answer ids H d r \<longleftrightarrow> (\<exists>k d' rs r0. (k, d', rs) \<in> H \<and> r0 \<in> set rs \<and> m_CommandID d' = m_CommandID d \<and>
     r = completed (ids ! k) r0)"

definition waits_real ::
  "string list \<Rightarrow> (nat \<times> message \<times> message list) set \<Rightarrow> (message \<times> message) set \<Rightarrow> session_manager \<Rightarrow>
   'r handler_phase list \<Rightarrow> bool" where
  "waits_real ids H Q m hs \<longleftrightarrow> (\<forall>h ev msg d ch. phase_at hs h (Awaiting ev msg d ch) \<longrightarrow>
     (msg, d) \<in> Q \<and> (\<forall>r. ch_buf (sm_chans m ! ch) = Some r \<longrightarrow> real_answer ids H d r))"

lemma real_mono: "real_answer ids H d r \<Longrightarrow> H \<subseteq> H' \<Longrightarrow> real_answer ids H' d r"
  by (auto simp: real_answer_def)

lemma waits_real_mono: "waits_real ids H Q m hs \<Longrightarrow> H \<subseteq> H' \<Longrightarrow> Q \<subseteq> Q' \<Longrightarrow> waits_real ids H' Q' m hs"
  unfolding waits_real_def by (blast intro: real_mono)

lemma waits_real_move:
  assumes "waits_real ids H Q m hs" and "waits_inv m hs" and "\<not> waiting q"
    and "\<And>ch r. ch < length (sm_chans m) \<Longrightarrow> ch_buf (sm_chans m' ! ch) = Some r \<Longrightarrow> ch_buf (sm_chans m ! ch) = Some r"
  shows "waits_real ids H Q m' (hs[i := q])"
  unfolding waits_real_def
proof (intro allI impI)
  fix h ev msg d ch
  assume "phase_at (hs[i := q]) h (Awaiting ev msg d ch)"
  with assms(3) have old: "phase_at hs h (Awaiting ev msg d ch)" by (auto simp: waiting_def split: if_splits)
  with assms(1,4) waits_bound [OF assms(2) old]
  show "(msg, d) \<in> Q \<and> (\<forall>r. ch_buf (sm_chans m' ! ch) = Some r \<longrightarrow> real_answer ids H d r)"
    unfolding waits_real_def by blast
qed

lemma close_buf: "ch_buf (sm_chans (sm_close_chan k m) ! ch) = ch_buf (sm_chans m ! ch)"
  by (cases "k < length (sm_chans m)") (auto simp: sm_close_chan_def nth_list_update list_update_beyond)

lemma send_buf: "sm_send_chan k r m = Some m' \<Longrightarrow>
    ch_buf (sm_chans m' ! ch) = ch_buf (sm_chans m ! ch) \<or> k = ch \<and> ch_buf (sm_chans m' ! ch) = Some r"
  by (cases "k < length (sm_chans m)")
    (auto simp: sm_send_chan_def nth_list_update list_update_beyond split: if_splits option.splits)

lemma cancel_buf: "ch_buf (sm_chans (sm_cancelPending c m) ! ch) = ch_buf (sm_chans m ! ch)"
  by (simp add: sm_cancelPending_def sm_take_def close_buf split: option.split)

lemma register_buf:
  "sm_registerPending c m = (m', k) \<Longrightarrow> ch < length (sm_chans m) \<Longrightarrow> sm_chans m' ! ch = sm_chans m ! ch"
  by (auto simp: sm_registerPending_def Let_def nth_append)

lemma register_new:
  "sm_registerPending c m = (m', k) \<Longrightarrow> k = length (sm_chans m) \<and> ch_buf (sm_chans m' ! k) = None"
  by (auto simp: sm_registerPending_def Let_def)

lemma resolve_buf:
  assumes "sm_resolvePending r m = Some (m', b)"
  shows "ch_buf (sm_chans m' ! ch) = ch_buf (sm_chans m ! ch) \<or>
    map_of (sm_pending m) (m_CommandID r) = Some ch \<and> ch_buf (sm_chans m' ! ch) = Some r"
proof (cases "map_of (sm_pending m) (m_CommandID r)")
  case None
  then show ?thesis using assms by (simp add: sm_resolvePending_def sm_take_def)
next
  case (Some k)
  then obtain m2 where "sm_send_chan k r (m\<lparr>sm_pending := AList.delete (m_CommandID r) (sm_pending m)\<rparr>) = Some m2"
    "m' = sm_close_chan k m2"
    using assms by (auto simp: sm_resolvePending_def sm_take_def split: option.splits)
  with send_buf [OF this(1), of ch] Some show ?thesis by (auto simp: close_buf)
qed

lemma message_buf:
  assumes "handleAgentMessage B now a m s = Some (srv, out)"
  shows "ch_buf (sm_chans (sv_sessions srv) ! ch) = ch_buf (sm_chans (sv_sessions s) ! ch) \<or>
    is_answer m \<and> map_of (sm_pending (sv_sessions s)) (m_CommandID m) = Some ch \<and>
    ch_buf (sm_chans (sv_sessions srv) ! ch) = Some (completed a m)"
proof -
  have touch: "sv_sessions (touch_entry B now a f s) = sv_sessions s" for f
    by (simp add: touch_entry_def split: sum.split)
  have resolve: ?thesis if t: "sv_resolve (completed a m) t = Some (srv, out)" "sv_sessions t = sv_sessions s" "is_answer m" for t
  proof -
    obtain b where "sm_resolvePending (completed a m) (sv_sessions s) = Some (sv_sessions srv, b)"
      using t(1,2) by (auto simp: sv_resolve_def)
    from resolve_buf [OF this, of ch] t(3) show ?thesis by (auto simp: completed_def)
  qed
  show ?thesis
  proof (cases "is_answer m")
    case True
    then have "\<exists>t. sv_resolve (completed a m) t = Some (srv, out) \<and> sv_sessions t = sv_sessions s"
      using assms touch unfolding is_answer_def handleAgentMessage_def completed_def Let_def
      by (auto split: if_splits)
    then show ?thesis using resolve True by blast
  next
    case False
    then show ?thesis using assms touch
      by (cases "m_Type m") (auto simp: is_answer_def handleAgentMessage_def)
  qed
qed

text \<open>Without strangers among the agents, every session is the one of an agent's link.\<close>

definition agents_only :: "('r, 'st) system \<Rightarrow> bool" where
  "agents_only s \<longleftrightarrow> (\<forall>i a. phase s i (Joining a) \<or> phase s i (In_session a) \<longrightarrow> lk_owner (sy_links s ! i) \<noteq> None)"

abbreviation real_now :: "('r, 'st) system \<Rightarrow> bool" where
  "real_now s \<equiv> waits_real (sy_ids s) (set (sy_handled s)) (set (sy_asked s)) (sv_sessions (srv_of s)) (run_handlers (sy_run s))"

lemma real_move:
  assumes "real_now s" and "run_inv (sy_run s)" and "\<not> waiting q"
    and "\<And>ch r. ch_buf (sm_chans (sv_sessions srv) ! ch) = Some r \<Longrightarrow> ch < length (sm_chans (sv_sessions (srv_of s))) \<Longrightarrow>
      ch_buf (sm_chans (sv_sessions (srv_of s)) ! ch) = Some r"
  shows "real_now (handler i q srv s)"
  using waits_real_move [OF assms(1) _ assms(3), of "sv_sessions srv" i] assms(2,4) by (simp add: run_inv_def)

lemma real_asks:
  assumes inv: "real_now s" "run_inv (sy_run s)" and at: "phase s i Fresh"
    and r: "sm_registerPending c (sv_sessions (srv_of s)) = (sv_sessions srv, ch)"
  shows "real_now ((on_link x f (on_link i taken (handler i (Awaiting ev msg d ch) srv s)))\<lparr>sy_asked := sy_asked s @ [(msg, d)]\<rparr>)"
proof -
  let ?m = "sv_sessions (srv_of s)" and ?m' = "sv_sessions srv" and ?hs = "run_handlers (sy_run s)"
  have new: "ch = length (sm_chans ?m)" "ch_buf (sm_chans ?m' ! ch) = None"
    using register_new [OF r] by auto
  have "waits_real (sy_ids s) (set (sy_handled s)) (set (sy_asked s @ [(msg, d)])) ?m' (?hs[i := Awaiting ev msg d ch])"
    unfolding waits_real_def
  proof (intro allI impI)
    fix h ev' msg' d' k
    assume k: "phase_at (?hs[i := Awaiting ev msg d ch]) h (Awaiting ev' msg' d' k)"
    show "(msg', d') \<in> set (sy_asked s @ [(msg, d)]) \<and>
        (\<forall>r. ch_buf (sm_chans ?m' ! k) = Some r \<longrightarrow> real_answer (sy_ids s) (set (sy_handled s)) d' r)"
    proof (cases "h = i")
      case True
      with k new show ?thesis by simp
    next
      case False
      with k have old: "phase_at ?hs h (Awaiting ev' msg' d' k)" by simp
      have "k < length (sm_chans ?m)" using waits_bound [OF _ old] inv(2) by (simp add: run_inv_def)
      from register_buf [OF r this] old inv(1) show ?thesis unfolding waits_real_def by fastforce
    qed
  qed
  then show ?thesis by simp
qed

lemma handled_answers:
  fixes s :: "('r, 'st) system"
  assumes "handled_ok texts s" and "(k, d, rs) \<in> set (sy_handled s)"
  shows "answers d rs"
proof -
  obtain a :: "'st agent_service" where "made_by texts a d rs" using assms by (fastforce simp: handled_ok_def)
  then show ?thesis using handle_answers unfolding made_by_def by (metis surj_pair)
qed

lemma real_hears:
  assumes inv: "real_now s" "run_inv (sy_run s)" "wires s" "agents_only s" "handled_ok texts s"
    and at: "phase s i (In_session a)" and l: "link_at s i l" "arrives m l"
    and h: "handleAgentMessage B now a m (srv_of s) = Some (srv, out)"
  shows "real_now (handler i (In_session a) srv s)"
proof -
  let ?m = "sv_sessions (srv_of s)" and ?hs = "run_handlers (sy_run s)"
  have w: "waits_inv ?m ?hs" using inv(2) by (simp add: run_inv_def)
  obtain k where k: "lk_owner l = Some k" using inv(4) at l(1) by (auto simp: agents_only_def link_at_def)
  have ok: "link_ok (sy_ids s) (snd ` set (sy_asked s)) (set (sy_handled s)) (In_session a :: 'a handler_phase) l"
    using links_at [OF inv(3), of i] l(1) phase_nth [OF at] by (simp add: link_at_def)
  then have a: "a = sy_ids s ! k" using k by (simp add: link_ok_def)
  have "waits_real (sy_ids s) (set (sy_handled s)) (set (sy_asked s)) (sv_sessions srv) ?hs"
    unfolding waits_real_def
  proof (intro allI impI conjI)
    fix h' ev msg d ch r
    assume p: "phase_at ?hs h' (Awaiting ev msg d ch)"
    with inv(1) show "(msg, d) \<in> set (sy_asked s)" unfolding waits_real_def by blast
    assume r: "ch_buf (sm_chans (sv_sessions srv) ! ch) = Some r"
    show "real_answer (sy_ids s) (set (sy_handled s)) d r"
    proof (cases "ch_buf (sm_chans (sv_sessions srv) ! ch) = ch_buf (sm_chans ?m ! ch)")
      case True
      with inv(1) p r show ?thesis unfolding waits_real_def by fastforce
    next
      case False
      with message_buf [OF h, of ch] r have m: "is_answer m" "map_of (sm_pending ?m) (m_CommandID m) = Some ch" "r = completed a m"
        by auto
      from only_own_pending [OF w p m(2)] have id: "m_CommandID m = m_CommandID d" by simp
      from said_first [OF ok k l(2)] m(1) obtain d' rs where "(k, d', rs) \<in> set (sy_handled s)" "m \<in> set rs"
        by (auto simp: agent_said_def)
      moreover from handled_answers [OF inv(5) this(1)] this(2) have "m_CommandID m = m_CommandID d'"
        by (simp add: answers_def)
      ultimately show ?thesis using id m(3) a unfolding real_answer_def by metis
    qed
  qed
  moreover have "?hs[i := In_session a] = ?hs" using phase_nth [OF at] by (metis list_update_id)
  ultimately show ?thesis by simp
qed

lemma closed_step:
  assumes inv: "agents_only s" "wires s" and step: "sys_step B texts version False s t"
  shows "agents_only t"
proof -
  have len: "length (sy_links s) = length (run_handlers (sy_run s))" using inv(2) by (simp add: links_ok_def)
  have link: "agents_only (on_link i f s')" if "agents_only s'" "\<And>l. lk_owner (f l) = lk_owner l" for i f and s' :: "('a, 'b) system"
  proof -
    have "lk_owner ((sy_links s')[i := f (sy_links s' ! i)] ! j) = lk_owner (sy_links s' ! j)" for j
      using that(2) by (cases "i < length (sy_links s')") (auto simp: nth_list_update list_update_beyond)
    with that(1) show ?thesis by (simp add: agents_only_def)
  qed
  have move: "agents_only (handler i p srv s)" if "phase s i q" "\<And>a. p = Joining a \<or> p = In_session a \<Longrightarrow>
      (\<exists>b. q = Joining b \<or> q = In_session b) \<or> lk_owner (sy_links s ! i) \<noteq> None" for i p q srv
    using inv(1) that by (fastforce simp: agents_only_def at_phase_def nth_list_update)
  have same: "agents_only (with_agent k a s')" "agents_only (record_handled k m rs s')" "agents_only (s'\<lparr>sy_asked := qs\<rparr>)" if "agents_only s'"
    for k a m rs qs and s' :: "('a, 'b) system"
    using that by (simp_all add: agents_only_def)
  have new: "agents_only (connects l s)" for l
    using inv(1) len by (fastforce simp: agents_only_def at_phase_def nth_append split: if_splits)
  have calm: "agents_only (handler i p srv s)" if "phase s i q" "\<forall>a. p \<noteq> Joining a \<and> p \<noteq> In_session a" for i p q srv
    using move [OF that(1)] that(2) by blast
  from step show ?thesis
  proof cases
    case (registers i l m a now srv)
    then have "agents_only (handler i (Joining (e_ID a)) srv s)" using move [OF registers(2)] by (simp add: link_at_def)
    with registers link show ?thesis by simp
  next
    case (refuses i l m a now srv e)
    then show ?thesis by (simp only:) (rule link, rule calm, assumption, simp_all)
  next
    case (cli_done i l msg ev srv)
    then show ?thesis by (simp only:) (rule link, rule calm, assumption, simp_all)
  next
    case (cli_asks i l msg ev srv d ch ses)
    then show ?thesis by (simp only:) (rule same, rule link, rule link, rule calm, assumption, simp_all)
  next
    case (hears i a l m now srv out)
    then have "agents_only (handler i (In_session a) srv s)" using move [OF hears(2)] by blast
    with hears link show ?thesis by simp
  next
    case (enters i a)
    then show ?thesis using move [OF enters(2)] by blast
  next
    case (no_message i)
    then show ?thesis by (simp only:) (rule calm, assumption, simp)
  next
    case (cli_ends i ev msg d ch)
    then show ?thesis by (simp only:) (rule calm, assumption, simp)
  next
    case (hangs_up i a)
    then show ?thesis by (simp only:) (rule calm, assumption, simp)
  next
    case (leaves i a now)
    then show ?thesis by (simp only:) (rule calm, assumption, simp)
  qed (use inv(1) new same link in \<open>simp_all\<close>, simp_all add: agents_only_def at_phase_def)
qed

lemma real_link:
  assumes "real_now s"
  shows "real_now (on_link i f s)"
  using assms by simp

lemma real_calm:
  "real_now s \<Longrightarrow> run_inv (sy_run s) \<Longrightarrow> \<not> waiting q \<Longrightarrow> sv_sessions srv = sv_sessions (srv_of s) \<Longrightarrow> real_now (handler i q srv s)"
  by (rule real_move) simp_all

lemma open_buf:
  assumes "cli_open B ev msg s = (srv, None)" and "ch_buf (sm_chans (sv_sessions srv) ! ch) = Some r"
    and "ch < length (sm_chans (sv_sessions s))"
  shows "ch_buf (sm_chans (sv_sessions s) ! ch) = Some r"
  using assms(1)
proof (cases rule: cli_open_sessions)
  case (failed d m k)
  with assms(2) register_buf [OF failed(2) assms(3)] show ?thesis by (simp add: cancel_buf)
qed (use assms(2) in simp_all)

lemma close_server_buf:
  assumes "ch_buf (sm_chans (sv_sessions (cli_close B ev msg d k s)) ! ch) = Some r"
  shows "ch_buf (sm_chans (sv_sessions s) ! ch) = Some r"
proof -
  have "ch_buf ((xs[k := c\<lparr>ch_buf := None\<rparr>]) ! ch) = Some r \<Longrightarrow> ch_buf (xs ! ch) = Some r" for xs c
    by (cases "k < length xs") (auto simp: nth_list_update list_update_beyond split: if_splits)
  with assms show ?thesis by (auto simp: cli_close_def Let_def cancel_buf split: if_splits option.splits)
qed

lemma real_step:
  assumes inv: "real_now s" "run_inv (sy_run s)" "wires s" "agents_only s" "handled_ok texts s"
    and step: "sys_step B texts version strangers s t"
  shows "real_now t"
  using step
proof cases
  case (dials k a net)
  have "waits_real (sy_ids s) (set (sy_handled s)) (set (sy_asked s)) (sv_sessions (srv_of s)) (run_handlers (sy_run s) @ [Fresh])"
    using inv(1) by (simp add: waits_real_def)
  with dials show ?thesis by (simp add: put_agent)
next
  case comes
  then show ?thesis using inv(1) by (simp add: waits_real_def)
next
  case (cli_done i l msg ev srv)
  have "real_now (handler i Finished srv s)"
    by (rule real_move [OF inv(1,2)]) (simp, blast intro: open_buf [OF cli_done(6)])
  with cli_done show ?thesis by simp
next
  case (cli_asks i l msg ev srv d ch ses)
  from cli_asks(6) show ?thesis
  proof (cases rule: cli_open_sessions)
    case (waits d' m ch')
    then have "sm_registerPending (m_CommandID d) (sv_sessions (srv_of s)) = (sv_sessions srv, ch)" by simp
    with cli_asks(1,2) show ?thesis using real_asks [OF inv(1,2)] by blast
  qed simp_all
next
  case (cli_ends i ev msg d ch)
  have "real_now (handler i Finished (cli_close B ev msg d ch (srv_of s)) s)"
    by (rule real_move [OF inv(1,2)]) (simp, rule close_server_buf)
  with cli_ends show ?thesis by simp
next
  case (hears i a l m now srv out)
  from real_hears [OF inv hears(2,3,5,6)] have "real_now (handler i (In_session a) srv s)" .
  with hears show ?thesis by simp
next
  case (agent_handles i l k m ms aev a' e ef)
  have "waits_real (sy_ids s) (set (sy_handled s) \<union> (if is_command m then {(k, m, ef_sent ef)} else {})) (set (sy_asked s))
      (sv_sessions (srv_of s)) (run_handlers (sy_run s))"
    by (rule waits_real_mono [OF inv(1)]) simp_all
  with agent_handles handle_id [OF agent_handles(6)] show ?thesis by (simp add: put_agent split: if_splits)
next
  case (refuses i l m a now srv e)
  have "real_now (handler i Finished srv s)"
    by (rule real_calm [OF inv(1,2)]) (simp_all add: agent_known_sessions [OF refuses(7)])
  with refuses show ?thesis by simp
next
  case (registers i l m a now srv)
  have "real_now (handler i (Joining (e_ID a)) srv s)"
    by (rule real_calm [OF inv(1,2)]) (simp_all add: agent_known_sessions [OF registers(8)])
  with registers show ?thesis by simp
next
  case (no_message i)
  then show ?thesis using real_calm [OF inv(1,2)] by simp
next
  case (enters i a)
  have "real_now (handler i (In_session a) (agent_joins a (newAgentSession i i) (srv_of s)) s)"
    by (rule real_move [OF inv(1,2)]) (simp_all add: agent_joins_def)
  with enters show ?thesis by simp
next
  case (hangs_up i a)
  have "real_now (handler i (Leaving a) (session_gone a (newAgentSession i i) (srv_of s)) s)"
    by (rule real_move [OF inv(1,2)]) (simp_all add: session_gone_def)
  with hangs_up show ?thesis by simp
next
  case (leaves i a now)
  then show ?thesis using real_calm [OF inv(1,2)] by simp
qed (use inv(1) in \<open>simp_all add: put_agent\<close>)

section \<open>Every state\<close>

text \<open>The secret of the server does not change.\<close>

lemma quiet_secret:
  "sv_adminSecret (cli_close B ev msg d ch s) = sv_adminSecret s"
  "sv_adminSecret (agent_joins a ses s) = sv_adminSecret s" "sv_adminSecret (session_gone a ses s) = sv_adminSecret s"
  "sv_adminSecret (agent_offline B now a s) = sv_adminSecret s" "sv_adminSecret (markOffline_tick B now s) = sv_adminSecret s"
  by (simp_all add: cli_close_def agent_joins_def session_gone_def agent_offline_def markOffline_tick_def Let_def
      control_update_def split: option.split sum.split)

lemma known_secret: "agent_known B now a s = (srv, e) \<Longrightarrow> sv_adminSecret srv = sv_adminSecret s"
  by (auto simp: agent_known_def split: prod.splits)

lemma says_secret: "handleAgentMessage B now a msg s = Some (srv, out) \<Longrightarrow> sv_adminSecret srv = sv_adminSecret s"
  by (cases "m_Type msg")
    (auto simp: handleAgentMessage_def touch_entry_def sv_resolve_def Let_def split: if_splits sum.splits)

lemma switch_secret:
  assumes "cli_dispatch B ev msg s = None"
  shows "sv_adminSecret (fst (handle_cli_switch B ev msg s)) = sv_adminSecret s"
proof -
  have "fst (handle_exec B ev msg s) = s" if "m_Type msg = CLIExec"
    using assms that by (simp add: cli_dispatch_def handle_exec_def split: sum.splits)
  moreover have "fst (handle_ping ev msg s) = s" if "m_Type msg = CLIPing"
    using assms that by (simp add: cli_dispatch_def handle_ping_def split: if_splits)
  moreover have "m_Type msg \<noteq> CLIAgentControl" using assms by (auto simp: cli_dispatch_def)
  moreover have "sv_adminSecret (fst (handle_plugins B ev msg s)) = sv_adminSecret s"
    by (cases "m_Type msg")
      (simp_all add: handle_plugins_def Let_def plugins_changed_def set_plugins_def split: sum.split)
  moreover have "sv_adminSecret (fst (handle_groups B ev msg s)) = sv_adminSecret s"
    by (simp add: handle_groups_def Let_def set_groups_def split: mtype.split prod.split option.split)
  moreover have "sv_adminSecret (fst (handle_inventory B ev msg s)) = sv_adminSecret s"
    "sv_adminSecret (fst (handle_tags B msg s)) = sv_adminSecret s"
    by (simp_all add: handle_inventory_def handle_tags_def Let_def split: sum.split prod.split)
  ultimately show ?thesis by (simp add: handle_cli_switch_def)
qed

lemma open_secret:
  assumes "cli_open B ev msg s = (srv, r)"
  shows "sv_adminSecret srv = sv_adminSecret s"
proof -
  obtain seen e where v: "verifyCLIMessage (lib_core B) (sv_adminSecret s) (ev_now ev) (ev_now_locked ev) msg (sv_seenNonces s) = (seen, e)"
    by fastforce
  have "sv_adminSecret srv = sv_adminSecret s" if "dispatch_begin ev a d (s\<lparr>sv_seenNonces := seen\<rparr>) = (srv, r)" for a d
    using that by (auto simp: dispatch_begin_def split: option.splits prod.splits)
  then show ?thesis using assms v switch_secret [of B ev msg "s\<lparr>sv_seenNonces := seen\<rparr>"]
    by (cases e) (auto simp: cli_open_def Let_def split: option.splits)
qed

lemma secret_reach: "srv_reach B srv s \<Longrightarrow> sv_adminSecret (run_server s) = sv_adminSecret srv"
proof (induction rule: srv_reach.induct)
  case (reach_step s t)
  from reach_step(2) show ?case
  proof cases
    case (agent_says i a now msg srv out)
    then show ?thesis using says_secret [OF agent_says(3)] reach_step(3) by simp
  qed (use reach_step(3) in \<open>auto simp: quiet_secret dest: open_secret known_secret\<close>)
qed (simp add: run_started_def)

lemma sys_inv:
  assumes "sys_reach B texts version strangers srv agents s" and "sv_sessions srv = newSessionManager"
  shows "run_inv (sy_run s) \<and> wires s \<and> asked_ok B srv s \<and> handled_ok texts s \<and> once s \<and> sy_ids s = map agent_id agents"
  using assms(1)
proof induction
  case sys_starts
  have "run_inv (sy_run (system_start srv agents))"
    by (rule run_inv_reach [OF sys_reach_server [OF sys_reach.sys_starts] assms(2)])
  then show ?case
    by (simp add: system_start_def links_ok_def asked_ok_def handled_ok_def once_def sy_ids_def run_started_def)
next
  case (sys_steps s t)
  have "sys_reach B texts version strangers srv agents t" by (rule sys_reach.sys_steps [OF sys_steps(1,2)])
  then have "run_inv (sy_run t)" using run_inv_reach [OF sys_reach_server] assms(2) by blast
  with sys_steps show ?case
    using wires_step asked_step handled_step once_step ids_step by metis
qed

lemma sys_real:
  assumes "sys_reach B texts version False srv agents s" and "sv_sessions srv = newSessionManager"
  shows "agents_only s \<and> real_now s"
  using assms(1)
proof induction
  case sys_starts
  then show ?case by (simp add: system_start_def run_started_def agents_only_def at_phase_def waits_real_def phase_at_def)
next
  case (sys_steps s t)
  from sys_inv [OF sys_steps(1) assms(2)] have "run_inv (sy_run s)" "wires s" "handled_ok texts s" by blast+
  with sys_steps show ?case using closed_step real_step by blast
qed

section \<open>A run\<close>

text \<open>States with their parts, so that the steps below compute.\<close>

definition parts ::
  "'r handler_phase list \<Rightarrow> 'r server \<Rightarrow> link list \<Rightarrow> 'st agent_service list \<Rightarrow> (message \<times> message) list \<Rightarrow>
   (nat \<times> message \<times> message list) list \<Rightarrow> ('r, 'st) system" where
  "parts hs srv ls as Q H = \<lparr>sy_run = (run_started srv)\<lparr>run_handlers := hs\<rparr>, sy_agents = as, sy_links = ls,
     sy_asked = Q, sy_handled = H\<rparr>"

lemma parts_simps [simp]:
  "on_link i f (parts hs srv ls as Q H) = parts hs srv (ls[i := f (ls ! i)]) as Q H"
  "with_agent k a (parts hs srv ls as Q H) = parts hs srv ls (as[k := a]) Q H"
  "handler i p srv' (parts hs srv ls as Q H) = parts (hs[i := p]) srv' ls as Q H"
  "connects l (parts hs srv ls as Q H) = parts (hs @ [Fresh]) srv (ls @ [l]) as Q H"
  "record_handled k m rs (parts hs srv ls as Q H) = parts hs srv ls as Q (if is_command m then H @ [(k, m, rs)] else H)"
  "(parts hs srv ls as Q H)\<lparr>sy_asked := Q'\<rparr> = parts hs srv ls as Q' H"
  "link_at (parts hs srv ls as Q H) i l \<longleftrightarrow> i < length ls \<and> ls ! i = l"
  "at_phase (sy_run (parts hs srv ls as Q H)) i p \<longleftrightarrow> i < length hs \<and> hs ! i = p"
  "run_server (sy_run (parts hs srv ls as Q H)) = srv" "sy_asked (parts hs srv ls as Q H) = Q"
  "sy_handled (parts hs srv ls as Q H) = H" "sy_agents (parts hs srv ls as Q H) = as"
  "sy_links (parts hs srv ls as Q H) = ls"
  "run_accepting (sy_run (parts hs srv ls as Q H))" "run_listening (sy_run (parts hs srv ls as Q H))"
  by (simp_all add: parts_def sys_defs link_at_def at_phase_def moves_to_def run_started_def)

definition sample_net :: "unit session_net" where
  "sample_net = \<lparr>sn_dial = None, sn_register_id = ''r'', sn_now = 5, sn_order = rev, sn_register = (\<lambda>m. None),
     sn_ack = Inl (Errorf ''closed''), sn_messages = [], sn_end = Errorf ''closed''\<rparr>"

definition offline_agent :: "unit agent_service" where
  "offline_agent = sample_agent\<lparr>as_online := False\<rparr>"

definition sample_registration :: message where
  "sample_registration = register_message ''1'' sample_net sample_agent"

definition sample_ping :: message where
  "sample_ping = (sample_request ''n1'' 5)\<lparr>m_Type := CLIPing, m_AgentID := ''pc''\<rparr>"

definition sample_dispatched_ping :: message where
  "sample_dispatched_ping = (new_message ServerPing)\<lparr>m_RequestID := ''dispatch-1'', m_CommandID := ''cmd-1'',
     m_AgentID := ''pc'', m_Timestamp := unix_epoch + 5 * second\<rparr>"

definition sample_pong :: message where
  "sample_pong = (agent_reply sample_agent_env ServerPingResult sample_dispatched_ping sample_agent)
     \<lparr>m_Result := ''pong'', m_Status := ''online'', m_Success := True\<rparr>"

definition joined_server :: "entry gomap server" where
  "joined_server = agent_joins ''pc'' (newAgentSession 0 0)
     (fst (agent_known sample_bundle 5 (the (m_Agent sample_registration)) fresh_server))"

lemma sample_agent_facts [simp]:
  "sample_agent\<lparr>as_online := True\<rparr> = sample_agent" "offline_agent\<lparr>as_online := True\<rparr> = sample_agent"
  "\<not> as_online offline_agent" "\<not> as_quit offline_agent" "agent_id sample_agent = ''pc''" "agent_id offline_agent = ''pc''"
  by (simp_all add: sample_agent_def offline_agent_def agent_id_def NewAgentService_def NewAgent_def core_Start_def
      GetLocalIP_def generateAgentID_def Let_def)

lemma sample_registration_facts:
  "m_Type sample_registration = AgentRegister"
  "m_Agent sample_registration = Some (the (m_Agent sample_registration))" "e_ID (the (m_Agent sample_registration)) = ''pc''"
proof -
  show "m_Type sample_registration = AgentRegister" "m_Agent sample_registration = Some (the (m_Agent sample_registration))"
    by (simp_all add: sample_registration_def register_message_def)
  have "e_ID (the (m_Agent sample_registration)) = agent_id sample_agent"
    by (simp add: sample_registration_def register_message_def agent_id_def)
  then show "e_ID (the (m_Agent sample_registration)) = ''pc''" by simp
qed

lemma joined_facts:
  "agent_known sample_bundle 5 a fresh_server = (fst (agent_known sample_bundle 5 a fresh_server), None)"
  "sv_adminSecret joined_server = ''k''" "sv_seenNonces joined_server = []"
  "sv_sessions joined_server = newSessionManager\<lparr>sm_sessions := [(''pc'', \<lparr>ss_ptr = 0, ss_id = ''pc'', ss_conn = 0\<rparr>)]\<rparr>"
  by (simp_all add: agent_known_def sample_registry_def joined_server_def agent_joins_def fresh_server_def sample_server_def
      sm_register_def newSessionManager_def newAgentSession_def Let_def)

abbreviation sample_sys :: "(entry gomap, unit) system \<Rightarrow> bool" where
  "sample_sys \<equiv> sys_reach sample_bundle (\<lambda>t. []) ''1'' False fresh_server [offline_agent]"

lemma run_joined:
  "sample_sys (parts [In_session ''pc''] joined_server [new_link (Some 0) []] [sample_agent] [] [])"
proof -
  let ?known = "fst (agent_known sample_bundle 5 (the (m_Agent sample_registration)) fresh_server)"
  have "sample_sys (parts [] fresh_server [] [offline_agent] [] [])"
    using sys_starts [of sample_bundle "\<lambda>t. []" "''1''" False fresh_server "[offline_agent]"]
    by (simp add: system_start_def parts_def run_started_def)
  then have "sample_sys (parts [Fresh] fresh_server [new_link (Some 0) [sample_registration]] [sample_agent] [] [])"
    by (rule sys_steps) (use dials [of 0 "parts [] fresh_server [] [offline_agent] [] []" offline_agent sample_bundle
        "\<lambda>t. []" "''1''" False sample_net] in \<open>simp add: sample_registration_def\<close>)
  then have "sample_sys (parts [Joining ''pc''] ?known [taken (new_link (Some 0) [sample_registration])] [sample_agent] [] [])"
    by (rule sys_steps) (use registers [of "parts [Fresh] fresh_server [new_link (Some 0) [sample_registration]] [sample_agent] [] []"
        0 _ sample_registration "the (m_Agent sample_registration)" False sample_bundle 5 ?known "\<lambda>t. []" "''1''"]
        sample_registration_facts joined_facts(1) in \<open>simp add: arrives_def\<close>)
  then have "sample_sys (parts [In_session ''pc''] joined_server [taken (new_link (Some 0) [sample_registration])] [sample_agent] [] [])"
    by (rule sys_steps) (use enters [of "parts [Joining ''pc''] ?known [taken (new_link (Some 0) [sample_registration])] [sample_agent] [] []"
        0 "''pc''" sample_bundle "\<lambda>t. []" "''1''" False] in \<open>simp add: joined_server_def\<close>)
  then show ?thesis by (simp add: taken_def new_link_def)
qed

definition asking_server :: "entry gomap server" where
  "asking_server = fst (cli_open sample_bundle sample_env sample_ping joined_server)"

lemma ping_opens: "cli_open sample_bundle sample_env sample_ping joined_server = (asking_server, Some (sample_dispatched_ping, 0))"
  "sv_sessions asking_server = (sv_sessions joined_server)
     \<lparr>sm_chans := [\<lparr>ch_buf = None, ch_closed = False\<rparr>], sm_pending := [(''cmd-1'', 0)]\<rparr>"
proof -
  let ?t = "unix_epoch + 5 * second"
  have "verifyCLIMessage sample_lib ''k'' ?t ?t sample_ping [] = verifyCLIMessage sample_lib ''k'' ?t ?t (sample_request ''n1'' 5) []"
    by (simp add: verifyCLIMessage_def sample_ping_def sample_lib_def sample_sign_def sample_request_def Let_def)
  also have "\<dots> = ([(''n1'', ?t)], None)"
    unfolding verify_accepted [OF sample_skew_ok]
    by (simp add: sample_request_ok purge_def time_Unix_five sample_lib_def second_def)
  finally have v: "verifyCLIMessage sample_lib ''k'' ?t ?t sample_ping [] = ([(''n1'', ?t)], None)" .
  have e: "ev_now sample_env = ?t" "ev_now_locked sample_env = ?t" "ev_stamp sample_env = ?t"
    "ev_request_id sample_env = ''dispatch-1''" "ev_command_id sample_env = ''cmd-1''" "env_send (ev_dispatch sample_env) = None"
    by (simp_all add: sample_env_def)
  have d: "cli_dispatch sample_bundle sample_env sample_ping s = Some sample_dispatched_ping" for s
    by (simp add: cli_dispatch_def sample_ping_def sample_dispatched_ping_def e)
  have a: "m_AgentID sample_ping = ''pc''" by (simp add: sample_ping_def)
  have "snd (cli_open sample_bundle sample_env sample_ping joined_server) = Some (sample_dispatched_ping, 0) \<and>
    sv_sessions asking_server = (sv_sessions joined_server)
      \<lparr>sm_chans := [\<lparr>ch_buf = None, ch_closed = False\<rparr>], sm_pending := [(''cmd-1'', 0)]\<rparr>"
    by (simp add: asking_server_def cli_open_def joined_facts v e d a dispatch_begin_def sm_get_def sm_registerPending_def
        newSessionManager_def sample_dispatched_ping_def Let_def)
  then show "cli_open sample_bundle sample_env sample_ping joined_server = (asking_server, Some (sample_dispatched_ping, 0))"
    "sv_sessions asking_server = (sv_sessions joined_server)
      \<lparr>sm_chans := [\<lparr>ch_buf = None, ch_closed = False\<rparr>], sm_pending := [(''cmd-1'', 0)]\<rparr>"
    by (simp_all add: asking_server_def prod_eq_iff)
qed

text \<open>A signed request comes in and is dispatched, whatever is on the link of the agent.\<close>

lemma run_asked:
  assumes "sample_sys (parts [In_session ''pc''] joined_server [l] [sample_agent] [] [])"
  shows "sample_sys (parts [In_session ''pc'', Awaiting sample_env sample_ping sample_dispatched_ping 0] asking_server
    [down [sample_dispatched_ping] l, new_link None []] [sample_agent] [(sample_ping, sample_dispatched_ping)] [])"
proof -
  let ?s = "parts [In_session ''pc'', Fresh] joined_server [l, new_link None []] [sample_agent] [] []"
  have "sample_sys ?s"
    by (rule sys_steps [OF assms]) (use comes [of "parts [In_session ''pc''] joined_server [l] [sample_agent] [] []"
        sample_bundle "\<lambda>t. []" "''1''" False] in simp)
  moreover have "is_cli_type (m_Type sample_ping)" "arrives sample_ping (new_link None [])"
    "sm_get (m_AgentID sample_ping) (sv_sessions joined_server) = Some \<lparr>ss_ptr = 0, ss_id = ''pc'', ss_conn = 0\<rparr>"
    by (simp_all add: sample_ping_def is_cli_type_def arrives_def joined_facts sm_get_def newSessionManager_def)
  moreover have "taken (new_link None []) = new_link None []" by (simp add: taken_def new_link_def)
  ultimately show ?thesis
    using sys_steps [OF \<open>sample_sys ?s\<close> cli_asks [of ?s 1 "new_link None []" sample_ping sample_bundle sample_env asking_server
        sample_dispatched_ping 0 "\<lparr>ss_ptr = 0, ss_id = ''pc'', ss_conn = 0\<rparr>" "\<lambda>t. []" "''1''" False]] ping_opens(1)
    by simp
qed

text \<open>
  The session is in the table before the server has answered the registration, and a request that
  comes in between is written first: the agent takes the command for a refusal, drops the
  connection without answering, and the command is lost while its sender waits for it.
\<close>

lemma command_before_ack:
  "\<exists>s. sample_sys s \<and> at_phase (sy_run s) 1 (Awaiting sample_env sample_ping sample_dispatched_ping 0) \<and>
     sy_asked s = [(sample_ping, sample_dispatched_ping)] \<and> sy_handled s = [] \<and> lk_down (sy_links s ! 0) = [] \<and>
     lk_phase (sy_links s ! 0) = Cut \<and> sy_agents s = [clearConnection sample_agent]"
proof -
  let ?l = "down [sample_dispatched_ping] (new_link (Some 0) [])" and ?hs = "[In_session ''pc'', Awaiting sample_env sample_ping sample_dispatched_ping 0]"
  let ?s = "parts ?hs asking_server [?l, new_link None []] [sample_agent] [(sample_ping, sample_dispatched_ping)] []"
  have r: "sample_sys ?s" by (rule run_asked [OF run_joined])
  have "sys_step sample_bundle (\<lambda>t. []) ''1'' False ?s (parts ?hs asking_server
      [?l\<lparr>lk_down := tl (lk_down ?l), lk_phase := Cut\<rparr>, new_link None []] [clearConnection sample_agent]
      [(sample_ping, sample_dispatched_ping)] [])"
    using agent_turned_away [of ?s 0 ?l 0 sample_dispatched_ping "[]" sample_bundle "\<lambda>t. []" "''1''" False]
    by (simp add: sample_dispatched_ping_def) (simp add: down_def new_link_def)
  from sys_steps [OF r this] show ?thesis
    by (intro exI conjI) (assumption, simp_all)
qed

text \<open>In the other order the ping is answered.\<close>

definition served_link :: link where
  "served_link = \<lparr>lk_owner = Some 0, lk_acked = True, lk_phase = Served, lk_down = [], lk_up = []\<rparr>"

lemma run_served: "sample_sys (parts [In_session ''pc''] joined_server [served_link] [sample_agent] [] [])"
proof -
  let ?l = "(down [registered_ok 5 sample_registration ''pc''] (new_link (Some 0) []))\<lparr>lk_acked := True\<rparr>"
  let ?s = "parts [In_session ''pc''] joined_server [new_link (Some 0) []] [sample_agent] [] []"
    and ?t = "parts [In_session ''pc''] joined_server [?l] [sample_agent] [] []"
  have t: "sample_sys ?t"
    by (rule sys_steps [OF run_joined]) (use acks [of ?s 0 "''pc''" "new_link (Some 0) []" sample_bundle "\<lambda>t. []" "''1''" False 5 sample_registration]
        in \<open>simp add: new_link_def\<close>)
  have "sys_step sample_bundle (\<lambda>t. []) ''1'' False ?t
      (parts [In_session ''pc''] joined_server [?l\<lparr>lk_down := tl (lk_down ?l), lk_phase := Served\<rparr>] [sample_agent] [] [])"
    using agent_acked [of ?t 0 ?l 0 "registered_ok 5 sample_registration ''pc''" "[]" sample_bundle "\<lambda>t. []" "''1''" False]
    by (simp add: registered_ok_def) (simp add: down_def new_link_def)
  from sys_steps [OF t this] show ?thesis by (simp add: served_link_def down_def new_link_def)
qed

lemma agent_pongs: "\<exists>ef. handleServerMessage (\<lambda>t. []) sample_agent_env sample_dispatched_ping sample_agent =
    ((sample_agent, None), ef) \<and> ef_sent ef = [sample_pong]"
  by (simp add: handleServerMessage_def sample_dispatched_ping_def)
    (simp add: send_reply_def as_send_def quiet_def sample_pong_def currentStatus_def sample_agent_env_def
      sample_dispatched_ping_def)

lemma pong_resolves: "\<exists>srv. handleAgentMessage sample_bundle 8 ''pc'' sample_pong asking_server = Some (srv, []) \<and>
    ch_buf (sm_chans (sv_sessions srv) ! 0) = Some (completed ''pc'' sample_pong)"
proof -
  have p: "m_Type sample_pong = ServerPingResult" "m_CommandID sample_pong = ''cmd-1''"
    by (simp_all add: sample_pong_def agent_reply_def sample_dispatched_ping_def)
  have touch: "sv_sessions (touch_entry B now a f s) = sv_sessions s" for f B now a and s :: "entry gomap server"
    by (simp add: touch_entry_def split: sum.split)
  obtain m b where m: "sm_resolvePending (completed ''pc'' sample_pong) (sv_sessions asking_server) = Some (m, b)"
    "ch_buf (sm_chans m ! 0) = Some (completed ''pc'' sample_pong)"
    by (simp add: sm_resolvePending_def sm_take_def sm_send_chan_def sm_close_chan_def ping_opens(2) joined_facts(4)
        newSessionManager_def completed_def p(2))
  then show ?thesis
    by (simp add: handleAgentMessage_def p(1) sv_resolve_def touch Let_def completed_def)
qed

lemma run_answered:
  "\<exists>s. sample_sys s \<and> sy_asked s = [(sample_ping, sample_dispatched_ping)] \<and>
     sy_handled s = [(0, sample_dispatched_ping, [sample_pong])] \<and>
     at_phase (sy_run s) 1 (Awaiting sample_env sample_ping sample_dispatched_ping 0) \<and>
     ch_buf (sm_chans (sv_sessions (run_server (sy_run s))) ! 0) = Some (completed ''pc'' sample_pong)"
proof -
  let ?hs = "[In_session ''pc'', Awaiting sample_env sample_ping sample_dispatched_ping 0]" and ?Q = "[(sample_ping, sample_dispatched_ping)]"
  let ?l = "down [sample_dispatched_ping] served_link" and ?H = "[(0, sample_dispatched_ping, [sample_pong])]"
  let ?s = "parts ?hs asking_server [?l, new_link None []] [sample_agent] ?Q []"
  have s: "sample_sys ?s" by (rule run_asked [OF run_served])
  obtain ef where ef: "handleServerMessage (\<lambda>t. []) sample_agent_env sample_dispatched_ping sample_agent = ((sample_agent, None), ef)"
    "ef_sent ef = [sample_pong]" using agent_pongs by blast
  let ?l2 = "served_link\<lparr>lk_up := [sample_pong]\<rparr>"
  let ?t = "parts ?hs asking_server [?l2, new_link None []] [sample_agent] ?Q ?H"
  have "is_command sample_dispatched_ping" by (simp add: is_command_def sample_dispatched_ping_def)
  then have "sample_sys ?t"
    using sys_steps [OF s agent_handles [of ?s 0 ?l 0 sample_dispatched_ping "[]" "\<lambda>t. []" sample_agent_env sample_agent None ef
        sample_bundle "''1''" False]] ef
    by (simp add: served_link_def down_def agent_after_def agent_link_def)
  moreover obtain srv where srv: "handleAgentMessage sample_bundle 8 ''pc'' sample_pong asking_server = Some (srv, [])"
    "ch_buf (sm_chans (sv_sessions srv) ! 0) = Some (completed ''pc'' sample_pong)" using pong_resolves by blast
  ultimately have "sample_sys (parts ?hs srv [down [] (taken ?l2), new_link None []] [sample_agent] ?Q ?H)"
    using sys_steps [OF _ hears [of ?t 0 "''pc''" ?l2 sample_pong sample_bundle 8 srv "[]" "\<lambda>t. []" "''1''" False]]
    by (simp add: arrives_def served_link_def)
  then show ?thesis using srv(2)
    by (intro exI [of _ "parts ?hs srv [down [] (taken ?l2), new_link None []] [sample_agent] ?Q ?H"]) simp
qed

section \<open>Properties\<close>

lemma distinct_part: "mset xs \<subseteq># mset ys \<Longrightarrow> distinct ys \<Longrightarrow> distinct xs"
  by (metis distinct_append mset_append mset_eq_imp_distinct_iff mset_subset_eq_exists_conv ex_mset)

text \<open>
  Property C2. Agents run only what was asked of them, and nothing twice. Whoever connects to the
  server, whatever is lost and in whatever order the goroutines of the server and of all agents
  move: every command that an agent has handled was dispatched for a request that carries the
  signature of the server's secret and names that agent, and no two handled commands have the same
  identifier, as long as core.NewRequestID gives every dispatch another one.
\<close>

theorem system_runs_what_was_asked:
  assumes "sys_reach B texts version strangers srv agents s" and "sv_sessions srv = newSessionManager"
    and "distinct (map (m_CommandID \<circ> snd) (sy_asked s))"
  shows "distinct (map (\<lambda>(k, d, rs). m_CommandID d) (sy_handled s)) \<and>
    (\<forall>(k, d, rs) \<in> set (sy_handled s). m_AgentID d = agent_id (agents ! k) \<and>
       (\<exists>msg ev r x ch. (msg, d) \<in> set (sy_asked s) \<and> m_AgentID msg = m_AgentID d \<and> srv_reach B srv r \<and>
          cli_open B ev msg (run_server r) = (x, Some (d, ch)) \<and>
          compute_signature (lib_core B) msg (sv_adminSecret srv) = Inr (m_AuthSignature msg)))"
proof -
  from sys_inv [OF assms(1,2)] have inv: "asked_ok B srv s" "handled_ok texts s" "once s" "sy_ids s = map agent_id agents"
    by simp_all
  have "mset (map (fst \<circ> snd) (sy_handled s)) \<subseteq># mset (map snd (sy_asked s))"
    using inv(3) unfolding once_def by (rule subset_mset.order_trans [OF mset_subset_eq_add_left])
  then have "mset (map m_CommandID (map (fst \<circ> snd) (sy_handled s))) \<subseteq># mset (map m_CommandID (map snd (sy_asked s)))"
    unfolding mset_map by (rule image_mset_subseteq_mono)
  moreover have "map (\<lambda>(k, d, rs). m_CommandID d) (sy_handled s) = map m_CommandID (map (fst \<circ> snd) (sy_handled s))"
    by auto
  ultimately have "distinct (map (\<lambda>(k, d, rs). m_CommandID d) (sy_handled s))"
    using distinct_part assms(3) by (metis map_map)
  moreover have "m_AgentID d = agent_id (agents ! k) \<and>
       (\<exists>msg ev r x ch. (msg, d) \<in> set (sy_asked s) \<and> m_AgentID msg = m_AgentID d \<and> srv_reach B srv r \<and>
          cli_open B ev msg (run_server r) = (x, Some (d, ch)) \<and>
          compute_signature (lib_core B) msg (sv_adminSecret srv) = Inr (m_AuthSignature msg))"
    if h: "(k, d, rs) \<in> set (sy_handled s)" for k d rs
  proof -
    from inv(2) h have k: "k < length (sy_agents s)" "m_AgentID d = sy_ids s ! k" "d \<in> snd ` set (sy_asked s)"
      by (auto simp: handled_ok_def)
    then have "k < length agents" using inv(4) by (metis length_map sy_ids_def)
    with k(2) inv(4) have "m_AgentID d = agent_id (agents ! k)" by simp
    moreover obtain msg where msg: "(msg, d) \<in> set (sy_asked s)" using k(3) by auto
    moreover from msg inv(1) obtain r ev x ch where r: "srv_reach B srv r"
      "cli_open B ev msg (run_server r) = (x, Some (d, ch))" by (fastforce simp: asked_ok_def)
    moreover have "m_AgentID msg = m_AgentID d" using cli_open_asked(4) [OF r(2)] by simp
    moreover have "compute_signature (lib_core B) msg (sv_adminSecret srv) = Inr (m_AuthSignature msg)"
      using cli_open_asked(2) [OF r(2)] secret_reach [OF r(1)] by simp
    ultimately show ?thesis by blast
  qed
  ultimately show ?thesis by fast
qed

text \<open>
  Property C3. Answers are real: as long as only agents take part as agents, and as long as
  core.NewRequestID gives every dispatch another command identifier, what a request that waits has
  been given is what the agent that it names has made of exactly the command dispatched for it, and
  of no other.
\<close>

theorem system_answers_real:
  fixes agents :: "'st agent_service list"
  assumes "sys_reach B texts version False srv agents s" and "sv_sessions srv = newSessionManager"
    and "distinct (map (m_CommandID \<circ> snd) (sy_asked s))"
    and "phase s h (Awaiting ev msg d ch)" and "ch_buf (sm_chans (sv_sessions (srv_of s)) ! ch) = Some r"
  shows "m_AgentID d = m_AgentID msg \<and> (\<exists>k rs r0. \<exists>a :: 'st agent_service. (k, d, rs) \<in> set (sy_handled s) \<and>
    agent_id (agents ! k) = m_AgentID d \<and> agent_id a = m_AgentID d \<and> made_by texts a d rs \<and> r0 \<in> set rs \<and>
    r = completed (m_AgentID d) r0)"
proof -
  from sys_inv [OF assms(1,2)] have inv: "asked_ok B srv s" "handled_ok texts s" "sy_ids s = map agent_id agents" by simp_all
  from sys_real [OF assms(1,2)] assms(4,5) have d: "(msg, d) \<in> set (sy_asked s)" and "real_answer (sy_ids s) (set (sy_handled s)) d r"
    unfolding waits_real_def at_phase_iff by blast+
  then obtain k d' rs r0 where h: "(k, d', rs) \<in> set (sy_handled s)" "r0 \<in> set rs" "m_CommandID d' = m_CommandID d"
    "r = completed (sy_ids s ! k) r0" by (auto simp: real_answer_def)
  from inv(2) h(1) obtain a :: "'st agent_service" and msg' where k: "k < length (sy_agents s)" "m_AgentID d' = sy_ids s ! k"
    "(msg', d') \<in> set (sy_asked s)" "agent_id a = sy_ids s ! k" "made_by texts a d' rs"
    by (fastforce simp: handled_ok_def)
  have same: "d' = d"
    using assms(3) d k(3) h(3) by (fastforce simp: distinct_map inj_on_def)
  have "k < length agents" using k(1) inv(3) by (metis length_map sy_ids_def)
  then have "agent_id (agents ! k) = sy_ids s ! k" using inv(3) by simp
  moreover have "m_AgentID d = m_AgentID msg" using d inv(1) cli_open_asked(4) by (fastforce simp: asked_ok_def)
  ultimately show ?thesis using h k same by metis
qed

theorem system_runs_what_was_asked_witness:
  "\<exists>s. sample_sys s \<and> length (sy_handled s) = 1 \<and>
     (\<forall>(k, d, rs) \<in> set (sy_handled s). \<exists>msg. (msg, d) \<in> set (sy_asked s) \<and>
        compute_signature sample_lib msg ''k'' = Inr (m_AuthSignature msg))"
proof -
  obtain s where s: "sample_sys s" "sy_asked s = [(sample_ping, sample_dispatched_ping)]"
    "sy_handled s = [(0, sample_dispatched_ping, [sample_pong])]" using run_answered by blast
  have f: "sv_sessions fresh_server = newSessionManager" "sv_adminSecret fresh_server = ''k''"
    by (simp_all add: fresh_server_def sample_server_def)
  have "distinct (map (m_CommandID \<circ> snd) (sy_asked s))" by (simp add: s(2))
  from system_runs_what_was_asked [OF s(1) f(1) this]
  have "\<forall>(k, d, rs) \<in> set (sy_handled s). \<exists>msg. (msg, d) \<in> set (sy_asked s) \<and>
      compute_signature sample_lib msg ''k'' = Inr (m_AuthSignature msg)"
    by (fastforce simp: f(2))
  with s(1,3) show ?thesis by (intro exI [of _ s]) simp
qed

theorem system_answers_real_witness:
  "\<exists>s r. sample_sys s \<and> ch_buf (sm_chans (sv_sessions (run_server (sy_run s))) ! 0) = Some r \<and>
     (\<exists>k rs r0. (k, sample_dispatched_ping, rs) \<in> set (sy_handled s) \<and> r0 \<in> set rs \<and> r = completed ''pc'' r0)"
proof -
  obtain s where s: "sample_sys s" "sy_asked s = [(sample_ping, sample_dispatched_ping)]"
    "at_phase (sy_run s) 1 (Awaiting sample_env sample_ping sample_dispatched_ping 0)"
    "ch_buf (sm_chans (sv_sessions (run_server (sy_run s))) ! 0) = Some (completed ''pc'' sample_pong)"
    using run_answered by blast
  have f: "sv_sessions fresh_server = newSessionManager" by (simp add: fresh_server_def)
  have d: "distinct (map (m_CommandID \<circ> snd) (sy_asked s))" by (simp add: s(2))
  have i: "m_AgentID sample_dispatched_ping = ''pc''" by (simp add: sample_dispatched_ping_def)
  from system_answers_real [OF s(1) f d s(3,4)] s(1,4) show ?thesis unfolding i by blast
qed

end
