(* ===== verification/Dispatch_Steps.thy ===== *)
theory Dispatch_Steps
  imports Session_Manager
begin

text \<open>
  The goroutines around the session manager of server/session.go: callers of dispatch, readers
  of agent sessions that call resolvePending, and sessions that come and go. A thread is the
  point it has reached; \<open>tstep\<close> is what it does next to the shared manager, \<open>dstep\<close> lets
  any thread go. Every step is one critical section, one channel operation, one network write
  or one branch of the select. The invariant says who may complete a channel: the entry of the
  pending table or exactly one goroutine that has taken it.
\<close>

datatype dthread =
    DCall string message
  | DReg message agent_session
  | DSend message nat
  | DWait message nat
  | DCancel message nat go_error
  | DClosing message nat go_error
  | DReturned message "message result"
  | RCall message
  | RSending message nat
  | RClosing message nat
  | RReturned message bool
  | SRegister string agent_session
  | SUnregister string agent_session
  | SDone

record dconf =
  dc_m :: session_manager
  dc_ts :: "dthread list"

abbreviation sm_chan :: "session_manager \<Rightarrow> nat \<Rightarrow> channel" where
  "sm_chan m ch \<equiv> sm_chans m ! ch"

inductive tstep :: "session_manager \<Rightarrow> dthread \<Rightarrow> session_manager \<Rightarrow> dthread \<Rightarrow> bool" where
  offline: "sm_get a m = None \<Longrightarrow> tstep m (DCall a msg) m (DReturned msg (Inl (offline_error a)))"
| found: "sm_get a m = Some s \<Longrightarrow> tstep m (DCall a msg) m (DReg msg s)"
| pend: "sm_registerPending (m_CommandID msg) m = (m', ch) \<Longrightarrow> tstep m (DReg msg s) m' (DSend msg ch)"
| sent: "tstep m (DSend msg ch) m (DWait msg ch)"
| send_failed: "tstep m (DSend msg ch) m (DCancel msg ch e)"
| answered: "ch_buf (sm_chan m ch) = Some r \<Longrightarrow>
    tstep m (DWait msg ch) (m\<lparr>sm_chans := (sm_chans m)[ch := (sm_chan m ch)\<lparr>ch_buf := None\<rparr>]\<rparr>)
      (DReturned msg (Inr r))"
| was_closed: "ch_buf (sm_chan m ch) = None \<Longrightarrow> ch_closed (sm_chan m ch) \<Longrightarrow>
    tstep m (DWait msg ch) m (DReturned msg (Inl (cancelled_error msg)))"
| timer: "tstep m (DWait msg ch) m (DCancel msg ch (timeout_error msg))"
| cancel_gone: "sm_take (m_CommandID msg) m = (m', None) \<Longrightarrow>
    tstep m (DCancel msg ch e) m' (DReturned msg (Inl e))"
| cancel_take: "sm_take (m_CommandID msg) m = (m', Some c) \<Longrightarrow>
    tstep m (DCancel msg ch e) m' (DClosing msg c e)"
| cancel_close: "tstep m (DClosing msg c e) (sm_close_chan c m) (DReturned msg (Inl e))"
| resolve_gone: "sm_take (m_CommandID r) m = (m', None) \<Longrightarrow> tstep m (RCall r) m' (RReturned r False)"
| resolve_take: "sm_take (m_CommandID r) m = (m', Some c) \<Longrightarrow> tstep m (RCall r) m' (RSending r c)"
| resolve_send: "sm_send_chan c r m = Some m' \<Longrightarrow> tstep m (RSending r c) m' (RClosing r c)"
| resolve_close: "tstep m (RClosing r c) (sm_close_chan c m) (RReturned r True)"
| register: "tstep m (SRegister a s) (sm_register a s m) SDone"
| unregister: "tstep m (SUnregister a s) (sm_unregister a s m) SDone"

inductive dstep :: "dconf \<Rightarrow> dconf \<Rightarrow> bool" where
  step: "i < length (dc_ts c) \<Longrightarrow> tstep (dc_m c) (dc_ts c ! i) m' t' \<Longrightarrow>
    dstep c \<lparr>dc_m = m', dc_ts = (dc_ts c)[i := t']\<rparr>"

inductive_cases dstepE: "dstep c c'"

fun starting :: "dthread \<Rightarrow> bool" where
  "starting (DCall a msg) = True"
| "starting (RCall r) = True"
| "starting (SRegister a s) = True"
| "starting (SUnregister a s) = True"
| "starting _ = False"

fun finished :: "dthread \<Rightarrow> bool" where
  "finished (DReturned msg r) = True"
| "finished (RReturned r b) = True"
| "finished SDone = True"
| "finished _ = False"

definition dc_start :: "dthread list \<Rightarrow> dconf" where
  "dc_start ts = \<lparr>dc_m = newSessionManager, dc_ts = ts\<rparr>"

section \<open>Who owns a channel\<close>

text \<open>The channel a thread waits on, and the channel a thread has taken to complete it.\<close>

fun owned :: "dthread \<Rightarrow> nat option" where
  "owned (DSend msg ch) = Some ch"
| "owned (DWait msg ch) = Some ch"
| "owned (DCancel msg ch e) = Some ch"
| "owned _ = None"

fun taken :: "dthread \<Rightarrow> nat option" where
  "taken (DClosing msg ch e) = Some ch"
| "taken (RSending r ch) = Some ch"
| "taken (RClosing r ch) = Some ch"
| "taken _ = None"

text \<open>The answer a reader carries, the command a caller of dispatch sends.\<close>

fun carries :: "dthread \<Rightarrow> message option" where
  "carries (RCall r) = Some r"
| "carries (RSending r ch) = Some r"
| "carries (RClosing r ch) = Some r"
| "carries (RReturned r b) = Some r"
| "carries _ = None"

fun commands :: "dthread \<Rightarrow> message option" where
  "commands (DCall a msg) = Some msg"
| "commands (DReg msg s) = Some msg"
| "commands (DSend msg ch) = Some msg"
| "commands (DWait msg ch) = Some msg"
| "commands (DCancel msg ch e) = Some msg"
| "commands (DClosing msg ch e) = Some msg"
| "commands (DReturned msg r) = Some msg"
| "commands _ = None"

text \<open>\<open>ks\<close> lists the command identifier each channel was made for; \<open>A\<close> is the set of answers.\<close>

definition chan_free :: "session_manager \<Rightarrow> nat \<Rightarrow> bool" where
  "chan_free m ch \<longleftrightarrow> ch < length (sm_chans m) \<and> \<not> ch_closed (sm_chan m ch) \<and>
     (\<forall>cid. map_of (sm_pending m) cid \<noteq> Some ch)"

fun thread_ok :: "message set \<Rightarrow> string list \<Rightarrow> session_manager \<Rightarrow> dthread \<Rightarrow> bool" where
  "thread_ok A ks m (DSend msg ch) \<longleftrightarrow> ch < length ks \<and> ks ! ch = m_CommandID msg"
| "thread_ok A ks m (DWait msg ch) \<longleftrightarrow> ch < length ks \<and> ks ! ch = m_CommandID msg"
| "thread_ok A ks m (DCancel msg ch e) \<longleftrightarrow> ch < length ks \<and> ks ! ch = m_CommandID msg"
| "thread_ok A ks m (DClosing msg ch e) \<longleftrightarrow> chan_free m ch"
| "thread_ok A ks m (DReturned msg (Inr r)) \<longleftrightarrow> m_CommandID r = m_CommandID msg \<and> r \<in> A"
| "thread_ok A ks m (RCall r) \<longleftrightarrow> r \<in> A"
| "thread_ok A ks m (RSending r ch) \<longleftrightarrow>
     r \<in> A \<and> chan_free m ch \<and> ch_buf (sm_chan m ch) = None \<and> ks ! ch = m_CommandID r"
| "thread_ok A ks m (RClosing r ch) \<longleftrightarrow> chan_free m ch"
| "thread_ok A ks m _ \<longleftrightarrow> True"

definition manager_ok :: "message set \<Rightarrow> string list \<Rightarrow> session_manager \<Rightarrow> bool" where
  "manager_ok A ks m \<longleftrightarrow>
     length ks = length (sm_chans m) \<and> map_ok (sm_pending m) \<and> \<not> sm_panic m \<and>
     (\<forall>cid ch. map_of (sm_pending m) cid = Some ch \<longrightarrow>
        ch < length (sm_chans m) \<and> \<not> ch_closed (sm_chan m ch) \<and> ch_buf (sm_chan m ch) = None \<and>
        ks ! ch = cid) \<and>
     (\<forall>ch < length (sm_chans m). \<forall>r. ch_buf (sm_chan m ch) = Some r \<longrightarrow>
        ks ! ch = m_CommandID r \<and> r \<in> A)"

definition apart :: "(dthread \<Rightarrow> nat option) \<Rightarrow> dthread list \<Rightarrow> bool" where
  "apart f ts \<longleftrightarrow> (\<forall>i < length ts. \<forall>j < length ts. \<forall>ch.
     f (ts ! i) = Some ch \<longrightarrow> f (ts ! j) = Some ch \<longrightarrow> i = j)"

definition covered :: "session_manager \<Rightarrow> dthread list \<Rightarrow> bool" where
  "covered m ts \<longleftrightarrow> (\<forall>cid ch. map_of (sm_pending m) cid = Some ch \<longrightarrow>
     (\<exists>i < length ts. owned (ts ! i) = Some ch))"

definition dc_inv :: "message set \<Rightarrow> string list \<Rightarrow> dconf \<Rightarrow> bool" where
  "dc_inv A ks c \<longleftrightarrow> manager_ok A ks (dc_m c) \<and>
     (\<forall>i < length (dc_ts c). thread_ok A ks (dc_m c) (dc_ts c ! i)) \<and>
     apart taken (dc_ts c) \<and> apart owned (dc_ts c) \<and> covered (dc_m c) (dc_ts c)"

section \<open>Every step keeps the invariant\<close>

definition next_keys :: "string list \<Rightarrow> dthread \<Rightarrow> string list" where
  "next_keys ks t = ks @ (case t of DReg msg s \<Rightarrow> [m_CommandID msg] | _ \<Rightarrow> [])"

lemma next_keys_simps [simp]:
  "next_keys ks (DReg msg s) = ks @ [m_CommandID msg]" "next_keys ks (DCall a msg) = ks"
  "next_keys ks (DSend msg ch) = ks" "next_keys ks (DWait msg ch) = ks"
  "next_keys ks (DCancel msg ch e) = ks" "next_keys ks (DClosing msg ch e) = ks"
  "next_keys ks (RCall r) = ks" "next_keys ks (RSending r ch) = ks"
  "next_keys ks (RClosing r ch) = ks" "next_keys ks (SRegister a v) = ks"
  "next_keys ks (SUnregister a v) = ks"
  by (simp_all add: next_keys_def)

named_theorems manager_op

lemma sm_register_frame [manager_op]:
  "sm_chans (sm_register a s m) = sm_chans m" "sm_pending (sm_register a s m) = sm_pending m"
  "sm_panic (sm_register a s m) = sm_panic m"
  by (auto simp: sm_register_def Let_def split: option.splits)

lemma sm_unregister_frame [manager_op]:
  "sm_chans (sm_unregister a s m) = sm_chans m" "sm_pending (sm_unregister a s m) = sm_pending m"
  "sm_panic (sm_unregister a s m) = sm_panic m"
  by (auto simp: sm_unregister_def split: option.splits)

lemma sm_take_NoneD: "sm_take cid m = (m', None) \<Longrightarrow> m' = m \<and> map_of (sm_pending m) cid = None"
  by (auto simp: sm_take_def split: option.splits)

lemma sm_take_SomeD: "sm_take cid m = (m', Some ch) \<Longrightarrow>
  map_of (sm_pending m) cid = Some ch \<and> m' = m\<lparr>sm_pending := AList.delete cid (sm_pending m)\<rparr>"
  by (auto simp: sm_take_def split: option.splits)

lemma sm_close_free: "chan_free m ch \<Longrightarrow>
  sm_close_chan ch m = m\<lparr>sm_chans := (sm_chans m)[ch := (sm_chan m ch)\<lparr>ch_closed := True\<rparr>]\<rparr>"
  by (simp add: sm_close_chan_def chan_free_def)

lemma sm_send_free: "chan_free m ch \<Longrightarrow> ch_buf (sm_chan m ch) = None \<Longrightarrow>
  sm_send_chan ch r m = Some (m\<lparr>sm_chans := (sm_chans m)[ch := (sm_chan m ch)\<lparr>ch_buf := Some r\<rparr>]\<rparr>)"
  by (simp add: sm_send_chan_def chan_free_def)

lemma registerPending_eq: "sm_registerPending cid m = (m', ch) \<Longrightarrow>
  ch = length (sm_chans m) \<and>
  m' = m\<lparr>sm_chans := sm_chans m @ [\<lparr>ch_buf = None, ch_closed = False\<rparr>],
         sm_pending := AList.update cid (length (sm_chans m)) (sm_pending m)\<rparr>"
  by (auto simp: sm_registerPending_def Let_def)

text \<open>The shapes of the managers a step can reach, with what the invariant needs of each.\<close>

lemma manager_ok_take:
  "manager_ok A ks m \<Longrightarrow> manager_ok A ks (m\<lparr>sm_pending := AList.delete cid (sm_pending m)\<rparr>)"
  by (auto simp: manager_ok_def delete_conv' distinct_delete split: if_splits simp del: map_of_eq_Some_iff)

lemma manager_ok_pend:
  "manager_ok A ks m \<Longrightarrow> sm_registerPending cid m = (m', ch) \<Longrightarrow> manager_ok A (ks @ [cid]) m'"
  by (drule registerPending_eq)
    (auto simp: manager_ok_def update_conv' distinct_update nth_append less_Suc_eq
      simp del: map_of_eq_Some_iff split: if_splits)

lemma manager_ok_close:
  "manager_ok A ks m \<Longrightarrow> chan_free m ch \<Longrightarrow> manager_ok A ks (sm_close_chan ch m)"
  by (auto simp: sm_close_free manager_ok_def chan_free_def nth_update
      simp del: map_of_eq_Some_iff split: if_splits)

lemma manager_ok_send:
  "manager_ok A ks m \<Longrightarrow> thread_ok A ks m (RSending r ch) \<Longrightarrow> sm_send_chan ch r m = Some m' \<Longrightarrow>
   manager_ok A ks m'"
  by (auto simp: sm_send_free manager_ok_def chan_free_def nth_update
      simp del: map_of_eq_Some_iff split: if_splits)

lemma manager_ok_recv:
  "manager_ok A ks m \<Longrightarrow>
   manager_ok A ks (m\<lparr>sm_chans := (sm_chans m)[ch := (sm_chan m ch)\<lparr>ch_buf := None\<rparr>]\<rparr>)"
  by (auto simp: manager_ok_def nth_update simp del: map_of_eq_Some_iff split: if_splits)

lemma manager_ok_sessions:
  "sm_chans m' = sm_chans m \<Longrightarrow> sm_pending m' = sm_pending m \<Longrightarrow> sm_panic m' = sm_panic m \<Longrightarrow>
   manager_ok A ks m \<Longrightarrow> manager_ok A ks m'"
  by (simp add: manager_ok_def)

lemma tstep_manager:
  "tstep m t m' t' \<Longrightarrow> manager_ok A ks m \<Longrightarrow> thread_ok A ks m t \<Longrightarrow> manager_ok A (next_keys ks t) m'"
  by (induction rule: tstep.induct)
    (auto simp: manager_op dest!: sm_take_NoneD sm_take_SomeD
      intro: manager_ok_take manager_ok_pend manager_ok_close manager_ok_send manager_ok_recv
        manager_ok_sessions)

lemma pending_chan: "manager_ok A ks m \<Longrightarrow> map_of (sm_pending m) cid = Some ch \<Longrightarrow>
  ch < length ks \<and> ch < length (sm_chans m) \<and> \<not> ch_closed (sm_chan m ch) \<and>
  ch_buf (sm_chan m ch) = None \<and> ks ! ch = cid"
  by (auto simp: manager_ok_def simp del: map_of_eq_Some_iff)

text \<open>A channel that is taken out of the table has no other entry.\<close>

lemma chan_free_taken:
  assumes "manager_ok A ks m" and "map_of (sm_pending m) cid = Some ch"
  shows "chan_free (m\<lparr>sm_pending := AList.delete cid (sm_pending m)\<rparr>) ch"
  using pending_chan [OF assms] pending_chan [OF assms(1), of _ ch]
  by (auto simp: chan_free_def delete_conv' simp del: map_of_eq_Some_iff split: if_splits)

lemma tstep_thread:
  "tstep m t m' t' \<Longrightarrow> manager_ok A ks m \<Longrightarrow> thread_ok A ks m t \<Longrightarrow> thread_ok A (next_keys ks t) m' t'"
proof (induction rule: tstep.induct)
  case (pend msg m m' ch s)
  then show ?case by (auto simp: manager_ok_def nth_append dest!: registerPending_eq)
next
  case (answered m ch r msg)
  then show ?case by (auto simp: manager_ok_def simp del: map_of_eq_Some_iff)
next
  case (cancel_take msg m m' c ch e)
  then show ?case by (auto dest!: sm_take_SomeD intro: chan_free_taken)
next
  case (resolve_take r m m' c)
  then show ?case
    by (auto dest!: sm_take_SomeD intro: chan_free_taken dest: pending_chan)
next
  case (resolve_send c r m m')
  then show ?case by (auto simp: sm_send_free chan_free_def)
qed auto

text \<open>What a step leaves alone: the channels that other threads have taken or wait on.\<close>

lemma chan_free_frame:
  assumes "tstep m t m' t'" and "manager_ok A ks m" and "thread_ok A ks m t"
    and "chan_free m ch" and "taken t \<noteq> Some ch"
  shows "chan_free m' ch \<and> (ch_buf (sm_chan m ch) = None \<longrightarrow> ch_buf (sm_chan m' ch) = None)"
  using assms
  by (induction rule: tstep.induct)
    (auto simp: chan_free_def manager_op sm_close_free sm_send_free update_conv' delete_conv'
      nth_append nth_update simp del: map_of_eq_Some_iff
      dest!: sm_take_NoneD sm_take_SomeD registerPending_eq split: if_splits)

lemma next_keys_nth: "ch < length ks \<Longrightarrow> next_keys ks t ! ch = ks ! ch \<and> ch < length (next_keys ks t)"
  by (simp add: next_keys_def nth_append)

lemma thread_taken: "thread_ok A ks m u \<Longrightarrow> taken u = Some ch \<Longrightarrow> chan_free m ch"
  by (cases u) auto

lemma thread_owned: "thread_ok A ks m u \<Longrightarrow> owned u = Some ch \<Longrightarrow> ch < length ks"
  by (cases u) auto

lemma thread_frame:
  assumes "tstep m t m' t'" and "manager_ok A ks m" and "thread_ok A ks m t"
    and "thread_ok A ks m u" and "taken u = None \<or> taken u \<noteq> taken t"
  shows "thread_ok A (next_keys ks t) m' u"
proof -
  have c: "chan_free m' ch \<and> (ch_buf (sm_chan m ch) = None \<longrightarrow> ch_buf (sm_chan m' ch) = None) \<and> ch < length ks"
    if "taken u = Some ch" for ch
    using chan_free_frame [OF assms(1-3), of ch] thread_taken [OF assms(4) that] that assms(2,5)
    by (auto simp: manager_ok_def chan_free_def)
  show ?thesis
  proof (cases u)
    case (DReturned msg r)
    with assms(4) show ?thesis by (cases r) simp_all
  qed (use assms(4) c in \<open>auto simp: next_keys_nth\<close>)
qed

lemma tstep_taken:
  "tstep m t m' t' \<Longrightarrow> taken t' = None \<or> taken t' = taken t \<or>
     (\<exists>ch cid. taken t' = Some ch \<and> map_of (sm_pending m) cid = Some ch)"
  by (induction rule: tstep.induct) (auto dest!: sm_take_SomeD)

lemma tstep_owned:
  "tstep m t m' t' \<Longrightarrow> owned t' = None \<or> owned t' = owned t \<or> owned t' = Some (length (sm_chans m))"
  by (induction rule: tstep.induct) (auto dest!: registerPending_eq)

lemma apart_update:
  assumes "apart f ts" and "i < length ts"
    and "\<And>j ch. j < length ts \<Longrightarrow> j \<noteq> i \<Longrightarrow> f (ts ! j) = Some ch \<Longrightarrow> f t' \<noteq> Some ch"
  shows "apart f (ts[i := t'])"
  unfolding apart_def
proof (intro allI impI)
  fix j k ch
  assume "j < length (ts[i := t'])" "k < length (ts[i := t'])"
    "f (ts[i := t'] ! j) = Some ch" "f (ts[i := t'] ! k) = Some ch"
  then show "j = k"
    using assms(1,2) assms(3) [of j ch] assms(3) [of k ch]
    by (cases "j = i"; cases "k = i") (auto simp: nth_update apart_def)
qed

text \<open>The pending table after a step: an entry is an old one or the one just made.\<close>

lemma tstep_pending:
  assumes "tstep m t m' t'" and "map_of (sm_pending m') cid = Some ch"
  shows "map_of (sm_pending m) cid = Some ch \<or> owned t' = Some ch"
  using assms
  by (induction rule: tstep.induct)
    (auto simp: manager_op sm_close_chan_def sm_send_chan_def update_conv' delete_conv' simp del: map_of_eq_Some_iff
      dest!: sm_take_NoneD sm_take_SomeD registerPending_eq split: if_splits option.splits)

text \<open>A thread that stops owning a channel leaves no entry for it.\<close>

lemma tstep_disown:
  assumes "tstep m t m' t'" and "manager_ok A ks m" and "thread_ok A ks m t"
    and "owned t = Some ch" and "owned t' \<noteq> Some ch"
  shows "map_of (sm_pending m') cid \<noteq> Some ch"
  using assms
proof (induction rule: tstep.induct)
  case (answered m ch r msg)
  then show ?case using pending_chan [OF answered.prems(1), of cid] by auto
next
  case (was_closed m ch msg)
  then show ?case using pending_chan [OF was_closed.prems(1), of cid] by auto
next
  case (cancel_gone msg m m' ch e)
  then show ?case
    using pending_chan [OF cancel_gone.prems(1), of cid] by (auto dest!: sm_take_NoneD)
next
  case (cancel_take msg m m' c ch e)
  then show ?case
    using pending_chan [OF cancel_take.prems(1), of cid]
    by (auto simp: delete_conv' simp del: map_of_eq_Some_iff dest!: sm_take_SomeD split: if_splits)
qed auto

lemma covered_step:
  assumes "tstep m (ts ! i) m' t'" and "manager_ok A ks m" and "thread_ok A ks m (ts ! i)"
    and "i < length ts" and "covered m ts"
  shows "covered m' (ts[i := t'])"
  unfolding covered_def
proof (intro allI impI)
  fix cid ch assume p: "map_of (sm_pending m') cid = Some ch"
  from tstep_pending [OF assms(1) p] show "\<exists>j < length (ts[i := t']). owned (ts[i := t'] ! j) = Some ch"
  proof
    assume "owned t' = Some ch"
    with assms(4) show ?thesis by (intro exI [of _ i]) simp
  next
    assume "map_of (sm_pending m) cid = Some ch"
    with assms(5) obtain j where j: "j < length ts" "owned (ts ! j) = Some ch"
      unfolding covered_def by blast
    show ?thesis
    proof (cases "j = i")
      case True
      with j tstep_disown [OF assms(1-3), of ch cid] p have "owned t' = Some ch" by auto
      with assms(4) show ?thesis by (intro exI [of _ i]) simp
    next
      case False
      with j show ?thesis by (intro exI [of _ j]) simp
    qed
  qed
qed

theorem dc_inv_step:
  assumes "dc_inv A ks c" and "dstep c c'"
  shows "\<exists>ks'. dc_inv A ks' c'"
  using assms(2)
proof (rule dstepE)
  fix i m' t'
  assume c': "c' = \<lparr>dc_m = m', dc_ts = (dc_ts c)[i := t']\<rparr>" and i: "i < length (dc_ts c)"
    and st: "tstep (dc_m c) (dc_ts c ! i) m' t'"
  let ?m = "dc_m c" and ?ts = "dc_ts c" and ?ks = "next_keys ks (dc_ts c ! i)"
  have m: "manager_ok A ks ?m" and th: "\<And>j. j < length ?ts \<Longrightarrow> thread_ok A ks ?m (?ts ! j)"
    and tk: "apart taken ?ts" and ow: "apart owned ?ts" and cv: "covered ?m ?ts"
    using assms(1) by (auto simp: dc_inv_def)
  have "manager_ok A ?ks m'" using tstep_manager [OF st m th [OF i]] .
  moreover have "thread_ok A ?ks m' ((?ts[i := t']) ! j)" if j: "j < length ?ts" for j
  proof (cases "j = i")
    case True
    with tstep_thread [OF st m th [OF i]] j show ?thesis by simp
  next
    case False
    have "taken (?ts ! j) = None \<or> taken (?ts ! j) \<noteq> taken (?ts ! i)"
      using tk i j False unfolding apart_def by (metis not_None_eq)
    from thread_frame [OF st m th [OF i] th [OF j] this] False show ?thesis by simp
  qed
  moreover have "apart taken (?ts[i := t'])"
  proof (rule apart_update [OF tk i])
    fix j ch assume j: "j < length ?ts" "j \<noteq> i" "taken (?ts ! j) = Some ch"
    then have "taken (?ts ! i) \<noteq> Some ch" using tk i unfolding apart_def by metis
    moreover have "\<forall>cid. map_of (sm_pending ?m) cid \<noteq> Some ch"
      using thread_taken [OF th [OF j(1)] j(3)] by (simp add: chan_free_def)
    ultimately show "taken t' \<noteq> Some ch" using tstep_taken [OF st] by auto
  qed
  moreover have "apart owned (?ts[i := t'])"
  proof (rule apart_update [OF ow i])
    fix j ch assume j: "j < length ?ts" "j \<noteq> i" "owned (?ts ! j) = Some ch"
    then have "owned (?ts ! i) \<noteq> Some ch" using ow i unfolding apart_def by metis
    moreover have "ch < length (sm_chans ?m)"
      using thread_owned [OF th [OF j(1)] j(3)] m by (simp add: manager_ok_def)
    ultimately show "owned t' \<noteq> Some ch" using tstep_owned [OF st] by auto
  qed
  moreover have "covered m' (?ts[i := t'])" by (rule covered_step [OF st m th [OF i] i cv])
  ultimately show ?thesis by (auto simp: dc_inv_def c')
qed

section \<open>Runs\<close>

definition dc_reach :: "dthread list \<Rightarrow> dconf \<Rightarrow> bool" where
  "dc_reach ts c \<longleftrightarrow> (\<forall>t \<in> set ts. starting t) \<and> rtranclp dstep (dc_start ts) c"

definition answers :: "dthread list \<Rightarrow> message set" where
  "answers ts = {r. RCall r \<in> set ts}"

lemma dc_inv_start: "\<forall>t \<in> set ts. starting t \<Longrightarrow> dc_inv (answers ts) [] (dc_start ts)"
proof -
  assume s: "\<forall>t \<in> set ts. starting t"
  then have n: "owned (ts ! i) = None \<and> taken (ts ! i) = None" if "i < length ts" for i
    using that by (cases "ts ! i") (auto dest!: nth_mem)
  moreover have "thread_ok (answers ts) [] newSessionManager (ts ! i)" if "i < length ts" for i
    using s that by (cases "ts ! i") (auto simp: answers_def dest!: nth_mem)
  ultimately show ?thesis
    by (auto simp: dc_inv_def dc_start_def manager_ok_def newSessionManager_def apart_def covered_def)
qed

lemma dc_reach_inv: "dc_reach ts c \<Longrightarrow> \<exists>ks. dc_inv (answers ts) ks c"
proof -
  assume r: "dc_reach ts c"
  then have "rtranclp dstep (dc_start ts) c" by (simp add: dc_reach_def)
  then show ?thesis
  proof (induction rule: rtranclp_induct)
    case base
    then show ?case using r dc_inv_start by (auto simp: dc_reach_def)
  next
    case (step c d)
    then show ?case using dc_inv_step by blast
  qed
qed

text \<open>How many steps a thread has left at most.\<close>

fun steps_left :: "dthread \<Rightarrow> nat" where
  "steps_left (DCall a msg) = 6"
| "steps_left (DReg msg s) = 5"
| "steps_left (DSend msg ch) = 4"
| "steps_left (DWait msg ch) = 3"
| "steps_left (DCancel msg ch e) = 2"
| "steps_left (DClosing msg ch e) = 1"
| "steps_left (RCall r) = 3"
| "steps_left (RSending r ch) = 2"
| "steps_left (RClosing r ch) = 1"
| "steps_left (SRegister a s) = 1"
| "steps_left (SUnregister a s) = 1"
| "steps_left _ = 0"

lemma tstep_steps_left: "tstep m t m' t' \<Longrightarrow> steps_left t' < steps_left t"
  by (induction rule: tstep.induct) simp_all

lemma sum_update_less:
  "i < length ts \<Longrightarrow> f t' < f (ts ! i) \<Longrightarrow> sum_list (map f (ts[i := t'])) < sum_list (map (f :: 'a \<Rightarrow> nat) ts)"
  by (induction ts arbitrary: i) (auto split: nat.splits)

lemma dstep_steps_left: "dstep c c' \<Longrightarrow> sum_list (map steps_left (dc_ts c')) < sum_list (map steps_left (dc_ts c))"
  by (erule dstepE) (simp add: sum_update_less tstep_steps_left)

lemma dsteps_left: "(dstep ^^ n) c c' \<Longrightarrow> n + sum_list (map steps_left (dc_ts c')) \<le> sum_list (map steps_left (dc_ts c))"
proof (induction n arbitrary: c')
  case (Suc n)
  then obtain d where "(dstep ^^ n) c d" "dstep d c'" by auto
  with Suc.IH [of d] dstep_steps_left [of d c'] show ?case by simp
qed simp

lemma steps_left_max: "steps_left t \<le> 6"
  by (cases t) auto

lemma not_stuck:
  assumes "thread_ok A ks m t" and "\<not> finished t"
  shows "\<exists>m' t'. tstep m t m' t'"
proof (cases t)
  case (DCall a msg)
  then show ?thesis by (cases "sm_get a m") (auto intro: tstep.intros)
next
  case (DReg msg s)
  then show ?thesis by (metis surj_pair tstep.pend)
next
  case (DCancel msg ch e)
  obtain m' r where "sm_take (m_CommandID msg) m = (m', r)" by fastforce
  with DCancel show ?thesis by (cases r) (auto intro: tstep.intros)
next
  case (RCall r)
  obtain m' c where "sm_take (m_CommandID r) m = (m', c)" by fastforce
  with RCall show ?thesis by (cases c) (auto intro: tstep.intros)
next
  case (RSending r ch)
  with assms(1) have "\<exists>m'. sm_send_chan ch r m = Some m'" by (simp add: sm_send_free)
  with RSending show ?thesis by (auto intro: tstep.intros)
qed (use assms(2) in \<open>auto intro: tstep.intros\<close>)

section \<open>Commands with identifiers of their own\<close>

text \<open>
  If no two dispatches use the same command identifier, a waiting dispatch has its entry in the
  table, or a reader is about to write its answer, or the answer is in the channel.
\<close>

definition distinct_commands :: "dthread list \<Rightarrow> bool" where
  "distinct_commands ts \<longleftrightarrow> (\<forall>i < length ts. \<forall>j < length ts. \<forall>a b.
     commands (ts ! i) = Some a \<longrightarrow> commands (ts ! j) = Some b \<longrightarrow> m_CommandID a = m_CommandID b \<longrightarrow> i = j)"

definition awaited :: "session_manager \<Rightarrow> dthread list \<Rightarrow> message \<Rightarrow> nat \<Rightarrow> bool" where
  "awaited m ts msg ch \<longleftrightarrow> map_of (sm_pending m) (m_CommandID msg) = Some ch \<or>
     (\<exists>r. RSending r ch \<in> set ts) \<or> ch_buf (sm_chan m ch) \<noteq> None"

fun waits :: "session_manager \<Rightarrow> dthread list \<Rightarrow> dthread \<Rightarrow> bool" where
  "waits m ts (DSend msg ch) \<longleftrightarrow> awaited m ts msg ch"
| "waits m ts (DWait msg ch) \<longleftrightarrow> awaited m ts msg ch"
| "waits m ts _ \<longleftrightarrow> True"

lemma tstep_commands: "tstep m t m' t' \<Longrightarrow> commands t' = commands t"
  by (induction rule: tstep.induct) simp_all

lemma distinct_commands_update:
  "distinct_commands ts \<Longrightarrow> i < length ts \<Longrightarrow> commands t' = commands (ts ! i) \<Longrightarrow>
   distinct_commands (ts[i := t'])"
  unfolding distinct_commands_def by (auto simp: nth_update)

lemma in_set_update: "i < length ts \<Longrightarrow> x \<in> set ts \<Longrightarrow> x \<noteq> ts ! i \<Longrightarrow> x \<in> set (ts[i := t'])"
  by (metis in_set_conv_nth length_list_update nth_list_update_neq)

lemma awaited_frame:
  assumes "tstep m (ts ! i) m' t'" and "manager_ok A ks m" and "thread_ok A ks m (ts ! i)"
    and "i < length ts" and "ch < length ks" and "owned (ts ! i) \<noteq> Some ch"
    and "\<forall>a. commands (ts ! i) = Some a \<longrightarrow> m_CommandID a \<noteq> m_CommandID msg"
    and "awaited m ts msg ch"
  shows "awaited m' (ts[i := t']) msg ch"
proof -
  have len: "length ks = length (sm_chans m)" using assms(2) by (simp add: manager_ok_def)
  have keep: "RSending r ch \<in> set (ts[i := t'])"
    if "RSending r ch \<in> set ts" "RSending r ch \<noteq> ts ! i" for r
    using in_set_update [OF assms(4) that] .
  have new: "t' \<in> set (ts[i := t'])" using assms(4) by (simp add: set_update_memI)
  show ?thesis
    using assms(1,2,3,5-8) len keep new unfolding awaited_def
    by (cases "ts ! i" t' rule: tstep.cases [of m _ m'])
      (auto simp: manager_op sm_close_chan_def sm_send_free update_conv' delete_conv' nth_append nth_update
        simp del: map_of_eq_Some_iff
        dest!: sm_take_NoneD sm_take_SomeD registerPending_eq split: if_splits, blast)
qed

lemma owned_msg:
  "thread_ok A ks m u \<Longrightarrow> owned u = Some ch \<Longrightarrow> ch < length ks \<and> (\<exists>msg. commands u = Some msg)"
  by (cases u) auto

definition dc_waits :: "dconf \<Rightarrow> bool" where
  "dc_waits c \<longleftrightarrow> distinct_commands (dc_ts c) \<and>
     (\<forall>i < length (dc_ts c). waits (dc_m c) (dc_ts c) (dc_ts c ! i))"

lemma waits_other:
  assumes "waits m ts u" and "\<And>msg ch. owned u = Some ch \<Longrightarrow> commands u = Some msg \<Longrightarrow>
      awaited m ts msg ch \<Longrightarrow> awaited m' ts' msg ch"
  shows "waits m' ts' u"
  using assms by (cases u) auto

lemma tstep_waits_self:
  assumes "tstep m (ts ! i) m' t'" and "manager_ok A ks m" and "thread_ok A ks m (ts ! i)"
    and "i < length ts" and "waits m ts (ts ! i)"
  shows "waits m' (ts[i := t']) t'"
proof -
  have keep: "RSending r ch \<in> set (ts[i := t'])"
    if "RSending r ch \<in> set ts" "RSending r ch \<noteq> ts ! i" for r ch
    using in_set_update [OF assms(4) that] .
  show ?thesis
    using assms keep
    by (cases "ts ! i" t' rule: tstep.cases [of m _ m'])
      (auto simp: awaited_def update_conv' simp del: map_of_eq_Some_iff dest!: registerPending_eq)
qed

lemma dc_waits_step:
  assumes "dc_inv A ks c" and "dc_waits c" and "dstep c c'"
  shows "dc_waits c'"
  using assms(3)
proof (rule dstepE)
  fix i m' t'
  assume c': "c' = \<lparr>dc_m = m', dc_ts = (dc_ts c)[i := t']\<rparr>" and i: "i < length (dc_ts c)"
    and st: "tstep (dc_m c) (dc_ts c ! i) m' t'"
  let ?m = "dc_m c" and ?ts = "dc_ts c"
  have m: "manager_ok A ks ?m" and th: "\<And>j. j < length ?ts \<Longrightarrow> thread_ok A ks ?m (?ts ! j)"
    and ow: "apart owned ?ts" and dc: "distinct_commands ?ts"
    and w: "\<And>j. j < length ?ts \<Longrightarrow> waits ?m ?ts (?ts ! j)"
    using assms(1,2) by (auto simp: dc_inv_def dc_waits_def)
  have "waits m' (?ts[i := t']) ((?ts[i := t']) ! j)" if j: "j < length ?ts" for j
  proof (cases "j = i")
    case True
    with tstep_waits_self [OF st m th [OF i] i w [OF i]] i show ?thesis by simp
  next
    case False
    have "waits m' (?ts[i := t']) (?ts ! j)"
    proof (rule waits_other [OF w [OF j]])
      fix msg ch
      assume o: "owned (?ts ! j) = Some ch" and cm: "commands (?ts ! j) = Some msg"
        and aw: "awaited ?m ?ts msg ch"
      have "ch < length ks" using owned_msg [OF th [OF j] o] by simp
      moreover have "owned (?ts ! i) \<noteq> Some ch" using ow i j o False unfolding apart_def by metis
      moreover have "\<forall>a. commands (?ts ! i) = Some a \<longrightarrow> m_CommandID a \<noteq> m_CommandID msg"
        using dc i j cm False unfolding distinct_commands_def by metis
      ultimately show "awaited m' (?ts[i := t']) msg ch"
        by (intro awaited_frame [OF st m th [OF i] i _ _ _ aw])
    qed
    with False show ?thesis by simp
  qed
  moreover have "distinct_commands (?ts[i := t'])"
    by (rule distinct_commands_update [OF dc i tstep_commands [OF st]])
  ultimately show ?thesis by (simp add: dc_waits_def c')
qed

lemma dc_reach_waits:
  assumes "dc_reach ts c" and "distinct_commands ts"
  shows "dc_waits c"
proof -
  have s: "\<forall>t \<in> set ts. starting t" and "rtranclp dstep (dc_start ts) c"
    using assms(1) by (simp_all add: dc_reach_def)
  from this(2) have "dc_waits c \<and> (\<exists>ks. dc_inv (answers ts) ks c)"
  proof (induction rule: rtranclp_induct)
    case base
    have "waits newSessionManager ts (ts ! i)" if "i < length ts" for i
      using s that by (cases "ts ! i") (auto dest!: nth_mem)
    then show ?case using assms(2) dc_inv_start [OF s]
      by (auto simp: dc_waits_def dc_start_def)
  next
    case (step c d)
    then show ?case using dc_waits_step dc_inv_step by blast
  qed
  then show ?thesis by blast
qed

section \<open>A sample run\<close>

text \<open>An agent registers, a command is dispatched to it, the reader delivers the answer.\<close>

definition sample_manager :: "nat gomap \<Rightarrow> channel list \<Rightarrow> session_manager" where
  "sample_manager p cs = newSessionManager
     \<lparr>sm_sessions := [(''pc'', \<lparr>ss_ptr = 1, ss_id = ''pc'', ss_conn = 7\<rparr>)], sm_pending := p, sm_chans := cs\<rparr>"

definition sample_command :: message where
  "sample_command = (new_message ServerExec)\<lparr>m_CommandID := ''cmd-1''\<rparr>"

definition sample_answer :: message where
  "sample_answer = (new_message AgentExecResult)\<lparr>m_CommandID := ''cmd-1'', m_Result := ''ok''\<rparr>"

definition sample_threads :: "dthread list" where
  "sample_threads = [SRegister ''pc'' (newAgentSession 1 7), DCall ''pc'' sample_command, RCall sample_answer]"

lemma dstep_at:
  "tstep m t m' t' \<Longrightarrow> dstep \<lparr>dc_m = m, dc_ts = as @ t # bs\<rparr> \<lparr>dc_m = m', dc_ts = as @ t' # bs\<rparr>"
  using dstep.step [of "length as" "\<lparr>dc_m = m, dc_ts = as @ t # bs\<rparr>" m' t'] by simp

lemma dc_reach_step:
  "dc_reach ts \<lparr>dc_m = m, dc_ts = as @ t # bs\<rparr> \<Longrightarrow> tstep m t m' t' \<Longrightarrow>
   dc_reach ts \<lparr>dc_m = m', dc_ts = as @ t' # bs\<rparr>"
  unfolding dc_reach_def using dstep_at rtranclp.rtrancl_into_rtrancl by metis

lemmas reach0 = dc_reach_step [where as = "[]", simplified]
lemmas reach1 = dc_reach_step [where as = "[a]" for a, simplified]
lemmas reach2 = dc_reach_step [where as = "[a, b]" for a b, simplified]

lemma sample_waiting:
  "dc_reach sample_threads
     \<lparr>dc_m = sample_manager [] [\<lparr>ch_buf = Some sample_answer, ch_closed = True\<rparr>],
      dc_ts = [SDone, DWait sample_command 0, RReturned sample_answer True]\<rparr>"
proof -
  let ?n = "newAgentSession 1 7" and ?v = "\<lparr>ss_ptr = 1, ss_id = ''pc'', ss_conn = 7\<rparr>"
  let ?e = "\<lparr>ch_buf = None, ch_closed = False\<rparr>"
  have "dc_reach sample_threads \<lparr>dc_m = newSessionManager, dc_ts = sample_threads\<rparr>"
    by (simp add: dc_reach_def dc_start_def sample_threads_def)
  moreover have "tstep newSessionManager (SRegister ''pc'' ?n) (sample_manager [] []) SDone"
    using tstep.register [of newSessionManager "''pc''" ?n]
    by (simp add: sm_register_def newSessionManager_def newAgentSession_def sample_manager_def)
  ultimately have "dc_reach sample_threads \<lparr>dc_m = sample_manager [] [],
      dc_ts = [SDone, DCall ''pc'' sample_command, RCall sample_answer]\<rparr>"
    unfolding sample_threads_def by (rule reach0)
  moreover have "tstep (sample_manager [] []) (DCall ''pc'' sample_command) (sample_manager [] []) (DReg sample_command ?v)"
    by (rule tstep.found) (simp add: sm_get_def sample_manager_def)
  ultimately have "dc_reach sample_threads \<lparr>dc_m = sample_manager [] [],
      dc_ts = [SDone, DReg sample_command ?v, RCall sample_answer]\<rparr>" by (rule reach1)
  moreover have "tstep (sample_manager [] []) (DReg sample_command ?v)
      (sample_manager [(''cmd-1'', 0)] [?e]) (DSend sample_command 0)"
    by (rule tstep.pend) (simp add: sm_registerPending_def sample_manager_def sample_command_def newSessionManager_def)
  ultimately have "dc_reach sample_threads \<lparr>dc_m = sample_manager [(''cmd-1'', 0)] [?e],
      dc_ts = [SDone, DSend sample_command 0, RCall sample_answer]\<rparr>" by (rule reach1)
  from reach1 [OF this tstep.sent] have "dc_reach sample_threads \<lparr>dc_m = sample_manager [(''cmd-1'', 0)] [?e],
      dc_ts = [SDone, DWait sample_command 0, RCall sample_answer]\<rparr>" .
  moreover have "tstep (sample_manager [(''cmd-1'', 0)] [?e]) (RCall sample_answer)
      (sample_manager [] [?e]) (RSending sample_answer 0)"
    by (rule tstep.resolve_take) (simp add: sm_take_def sample_manager_def sample_answer_def)
  ultimately have "dc_reach sample_threads \<lparr>dc_m = sample_manager [] [?e],
      dc_ts = [SDone, DWait sample_command 0, RSending sample_answer 0]\<rparr>" by (rule reach2)
  moreover have "tstep (sample_manager [] [?e]) (RSending sample_answer 0)
      (sample_manager [] [?e\<lparr>ch_buf := Some sample_answer\<rparr>]) (RClosing sample_answer 0)"
    by (rule tstep.resolve_send) (simp add: sm_send_chan_def sample_manager_def)
  ultimately have "dc_reach sample_threads \<lparr>dc_m = sample_manager [] [?e\<lparr>ch_buf := Some sample_answer\<rparr>],
      dc_ts = [SDone, DWait sample_command 0, RClosing sample_answer 0]\<rparr>" by (rule reach2)
  from reach2 [OF this tstep.resolve_close] show ?thesis
    by (simp add: sm_close_chan_def sample_manager_def)
qed

lemma sample_done:
  "dc_reach sample_threads
     \<lparr>dc_m = sample_manager [] [\<lparr>ch_buf = None, ch_closed = True\<rparr>],
      dc_ts = [SDone, DReturned sample_command (Inr sample_answer), RReturned sample_answer True]\<rparr>"
proof -
  have "tstep (sample_manager [] [\<lparr>ch_buf = Some sample_answer, ch_closed = True\<rparr>]) (DWait sample_command 0)
     (sample_manager [] [\<lparr>ch_buf = None, ch_closed = True\<rparr>]) (DReturned sample_command (Inr sample_answer))"
    using tstep.answered [of "sample_manager [] [\<lparr>ch_buf = Some sample_answer, ch_closed = True\<rparr>]" 0 sample_answer sample_command]
    by (simp add: sample_manager_def)
  from reach1 [OF sample_waiting this] show ?thesis .
qed

section \<open>Properties\<close>

text \<open>
  Property C6. Whatever calls of dispatch, resolvePending, register and unregister run
  concurrently, no channel is ever closed twice or written after it was closed, and no
  goroutine is stuck: each one that has not returned can take its next step.
\<close>

theorem dispatch_never_stuck:
  assumes "dc_reach ts c"
  shows "\<not> sm_panic (dc_m c) \<and>
    (\<forall>t \<in> set (dc_ts c). \<not> finished t \<longrightarrow> (\<exists>m' t'. tstep (dc_m c) t m' t'))"
proof -
  obtain ks where inv: "dc_inv (answers ts) ks c" using dc_reach_inv [OF assms] by blast
  then have "thread_ok (answers ts) ks (dc_m c) t" if "t \<in> set (dc_ts c)" for t
    using that by (auto simp: dc_inv_def in_set_conv_nth)
  moreover have "\<not> sm_panic (dc_m c)" using inv by (simp add: dc_inv_def manager_ok_def)
  ultimately show ?thesis using not_stuck by blast
qed

theorem dispatch_never_stuck_witness:
  "\<exists>m' t'. tstep (sample_manager [] [\<lparr>ch_buf = Some sample_answer, ch_closed = True\<rparr>])
     (DWait sample_command 0) m' t'"
  using dispatch_never_stuck [OF sample_waiting] by simp

text \<open>
  Every run ends: with \<open>n\<close> goroutines there are at most \<open>6 n\<close> steps.
\<close>

theorem dispatch_runs_end:
  assumes "(dstep ^^ n) (dc_start ts) c"
  shows "n \<le> 6 * length ts"
proof -
  have "sum_list (map steps_left ts) \<le> 6 * length ts"
    by (induction ts) (auto intro: add_mono steps_left_max)
  with dsteps_left [OF assms] show ?thesis by (simp add: dc_start_def)
qed

theorem dispatch_runs_end_witness:
  "\<exists>n c. (dstep ^^ n) (dc_start sample_threads) c \<and> n \<le> 18 \<and>
     (\<forall>t \<in> set (dc_ts c). finished t)"
proof -
  obtain n where n: "(dstep ^^ n) (dc_start sample_threads)
     \<lparr>dc_m = sample_manager [] [\<lparr>ch_buf = None, ch_closed = True\<rparr>],
      dc_ts = [SDone, DReturned sample_command (Inr sample_answer), RReturned sample_answer True]\<rparr>"
    using sample_done unfolding dc_reach_def by (metis rtranclp_imp_relpowp)
  have "n \<le> 18" using dispatch_runs_end [OF n] by (simp add: sample_threads_def)
  with n show ?thesis by fastforce
qed

text \<open>
  Property C10. An answer that dispatch returns carries the identifier of the command it
  sent, and is one that the reader of some agent session received.
\<close>

theorem dispatch_answer_matches:
  assumes "dc_reach ts c" and "DReturned msg (Inr r) \<in> set (dc_ts c)"
  shows "m_CommandID r = m_CommandID msg \<and> RCall r \<in> set ts"
proof -
  obtain ks where "dc_inv (answers ts) ks c" using dc_reach_inv [OF assms(1)] by blast
  with assms(2) have "thread_ok (answers ts) ks (dc_m c) (DReturned msg (Inr r))"
    by (auto simp: dc_inv_def in_set_conv_nth)
  then show ?thesis by (simp add: answers_def)
qed

theorem dispatch_answer_matches_witness:
  "m_CommandID sample_answer = m_CommandID sample_command \<and> RCall sample_answer \<in> set sample_threads"
  by (rule dispatch_answer_matches [OF sample_done]) simp

text \<open>
  No entry of the table of pending commands is left behind: when all calls have
  returned, on whatever path, the table is empty.
\<close>

theorem dispatch_no_leak:
  assumes "dc_reach ts c" and "\<forall>t \<in> set (dc_ts c). finished t"
  shows "sm_pending (dc_m c) = []"
proof -
  obtain ks where "dc_inv (answers ts) ks c" using dc_reach_inv [OF assms(1)] by blast
  then have cv: "covered (dc_m c) (dc_ts c)" by (simp add: dc_inv_def)
  have "owned t = None" if "t \<in> set (dc_ts c)" for t
    using assms(2) that by (cases t) auto
  with cv have "map_of (sm_pending (dc_m c)) cid = None" for cid
    unfolding covered_def by (metis not_None_eq nth_mem option.distinct(1))
  then show ?thesis by (metis list.exhaust map_of_Cons_code(2) option.distinct(1) prod.exhaust)
qed

theorem dispatch_no_leak_witness:
  "sm_pending (sample_manager [] [\<lparr>ch_buf = None, ch_closed = True\<rparr>]) = []"
  using dispatch_no_leak [OF sample_done] by simp

text \<open>
  If the command identifiers are distinct, a dispatch that waits is never
  cancelled by somebody else: when its channel is closed, the answer is in it.
\<close>

theorem dispatch_not_cancelled:
  assumes "dc_reach ts c" and "distinct_commands ts" and "DWait msg ch \<in> set (dc_ts c)"
    and "ch_closed (sm_chan (dc_m c) ch)"
  shows "ch_buf (sm_chan (dc_m c) ch) \<noteq> None"
proof -
  obtain ks where inv: "dc_inv (answers ts) ks c" using dc_reach_inv [OF assms(1)] by blast
  then have m: "manager_ok (answers ts) ks (dc_m c)"
    and th: "thread_ok (answers ts) ks (dc_m c) t" if "t \<in> set (dc_ts c)" for t
    using that assms(3) by (auto simp: dc_inv_def in_set_conv_nth)
  have "awaited (dc_m c) (dc_ts c) msg ch"
    using dc_reach_waits [OF assms(1,2)] assms(3) unfolding dc_waits_def
    by (metis in_set_conv_nth waits.simps(2))
  then show ?thesis
    using pending_chan [OF m [OF assms(3)]] th assms(4) unfolding awaited_def
    by (force simp: chan_free_def)
qed

theorem dispatch_not_cancelled_witness:
  "ch_buf (sm_chan (sample_manager [] [\<lparr>ch_buf = Some sample_answer, ch_closed = True\<rparr>]) 0) \<noteq> None"
proof -
  have "distinct_commands sample_threads"
    by (auto simp: distinct_commands_def sample_threads_def less_Suc_eq numeral_3_eq_3)
  from dispatch_not_cancelled [OF sample_waiting this, of sample_command 0] show ?thesis
    by (simp add: sample_manager_def)
qed

end
