(* ===== verification/Process_Lock.thy ===== *)
theory Process_Lock
  imports Storage
begin

text \<open>
  server/lock.go: the lock file that keeps a second server from starting. First the functions,
  with the outcome of every system call in the record \<open>lock_env\<close>, one per attempt, and what
  other processes do to the file between two attempts. Then several processes at once, one
  system call per step, on a file system that refuses to remove an open file (Windows, for
  which the program is built) or does not (POSIX). The open file of a ProcessLock is the handle
  of these steps; the functions only see that Release closes it before it removes the path.
\<close>

record process_lock =
  pl_path :: string

record lock_env =
  le_open :: "go_error option" \<comment> \<open>an error of OpenFile other than "exists"\<close>
  le_read :: "go_error option" \<comment> \<open>an error of ReadFile other than "does not exist"\<close>
  le_write :: "go_error option"
  le_remove :: "go_error option" \<comment> \<open>an error of Remove other than "does not exist"\<close>
  le_tasklist :: "int \<Rightarrow> string result" \<comment> \<open>the output of tasklist for a process identifier\<close>
  le_others :: "disk \<Rightarrow> disk"

definition processRunning :: "lock_env \<Rightarrow> int \<Rightarrow> bool result" where
  "processRunning v pid =
     (case le_tasklist v pid of
        Inl e \<Rightarrow> Inl e
      | Inr output \<Rightarrow>
          (let line = TrimSpace (TrimSpace output) in
           if line = [] then Inr False
           else if Contains (ToLower line) ''no tasks are running'' then Inr False
           else Inr (Contains line ([CHR 0x22] @ Itoa pid @ [CHR 0x22]))))"

definition lock_remove :: "lock_env \<Rightarrow> string \<Rightarrow> disk \<Rightarrow> disk \<times> go_error option" where
  "lock_remove v path fs = (case le_remove v of Some e \<Rightarrow> (fs, Some e) | None \<Rightarrow> (fs(path := None), None))"

text \<open>The two places that remove the file accept that it is already gone.\<close>

definition removeIfStale :: "lock_env \<Rightarrow> string \<Rightarrow> disk \<Rightarrow> disk \<times> bool result" where
  "removeIfStale v path fs =
     (let removal = (case lock_remove v path fs of
             (fs', Some e) \<Rightarrow> (if \<not> is_not_exist e then (fs', Inl e) else (fs', Inr True))
           | (fs', None) \<Rightarrow> (fs', Inr True))
      in case (case le_read v of Some e \<Rightarrow> Inl e | None \<Rightarrow> read_file path fs) of
           Inl e \<Rightarrow> (fs, if is_not_exist e then Inr False else Inl e)
         | Inr d \<Rightarrow>
             (case Atoi (TrimSpace d) of
                None \<Rightarrow> removal
              | Some pid \<Rightarrow>
                  (case processRunning v pid of
                     Inl e \<Rightarrow> (fs, Inl e)
                   | Inr True \<Rightarrow> (fs, Inr False)
                   | Inr False \<Rightarrow> removal)))"

text \<open>
  The recursion after a stale file ends only if other processes let it: one attempt per element
  of the list, \<open>None\<close> when the list runs out.
\<close>

fun AcquireProcessLock :: "lock_env list \<Rightarrow> int \<Rightarrow> string \<Rightarrow> disk \<Rightarrow> (disk \<times> process_lock result) option" where
  "AcquireProcessLock [] pid path fs = None"
| "AcquireProcessLock (v # vs) pid path fs =
     (case le_open v of
        Some e \<Rightarrow> Some (fs, Inl e)
      | None \<Rightarrow>
          (if fs path \<noteq> None
           then case removeIfStale v path fs of
                  (fs', Inl e) \<Rightarrow> Some (fs', Inl e)
                | (fs', Inr True) \<Rightarrow> AcquireProcessLock vs pid path (le_others v fs')
                | (fs', Inr False) \<Rightarrow>
                    Some (fs', Inl (Errorf (''server already running (lock: '' @ path @ '')'')))
           else case le_write v of
                  Some e \<Rightarrow> Some (fst (lock_remove v path (fs(path := Some []))), Inl e)
                | None \<Rightarrow> Some (fs(path := Some (Itoa pid)), Inr \<lparr>pl_path = path\<rparr>)))"

definition lock_Release :: "lock_env \<Rightarrow> process_lock option \<Rightarrow> disk \<Rightarrow> disk" where
  "lock_Release v l fs =
     (case l of
        None \<Rightarrow> fs
      | Some p \<Rightarrow> (if pl_path p \<noteq> [] then fst (lock_remove v (pl_path p) fs) else fs))"

text \<open>System calls that succeed, and nobody else at the file.\<close>

definition calm :: "(int \<Rightarrow> string result) \<Rightarrow> lock_env" where
  "calm tasks = \<lparr>le_open = None, le_read = None, le_write = None, le_remove = None,
     le_tasklist = tasks, le_others = (\<lambda>fs. fs)\<rparr>"

lemma calm_simps [simp]:
  "le_open (calm t) = None" "le_read (calm t) = None" "le_write (calm t) = None"
  "le_remove (calm t) = None" "le_tasklist (calm t) = t" "le_others (calm t) = (\<lambda>fs. fs)"
  by (simp_all add: calm_def)

definition reports_running :: "(int \<Rightarrow> string result) \<Rightarrow> int \<Rightarrow> bool" where
  "reports_running tasks pid \<longleftrightarrow> processRunning (calm tasks) pid = Inr True"

definition reports_gone :: "(int \<Rightarrow> string result) \<Rightarrow> int \<Rightarrow> bool" where
  "reports_gone tasks pid \<longleftrightarrow> processRunning (calm tasks) pid = Inr False"

text \<open>The text of a process identifier has no white space around it.\<close>

lemma seq_len_hd: "list_all (\<lambda>q. q \<noteq> [] \<and> hd q \<noteq> c) qs \<Longrightarrow> seq_len qs (c # s) = 0"
  by (induction qs) (auto simp: HasPrefix_def neq_Nil_conv)

lemma spaces_no_digits:
  "list_all (\<lambda>q. q \<noteq> [] \<and> digit_of (hd q) = None) space_seqs"
  "list_all (\<lambda>q. q \<noteq> [] \<and> digit_of (hd q) = None) (map rev space_seqs)"
  by code_simp+

lemma digit_no_space:
  assumes "d < 10"
  shows "seq_len space_seqs (digit_char d # s) = 0" "seq_len (map rev space_seqs) (digit_char d # s) = 0"
proof -
  have "list_all (\<lambda>q. q \<noteq> [] \<and> hd q \<noteq> digit_char d) qs"
    if "list_all (\<lambda>q. q \<noteq> [] \<and> digit_of (hd q) = None) qs" for qs
    using that digit_of_digit_char [OF assms] by (induction qs) auto
  with spaces_no_digits show "seq_len space_seqs (digit_char d # s) = 0"
    "seq_len (map rev space_seqs) (digit_char d # s) = 0"
    by (simp_all add: seq_len_hd)
qed

lemma nat_digits_hd: "\<exists>d < 10. \<exists>s. nat_digits n = digit_char d # s"
proof (induction n rule: nat_digits.induct)
  case (1 n)
  show ?case
  proof (cases "n < 10")
    case True
    then show ?thesis by (auto simp: nat_digits.simps [of n])
  next
    case False
    with 1 obtain d s where "d < 10" "nat_digits (n div 10) = digit_char d # s" by auto
    with False show ?thesis by (auto simp: nat_digits.simps [of n])
  qed
qed

lemma nat_digits_last: "\<exists>d < 10. \<exists>s. rev (nat_digits n) = digit_char d # s"
  by (cases "n < 10") (auto simp: nat_digits.simps [of n] intro!: exI [of _ "n mod 10"])

lemma TrimSpace_Itoa: "0 \<le> v \<Longrightarrow> TrimSpace (Itoa v) = Itoa v"
proof -
  assume "0 \<le> v"
  obtain d s where "d < 10" "nat_digits (nat v) = digit_char d # s" using nat_digits_hd by blast
  then have h: "trim_head space_seqs (nat_digits (nat v)) = nat_digits (nat v)"
    by (simp add: trim_head_fix digit_no_space)
  obtain d s where "d < 10" "rev (nat_digits (nat v)) = digit_char d # s" using nat_digits_last by blast
  then have "trim_head (map rev space_seqs) (rev (nat_digits (nat v))) = rev (nat_digits (nat v))"
    by (simp add: trim_head_fix digit_no_space)
  with h \<open>0 \<le> v\<close> show ?thesis by (simp add: Itoa_def TrimSpace_def)
qed

lemma lock_content: "0 \<le> pid \<Longrightarrow> int64 pid \<Longrightarrow> Atoi (TrimSpace (Itoa pid)) = Some pid"
  by (simp add: TrimSpace_Itoa Atoi_Itoa)

lemma acquire_free:
  "fs path = None \<Longrightarrow> AcquireProcessLock (calm t # vs) pid path fs =
     Some (fs(path := Some (Itoa pid)), Inr \<lparr>pl_path = path\<rparr>)"
  by simp

lemma acquire_running:
  "fs path = Some d \<Longrightarrow> Atoi (TrimSpace d) = Some p \<Longrightarrow> reports_running t p \<Longrightarrow>
   AcquireProcessLock (calm t # vs) pid path fs =
     Some (fs, Inl (Errorf (''server already running (lock: '' @ path @ '')'')))"
  by (simp add: removeIfStale_def read_file_def reports_running_def)

lemma acquire_stale:
  "fs path = Some d \<Longrightarrow> Atoi (TrimSpace d) = None \<or> (\<exists>p. Atoi (TrimSpace d) = Some p \<and> reports_gone t p) \<Longrightarrow>
   AcquireProcessLock (calm t # calm t' # vs) pid path fs =
     Some (fs(path := Some (Itoa pid)), Inr \<lparr>pl_path = path\<rparr>)"
  by (auto simp: removeIfStale_def read_file_def reports_gone_def lock_remove_def)

section \<open>Several processes\<close>

text \<open>
  A process is the point it has reached in AcquireProcessLock or Release. The file is a pair of
  the identity of the file object and its content: a process that writes through its handle
  writes to the object it opened, even if the path names another one by then. What tasklist
  says is left open: a readable identifier may be judged running or gone. A process may die at
  any point; that closes its handle and leaves the file.
\<close>

datatype lproc =
    LStart int
  | LExists int
  | LRead int string
  | LStale int
  | LCreated int nat
  | LHolds int nat
  | LClosed int
  | LDone int
  | LDead int

record lconf =
  lc_file :: "(nat \<times> string) option"
  lc_next :: nat
  lc_procs :: "lproc list"

text \<open>The file object a process has open.\<close>

fun handle :: "lproc \<Rightarrow> nat option" where
  "handle (LCreated pid i) = Some i"
| "handle (LHolds pid i) = Some i"
| "handle _ = None"

fun lpid :: "lproc \<Rightarrow> int" where
  "lpid (LStart pid) = pid"
| "lpid (LExists pid) = pid"
| "lpid (LRead pid d) = pid"
| "lpid (LStale pid) = pid"
| "lpid (LCreated pid i) = pid"
| "lpid (LHolds pid i) = pid"
| "lpid (LClosed pid) = pid"
| "lpid (LDone pid) = pid"
| "lpid (LDead pid) = pid"

definition is_open :: "lconf \<Rightarrow> bool" where
  "is_open c \<longleftrightarrow> (case lc_file c of None \<Rightarrow> False | Some (i, d) \<Rightarrow> (\<exists>p \<in> set (lc_procs c). handle p = Some i))"

definition lc_put :: "nat \<Rightarrow> lproc \<Rightarrow> lconf \<Rightarrow> lconf" where
  "lc_put k p c = c\<lparr>lc_procs := (lc_procs c)[k := p]\<rparr>"

text \<open>
  One system call. The flag tells whether the file system removes a file that is open; in every
  state a removal may also fail for another reason.
\<close>

inductive lstep :: "bool \<Rightarrow> lconf \<Rightarrow> lconf \<Rightarrow> bool" for posix where
  create: "k < length (lc_procs c) \<Longrightarrow> lc_procs c ! k = LStart pid \<Longrightarrow> lc_file c = None \<Longrightarrow>
    lstep posix c (lc_put k (LCreated pid (lc_next c))
      (c\<lparr>lc_file := Some (lc_next c, []), lc_next := Suc (lc_next c)\<rparr>))"
| exists: "k < length (lc_procs c) \<Longrightarrow> lc_procs c ! k = LStart pid \<Longrightarrow> lc_file c \<noteq> None \<Longrightarrow>
    lstep posix c (lc_put k (LExists pid) c)"
| read: "k < length (lc_procs c) \<Longrightarrow> lc_procs c ! k = LExists pid \<Longrightarrow> lc_file c = Some (i, d) \<Longrightarrow>
    lstep posix c (lc_put k (LRead pid d) c)"
| read_gone: "k < length (lc_procs c) \<Longrightarrow> lc_procs c ! k = LExists pid \<Longrightarrow> lc_file c = None \<Longrightarrow>
    lstep posix c (lc_put k (LDone pid) c)"
| unreadable: "k < length (lc_procs c) \<Longrightarrow> lc_procs c ! k = LRead pid d \<Longrightarrow> Atoi (TrimSpace d) = None \<Longrightarrow>
    lstep posix c (lc_put k (LStale pid) c)"
| gone: "k < length (lc_procs c) \<Longrightarrow> lc_procs c ! k = LRead pid d \<Longrightarrow> Atoi (TrimSpace d) = Some q \<Longrightarrow>
    lstep posix c (lc_put k (LStale pid) c)"
| running: "k < length (lc_procs c) \<Longrightarrow> lc_procs c ! k = LRead pid d \<Longrightarrow> Atoi (TrimSpace d) = Some q \<Longrightarrow>
    lstep posix c (lc_put k (LDone pid) c)"
| remove: "k < length (lc_procs c) \<Longrightarrow> lc_procs c ! k = LStale pid \<Longrightarrow> posix \<or> \<not> is_open c \<Longrightarrow>
    lstep posix c (lc_put k (LStart pid) (c\<lparr>lc_file := None\<rparr>))"
| remove_failed: "k < length (lc_procs c) \<Longrightarrow> lc_procs c ! k = LStale pid \<Longrightarrow>
    lstep posix c (lc_put k (LDone pid) c)"
| write_pid: "k < length (lc_procs c) \<Longrightarrow> lc_procs c ! k = LCreated pid i \<Longrightarrow>
    lstep posix c (lc_put k (LHolds pid i)
      (c\<lparr>lc_file := (case lc_file c of Some (j, d) \<Rightarrow> Some (j, if j = i then Itoa pid else d) | None \<Rightarrow> None)\<rparr>))"
| write_failed: "k < length (lc_procs c) \<Longrightarrow> lc_procs c ! k = LCreated pid i \<Longrightarrow>
    lstep posix c (lc_put k (LClosed pid) c)"
| release: "k < length (lc_procs c) \<Longrightarrow> lc_procs c ! k = LHolds pid i \<Longrightarrow>
    lstep posix c (lc_put k (LClosed pid) c)"
| release_remove: "k < length (lc_procs c) \<Longrightarrow> lc_procs c ! k = LClosed pid \<Longrightarrow> posix \<or> \<not> is_open c \<Longrightarrow>
    lstep posix c (lc_put k (LDone pid) (c\<lparr>lc_file := None\<rparr>))"
| release_failed: "k < length (lc_procs c) \<Longrightarrow> lc_procs c ! k = LClosed pid \<Longrightarrow>
    lstep posix c (lc_put k (LDone pid) c)"
| die: "k < length (lc_procs c) \<Longrightarrow> lstep posix c (lc_put k (LDead (lpid (lc_procs c ! k))) c)"

definition lock_start :: "(nat \<times> string) option \<Rightarrow> int list \<Rightarrow> lconf" where
  "lock_start f pids = \<lparr>lc_file = f, lc_next = (case f of None \<Rightarrow> 0 | Some (i, d) \<Rightarrow> Suc i), lc_procs = map LStart pids\<rparr>"

definition lock_reach :: "bool \<Rightarrow> (nat \<times> string) option \<Rightarrow> int list \<Rightarrow> lconf \<Rightarrow> bool" where
  "lock_reach posix f pids c \<longleftrightarrow> rtranclp (lstep posix) (lock_start f pids) c"

text \<open>
  The invariant on Windows: a process with an open handle has the object the path names open,
  and it is the only one.
\<close>

definition lock_inv :: "lconf \<Rightarrow> bool" where
  "lock_inv c \<longleftrightarrow>
     (\<forall>k < length (lc_procs c). \<forall>i. handle (lc_procs c ! k) = Some i \<longrightarrow> (\<exists>d. lc_file c = Some (i, d))) \<and>
     (\<forall>k < length (lc_procs c). \<forall>l < length (lc_procs c).
        handle (lc_procs c ! k) \<noteq> None \<longrightarrow> handle (lc_procs c ! l) \<noteq> None \<longrightarrow> k = l)"

lemma lock_inv_put:
  assumes "lock_inv c" and "handle p = None" and "lc_procs c' = lc_procs c"
    and "lc_file c' = lc_file c"
  shows "lock_inv (lc_put k p c')"
  using assms by (auto simp: lock_inv_def lc_put_def nth_update split: if_splits)

lemma lock_inv_removed:
  assumes "lock_inv c" and "\<not> is_open c" and "handle p = None"
  shows "lock_inv (lc_put k p (c\<lparr>lc_file := None\<rparr>))"
proof -
  have "handle (lc_procs c ! l) = None" if l: "l < length (lc_procs c)" for l
  proof (rule ccontr)
    assume "handle (lc_procs c ! l) \<noteq> None"
    then obtain i d where "handle (lc_procs c ! l) = Some i" "lc_file c = Some (i, d)"
      using assms(1) l unfolding lock_inv_def by blast
    with assms(2) l show False by (auto simp: is_open_def)
  qed
  with assms(3) show ?thesis by (auto simp: lock_inv_def lc_put_def nth_update)
qed

lemma lock_inv_same:
  assumes "lock_inv c" and "k < length (lc_procs c)" and "handle p = handle (lc_procs c ! k)"
    and "lc_procs c' = lc_procs c" and "\<And>i d. lc_file c = Some (i, d) \<Longrightarrow> \<exists>d'. lc_file c' = Some (i, d')"
  shows "lock_inv (lc_put k p c')"
proof -
  have h: "handle ((lc_procs c)[k := p] ! j) = handle (lc_procs c ! j)" for j
    using assms(3) by (simp add: nth_update)
  show ?thesis
    unfolding lock_inv_def lc_put_def
    using assms(1,5) by (simp add: h assms(4)) (metis lock_inv_def option.distinct(1))
qed

lemma lock_inv_step:
  assumes "lock_inv c" and "lstep False c c'"
  shows "lock_inv c'"
  using assms(2,1)
proof (induction rule: lstep.induct)
  case (create k c pid)
  then have "handle (lc_procs c ! l) = None" if "l < length (lc_procs c)" for l
    using that by (cases "handle (lc_procs c ! l)") (auto simp: lock_inv_def)
  with create(1) show ?case by (auto simp: lock_inv_def lc_put_def nth_update)
next
  case (write_pid k c pid i)
  then show ?case by (intro lock_inv_same [of c]) (auto split: option.splits)
qed (auto intro: lock_inv_put lock_inv_removed)

lemma lock_reach_inv: "lock_reach False f pids c \<Longrightarrow> lock_inv c"
  unfolding lock_reach_def
proof (induction rule: rtranclp_induct)
  case base
  then show ?case by (simp add: lock_inv_def lock_start_def)
next
  case (step c d)
  then show ?case using lock_inv_step by blast
qed

text \<open>The file names the process that holds the lock.\<close>

definition lock_written :: "lconf \<Rightarrow> bool" where
  "lock_written c \<longleftrightarrow> (\<forall>k < length (lc_procs c). \<forall>pid i.
     lc_procs c ! k = LHolds pid i \<longrightarrow> lc_file c = Some (i, Itoa pid))"

lemma lock_written_put:
  assumes "lock_written c" and "handle p = None" and "lc_procs c' = lc_procs c" and "lc_file c' = lc_file c"
  shows "lock_written (lc_put k p c')"
  unfolding lock_written_def
proof (intro allI impI)
  fix l pid i
  assume l: "l < length (lc_procs (lc_put k p c'))" and h: "lc_procs (lc_put k p c') ! l = LHolds pid i"
  with assms(2,3) have "lc_procs c ! l = LHolds pid i"
    by (auto simp: lc_put_def nth_update split: if_splits)
  with assms l show "lc_file (lc_put k p c') = Some (i, Itoa pid)"
    by (simp add: lock_written_def lc_put_def)
qed

lemma lock_written_alone:
  assumes "lc_procs c' = lc_procs c" and "\<And>l. l < length (lc_procs c) \<Longrightarrow> l \<noteq> k \<Longrightarrow> handle (lc_procs c ! l) = None"
    and "\<And>pid i. p = LHolds pid i \<Longrightarrow> lc_file c' = Some (i, Itoa pid)"
  shows "lock_written (lc_put k p c')"
  unfolding lock_written_def
proof (intro allI impI)
  fix l pid i
  assume l: "l < length (lc_procs (lc_put k p c'))" and h: "lc_procs (lc_put k p c') ! l = LHolds pid i"
  show "lc_file (lc_put k p c') = Some (i, Itoa pid)"
  proof (cases "l = k")
    case True
    with assms(3) [of pid i] l h show ?thesis by (simp add: lc_put_def)
  next
    case False
    with assms(1) assms(2) [of l] l h show ?thesis by (simp add: lc_put_def)
  qed
qed

lemma not_open_no_handle:
  "lock_inv c \<Longrightarrow> \<not> is_open c \<Longrightarrow> l < length (lc_procs c) \<Longrightarrow> handle (lc_procs c ! l) = None"
  by (cases "handle (lc_procs c ! l)") (fastforce simp: lock_inv_def is_open_def)+

lemma no_file_no_handle:
  "lock_inv c \<Longrightarrow> lc_file c = None \<Longrightarrow> l < length (lc_procs c) \<Longrightarrow> handle (lc_procs c ! l) = None"
  by (rule not_open_no_handle) (simp_all add: is_open_def)

lemma lock_written_step:
  assumes "lock_inv c" and "lock_written c" and "lstep False c c'"
  shows "lock_written c'"
  using assms(3,1,2)
proof (induction rule: lstep.induct)
  case (create k c pid)
  then show ?case using no_file_no_handle by (intro lock_written_alone [where c = c]) auto
next
  case (write_pid k c pid i)
  have "handle (lc_procs c ! l) = None" if "l < length (lc_procs c)" "l \<noteq> k" for l
  proof (rule ccontr)
    assume "handle (lc_procs c ! l) \<noteq> None"
    moreover have "handle (lc_procs c ! k) \<noteq> None" using write_pid by simp
    ultimately show False
      using write_pid(1,3) that unfolding lock_inv_def by blast
  qed
  moreover obtain d where "lc_file c = Some (i, d)"
    using write_pid unfolding lock_inv_def by fastforce
  ultimately show ?case by (intro lock_written_alone [where c = c]) auto
next
  case (remove k c pid)
  then show ?case using not_open_no_handle by (intro lock_written_alone [where c = c]) auto
next
  case (release_remove k c pid)
  then show ?case using not_open_no_handle by (intro lock_written_alone [where c = c]) auto
qed (auto intro: lock_written_put)

lemma lock_reach_written: "lock_reach False f pids c \<Longrightarrow> lock_written c"
proof -
  assume "lock_reach False f pids c"
  then have "rtranclp (lstep False) (lock_start f pids) c" by (simp add: lock_reach_def)
  then have "lock_written c \<and> lock_reach False f pids c"
  proof (induction rule: rtranclp_induct)
    case base
    then show ?case by (simp add: lock_written_def lock_start_def lock_reach_def)
  next
    case (step c d)
    then show ?case using lock_written_step [OF lock_reach_inv] unfolding lock_reach_def
      by (meson rtranclp.rtrancl_into_rtrancl)
  qed
  then show ?thesis by simp
qed

section \<open>Properties\<close>

text \<open>
  Property C9. On Windows, in every interleaving, whatever the lock file held before, whatever
  tasklist says and whichever processes die, at most one living process holds the lock, and
  while it does the file names it.
\<close>

theorem lock_exclusion:
  assumes "lock_reach False f pids c"
    and "k < length (lc_procs c)" and "l < length (lc_procs c)"
    and "lc_procs c ! k = LHolds p i" and "lc_procs c ! l = LHolds q j"
  shows "k = l \<and> lc_file c = Some (i, Itoa p)"
proof
  have "handle (lc_procs c ! k) \<noteq> None" "handle (lc_procs c ! l) \<noteq> None" using assms(4,5) by simp_all
  with lock_reach_inv [OF assms(1)] assms(2,3) show "k = l" unfolding lock_inv_def by blast
  from lock_reach_written [OF assms(1)] assms(2,4) show "lc_file c = Some (i, Itoa p)"
    by (simp add: lock_written_def)
qed

theorem lock_exclusion_witness:
  "lc_file \<lparr>lc_file = Some (0, Itoa 42), lc_next = 1, lc_procs = [LHolds 42 0]\<rparr> = Some (0, Itoa 42)"
proof -
  let ?c0 = "lock_start None [42]"
  let ?c1 = "\<lparr>lc_file = Some (0, []), lc_next = 1, lc_procs = [LCreated 42 0]\<rparr>"
  let ?c2 = "\<lparr>lc_file = Some (0, Itoa 42), lc_next = 1, lc_procs = [LHolds 42 0]\<rparr>"
  have "lstep False ?c0 ?c1" using lstep.create [of 0 ?c0 42 False] by (simp add: lock_start_def lc_put_def)
  then have "rtranclp (lstep False) ?c0 ?c1" by (rule r_into_rtranclp)
  also have "lstep False ?c1 ?c2" using lstep.write_pid [of 0 ?c1 42 0 False] by (simp add: lc_put_def)
  finally have "lock_reach False None [42] ?c2" unfolding lock_reach_def .
  from lock_exclusion [OF this, of 0 0 42 0 42 0] show ?thesis by simp
qed

text \<open>
  On a file system that removes open files, two processes can hold the lock: the
  second reads the file between its creation and the write of the identifier, takes the empty
  text for a stale lock, removes the file and creates its own.
\<close>

theorem lock_posix_race:
  "\<exists>c. lock_reach True None [42, 43] c \<and> lc_procs c ! 0 = LHolds 42 0 \<and> lc_procs c ! 1 = LHolds 43 1"
proof -
  let ?c0 = "lock_start None [42, 43]"
  let ?c1 = "\<lparr>lc_file = Some (0, []), lc_next = 1, lc_procs = [LCreated 42 0, LStart 43]\<rparr>"
  let ?c2 = "\<lparr>lc_file = Some (0, []), lc_next = 1, lc_procs = [LCreated 42 0, LExists 43]\<rparr>"
  let ?c3 = "\<lparr>lc_file = Some (0, []), lc_next = 1, lc_procs = [LCreated 42 0, LRead 43 []]\<rparr>"
  let ?c4 = "\<lparr>lc_file = Some (0, []), lc_next = 1, lc_procs = [LCreated 42 0, LStale 43]\<rparr>"
  let ?c5 = "\<lparr>lc_file = None, lc_next = 1, lc_procs = [LCreated 42 0, LStart 43]\<rparr>"
  let ?c6 = "\<lparr>lc_file = Some (1, []), lc_next = 2, lc_procs = [LCreated 42 0, LCreated 43 1]\<rparr>"
  let ?c7 = "\<lparr>lc_file = Some (1, Itoa 43), lc_next = 2, lc_procs = [LCreated 42 0, LHolds 43 1]\<rparr>"
  let ?c8 = "\<lparr>lc_file = Some (1, Itoa 43), lc_next = 2, lc_procs = [LHolds 42 0, LHolds 43 1]\<rparr>"
  have "rtranclp (lstep True) ?c0 ?c0" by simp
  also have "lstep True ?c0 ?c1" using lstep.create [of 0 ?c0 42 True] by (simp add: lock_start_def lc_put_def)
  also have "lstep True ?c1 ?c2" using lstep.exists [of 1 ?c1 43 True] by (simp add: lc_put_def)
  also have "lstep True ?c2 ?c3" using lstep.read [of 1 ?c2 43 0 "[]" True] by (simp add: lc_put_def)
  also have "lstep True ?c3 ?c4" using lstep.unreadable [of 1 ?c3 43 "[]" True] by (simp add: lc_put_def Atoi_def)
  also have "lstep True ?c4 ?c5" using lstep.remove [of 1 ?c4 43 True] by (simp add: lc_put_def)
  also have "lstep True ?c5 ?c6" using lstep.create [of 1 ?c5 43 True] by (simp add: lc_put_def numeral_2_eq_2)
  also have "lstep True ?c6 ?c7" using lstep.write_pid [of 1 ?c6 43 1 True] by (simp add: lc_put_def)
  also have "lstep True ?c7 ?c8" using lstep.write_pid [of 0 ?c7 42 0 True] by (simp add: lc_put_def)
  finally have "lock_reach True None [42, 43] ?c8" unfolding lock_reach_def .
  then show ?thesis by (intro exI [of _ ?c8]) simp
qed

text \<open>
  With nobody else at the file: a server that has the lock keeps a second one out
  as long as tasklist reports its process, once the process is gone the second one gets the
  lock at the second attempt, and a released lock can be taken at the first.
\<close>

theorem lock_handover:
  assumes "0 \<le> p" and "int64 p" and "path \<noteq> []"
    and "AcquireProcessLock (calm t # vs) p path fs = Some (fs1, Inr l)" and "fs path = None"
  shows "(reports_running t' p \<longrightarrow> AcquireProcessLock (calm t' # vs') q path fs1 =
       Some (fs1, Inl (Errorf (''server already running (lock: '' @ path @ '')'')))) \<and>
     (reports_gone t' p \<longrightarrow> AcquireProcessLock (calm t' # calm t'' # vs') q path fs1 =
       Some (fs1(path := Some (Itoa q)), Inr l)) \<and>
     AcquireProcessLock (calm t' # vs') q path (lock_Release (calm t') (Some l) fs1) =
       Some (fs1(path := Some (Itoa q)), Inr l)"
proof -
  have l: "l = \<lparr>pl_path = path\<rparr>" and fs1: "fs1 = fs(path := Some (Itoa p))"
    using assms(4,5) by simp_all
  have d: "fs1 path = Some (Itoa p)" by (simp add: fs1)
  have "lock_Release (calm t') (Some l) fs1 = fs1(path := None)"
    using assms(3) by (simp add: lock_Release_def lock_remove_def l)
  then show ?thesis
    using acquire_running [where fs = fs1 and path = path and d = "Itoa p" and p = p]
      acquire_stale [where fs = fs1 and path = path and d = "Itoa p"] lock_content [OF assms(1,2)] d
    by (auto simp: l)
qed

theorem lock_handover_witness:
  "AcquireProcessLock [calm (\<lambda>p. Inr []), calm (\<lambda>p. Inr [])] 43 ''l'' ((\<lambda>p. None)(''l'' := Some (Itoa 42))) =
     Some ((\<lambda>p. None)(''l'' := Some (Itoa 43)), Inr \<lparr>pl_path = ''l''\<rparr>)"
proof -
  have a: "AcquireProcessLock [calm (\<lambda>p. Inr [])] 42 ''l'' (\<lambda>p. None) =
      Some ((\<lambda>p. None)(''l'' := Some (Itoa 42)), Inr \<lparr>pl_path = ''l''\<rparr>)" by simp
  have g: "reports_gone (\<lambda>p. Inr []) 42" by (simp add: reports_gone_def processRunning_def)
  show ?thesis
    using lock_handover [OF _ _ _ a, of "\<lambda>p. Inr []" "[]" 43 "\<lambda>p. Inr []"] g by (simp add: int64_def)
qed

text \<open>
  If nobody creates the file between the attempts, two attempts are enough:
  AcquireProcessLock returns, whatever the system calls answer.
\<close>

theorem acquire_returns:
  assumes "\<And>fs'. fs' path = None \<Longrightarrow> le_others v fs' path = None"
    and "\<forall>e. le_remove v = Some e \<longrightarrow> \<not> is_not_exist e"
  shows "\<exists>r. AcquireProcessLock (v # w # vs) pid path fs = Some r"
proof (cases "le_open v = None \<and> fs path \<noteq> None")
  case True
  obtain fs' b where r: "removeIfStale v path fs = (fs', b)" by (metis surj_pair)
  show ?thesis
  proof (cases "b = Inr True")
    case True
    with r assms(2) have "fs' path = None"
      by (auto simp: removeIfStale_def lock_remove_def Let_def split: sum.splits option.splits bool.splits if_splits)
    with assms(1) have "le_others v fs' path = None" by blast
    with \<open>le_open v = None \<and> fs path \<noteq> None\<close> True r show ?thesis
      by (auto split: option.splits)
  next
    case False
    with r \<open>le_open v = None \<and> fs path \<noteq> None\<close> show ?thesis by (cases b) auto
  qed
qed (auto split: option.splits)

theorem acquire_returns_witness:
  "\<exists>r. AcquireProcessLock [calm (\<lambda>p. Inr []), calm (\<lambda>p. Inr [])] 43 ''l'' ((\<lambda>p. None)(''l'' := Some [])) = Some r"
  by (rule acquire_returns) simp_all

end
