(* ===== verification/Cli_Plugin.thy ===== *)
theory Cli_Plugin
  imports Cli_World
begin

text \<open>
  cli/plugin.go: the plugin commands, and the packaging of a plugin from a directory or a git
  repository, which is cloned into a temporary directory. What git, the file system and
  core.LoadDynamicPluginPackage do is part of the environment.
\<close>

section \<open>Packaging a source\<close>

definition isGitSource :: "string \<Rightarrow> bool" where
  "isGitSource source \<longleftrightarrow>
     HasPrefix source ''https://'' \<or> HasPrefix source ''http://'' \<or> HasPrefix source ''git@'' \<or>
     HasSuffix source ''.git''"

definition mkdir_temp :: "cli_env \<Rightarrow> string result cli" where
  "mkdir_temp E = State (\<lambda>w.
     case ce_mkdir_temp E (w_temps w) of
       Inl e \<Rightarrow> (Inl e, w)
     | Inr dir \<Rightarrow> (Inr dir, w\<lparr>w_temps := w_temps w @ [dir]\<rparr>))"

definition remove_all :: "string \<Rightarrow> unit cli" where
  "remove_all dir = State (\<lambda>w. ((), w\<lparr>w_temps := removeAll dir (w_temps w)\<rparr>))"

text \<open>The cleanup is the directory that the caller has to remove, if any.\<close>

definition packagePluginSource :: "cli_env \<Rightarrow> string \<Rightarrow> (string option \<times> package result) cli" where
  "packagePluginSource E source0 =
     (let source = TrimSpace source0 in
      if source = [] then return (None, Inl (Errorf ''plugin source is required''))
      else if isGitSource source then do {
        t \<leftarrow> mkdir_temp E;
        case t of
          Inl e \<Rightarrow> return (None, Inl e)
        | Inr tempDir \<Rightarrow>
            (case ce_git_clone E [''clone'', ''--depth'', ''1'', source, tempDir] of
               (text, Some e) \<Rightarrow> do {
                 remove_all tempDir;
                 return (None, Inl (Errorf (''git clone failed: '' @ error_text e @ NL @ TrimSpace text))) }
             | (text, None) \<Rightarrow>
                 (case ce_load E tempDir source of
                    Inl e \<Rightarrow> do { remove_all tempDir; return (None, Inl e) }
                  | Inr pkg \<Rightarrow> return (Some tempDir, Inr pkg))) }
      else return (None,
        case ce_abs E source of
          Inl e \<Rightarrow> Inl e
        | Inr path \<Rightarrow>
            (case ce_is_dir E path of
               Inl e \<Rightarrow> Inl e
             | Inr False \<Rightarrow> Inl (Errorf (''plugin source must be a directory or git URL: '' @ source))
             | Inr True \<Rightarrow> ce_load E path path)))"

text \<open>The deferred call of cleanup at the end of a command.\<close>

definition with_cleanup :: "string option \<Rightarrow> 'a cli \<Rightarrow> 'a cli" where
  "with_cleanup cleanup m =
     (case cleanup of
        None \<Rightarrow> m
      | Some dir \<Rightarrow> do { x \<leftarrow> m; remove_all dir; return x })"

section \<open>The commands\<close>

definition runPluginInstall :: "cli_env \<Rightarrow> client \<Rightarrow> string \<Rightarrow> exit cli" where
  "runPluginInstall E c source = do {
     (cleanup, r) \<leftarrow> packagePluginSource E source;
     with_cleanup cleanup
       (case r of
          Inl e \<Rightarrow> fail_err E e
        | Inr pkg \<Rightarrow> do { a \<leftarrow> ask E (\<lambda>L d. InstallPlugin L d c (Some pkg)); printResult E a }) }"

definition runPluginToggle :: "cli_env \<Rightarrow> client \<Rightarrow> string \<Rightarrow> bool \<Rightarrow> exit cli" where
  "runPluginToggle E c name enabled = do {
     r \<leftarrow> (if enabled then ask E (\<lambda>L d. EnablePlugin L d c name) else ask E (\<lambda>L d. DisablePlugin L d c name));
     printResult E r }"

definition version_row :: "bool \<Rightarrow> manifest \<Rightarrow> string list" where
  "version_row nc p =
     [mf_Version p, if mf_Disabled p then dim nc ''stored'' else green nc ''active'',
      shortChecksum (mf_ChecksumSHA256 p), join '', '' (mf_Permissions p), mf_Source p]"

definition runPluginVersions :: "cli_env \<Rightarrow> client \<Rightarrow> string \<Rightarrow> exit cli" where
  "runPluginVersions E c name = do {
     r \<leftarrow> ask E (\<lambda>L d. ListPluginVersions L d c name);
     case r of
       Inl e \<Rightarrow> fail_err E e
     | Inr versions \<Rightarrow> do {
         fmt_Print (printTable (nocolor E) [''Version'', ''State'', ''Checksum'', ''Permissions'', ''Source'']
           (map (version_row (nocolor E)) versions));
         return (Code 0) } }"

definition runPluginRollback :: "cli_env \<Rightarrow> client \<Rightarrow> string \<Rightarrow> string \<Rightarrow> exit cli" where
  "runPluginRollback E c name version = do {
     r \<leftarrow> ask E (\<lambda>L d. RollbackPlugin L d c name version);
     printResult E r }"

definition runPluginTest :: "cli_env \<Rightarrow> string \<Rightarrow> exit cli" where
  "runPluginTest E source = do {
     (cleanup, r) \<leftarrow> packagePluginSource E source;
     with_cleanup cleanup
       (case r of
          Inl e \<Rightarrow> fail_err E e
        | Inr pkg \<Rightarrow>
            (let mf = pk_Manifest pkg in do {
               fmt_Println (green (nocolor E) ''plugin package is valid'');
               fmt_Print (printTable (nocolor E) [''Field'', ''Value'']
                 [[''Name'', cyan (nocolor E) (mf_Name mf)], [''Version'', mf_Version mf],
                  [''Entry'', mf_Entry mf], [''Shell'', mf_Shell mf],
                  [''Commands'', join '', '' (command_names (ce_lib E) mf)],
                  [''Permissions'', join '', '' (mf_Permissions mf)],
                  [''Checksum'', mf_ChecksumSHA256 mf]]);
               return (Code 0) })) }"

text \<open>The loop of runPluginUpdateAll.\<close>

fun update_each :: "cli_env \<Rightarrow> client \<Rightarrow> manifest list \<Rightarrow> exit \<Rightarrow> exit cli" where
  "update_each E c [] exitCode = return exitCode"
| "update_each E c (p # ps) exitCode =
     (if TrimSpace (mf_Source p) = [] then do {
        err_Println (yellow (nocolor E) ''plugin'' @ '' '' @ mf_Name p @ '' has no source; skipping'');
        update_each E c ps (Code 1) }
      else do {
        fmt_Println (cyan (nocolor E) ''Updating'' @ '' '' @ bold (nocolor E) (mf_Name p) @ '' '' @
          dim (nocolor E) ''from'' @ '' '' @ mf_Source p);
        code \<leftarrow> runPluginInstall E c (mf_Source p);
        update_each E c ps (if code \<noteq> Code 0 then code else exitCode) })"

definition runPluginUpdateAll :: "cli_env \<Rightarrow> client \<Rightarrow> exit cli" where
  "runPluginUpdateAll E c = do {
     r \<leftarrow> ask E (\<lambda>L d. ListPlugins L d c);
     case r of
       Inl e \<Rightarrow> fail_err E e
     | Inr ps \<Rightarrow>
         if ps = [] then do { fmt_Println (dim (nocolor E) ''No plugins installed''); return (Code 0) }
         else update_each E c ps (Code 0) }"

definition enabled_text :: "bool \<Rightarrow> manifest \<Rightarrow> string" where
  "enabled_text nc p = (if mf_Disabled p then yellow nc ''disabled'' else green nc ''enabled'')"

definition plugin_row :: "cli_env \<Rightarrow> manifest \<Rightarrow> string list" where
  "plugin_row E p =
     [cyan (nocolor E) (mf_Name p), mf_Version p, enabled_text (nocolor E) p,
      join '', '' (command_names (ce_lib E) p), shortChecksum (mf_ChecksumSHA256 p), mf_Source p]"

definition runPluginList :: "cli_env \<Rightarrow> client \<Rightarrow> exit cli" where
  "runPluginList E c = do {
     r \<leftarrow> ask E (\<lambda>L d. ListPlugins L d c);
     case r of
       Inl e \<Rightarrow> fail_err E e
     | Inr ps \<Rightarrow>
         if ps = [] then do { fmt_Println (dim (nocolor E) ''No plugins installed''); return (Code 0) }
         else do {
           fmt_Print (printTable (nocolor E)
             [''Plugin'', ''Version'', ''State'', ''Commands'', ''Checksum'', ''Source''] (map (plugin_row E) ps));
           return (Code 0) } }"

definition status_row :: "cli_env \<Rightarrow> manifest \<Rightarrow> string list" where
  "status_row E p =
     [cyan (nocolor E) (mf_Name p), mf_Version p, enabled_text (nocolor E) p,
      join '', '' (command_names (ce_lib E) p)]"

definition runPluginStatus :: "cli_env \<Rightarrow> client \<Rightarrow> string \<Rightarrow> exit cli" where
  "runPluginStatus E c agentID = do {
     r \<leftarrow> ask E (\<lambda>L d. ListPlugins L d c);
     case r of
       Inl e \<Rightarrow> fail_err E e
     | Inr ps \<Rightarrow> do {
         (if ps = [] then fmt_Println (dim (nocolor E) ''No plugins installed on server'')
          else do {
            fmt_Println (bold (nocolor E) ''Server plugins'');
            fmt_Print (printTable (nocolor E) [''Plugin'', ''Version'', ''State'', ''Commands'']
              (map (status_row E) ps)) });
         if TrimSpace agentID = [] then return (Code 0)
         else do {
           a \<leftarrow> ask E (\<lambda>L d. GetAgent L d c agentID);
           case a of
             Inl e \<Rightarrow> fail_err E e
           | Inr (None, commands) \<Rightarrow> return Panic
           | Inr (Some ag, commands) \<Rightarrow> do {
               fmt_Print (NL @ bold (nocolor E) ''Agent'' @ '' '' @ cyan (nocolor E) (e_ID ag) @ '' '' @
                 statusLabel (nocolor E) (e_Status ag) (e_Connected ag) @ NL);
               fmt_Println (bold (nocolor E) ''Commands'');
               print_lines (map (\<lambda>n. ''  '' @ cyan (nocolor E) n) (sort commands));
               return (Code 0) } } } }"

definition printPluginHelp :: "cli_env \<Rightarrow> unit cli" where
  "printPluginHelp E = print_lines (bold (nocolor E) ''Plugin commands'' #
     map (\<lambda>(cmd, rest). ''  '' @ cyan (nocolor E) cmd @ rest)
     [(''trish plugin install'', '' <path-or-git-url>''), (''trish plugin update'', '' <path-or-git-url|all>''),
      (''trish plugin test'', '' <path-or-git-url>''), (''trish plugin list'', []),
      (''trish plugin enable'', '' <name>''), (''trish plugin disable'', '' <name>''),
      (''trish plugin versions'', '' <name>''), (''trish plugin rollback'', '' <name> <version>''),
      (''trish plugin status'', '' [agent-id]''), (''trish plugin info'', '' [agent-id]''),
      (''trish plugin remove'', '' <name>'')])"

text \<open>A command with exactly one argument, or its usage.\<close>

definition one_arg :: "cli_env \<Rightarrow> string list \<Rightarrow> string \<Rightarrow> (string \<Rightarrow> exit cli) \<Rightarrow> exit cli" where
  "one_arg E rest text m = (case rest of [a] \<Rightarrow> m a | _ \<Rightarrow> usage E text)"

definition runPlugin :: "cli_env \<Rightarrow> client \<Rightarrow> string list \<Rightarrow> exit cli" where
  "runPlugin E c args =
     (case args of
        [] \<Rightarrow> do { printPluginHelp E; return (Code 1) }
      | cmd # rest \<Rightarrow>
          if cmd = ''install'' then
            one_arg E rest ''usage: trish plugin install <path-or-git-url>'' (runPluginInstall E c)
          else if cmd = ''update'' then
            one_arg E rest ''usage: trish plugin update <path-or-git-url|all>''
              (\<lambda>a. if a = ''all'' then runPluginUpdateAll E c else runPluginInstall E c a)
          else if cmd = ''list'' then runPluginList E c
          else if cmd = ''enable'' then
            one_arg E rest ''usage: trish plugin enable <name>'' (\<lambda>a. runPluginToggle E c a True)
          else if cmd = ''disable'' then
            one_arg E rest ''usage: trish plugin disable <name>'' (\<lambda>a. runPluginToggle E c a False)
          else if cmd = ''versions'' then
            one_arg E rest ''usage: trish plugin versions <name>'' (runPluginVersions E c)
          else if cmd = ''rollback'' then
            (case rest of
               [name, version] \<Rightarrow> runPluginRollback E c name version
             | _ \<Rightarrow> usage E ''usage: trish plugin rollback <name> <version>'')
          else if cmd = ''test'' then
            one_arg E rest ''usage: trish plugin test <path-or-git-url>'' (runPluginTest E)
          else if cmd \<in> {''remove'', ''uninstall''} then
            one_arg E rest ''usage: trish plugin remove <name>''
              (\<lambda>a. do { r \<leftarrow> ask E (\<lambda>L d. RemovePlugin L d c a); printResult E r })
          else if cmd \<in> {''status'', ''info''} then
            (if length rest > 1 then usage E ''usage: trish plugin status [agent-id]''
             else runPluginStatus E c (case rest of [] \<Rightarrow> [] | a # _ \<Rightarrow> a))
          else if cmd \<in> {''help'', ''-h'', ''--help''} then do { printPluginHelp E; return (Code 0) }
          else do {
            err_Println (red (nocolor E) ''unknown plugin command:'' @ '' '' @ cmd);
            printPluginHelp E;
            return (Code 1) })"

section \<open>Temporary directories\<close>

definition mkdir_ok :: "cli_env \<Rightarrow> bool" where
  "mkdir_ok E \<longleftrightarrow> (\<forall>ds d. ce_mkdir_temp E ds = Inr d \<longrightarrow> d \<notin> set ds)"

text \<open>
  What packaging does to them: a directory is left exactly when the caller is told to remove
  it, and it is a new one.
\<close>

lemma package_temps:
  assumes "mkdir_ok E" and "run_state (packagePluginSource E source) w = ((cleanup, r), w')"
  shows "w' = w\<lparr>w_temps := w_temps w @ (case cleanup of None \<Rightarrow> [] | Some d \<Rightarrow> [d])\<rparr> \<and>
    (\<forall>d. cleanup = Some d \<longrightarrow> d \<notin> set (w_temps w))"
proof (cases "TrimSpace source \<noteq> [] \<and> isGitSource (TrimSpace source)")
  case False
  with assms(2) show ?thesis by (auto simp: packagePluginSource_def Let_def split: if_splits)
next
  case True
  show ?thesis
  proof (cases "ce_mkdir_temp E (w_temps w)")
    case (Inl e)
    with True assms(2) show ?thesis by (auto simp: packagePluginSource_def mkdir_temp_def Let_def)
  next
    case (Inr d)
    then have "removeAll d (w_temps w) = w_temps w" "d \<notin> set (w_temps w)"
      using assms(1) by (auto simp: mkdir_ok_def)
    with Inr True assms(2) show ?thesis
      by (auto simp: packagePluginSource_def mkdir_temp_def remove_all_def Let_def
          split: prod.splits option.splits sum.splits)
  qed
qed

text \<open>The temporary directories are the same before and after.\<close>

definition same_temps :: "world \<Rightarrow> world \<Rightarrow> bool" where
  "same_temps w w' \<longleftrightarrow> w_temps w' = w_temps w"

lemma same_temps_preorder: "preorder_on_worlds same_temps"
  by (simp add: preorder_on_worlds_def same_temps_def)

lemma quiet_same_temps: "keeps quiet m \<Longrightarrow> keeps same_temps m"
  by (simp add: keeps_def quiet_def same_temps_def)

lemmas temps_bind = keeps_bind [OF same_temps_preorder]

lemmas temps_steps = quiet_println [THEN quiet_same_temps] quiet_print [THEN quiet_same_temps]
  quiet_err [THEN quiet_same_temps] quiet_return [THEN quiet_same_temps] quiet_ask [THEN quiet_same_temps]
  quiet_fail_err [THEN quiet_same_temps]

lemma with_cleanup_temps:
  assumes "keeps quiet m" and "d \<notin> set ts" and "w_temps w = ts @ [d]"
  shows "w_temps (snd (run_state (with_cleanup (Some d) m) w)) = ts"
proof -
  have "w_temps (snd (run_state m w)) = ts @ [d]"
    using assms(1,3) by (simp add: keeps_def quiet_def)
  with assms(2) show ?thesis
    by (auto simp: with_cleanup_def remove_all_def removeAll_id split: prod.split)
qed

lemma package_cleanup_temps:
  assumes "mkdir_ok E" and "\<And>r. keeps quiet (m r)"
  shows "keeps same_temps (do { (cleanup, r) \<leftarrow> packagePluginSource E source; with_cleanup cleanup (m r) })"
  unfolding keeps_def
proof
  fix w
  obtain cleanup r w' where run: "run_state (packagePluginSource E source) w = ((cleanup, r), w')"
    by (metis surj_pair)
  note p = package_temps [OF assms(1) run]
  have "w_temps (snd (run_state (with_cleanup cleanup (m r)) w')) = w_temps w"
  proof (cases cleanup)
    case None
    then show ?thesis
      using p assms(2) [of r] by (simp add: with_cleanup_def keeps_def quiet_def)
  next
    case (Some d)
    with p with_cleanup_temps [OF assms(2), of d "w_temps w" w' r] show ?thesis by simp
  qed
  then show "same_temps w (snd (run_state (do { (cleanup, r) \<leftarrow> packagePluginSource E source;
      with_cleanup cleanup (m r) }) w))"
    by (simp add: run same_temps_def)
qed

lemma temps_install: "mkdir_ok E \<Longrightarrow> keeps same_temps (runPluginInstall E c source)"
  and temps_test: "mkdir_ok E \<Longrightarrow> keeps same_temps (runPluginTest E source)"
  unfolding runPluginInstall_def runPluginTest_def
  by (rule package_cleanup_temps; simp add: Let_def quiet_rules split: sum.split)+

lemma temps_update_each: "mkdir_ok E \<Longrightarrow> keeps same_temps (update_each E c ps x)"
  by (induction ps arbitrary: x)
    (auto intro!: temps_bind temps_install temps_steps split: if_splits)

lemma temps_update_all: "mkdir_ok E \<Longrightarrow> keeps same_temps (runPluginUpdateAll E c)"
  unfolding runPluginUpdateAll_def
  by (auto intro!: temps_bind temps_update_each temps_steps split: sum.split if_splits)

lemma quiet_one_arg: "(\<And>a. keeps quiet (m a)) \<Longrightarrow> keeps quiet (one_arg E rest text m)"
  by (auto simp: one_arg_def quiet_usage split: list.split)

lemma temps_one_arg: "(\<And>a. keeps same_temps (m a)) \<Longrightarrow> keeps same_temps (one_arg E rest text m)"
  by (auto simp: one_arg_def quiet_usage quiet_same_temps split: list.split)

lemma quiet_commands:
  "keeps quiet (runPluginToggle E c name b)" "keeps quiet (runPluginVersions E c name)"
  "keeps quiet (runPluginRollback E c name version)" "keeps quiet (runPluginList E c)"
  by (auto simp: runPluginToggle_def runPluginVersions_def runPluginRollback_def runPluginList_def
      intro!: quiet_rules split: sum.split)

lemma quiet_status: "keeps quiet (runPluginStatus E c agentID)"
  unfolding runPluginStatus_def by (auto intro!: quiet_rules split: sum.split option.split)

lemma quiet_help: "keeps quiet (printPluginHelp E)"
  unfolding printPluginHelp_def by (rule quiet_lines)

section \<open>Property\<close>

text \<open>
  No plugin command leaves a temporary directory behind or removes one that it did not make,
  whatever git, the loader and the server answer.
\<close>

theorem plugin_temps_clean:
  assumes "mkdir_ok E"
  shows "w_temps (snd (run_state (runPlugin E c args) w)) = w_temps w"
proof -
  note steps = temps_steps temps_bind temps_one_arg temps_install [OF assms] temps_test [OF assms]
    temps_update_all [OF assms] quiet_commands [THEN quiet_same_temps] quiet_status [THEN quiet_same_temps]
    quiet_help [THEN quiet_same_temps] quiet_usage [THEN quiet_same_temps] quiet_result [THEN quiet_same_temps]
  have "keeps same_temps (runPlugin E c args)"
    unfolding runPlugin_def by (simp add: steps split: list.split)
  then show ?thesis by (simp add: keeps_def same_temps_def)
qed

lemma join_longer: "d \<in> set ds \<Longrightarrow> sep \<noteq> [] \<Longrightarrow> length d < length (join sep (x # ds))"
proof (induction ds arbitrary: x)
  case (Cons a ds)
  have "length a \<le> length (join sep (a # ds))" by (cases ds) simp_all
  moreover have "d \<in> set ds \<Longrightarrow> length d < length (join sep (a # ds))" using Cons.IH Cons.prems(2) by blast
  ultimately have "length d \<le> length (join sep (a # ds))" using Cons.prems(1) by auto
  moreover have "length sep > 0" using Cons.prems(2) by simp
  ultimately show ?case unfolding join.simps length_append by linarith
qed simp

lemma sample_mkdir_ok: "mkdir_ok (sample_cli reply)"
  using join_longer [of _ _ "''/''" "''tmp''"] by (fastforce simp: mkdir_ok_def sample_cli_def)

theorem plugin_temps_clean_witness:
  "w_temps (snd (run_state (runPlugin (sample_cli Inr) sample_client [''install'', ''https://host/p.git''])
     ((sample_world [])\<lparr>w_temps := [''other'']\<rparr>))) = [''other'']"
  unfolding plugin_temps_clean [OF sample_mkdir_ok] by simp

end
