(* ===== verification/Cli_Shell.thy ===== *)
theory Cli_Shell
  imports Cli_Commands Cli_Plugin Gui_Server
begin

text \<open>
  The entry point of package cli and its interactive shell, from cli/terminal.go: the flags
  that may stand anywhere on the command line, the table of commands, and the loop that reads
  lines, completes them with the active agent and runs them as commands of their own.
\<close>

section \<open>Flags\<close>

text \<open>
  fmt.Sscanf with the verb d: white space is skipped but a line feed is an error, then a sign,
  and as many digits as there are; what follows them is ignored.
\<close>

function skip_space :: "string \<Rightarrow> string option" where
  "skip_space s =
     (if s = [] then Some []
      else if hd s = CHR 0x0A then None
      else if seq_len space_seqs s = 0 then Some s
      else skip_space (drop (seq_len space_seqs s) s))"
  by pat_completeness auto
termination
  by (relation "measure length") auto

declare skip_space.simps [simp del]

definition Sscanf_d :: "string \<Rightarrow> int option" where
  "Sscanf_d s =
     (case skip_space s of
        None \<Rightarrow> None
      | Some t \<Rightarrow>
          (let sign = take 1 t; u = (if sign = ''-'' \<or> sign = ''+'' then drop 1 t else t);
               ds = takeWhile (\<lambda>c. digit_of c \<noteq> None) u
           in if ds = [] then None else Atoi ((if sign = ''-'' then ''-'' else []) @ ds)))"

record flags =
  fl_addr :: string
  fl_port :: int
  fl_secret :: "string option" \<comment> \<open>the new value of buildcfg.DefaultAdminSecret, if it is set\<close>
  fl_remaining :: "string list"

definition is_port_flag :: "string \<Rightarrow> bool" where
  "is_port_flag a \<longleftrightarrow> HasPrefix a ''-port='' \<or> HasPrefix a ''--port=''"

definition flag_value :: "string \<Rightarrow> string \<Rightarrow> string" where
  "flag_value name a = (if HasPrefix a (''-'' @ name @ ''='') then TrimPrefix a (''-'' @ name @ ''='')
                        else TrimPrefix a (''--'' @ name @ ''=''))"

text \<open>The loop over the arguments; on an error the secret may have been set before.\<close>

fun parse_flags :: "string list \<Rightarrow> flags \<Rightarrow> flags \<times> go_error option" where
  "parse_flags [] f = (f, None)"
| "parse_flags (a # as) f =
     (if HasPrefix a ''-server='' \<or> HasPrefix a ''--server='' then
        parse_flags as (f\<lparr>fl_addr := flag_value ''server'' a\<rparr>)
      else if is_port_flag a then
        (case Sscanf_d (flag_value ''port'' a) of
           None \<Rightarrow> (f, Some (Errorf (''invalid port flag: '' @ a)))
         | Some n \<Rightarrow> parse_flags as (f\<lparr>fl_port := n\<rparr>))
      else if HasPrefix a ''-admin-secret='' \<or> HasPrefix a ''--admin-secret='' then
        parse_flags as (f\<lparr>fl_secret := Some (flag_value ''admin-secret'' a)\<rparr>)
      else parse_flags as (f\<lparr>fl_remaining := fl_remaining f @ [a]\<rparr>))"

definition default_port :: "string \<Rightarrow> int" where
  "default_port text = (case Atoi (TrimSpace text) of None \<Rightarrow> 9999 | Some n \<Rightarrow> n)"

definition parseCommonFlags :: "cli_env \<Rightarrow> string list \<Rightarrow> flags \<times> go_error option" where
  "parseCommonFlags E args =
     parse_flags args
       \<lparr>fl_addr = ce_server_addr E, fl_port = default_port (ce_server_port E), fl_secret = None, fl_remaining = []\<rparr>"

section \<open>Help\<close>

text \<open>The art of the banner; a tilde stands for the backslash.\<close>

definition banner_lines :: "string list" where
  "banner_lines = map (replace_char (CHR ''~'') [CHR 0x5C])
     [''/####### /######  /####  /######/## /##   /##'',
      ''|__  ##__//##__  ##/##  ##|##_  ##_/ | ##  | ##'',
      ''   | ##  | ##  ~__| ##  | ## ~ ##    | ##  | ##'',
      ''   | ##  | ##   /######/  ##  ~ ##   | ########'',
      ''   | ##  | ##  |__  ##_/  ##  | ##   |_____  ##'',
      ''   | ##  | ##  ~  | ##    ##  | ##         | ##'',
      ''   | ##  |  ######/| ##   /######/         | ##'',
      ''   |__/   ~______/ |__/  |______/          |__/'']"

definition printBanner :: "cli_env \<Rightarrow> unit cli" where
  "printBanner E = print_lines
     (map (cyan (nocolor E)) banner_lines @ [dim (nocolor E) ''Remote administration shell'', []])"

definition printHelp :: "cli_env \<Rightarrow> unit cli" where
  "printHelp E = do {
     printBanner E;
     fmt_Println [];
     fmt_Println (bold (nocolor E) ''Usage'');
     print_lines (map (\<lambda>rest. ''  '' @ cyan (nocolor E) ''trish'' @ '' [-server=HOST] [-port=9999] '' @ rest)
       [''list'', ''info <agent-id>'', ''ping <agent-id>'', ''exec <agent-id> <command> [args...]'',
        ''exec --all <command> [args...]'', ''exec --group <name> <command> [args...]'',
        ''agent <freeze|unfreeze|stop|restart> <agent-id>'',
        ''group <list|create|delete|add|remove-agent|exec> ...'',
        ''tag <agent-id> <list|set|add|remove> ...'',
        ''plugin <install|update|test|list|enable|disable|versions|rollback|status|remove> ...'',
        ''shell'', ''start gui'']) }"

definition printCommandHint :: "cli_env \<Rightarrow> unit cli" where
  "printCommandHint E = print_lines (bold (nocolor E) ''Commands'' #
     map (\<lambda>cmds. ''  '' @ join '' | '' (map (cyan (nocolor E)) cmds))
       [[''list'', ''use <agent>'', ''current'', ''info [agent]'', ''ping [agent]''],
        [''exec [agent] <cmd> [args]'', ''agent <freeze|unfreeze|stop|restart> [agent]''],
        [''exec --all <cmd>'', ''exec --group <name> <cmd>'', ''group <...>'', ''tag <...>''],
        [''plugin <install|update|test|list|enable|disable|versions|rollback|status|remove>''],
        [''start gui'', ''help'', ''exit'']])"

section \<open>The table of commands\<close>

text \<open>
  The switch of Run after the flags, without the shell: the interactive shell is entered when
  nothing is left or the command is shell, which is the case None.
\<close>

definition run_command :: "cli_env \<Rightarrow> client \<Rightarrow> string list \<Rightarrow> exit cli option" where
  "run_command E c remaining =
     (case remaining of
        [] \<Rightarrow> None
      | cmd # rest \<Rightarrow>
          if cmd = ''shell'' then None
          else Some (
            if cmd = ''list'' then runList E c
            else if cmd = ''info'' then
              (case rest of [] \<Rightarrow> fail_with E ''usage: trish info <agent-id>'' | a # _ \<Rightarrow> runInfo E c a)
            else if cmd \<in> {''exec'', ''cmd''} then
              (case rest of
                 a # b # args \<Rightarrow>
                   if a = ''--all'' then runExecAll E c b args
                   else if a = ''--group'' then
                     (case args of
                        [] \<Rightarrow> fail_with E ''usage: trish exec --group <name> <command> [args...]''
                      | command # cargs \<Rightarrow> runExecGroup E c b command cargs)
                   else runExec E c a b args
               | _ \<Rightarrow> fail_with E ''usage: trish exec <agent-id> <command> [args...]'')
            else if cmd = ''ping'' then
              (case rest of [] \<Rightarrow> fail_with E ''usage: trish ping <agent-id>'' | a # _ \<Rightarrow> runPing E c a)
            else if cmd = ''agent'' then
              (case rest of
                 control # a # _ \<Rightarrow> runAgentControl E c control a
               | _ \<Rightarrow> fail_with E ''usage: trish agent <freeze|unfreeze|stop|restart> <agent-id>'')
            else if cmd = ''plugin'' then runPlugin E c rest
            else if cmd = ''group'' then runGroup E c rest
            else if cmd = ''tag'' then runTag E c rest
            else if cmd = ''start'' then
              (case rest of
                 a # args \<Rightarrow> if a = ''gui'' then runGUI E c args else fail_with E ''usage: trish start gui''
               | [] \<Rightarrow> fail_with E ''usage: trish start gui'')
            else if cmd \<in> {''help'', ''-h'', ''--help''} then do { printHelp E; return (Code 0) }
            else do {
              err_Println (''unknown command: '' @ cmd);
              printHelp E;
              return (Code 1) }))"

section \<open>The shell\<close>

text \<open>The Quote of strconv, for the error texts, and EqualFold of package strings.\<close>

record text_lib =
  tl_Quote :: "string \<Rightarrow> string"
  tl_EqualFold :: "string \<Rightarrow> string \<Rightarrow> bool"

definition resolveShellCommand :: "text_lib \<Rightarrow> string list \<Rightarrow> string \<Rightarrow> string list result" where
  "resolveShellCommand T ws active =
     (case ws of
        [] \<Rightarrow> Inr []
      | cmd # rest \<Rightarrow>
          if cmd \<in> {''list'', ''help'', ''exit'', ''quit'', ''shell'', ''start'', ''plugin'', ''group'', ''tag''}
          then Inr ws
          else if cmd \<in> {''info'', ''ping''} then
            (if rest = [] then
               (if active = [] then Inl (Errorf ''no active agent selected'') else Inr [cmd, active])
             else Inr ws)
          else if cmd \<in> {''exec'', ''cmd''} then
            (if active \<noteq> [] then
               (case rest of
                  [] \<Rightarrow> Inl (Errorf ''usage: exec <command> [args...]'')
                | a # args \<Rightarrow>
                    if HasPrefix a ''--'' then Inr ws
                    else if args \<noteq> [] \<and> tl_EqualFold T a active then Inr ws
                    else Inr (''exec'' # active # rest))
             else if length ws \<ge> 3 then Inr ws
             else Inl (Errorf ''usage: exec <agent-id> <command> [args...]''))
          else if cmd = ''agent'' then
            (if length ws \<ge> 3 then Inr ws
             else if active = [] \<or> length ws \<noteq> 2 then
               Inl (Errorf ''usage: agent <freeze|unfreeze|stop|restart> <agent-id>'')
             else Inr [''agent'', hd rest, active])
          else if active = [] then
            Inl (Errorf (''unknown command '' @ tl_Quote T cmd @ '' and no active agent selected''))
          else Inr (''exec'' # active # ws))"

definition shellPrompt :: "cli_env \<Rightarrow> string \<Rightarrow> string" where
  "shellPrompt E active =
     (if active = [] then cyan (nocolor E) ''trish''
      else cyan (nocolor E) ''trish'' @ ''['' @ green (nocolor E) active @ '']'')"

text \<open>What a line asks of the loop: to end, to do nothing more, to change the agent, or a command.\<close>

datatype shell_step = Leave | Skip "string list" string | Submit "string list"

definition shell_line :: "cli_env \<Rightarrow> text_lib \<Rightarrow> string \<Rightarrow> string \<Rightarrow> shell_step + go_error" where
  "shell_line E T active text =
     (let line = TrimSpace text; ws = Fields line in
      if line = [] then Inl (Skip [] active)
      else if line = ''exit'' \<or> line = ''quit'' then Inl Leave
      else if ws = [] then Inl (Skip [] active)
      else if hd ws \<in> {''use'', ''select'', ''switch''} then
        (if length ws \<noteq> 2 then Inl (Skip [yellow (nocolor E) ''usage: use <agent-id>''] active)
         else Inl (Skip [green (nocolor E) ''Active agent:'' @ '' '' @ cyan (nocolor E) (ws ! 1)] (ws ! 1)))
      else if hd ws = ''clear'' then Inl (Skip [dim (nocolor E) ''Active agent cleared''] [])
      else if hd ws = ''current'' then
        (if active = [] then Inl (Skip [yellow (nocolor E) ''No active agent''] active)
         else Inl (Skip [green (nocolor E) ''Active agent:'' @ '' '' @ cyan (nocolor E) active] active))
      else case resolveShellCommand T ws active of
             Inl e \<Rightarrow> Inr e
           | Inr args \<Rightarrow> Inl (Submit args))"

text \<open>Reading a line, which a bufio.Scanner gives up when it is too long, and making a client with the secret of the moment.\<close>

definition scan_line :: "string option cli" where
  "scan_line = State (\<lambda>w.
     case w_stdin w of
       [] \<Rightarrow> (None, w)
     | l # ls \<Rightarrow> (if length l \<ge> 64 * 1024 then (None, w) else (Some l, w\<lparr>w_stdin := ls\<rparr>)))"

definition set_secret :: "string option \<Rightarrow> unit cli" where
  "set_secret s = State (\<lambda>w. ((), case s of None \<Rightarrow> w | Some t \<Rightarrow> w\<lparr>w_secret := t\<rparr>))"

definition new_client :: "cli_env \<Rightarrow> string \<Rightarrow> int \<Rightarrow> client cli" where
  "new_client E addr port = State (\<lambda>w.
     (NewClient (ce_nano E (w_clients w)) (w_secret w) addr port, w\<lparr>w_clients := Suc (w_clients w)\<rparr>))"

definition server_args :: "client \<Rightarrow> string list" where
  "server_args c = [''-server='' @ cl_ServerAddr c, ''-port='' @ Itoa (cl_ServerPort c)]"

definition print_code :: "cli_env \<Rightarrow> int \<Rightarrow> unit cli" where
  "print_code E n =
     (if n \<noteq> 0 then fmt_Println (red (nocolor E) ''command failed with exit code'' @ '' '' @ Itoa n) else return ())"

text \<open>
  The loop of runShell and Run, which call each other. A shell inside a shell reads the lines
  that follow, as it does on a terminal. The first argument bounds the lines that are read and
  the calls that are nested; None means that it was too small.
\<close>

fun shell_loop :: "nat \<Rightarrow> cli_env \<Rightarrow> text_lib \<Rightarrow> client \<Rightarrow> string \<Rightarrow> exit option cli"
and cli_Run :: "nat \<Rightarrow> cli_env \<Rightarrow> text_lib \<Rightarrow> string list \<Rightarrow> exit option cli" where
  "shell_loop 0 E T c active = return None"
| "shell_loop (Suc n) E T c active = do {
     fmt_Print (shellPrompt E active @ ''> '');
     l \<leftarrow> scan_line;
     case l of
       None \<Rightarrow> return (Some (Code 0))
     | Some text \<Rightarrow>
         if TrimSpace text = ''help'' then do { printCommandHint E; shell_loop n E T c active }
         else (case shell_line E T active text of
           Inr e \<Rightarrow> do { err_Println (red (nocolor E) (error_text e)); shell_loop n E T c active }
         | Inl Leave \<Rightarrow> return (Some (Code 0))
         | Inl (Skip ls active') \<Rightarrow> do { print_lines ls; shell_loop n E T c active' }
         | Inl (Submit args) \<Rightarrow> do {
             x \<leftarrow> cli_Run n E T (server_args c @ args);
             case x of
               None \<Rightarrow> return None
             | Some Panic \<Rightarrow> return (Some Panic)
             | Some (Code k) \<Rightarrow> do { print_code E k; shell_loop n E T c active } }) }"
| "cli_Run n E T args =
     (case parseCommonFlags E args of
        (f, Some e) \<Rightarrow> do {
          set_secret (fl_secret f);
          err_Println (error_text e);
          printHelp E;
          return (Some (Code 1)) }
      | (f, None) \<Rightarrow> do {
          set_secret (fl_secret f);
          c \<leftarrow> new_client E (fl_addr f) (fl_port f);
          case run_command E c (fl_remaining f) of
            Some m \<Rightarrow> do { x \<leftarrow> m; return (Some x) }
          | None \<Rightarrow> (case n of
                0 \<Rightarrow> return None
              | Suc k \<Rightarrow> do {
                  printBanner E;
                  printCommandHint E;
                  fmt_Println [];
                  shell_loop k E T c [] }) })"

end
