(* ===== verification/Cli_Laws.thy ===== *)
theory Cli_Laws
  imports Cli_Commands
begin

text \<open>
  What the commands on many agents do: which requests go out, what is printed for them, and
  the exit code.
\<close>

section \<open>The requests of runExecMany\<close>

definition exec_request_to :: "client \<Rightarrow> string \<Rightarrow> string list \<Rightarrow> string \<Rightarrow> core_lib \<Rightarrow> do_env \<Rightarrow> string asked" where
  "exec_request_to c command args i = (\<lambda>L d. ExecuteOnAgent L d c i command args)"

text \<open>The result of each request, and what they sent, when the first is the n-th of the process.\<close>

fun exec_results :: "cli_env \<Rightarrow> client \<Rightarrow> string \<Rightarrow> string list \<Rightarrow> nat \<Rightarrow> string list \<Rightarrow> (string \<times> string result) list" where
  "exec_results E c command args n [] = []"
| "exec_results E c command args n (i # ids) =
     (i, answer E n (exec_request_to c command args i)) # exec_results E c command args (Suc n) ids"

fun exec_sent :: "cli_env \<Rightarrow> client \<Rightarrow> string \<Rightarrow> string list \<Rightarrow> nat \<Rightarrow> string list \<Rightarrow> message list" where
  "exec_sent E c command args n [] = []"
| "exec_sent E c command args n (i # ids) =
     sent_by E n (exec_request_to c command args i) @ exec_sent E c command args (Suc n) ids"

lemma run_exec_each:
  "run_state (exec_each E c command args ids) w =
     (exec_results E c command args (w_requests w) ids,
      w\<lparr>w_requests := w_requests w + length ids,
        w_sent := w_sent w @ exec_sent E c command args (w_requests w) ids\<rparr>)"
  by (induction ids arbitrary: w) (simp_all add: run_ask exec_request_to_def)

lemma map_fst_exec_results [simp]: "map fst (exec_results E c command args n ids) = ids"
  by (induction ids arbitrary: n) simp_all

lemma length_exec_results [simp]: "length (exec_results E c command args n ids) = length ids"
  by (metis length_map map_fst_exec_results)

lemma exec_results_nth:
  "k < length ids \<Longrightarrow> exec_results E c command args n ids ! k =
     (ids ! k, answer E (n + k) (exec_request_to c command args (ids ! k)))"
  by (induction ids arbitrary: n k) (simp_all add: nth_Cons split: nat.split)

text \<open>Every message that went out is the command for one of the agents.\<close>

definition is_exec_to :: "string \<Rightarrow> string list \<Rightarrow> string \<Rightarrow> message \<Rightarrow> bool" where
  "is_exec_to command args i m \<longleftrightarrow>
     m_Type m = CLIExec \<and> m_AgentID m = i \<and> m_Command m = command \<and> m_Args m = args"

lemma body_of_exec:
  assumes "body_of req = body_of ((new_message CLIExec)\<lparr>m_AgentID := i, m_Command := command, m_Args := args\<rparr>)"
  shows "is_exec_to command args i req"
proof -
  have "m_Type (body_of req) = CLIExec \<and> m_AgentID (body_of req) = i \<and>
      m_Command (body_of req) = command \<and> m_Args (body_of req) = args"
    unfolding assms by (simp add: body_of_def)
  then show ?thesis by (simp add: is_exec_to_def body_of_def)
qed

lemma sent_by_exec:
  assumes "signing_ok (ce_lib E)"
  shows "list_all (is_exec_to command args i) (sent_by E n (exec_request_to c command args i))"
    and "mset (map m_AgentID (sent_by E n (exec_request_to c command args i))) \<subseteq># {#i#}"
    and "\<not> isl (answer E n (exec_request_to c command args i)) \<Longrightarrow>
      map m_AgentID (sent_by E n (exec_request_to c command args i)) = [i]"
proof -
  show a: "list_all (is_exec_to command args i) (sent_by E n (exec_request_to c command args i))"
    using ExecuteOnAgent.sent_body [OF assms] body_of_exec
    unfolding exec_request_to_def list_all_iff by blast
  then have b: "\<forall>m \<in> set (sent_by E n (exec_request_to c command args i)). m_AgentID m = i"
    by (simp add: list_all_iff is_exec_to_def)
  then show "mset (map m_AgentID (sent_by E n (exec_request_to c command args i))) \<subseteq># {#i#}"
    by (auto simp: sent_by_def split: option.split)
  show "map m_AgentID (sent_by E n (exec_request_to c command args i)) = [i]"
    if "\<not> isl (answer E n (exec_request_to c command args i))"
    using ExecuteOnAgent.answered_sent [of E n c i command args] that b by (auto simp: exec_request_to_def)
qed

lemma exec_sent_targets:
  assumes "signing_ok (ce_lib E)"
  shows "(\<forall>m \<in> set (exec_sent E c command args n ids). \<exists>i \<in> set ids. is_exec_to command args i m) \<and>
    mset (map m_AgentID (exec_sent E c command args n ids)) \<subseteq># mset ids \<and>
    ((\<forall>(i, r) \<in> set (exec_results E c command args n ids). \<not> isl r) \<longrightarrow>
       map m_AgentID (exec_sent E c command args n ids) = ids)"
proof (induction ids arbitrary: n)
  case (Cons i ids)
  note one = sent_by_exec [OF assms]
  have "mset (map m_AgentID (sent_by E n (exec_request_to c command args i))) +
      mset (map m_AgentID (exec_sent E c command args (Suc n) ids)) \<subseteq># {#i#} + mset ids"
    using one(2) Cons.IH [of "Suc n"] by (intro subset_mset.add_mono) simp_all
  then show ?case using one(1,3) Cons.IH [of "Suc n"] by (auto simp: list_all_iff)
qed simp

section \<open>The report\<close>

definition finish_ok :: "cli_env \<Rightarrow> bool" where
  "finish_ok E \<longleftrightarrow> (\<forall>n. mset (ce_finish E n) = mset [0..<n])"

lemma mset_in_finish_order: "finish_ok E \<Longrightarrow> mset (in_finish_order E xs) = mset xs"
  unfolding in_finish_order_def finish_ok_def by (metis map_nth mset_map)

lemma run_report:
  "run_state (report_results E rs n) w =
     (if \<exists>(i, r) \<in> set rs. isl r then 1 else n, w\<lparr>w_out := w_out w @ concat (map (result_block E) rs)\<rparr>)"
proof (induction rs arbitrary: n w)
  case (Cons p rs)
  obtain i r where "p = (i, r)" by (metis surj_pair)
  then show ?case by (cases r) (auto simp: Cons.IH result_block_def)
qed simp

lemma run_exec_many:
  assumes "finish_ok E" and "ids \<noteq> []"
  shows "\<exists>order. mset order = mset (exec_results E c command args (w_requests w) (sort ids)) \<and>
    run_state (runExecMany E c ids command args) w =
      (Code (if \<exists>(i, r) \<in> set order. isl r then 1 else 0),
       w\<lparr>w_requests := w_requests w + length ids,
         w_sent := w_sent w @ exec_sent E c command args (w_requests w) (sort ids),
         w_out := w_out w @ concat (map (result_block E) order)\<rparr>)"
  using mset_in_finish_order [OF assms(1)] assms(2)
  by (intro exI [of _ "in_finish_order E (exec_results E c command args (w_requests w) (sort ids))"])
    (simp add: runExecMany_def run_exec_each run_report)

lemma group_exec_report:
  assumes "signing_ok (ce_lib E)" and "finish_ok E"
    and "answer E (w_requests w) (\<lambda>L d. ListAgents L d c) = Inr agents"
    and "run_state (runExecGroup E c grp command args) w = (x, w')"
  shows "\<exists>report sent.
    mset (map fst report) = mset (group_members grp agents) \<and>
    w_out w' = w_out w @ (if report = [] then [Stdout (yellow (nocolor E) (''No online agents in group '' @ grp) @ NL)]
      else concat (map (result_block E) report)) \<and>
    w_sent w' = w_sent w @ sent_by E (w_requests w) (\<lambda>L d. ListAgents L d c) @ sent \<and>
    (\<forall>m \<in> set sent. \<exists>i \<in> set (group_members grp agents). is_exec_to command args i m) \<and>
    mset (map m_AgentID sent) \<subseteq># mset (group_members grp agents) \<and>
    (x = Code 0 \<longleftrightarrow> report \<noteq> [] \<and> (\<forall>(i, r) \<in> set report. \<not> isl r)) \<and>
    (x = Code 0 \<longrightarrow> mset (map m_AgentID sent) = mset (group_members grp agents))"
proof (cases "group_members grp agents = []")
  case True
  with assms(3,4) show ?thesis
    by (intro exI [of _ "[]"]) (auto simp: runExecGroup_def run_ask Let_def)
next
  case False
  let ?w = "w\<lparr>w_requests := Suc (w_requests w), w_sent := w_sent w @ sent_by E (w_requests w) (\<lambda>L d. ListAgents L d c)\<rparr>"
  let ?ids = "group_members grp agents" and ?n = "Suc (w_requests w)"
  let ?rs = "exec_results E c command args ?n (sort ?ids)" and ?s = "exec_sent E c command args ?n (sort ?ids)"
  obtain order where order: "mset order = mset ?rs"
    "run_state (runExecMany E c ?ids command args) ?w =
      (Code (if \<exists>(i, r) \<in> set order. isl r then 1 else 0),
       ?w\<lparr>w_requests := ?n + length ?ids, w_sent := w_sent ?w @ ?s,
          w_out := w_out ?w @ concat (map (result_block E) order)\<rparr>)"
    using run_exec_many [OF assms(2) False, of c command args ?w] by auto
  have run: "x = Code (if \<exists>(i, r) \<in> set order. isl r then 1 else 0)"
    "w_out w' = w_out w @ concat (map (result_block E) order)"
    "w_sent w' = w_sent w @ sent_by E (w_requests w) (\<lambda>L d. ListAgents L d c) @ ?s"
    using assms(3,4) False order(2) by (auto simp: runExecGroup_def run_ask Let_def)
  have "set order = set ?rs" using order(1) by (metis set_mset_mset)
  note t = exec_sent_targets [OF assms(1), of c command args ?n "sort ?ids"]
  have f: "mset (map fst order) = mset ?ids"
    by (metis order(1) map_fst_exec_results mset_map mset_sort)
  with False have "order \<noteq> []" by auto
  moreover have "x = Code 0 \<longleftrightarrow> (\<forall>(i, r) \<in> set order. \<not> isl r)" using run(1) by auto
  moreover have "(\<forall>(i, r) \<in> set order. \<not> isl r) \<longrightarrow> mset (map m_AgentID ?s) = mset ?ids"
    using t \<open>set order = set ?rs\<close> by (metis mset_sort)
  ultimately show ?thesis
    using f t run(2,3) by (intro exI [of _ order] exI [of _ ?s]) auto
qed

section \<open>Properties\<close>

text \<open>
  Property C11. exec --group sends the command, unchanged, to the agents that the server lists as connected
  members of the group and to no other; every one of them has a block of the report, in the
  order in which they finished. The exit code is 0 exactly when there was such an agent and
  all requests succeeded, and then each agent was asked exactly as often as it is listed.
\<close>

theorem group_exec_exact:
  assumes "signing_ok (ce_lib E)" and "finish_ok E"
    and "answer E (w_requests w) (\<lambda>L d. ListAgents L d c) = Inr agents"
    and "run_state (runExecGroup E c grp command args) w = (x, w')"
  shows "\<exists>members report sent.
    mset members = image_mset e_ID {#a \<in># mset agents. e_Connected a \<and> grp \<in> set (e_Groups a)#} \<and>
    mset (map fst report) = mset members \<and>
    w_out w' = w_out w @ (if report = [] then [Stdout (yellow (nocolor E) (''No online agents in group '' @ grp) @ NL)]
      else concat (map (result_block E) report)) \<and>
    w_sent w' = w_sent w @ sent_by E (w_requests w) (\<lambda>L d. ListAgents L d c) @ sent \<and>
    (\<forall>m \<in> set sent. \<exists>i \<in> set members. is_exec_to command args i m) \<and>
    mset (map m_AgentID sent) \<subseteq># mset members \<and>
    (x = Code 0 \<longleftrightarrow> report \<noteq> [] \<and> (\<forall>(i, r) \<in> set report. \<not> isl r)) \<and>
    (x = Code 0 \<longrightarrow> mset (map m_AgentID sent) = mset members)"
proof -
  have "mset (group_members grp agents) =
      image_mset e_ID {#a \<in># mset agents. e_Connected a \<and> grp \<in> set (e_Groups a)#}"
    by (simp add: group_members_def)
  with group_exec_report [OF assms] show ?thesis by blast
qed

text \<open>Two agents are up, one of them in the group \<open>web\<close>.\<close>

definition sample_entry :: "string \<Rightarrow> string list \<Rightarrow> entry" where
  "sample_entry i grps =
     \<lparr>e_ID = i, e_MachineID = [], e_Hostname = ''host'', e_IPAddress = ''10.0.0.1'', e_Port = 2222,
      e_Version = [], e_Status = ''online'', e_Connected = True, e_Commands = [], e_Tags = [],
      e_Groups = grps, e_LastSeen = 0\<rparr>"

definition sample_reply :: "message \<Rightarrow> message result" where
  "sample_reply m =
     Inr (if m_Type m = CLIList
          then (new_message ServerListResult)\<lparr>m_Agents := [sample_entry ''b'' [''db''], sample_entry ''a'' [''web'']]\<rparr>
          else (new_message ServerExecResult)\<lparr>m_Result := ''ok''\<rparr>)"

lemma sample_finish_ok: "finish_ok (sample_cli reply)"
  by (simp add: finish_ok_def sample_cli_def)

theorem group_exec_exact_witness:
  "\<exists>w' sent. run_state (runExecGroup (sample_cli sample_reply) sample_client ''web'' ''whoami'' []) (sample_world []) =
     (Code 0, w') \<and> (\<exists>req. w_sent w' = req # sent) \<and> map m_AgentID sent = [''a'']"
proof -
  let ?E = "sample_cli sample_reply" and ?w = "sample_world []"
  let ?l = "\<lambda>L d. ListAgents L d sample_client"
  obtain x w' where run: "run_state (runExecGroup ?E sample_client ''web'' ''whoami'' []) ?w = (x, w')" by fastforce
  have "fst (run_state (runExecGroup ?E sample_client ''web'' ''whoami'' []) ?w) = Code 0" by code_simp
  with run have x: "x = Code 0" by simp
  have a: "answer ?E (w_requests ?w) ?l = Inr [sample_entry ''b'' [''db''], sample_entry ''a'' [''web'']]" by code_simp
  have l: "length (sent_by ?E (w_requests ?w) ?l) = 1" by code_simp
  have s: "signing_ok (ce_lib ?E)" using sample_lib_ok(2) by (simp add: sample_cli_def)
  obtain members sent where m: "mset members = image_mset e_ID
      {#a \<in># mset [sample_entry ''b'' [''db''], sample_entry ''a'' [''web'']]. e_Connected a \<and> ''web'' \<in> set (e_Groups a)#}"
    and *: "w_sent w' = w_sent ?w @ sent_by ?E (w_requests ?w) ?l @ sent"
    and all: "x = Code 0 \<longrightarrow> mset (map m_AgentID sent) = mset members"
    using group_exec_exact [OF s sample_finish_ok a run] by blast
  obtain req where "sent_by ?E (w_requests ?w) ?l = [req]" using l by (auto simp: length_Suc_conv)
  with * have "w_sent w' = req # sent" by (simp add: sample_world_def)
  moreover have "mset (map m_AgentID sent) = {#''a''#}"
    using all x m by (simp add: sample_entry_def)
  then have "map m_AgentID sent = [''a'']" by (metis mset_single_iff_right)
  ultimately show ?thesis using run x by (intro exI [of _ w'] exI [of _ sent]) auto
qed

end
