(* ===== verification/Shell_Laws.thy ===== *)
theory Shell_Laws
  imports Cli_Shell Cli_Laws
begin

text \<open>
  What the command line as a whole guarantees: exit codes, what happens when the server cannot
  be reached, that the shell ends with its input, that its commands go to its own server, and
  which agent a line in the shell addresses.
\<close>

section \<open>What the commands leave alone\<close>

definition same_input :: "world \<Rightarrow> world \<Rightarrow> bool" where
  "same_input w w' \<longleftrightarrow> w_stdin w' = w_stdin w \<and> w_secret w' = w_secret w"

lemma same_input_preorder: "preorder_on_worlds same_input"
  by (auto simp: preorder_on_worlds_def same_input_def)

lemmas input_bind = keeps_bind [OF same_input_preorder]

lemma quiet_input: "keeps quiet m \<Longrightarrow> keeps same_input m"
  by (simp add: keeps_def quiet_def same_input_def)

lemmas input_steps = quiet_println [THEN quiet_input] quiet_print [THEN quiet_input]
  quiet_err [THEN quiet_input] quiet_return [THEN quiet_input] quiet_ask [THEN quiet_input]
  quiet_lines [THEN quiet_input] quiet_fail_with [THEN quiet_input] quiet_fail_err [THEN quiet_input]
  quiet_usage [THEN quiet_input] quiet_result [THEN quiet_input] input_bind

lemma input_exec_each: "keeps same_input (exec_each E c command args ids)"
  by (induction ids) (simp_all add: input_steps)

lemma input_report: "keeps same_input (report_results E rs n)"
  by (induction rs arbitrary: n) (auto simp: input_steps split: sum.split)

lemma input_many:
  "keeps same_input (runExecMany E c ids command args)" "keeps same_input (runExecAll E c command args)"
  "keeps same_input (runExecGroup E c grp command args)"
  by (auto simp: runExecMany_def runExecAll_def runExecGroup_def input_steps input_exec_each input_report Let_def
      split: sum.split)

lemma input_basic:
  "keeps same_input (runList E c)" "keeps same_input (runInfo E c a)" "keeps same_input (runExec E c a command args)"
  "keeps same_input (runPing E c a)" "keeps same_input (runAgentControl E c control a)"
  "keeps same_input (runGroupList E c)" "keeps same_input (runGUI E c args)"
  by (auto simp: runList_def runInfo_def runExec_def runPing_def runAgentControl_def runGroupList_def runGUI_def
      input_steps Let_def split: sum.split option.split)

lemma input_helps:
  "keeps same_input (printGroupHelp E)" "keeps same_input (printTagHelp E)" "keeps same_input (printPluginHelp E)"
  "keeps same_input (printBanner E)" "keeps same_input (printCommandHint E)" "keeps same_input (printHelp E)"
  unfolding printGroupHelp_def printTagHelp_def printPluginHelp_def printBanner_def printCommandHint_def printHelp_def
  by (intro input_bind quiet_lines [THEN quiet_input] quiet_println [THEN quiet_input])+

lemma input_group: "keeps same_input (runGroup E c args)"
  unfolding runGroup_def by (auto simp: input_steps input_many input_basic input_helps split: list.split)

lemma input_tag: "keeps same_input (runTag E c args)"
  unfolding runTag_def by (auto simp: input_steps input_helps split: list.split sum.split option.split)

text \<open>Plugin sources.\<close>

lemma input_temps: "keeps same_input (mkdir_temp E)" "keeps same_input (remove_all d)"
  by (simp_all add: keeps_def same_input_def mkdir_temp_def remove_all_def split: sum.split)

lemma input_package: "keeps same_input (packagePluginSource E source)"
  unfolding packagePluginSource_def by (auto simp: input_steps input_temps Let_def split: sum.split prod.split option.split)

lemma input_cleanup: "keeps same_input m \<Longrightarrow> keeps same_input (with_cleanup cleanup m)"
  by (simp add: with_cleanup_def input_steps input_temps split: option.split)

lemma input_install: "keeps same_input (runPluginInstall E c source)" "keeps same_input (runPluginTest E source)"
  by (auto simp: runPluginInstall_def runPluginTest_def Let_def input_package input_cleanup input_steps
      split: sum.split prod.split)

lemma input_update: "keeps same_input (update_each E c ps x)"
  by (induction ps arbitrary: x) (auto simp: input_steps input_install)

lemma input_one_arg: "(\<And>a. keeps same_input (m a)) \<Longrightarrow> keeps same_input (one_arg E rest text m)"
  by (simp add: one_arg_def input_steps split: list.split)

lemma input_plugin: "keeps same_input (runPlugin E c args)"
  unfolding runPlugin_def runPluginUpdateAll_def
  by (auto simp: input_steps input_one_arg input_install input_update input_helps
      quiet_commands [THEN quiet_input] quiet_status [THEN quiet_input] split: list.split sum.split)

text \<open>A property that every command of the table has.\<close>

lemma run_command_all:
  assumes "\<And>a. P (runInfo E c a)" "\<And>a. P (runPing E c a)" "P (runList E c)"
    and "\<And>a b args. P (runExec E c a b args)" "\<And>b args. P (runExecAll E c b args)"
    and "\<And>g b args. P (runExecGroup E c g b args)" "\<And>b a. P (runAgentControl E c b a)"
    and "\<And>args. P (runPlugin E c args)" "\<And>args. P (runGroup E c args)" "\<And>args. P (runTag E c args)"
    and "\<And>args. P (runGUI E c args)" "\<And>s. P (fail_with E s)"
    and "P (do { printHelp E; return (Code 0) })"
    and "\<And>s. P (do { err_Println s; printHelp E; return (Code 1) })"
  shows "run_command E c args = Some m \<Longrightarrow> P m"
proof -
  have "pred_option P (run_command E c args)"
    unfolding run_command_def using assms by (simp split: list.split)
  then show "run_command E c args = Some m \<Longrightarrow> P m" by simp
qed

lemma input_command: "run_command E c args = Some m \<Longrightarrow> keeps same_input m"
  by (rule run_command_all [where P = "keeps same_input"])
    (simp_all add: input_steps input_basic input_many input_group input_tag input_plugin input_helps split: list.split)

section \<open>Exit codes\<close>

definition gives :: "('a \<Rightarrow> bool) \<Rightarrow> 'a cli \<Rightarrow> bool" where
  "gives P m \<longleftrightarrow> (\<forall>w. P (fst (run_state m w)))"

definition exit_ok :: "exit \<Rightarrow> bool" where
  "exit_ok x \<longleftrightarrow> x = Code 0 \<or> x = Code 1"

lemma gives_return [simp]: "gives P (return x) \<longleftrightarrow> P x"
  by (simp add: gives_def)

lemma gives_bind: "gives Q m \<Longrightarrow> (\<And>x. Q x \<Longrightarrow> gives P (f x)) \<Longrightarrow> gives P (State_Monad.bind m f)"
  by (auto simp: gives_def split: prod.split) (metis fst_conv)

lemma gives_last: "(\<And>x. gives P (f x)) \<Longrightarrow> gives P (State_Monad.bind m f)"
  by (rule gives_bind [of "\<lambda>x. True"]) (simp_all add: gives_def)

lemma gives_fail [simp]: "gives P (fail_with E s) \<longleftrightarrow> P (Code 1)" "gives P (fail_err E e) \<longleftrightarrow> P (Code 1)"
  "gives P (usage E s) \<longleftrightarrow> P (Code 1)"
  by (simp_all add: gives_def)

lemma exit_codes [simp]: "exit_ok (Code 0)" "exit_ok (Code 1)"
  by (simp_all add: exit_ok_def)

lemma ok_result: "gives exit_ok (printResult E r)"
  by (simp add: gives_def run_printResult split: sum.split)

lemma ok_many: "gives exit_ok (runExecMany E c ids command args)"
  by (simp add: gives_def runExecMany_def run_report split: prod.split)

lemma ok_cleanup: "gives P m \<Longrightarrow> gives P (with_cleanup cleanup m)"
  by (auto simp: with_cleanup_def gives_last split: option.split intro: gives_bind [of P])

lemma ok_install: "gives exit_ok (runPluginInstall E c source)" "gives exit_ok (runPluginTest E source)"
  by (auto simp: runPluginInstall_def runPluginTest_def Let_def ok_result
      intro!: gives_last ok_cleanup split: sum.split prod.split)

lemma ok_update: "exit_ok x \<Longrightarrow> gives exit_ok (update_each E c ps x)"
  by (induction ps arbitrary: x) (auto simp: ok_install intro!: gives_last gives_bind [OF ok_install(1)])

lemma ok_one_arg: "(\<And>a. gives exit_ok (m a)) \<Longrightarrow> gives exit_ok (one_arg E rest text m)"
  by (simp add: one_arg_def split: list.split)

lemmas ok_rules = gives_last ok_result ok_many ok_install ok_update ok_one_arg

lemma ok_basic:
  "gives exit_ok (runList E c)" "gives exit_ok (runExec E c a command args)"
  "gives exit_ok (runPing E c a)" "gives exit_ok (runAgentControl E c control a)"
  "gives exit_ok (runGroupList E c)" "gives exit_ok (runGUI E c args)"
  "gives exit_ok (runExecAll E c command args)" "gives exit_ok (runExecGroup E c grp command args)"
  by (auto simp: runList_def runExec_def runPing_def runAgentControl_def runGroupList_def runGUI_def
      runExecAll_def runExecGroup_def ok_rules Let_def split: sum.split option.split)

lemma ok_group: "gives exit_ok (runGroup E c args)"
  unfolding runGroup_def by (auto simp: ok_rules ok_basic split: list.split)

text \<open>
  The commands that read the agent of a reply panic when the reply has none: then the last request
  was the one of info, it was answered, and the answer was no error and had no agent in it.
\<close>

definition no_agent :: "cli_env \<Rightarrow> client \<Rightarrow> nat \<Rightarrow> bool" where
  "no_agent E c n \<longleftrightarrow> (\<exists>a req resp.
     cl_do (ce_lib E) (ce_do E n) c ((new_message CLIInfo)\<lparr>m_AgentID := a\<rparr>) = (Some req, Inr resp) \<and>
     m_Agent resp = None)"

definition exits :: "cli_env \<Rightarrow> client \<Rightarrow> exit cli \<Rightarrow> bool" where
  "exits E c m \<longleftrightarrow> (\<forall>w x w'. run_state m w = (x, w') \<longrightarrow> exit_ok x \<or>
     x = Panic \<and> (\<exists>n \<ge> w_requests w. w_requests w' = Suc n \<and> no_agent E c n))"

lemma exits_ok: "gives exit_ok m \<Longrightarrow> exits E c m"
  unfolding gives_def exits_def by (metis fst_conv)

lemma answer_no_agent:
  assumes "answer E n (\<lambda>L d. GetAgent L d c a) = Inr (None, cmds)"
  shows "no_agent E c n"
proof -
  let ?m = "(new_message CLIInfo)\<lparr>m_AgentID := a\<rparr>"
  obtain sent r where d: "cl_do (ce_lib E) (ce_do E n) c ?m = (sent, r)" by fastforce
  with assms obtain resp where r: "r = Inr resp" "m_Agent resp = None"
    by (auto simp: answer_def GetAgent_def cl_ask_def split: sum.splits)
  with d cl_do_silent [of "ce_lib E" "ce_do E n" c ?m] obtain req where "sent = Some req" by (cases sent) auto
  with d r show ?thesis unfolding no_agent_def by blast
qed

lemma exits_agent:
  assumes "\<And>e. gives exit_ok (f (Inl e))" and "\<And>ag cmds. gives exit_ok (f (Inr (Some ag, cmds)))"
    and "\<And>cmds. f (Inr (None, cmds)) = return Panic"
  shows "exits E c (State_Monad.bind (ask E (\<lambda>L d. GetAgent L d c a)) f)"
  unfolding exits_def
proof (intro allI impI)
  fix w w' :: world and x
  let ?r = "answer E (w_requests w) (\<lambda>L d. GetAgent L d c a)"
  let ?w = "w\<lparr>w_requests := Suc (w_requests w), w_sent := w_sent w @ sent_by E (w_requests w) (\<lambda>L d. GetAgent L d c a)\<rparr>"
  assume "run_state (State_Monad.bind (ask E (\<lambda>L d. GetAgent L d c a)) f) w = (x, w')"
  then have run: "run_state (f ?r) ?w = (x, w')" by (simp add: run_ask)
  consider "gives exit_ok (f ?r)" | cmds where "?r = Inr (None, cmds)"
    using assms(1,2) by (metis not_Some_eq sumE surj_pair)
  then show "exit_ok x \<or> x = Panic \<and> (\<exists>n \<ge> w_requests w. w_requests w' = Suc n \<and> no_agent E c n)"
  proof cases
    case 1
    with run show ?thesis unfolding gives_def by (metis fst_conv)
  next
    case (2 cmds)
    with run assms(3) have "x = Panic" "w_requests w' = Suc (w_requests w)" by auto
    with answer_no_agent [OF 2] show ?thesis by blast
  qed
qed

definition asks_on :: "world \<Rightarrow> world \<Rightarrow> bool" where
  "asks_on w w' \<longleftrightarrow> w_requests w \<le> w_requests w'"

lemma asks_preorder: "preorder_on_worlds asks_on"
  by (auto simp: preorder_on_worlds_def asks_on_def)

lemma exits_prefix:
  assumes "keeps asks_on m" and "\<And>x. exits E c (f x)"
  shows "exits E c (State_Monad.bind m f)"
  unfolding exits_def
proof (intro allI impI)
  fix w w' :: world and x
  assume run: "run_state (State_Monad.bind m f) w = (x, w')"
  obtain y w1 where m: "run_state m w = (y, w1)" by fastforce
  with run have f: "run_state (f y) w1 = (x, w')" by simp
  have "w_requests w \<le> w_requests w1" using keepsD [OF assms(1) m] by (simp add: asks_on_def)
  then show "exit_ok x \<or> x = Panic \<and> (\<exists>n \<ge> w_requests w. w_requests w' = Suc n \<and> no_agent E c n)"
    using assms(2) f unfolding exits_def by (meson le_trans)
qed

lemma exits_if: "exits E c m \<Longrightarrow> exits E c k \<Longrightarrow> exits E c (if b then m else k)"
  by simp

lemma exits_sum: "(\<And>e. exits E c (f e)) \<Longrightarrow> (\<And>v. exits E c (g v)) \<Longrightarrow>
  exits E c (case r of Inl e \<Rightarrow> f e | Inr v \<Rightarrow> g v)"
  by (simp split: sum.split)

lemma exits_one_arg: "(\<And>a. exits E c (m a)) \<Longrightarrow> exits E c (one_arg E rest text m)"
  by (simp add: one_arg_def exits_ok split: list.split)

lemma asks_rules: "keeps asks_on (ask E f)" "keeps asks_on (fmt_Println t)" "keeps asks_on (fmt_Print t)"
  by (simp_all add: keeps_def asks_on_def run_ask)

lemma asks_if: "keeps R m \<Longrightarrow> keeps R k \<Longrightarrow> keeps R (if b then m else k)"
  by simp

lemma ok_prints: "gives exit_ok (State_Monad.bind (m :: unit cli) (\<lambda>x. return (Code 0)))"
  by (rule gives_last) simp

lemma exits_info: "exits E c (runInfo E c a)"
  unfolding runInfo_def by (rule exits_agent) (auto intro!: gives_last)

lemma exits_status: "exits E c (runPluginStatus E c a)"
  unfolding runPluginStatus_def
  by (intro exits_prefix asks_rules exits_sum asks_if keeps_bind [OF asks_preorder] exits_if exits_agent)
    (auto intro!: exits_ok gives_last)

lemma exits_tag: "exits E c (runTag E c args)"
proof -
  have "exits E c (runTag E c (a # action # vals))" for a action vals
    unfolding runTag_def list.case
  proof (intro exits_if)
    show "exits E c (do {
            r \<leftarrow> ask E (\<lambda>L d. GetAgent L d c a);
            case r of
              Inl e \<Rightarrow> fail_err E e
            | Inr (None, _) \<Rightarrow> return Panic
            | Inr (Some a, _) \<Rightarrow>
                if e_Tags a = [] then do { fmt_Println (dim (nocolor E) ''No tags''); return (Code 0) }
                else do { fmt_Println (join '', '' (e_Tags a)); return (Code 0) } })"
      by (rule exits_agent) (auto intro!: gives_last)
  qed (rule exits_ok; simp add: ok_rules)+
  then show ?thesis
    by (cases args; cases "tl args") (auto simp: runTag_def ok_rules intro!: exits_ok)
qed

lemma ok_plugins:
  "gives exit_ok (runPluginUpdateAll E c)" "gives exit_ok (runPluginToggle E c name b)"
  "gives exit_ok (runPluginVersions E c name)" "gives exit_ok (runPluginRollback E c name version)"
  "gives exit_ok (runPluginList E c)"
  by (auto simp: runPluginUpdateAll_def runPluginToggle_def runPluginVersions_def runPluginRollback_def
      runPluginList_def ok_rules split: sum.split)

lemma exits_plugin: "exits E c (runPlugin E c args)"
proof (cases args)
  case Nil
  then show ?thesis by (simp add: runPlugin_def ok_rules exits_ok)
next
  case (Cons cmd rest)
  have rollback: "exits E c (case rest of [name, version] \<Rightarrow> runPluginRollback E c name version | _ \<Rightarrow> usage E t)" for t
    by (simp add: exits_ok ok_plugins split: list.split)
  have results: "exits E c (do { r \<leftarrow> ask E op; printResult E r })" for op
    by (rule exits_ok) (simp add: ok_rules)
  have helps: "exits E c (do { printPluginHelp E; return (Code 0) })"
    "exits E c (do { err_Println t; printPluginHelp E; return (Code 1) })" for t
    by (rule exits_ok, simp add: ok_rules)+
  show ?thesis
    unfolding runPlugin_def Cons list.case
    by (intro exits_if exits_one_arg rollback results helps exits_status exits_ok [OF ok_install(1)]
        exits_ok [OF ok_install(2)] exits_ok [OF ok_plugins(1)] exits_ok [OF ok_plugins(2)]
        exits_ok [OF ok_plugins(3)] exits_ok [OF ok_plugins(5)]) (simp add: exits_ok)
qed

lemma exits_command: "run_command E c args = Some m \<Longrightarrow> exits E c m"
  by (rule run_command_all [where P = "exits E c"])
    (simp_all add: exits_info exits_tag exits_plugin exits_ok ok_rules ok_basic ok_group)

section \<open>A server that cannot be reached\<close>

definition silent_step :: "world \<Rightarrow> world \<Rightarrow> bool" where
  "silent_step w w' \<longleftrightarrow> w_sent w' = w_sent w \<and> w_requests w' = w_requests w"

lemma silent_preorder: "preorder_on_worlds silent_step"
  by (simp add: preorder_on_worlds_def silent_step_def)

lemmas silent_bind = keeps_bind [OF silent_preorder]

lemma silent_prints:
  "keeps silent_step (fmt_Print s)" "keeps silent_step (fmt_Println s)" "keeps silent_step (err_Println s)"
  "keeps silent_step (return x)" "keeps silent_step (fail_with E s)" "keeps silent_step (fail_err E e)"
  "keeps silent_step (usage E s)"
  by (simp_all add: keeps_def silent_step_def)

lemma silent_lines: "keeps silent_step (print_lines ls)"
  by (induction ls) (simp_all add: silent_prints silent_bind)

lemma silent_result: "keeps silent_step (printResult E r)"
  by (simp add: keeps_def silent_step_def run_printResult split: sum.split)

lemma silent_temps: "keeps silent_step (mkdir_temp E)" "keeps silent_step (remove_all d)"
  by (simp_all add: keeps_def silent_step_def mkdir_temp_def remove_all_def split: sum.split)

lemma silent_package: "keeps silent_step (packagePluginSource E source)"
  unfolding packagePluginSource_def
  by (auto simp: silent_prints silent_bind silent_temps Let_def split: sum.split prod.split option.split)

lemmas silent_rules = silent_prints silent_bind silent_lines silent_result silent_package

lemma silent_helps:
  "keeps silent_step (printGroupHelp E)" "keeps silent_step (printTagHelp E)" "keeps silent_step (printPluginHelp E)"
  "keeps silent_step (printHelp E)"
  unfolding printGroupHelp_def printTagHelp_def printPluginHelp_def printHelp_def printBanner_def
  by (intro silent_bind silent_lines silent_prints)+

text \<open>Nothing goes out, and whoever made a request fails.\<close>

definition offline :: "exit cli \<Rightarrow> bool" where
  "offline m \<longleftrightarrow> (\<forall>w. w_sent (snd (run_state m w)) = w_sent w \<and>
     (w_requests (snd (run_state m w)) \<noteq> w_requests w \<longrightarrow> fst (run_state m w) = Code 1))"

definition unreachable_server :: "cli_env \<Rightarrow> bool" where
  "unreachable_server E \<longleftrightarrow> (\<forall>n. env_dial (ce_do E n) \<noteq> None)"

lemma offline_silent: "keeps silent_step m \<Longrightarrow> offline m"
  by (simp add: offline_def keeps_def silent_step_def)

lemma offline_prefix: "keeps silent_step m \<Longrightarrow> (\<And>x. offline (f x)) \<Longrightarrow> offline (State_Monad.bind m f)"
  by (auto simp: offline_def keeps_def silent_step_def split: prod.split) (metis snd_conv)+

lemma offline_ask:
  assumes "unreachable_server E" and "client_request op msg"
    and "\<And>e. keeps silent_step (f (Inl e)) \<and> gives ((=) (Code 1)) (f (Inl e))"
  shows "offline (State_Monad.bind (ask E op) f)"
  unfolding offline_def
proof
  fix w :: world
  obtain e where "env_dial (ce_do E (w_requests w)) = Some e"
    using assms(1) unfolding unreachable_server_def by blast
  from client_request.ask_unreachable [OF assms(2) this] assms(3) [of e]
  show "w_sent (snd (run_state (State_Monad.bind (ask E op) f) w)) = w_sent w \<and>
     (w_requests (snd (run_state (State_Monad.bind (ask E op) f) w)) \<noteq> w_requests w \<longrightarrow>
      fst (run_state (State_Monad.bind (ask E op) f) w) = Code 1)"
    by (auto simp: keeps_def silent_step_def gives_def)
qed

lemma offline_cleanup: "offline m \<Longrightarrow> offline (with_cleanup cleanup m)"
  by (auto simp: offline_def with_cleanup_def remove_all_def split: option.split prod.split) (metis fst_conv snd_conv)+

text \<open>The requests of the commands, one by one.\<close>

lemma fails_once: "keeps silent_step (printResult E (Inl e)) \<and> gives ((=) (Code 1)) (printResult E (Inl e))"
  "keeps silent_step (fail_err E e) \<and> gives ((=) (Code 1)) (fail_err E e)"
  by (simp_all add: printResult_def silent_rules)

lemma offline_results:
  assumes "unreachable_server E" and "client_request op msg"
  shows "offline (State_Monad.bind (ask E op) (printResult E))"
  by (rule offline_ask [OF assms]) (rule fails_once)

lemma offline_case:
  assumes "unreachable_server E" and "client_request op msg"
  shows "offline (State_Monad.bind (ask E op) (\<lambda>r. case r of Inl e \<Rightarrow> fail_err E e | Inr v \<Rightarrow> g v))"
  by (rule offline_ask [OF assms]) (simp add: fails_once)

lemmas requests = ListAgents.client_request_axioms GetAgent.client_request_axioms PingAgent.client_request_axioms
  ControlAgent.client_request_axioms ListPlugins.client_request_axioms InstallPlugin.client_request_axioms
  RemovePlugin.client_request_axioms EnablePlugin.client_request_axioms DisablePlugin.client_request_axioms
  ListPluginVersions.client_request_axioms RollbackPlugin.client_request_axioms ListGroups.client_request_axioms
  CreateGroup.client_request_axioms DeleteGroup.client_request_axioms AddAgentToGroup.client_request_axioms
  RemoveAgentFromGroup.client_request_axioms SetAgentTags.client_request_axioms AddAgentTags.client_request_axioms
  RemoveAgentTags.client_request_axioms ExecuteOnAgent.client_request_axioms

lemma offline_commands:
  assumes u: "unreachable_server E"
  shows "offline (runList E c)" "offline (runInfo E c a)" "offline (runExec E c a command args)"
    "offline (runPing E c a)" "offline (runExecAll E c command args)" "offline (runExecGroup E c g command args)"
    "offline (runGroupList E c)" "offline (runPluginVersions E c name)" "offline (runPluginList E c)"
    "offline (runPluginStatus E c a)" "offline (runPluginUpdateAll E c)"
    "offline (runPluginRollback E c name version)"
  unfolding runList_def runInfo_def runExec_def runPing_def runExecAll_def runExecGroup_def runGroupList_def
    runPluginVersions_def runPluginList_def runPluginStatus_def runPluginUpdateAll_def runPluginRollback_def
  by (rule offline_case [OF u] offline_results [OF u], rule requests)+

lemma offline_requests:
  assumes u: "unreachable_server E"
  shows "offline (do { r \<leftarrow> ask E (\<lambda>L d. CreateGroup L d c a); printResult E r })"
    "offline (do { r \<leftarrow> ask E (\<lambda>L d. DeleteGroup L d c a); printResult E r })"
    "offline (do { r \<leftarrow> ask E (\<lambda>L d. AddAgentToGroup L d c a b); printResult E r })"
    "offline (do { r \<leftarrow> ask E (\<lambda>L d. RemoveAgentFromGroup L d c a b); printResult E r })"
    "offline (do { r \<leftarrow> ask E (\<lambda>L d. SetAgentTags L d c a ts); printResult E r })"
    "offline (do { r \<leftarrow> ask E (\<lambda>L d. AddAgentTags L d c a ts); printResult E r })"
    "offline (do { r \<leftarrow> ask E (\<lambda>L d. RemoveAgentTags L d c a ts); printResult E r })"
    "offline (do { r \<leftarrow> ask E (\<lambda>L d. ControlAgent L d c a b); printResult E r })"
    "offline (do { r \<leftarrow> ask E (\<lambda>L d. RemovePlugin L d c a); printResult E r })"
    "offline (do { r \<leftarrow> ask E (\<lambda>L d. InstallPlugin L d c pkg); printResult E r })"
    "offline (do { r \<leftarrow> ask E (\<lambda>L d. EnablePlugin L d c a); printResult E r })"
    "offline (do { r \<leftarrow> ask E (\<lambda>L d. DisablePlugin L d c a); printResult E r })"
  by (rule offline_results [OF u], rule requests)+

lemma offline_tags:
  "unreachable_server E \<Longrightarrow> offline (do {
     r \<leftarrow> ask E (\<lambda>L d. GetAgent L d c a);
     case r of Inl e \<Rightarrow> fail_err E e | Inr v \<Rightarrow> g v })"
  by (rule offline_case) (auto intro: requests)

lemma offline_toggle: "unreachable_server E \<Longrightarrow> offline (runPluginToggle E c name b)"
  using offline_requests(11,12) by (cases b) (simp_all add: runPluginToggle_def)

lemma offline_install:
  assumes "unreachable_server E"
  shows "offline (runPluginInstall E c source)" "offline (runPluginTest E source)"
  unfolding runPluginInstall_def runPluginTest_def Let_def
  by (auto intro!: offline_prefix silent_package offline_cleanup offline_requests [OF assms]
      simp: offline_silent silent_rules split: sum.split)

lemma offline_control: "unreachable_server E \<Longrightarrow> offline (runAgentControl E c control a)"
  by (simp add: runAgentControl_def offline_requests offline_silent silent_rules)

lemma offline_tag: "unreachable_server E \<Longrightarrow> offline (runTag E c args)"
  unfolding runTag_def
  by (simp add: offline_requests offline_tags offline_silent silent_rules silent_helps split: list.split)

lemma offline_group: "unreachable_server E \<Longrightarrow> offline (runGroup E c args)"
  unfolding runGroup_def
  by (simp add: offline_requests offline_commands offline_silent silent_rules silent_helps split: list.split)

lemma offline_one_arg: "(\<And>a. offline (m a)) \<Longrightarrow> offline (one_arg E rest text m)"
  by (simp add: one_arg_def offline_silent silent_rules split: list.split)

lemma offline_if: "offline m \<Longrightarrow> offline k \<Longrightarrow> offline (if b then m else k)"
  by simp

lemma offline_plugin:
  assumes "unreachable_server E"
  shows "offline (runPlugin E c args)"
proof (cases args)
  case Nil
  then show ?thesis by (simp add: runPlugin_def offline_silent silent_rules silent_helps)
next
  case (Cons cmd rest)
  note requests = offline_requests [OF assms] offline_commands [OF assms] offline_toggle [OF assms] offline_install [OF assms]
  have rollback: "offline (case rest of [name, version] \<Rightarrow> runPluginRollback E c name version
      | _ \<Rightarrow> usage E t)" for t
    by (simp add: requests offline_silent silent_rules split: list.split)
  have unknown: "offline (do { err_Println t; printPluginHelp E; return (Code k) })"
    and helps: "offline (do { printPluginHelp E; return (Code k) })" and usages: "offline (usage E t)" for t k
    by (simp_all add: offline_silent silent_rules silent_helps)
  show ?thesis
    unfolding runPlugin_def Cons list.case
    by (intro offline_if offline_one_arg requests rollback unknown helps usages)
qed

lemma offline_gui: "offline (runGUI E c args)"
  unfolding runGUI_def Let_def by (rule offline_silent) (simp add: silent_rules split: option.split)

lemma offline_command: "unreachable_server E \<Longrightarrow> run_command E c args = Some m \<Longrightarrow> offline m"
  by (rule run_command_all [where P = offline])
    (simp_all add: offline_commands offline_control offline_plugin offline_group offline_tag offline_gui
      offline_silent silent_rules silent_helps)

section \<open>The shell ends\<close>

lemma run_scan: "run_state scan_line w =
  (case w_stdin w of [] \<Rightarrow> (None, w)
   | l # ls \<Rightarrow> if length l \<ge> 64 * 1024 then (None, w) else (Some l, w\<lparr>w_stdin := ls\<rparr>))"
  by (simp add: scan_line_def)

text \<open>A run that returns, and leaves no more lines than it found.\<close>

definition returns :: "'a option cli \<Rightarrow> world \<Rightarrow> bool" where
  "returns m w \<longleftrightarrow> (\<exists>x w'. run_state m w = (Some x, w') \<and> length (w_stdin w') \<le> length (w_stdin w))"

definition same_stdin :: "world \<Rightarrow> world \<Rightarrow> bool" where
  "same_stdin w w' \<longleftrightarrow> w_stdin w' = w_stdin w"

lemma input_stdin: "keeps same_input m \<Longrightarrow> keeps same_stdin m"
  by (simp add: keeps_def same_input_def same_stdin_def)

lemma stdin_client: "keeps same_stdin (set_secret s)" "keeps same_stdin (new_client E addr port)"
  by (simp_all add: keeps_def same_stdin_def set_secret_def new_client_def split: option.split)

lemma returns_prefix:
  assumes "keeps same_stdin m" and "\<And>x w'. w_stdin w' = w_stdin w \<Longrightarrow> returns (f x) w'"
  shows "returns (State_Monad.bind m f) w"
proof -
  obtain x w' where m: "run_state m w = (x, w')" by fastforce
  with assms(1) have "w_stdin w' = w_stdin w" by (metis keepsD same_stdin_def)
  with assms(2) [OF this, of x] m show ?thesis by (auto simp: returns_def)
qed

lemma returns_return: "returns (return (Some x)) w"
  by (simp add: returns_def)

lemma input_print_code: "keeps same_input (print_code E k)"
  by (simp add: print_code_def input_steps)

lemma shell_returns:
  "2 * length (w_stdin w) < n \<Longrightarrow> returns (shell_loop n E T c active) w"
  "2 * length (w_stdin w) + 1 < n \<Longrightarrow> returns (cli_Run n E T args) w"
proof (induction n arbitrary: c active args w)
  case (Suc n)
  note steps = input_steps input_helps input_print_code
  {
    case 1
    show ?case
      unfolding shell_loop.simps
    proof (rule returns_prefix, simp add: steps input_stdin)
      fix x :: unit and w1 :: world
      assume w1: "w_stdin w1 = w_stdin w"
      let ?body = "\<lambda>l. case l of
          None \<Rightarrow> return (Some (Code 0))
        | Some text \<Rightarrow>
            if TrimSpace text = ''help'' then do { printCommandHint E; shell_loop n E T c active }
            else (case shell_line E T active text of
              Inr e \<Rightarrow> do { err_Println (red (nocolor E) (error_text e)); shell_loop n E T c active }
            | Inl Leave \<Rightarrow> return (Some (Code 0))
            | Inl (Skip ls active') \<Rightarrow> do { print_lines ls; shell_loop n E T c active' }
            | Inl (Submit args) \<Rightarrow> do {
                x \<leftarrow> cli_Run n E T (server_args c @ args);
                case x of
                  None \<Rightarrow> return None
                | Some Panic \<Rightarrow> return (Some Panic)
                | Some (Code k) \<Rightarrow> do { print_code E k; shell_loop n E T c active } })"
      show "returns (State_Monad.bind scan_line ?body) w1"
      proof (cases "w_stdin w1 = [] \<or> length (hd (w_stdin w1)) \<ge> 64 * 1024")
        case True
        then show ?thesis by (auto simp: returns_def run_scan split: list.split)
      next
        case False
        then obtain l ls where l: "w_stdin w1 = l # ls" "length l < 64 * 1024" by (cases "w_stdin w1") auto
        let ?w = "w1\<lparr>w_stdin := ls\<rparr>"
        have n: "2 * length ls < n" "2 * length ls + 1 < n" using 1 l(1) w1 by auto
        have loop: "returns (shell_loop n E T c a) w2" if "length (w_stdin w2) \<le> length ls" for a w2
          by (rule Suc.IH(1)) (use n that in linarith)
        have pre: "returns (State_Monad.bind m (\<lambda>u. shell_loop n E T c a)) w2"
          if "keeps same_input m" "length (w_stdin w2) \<le> length ls" for m :: "unit cli" and a w2
          using that by (intro returns_prefix loop input_stdin) simp_all
        have run: "returns (cli_Run n E T as) ?w" for as
          by (rule Suc.IH(2)) (use n in simp)
        have "returns (?body (Some l)) ?w"
        proof (cases "TrimSpace l = ''help''")
          case True
          then show ?thesis using pre [OF input_helps(5), of ?w E active] by simp
        next
          case no_help: False
          show ?thesis
          proof (cases "shell_line E T active l")
            case (Inr e)
            then show ?thesis using no_help pre [of "err_Println (red (nocolor E) (error_text e))" ?w active]
              by (simp add: steps)
          next
            case (Inl s)
            show ?thesis
            proof (cases s)
              case Leave
              then show ?thesis using Inl no_help by (simp add: returns_return)
            next
              case (Skip ps active')
              then show ?thesis using Inl no_help pre [of "print_lines ps" ?w active'] by (simp add: steps)
            next
              case (Submit as)
              obtain y w2 where y: "run_state (cli_Run n E T (server_args c @ as)) ?w = (Some y, w2)"
                "length (w_stdin w2) \<le> length ls"
                using run [of "server_args c @ as"] by (auto simp: returns_def)
              show ?thesis
              proof (cases y)
                case Panic
                with y Inl Submit no_help show ?thesis by (simp add: returns_def)
              next
                case (Code k)
                from pre [OF input_print_code y(2), of E k active] y Code Inl Submit no_help
                show ?thesis by (fastforce simp: returns_def)
              qed
            qed
          qed
        qed
        then show ?thesis using l by (auto simp: returns_def run_scan)
      qed
    qed
  next
    case 2
    have loop: "returns (shell_loop n E T c []) w2" if "w_stdin w2 = w_stdin w" for c w2
      by (rule Suc.IH(1)) (use 2 that in simp)
    obtain fl err where fl: "parseCommonFlags E args = (fl, err)" by fastforce
    show ?case
    proof (cases err)
      case (Some e)
      show ?thesis
        unfolding cli_Run.simps fl Some prod.case option.case
        by (intro returns_prefix stdin_client input_stdin returns_return) (simp_all add: steps)
    next
      case None
      have body: "returns (case run_command E c (fl_remaining fl) of
              Some m \<Rightarrow> do { x \<leftarrow> m; return (Some x) }
            | None \<Rightarrow> (case Suc n of
                0 \<Rightarrow> return None
              | Suc k \<Rightarrow> do { printBanner E; printCommandHint E; fmt_Println []; shell_loop k E T c [] })) w2"
        if "w_stdin w2 = w_stdin w" for c w2
      proof (cases "run_command E c (fl_remaining fl)")
        case None
        then show ?thesis
          using that by (auto simp: steps intro!: returns_prefix input_stdin loop)
      next
        case (Some m)
        from input_command [OF Some] Some show ?thesis
          by (auto intro!: returns_prefix input_stdin returns_return)
      qed
      show ?thesis
        unfolding cli_Run.simps fl None prod.case option.case
        by (intro returns_prefix stdin_client body) simp_all
    qed
  }
qed simp_all

end
