(* ===== verification/Cli_Main.thy ===== *)
theory Cli_Main
  imports Shell_Laws
begin

text \<open>The properties of the command line as a whole, from the lemmas of Shell_Laws.\<close>

section \<open>More fuel gives the same result\<close>

definition refines :: "'a option cli \<Rightarrow> 'a option cli \<Rightarrow> bool" where
  "refines m m' \<longleftrightarrow> (\<forall>w x w'. run_state m w = (Some x, w') \<longrightarrow> run_state m' w = (Some x, w'))"

lemma refines_refl: "refines m m"
  by (simp add: refines_def)

lemma refines_none: "refines (return None) m"
  by (simp add: refines_def)

lemma refines_bind: "(\<And>x. refines (f x) (g x)) \<Longrightarrow> refines (State_Monad.bind m f) (State_Monad.bind m g)"
  by (auto simp: refines_def split: prod.split)

lemma refines_bind_option:
  assumes "refines m m'" and "f None = return None" and "\<And>x. refines (f (Some x)) (g (Some x))"
  shows "refines (State_Monad.bind m f) (State_Monad.bind m' g)"
  unfolding refines_def
proof (intro allI impI)
  fix w y w'
  assume r: "run_state (State_Monad.bind m f) w = (Some y, w')"
  obtain x w1 where m: "run_state m w = (x, w1)" by fastforce
  with r assms(2) obtain z where z: "x = Some z" by (cases x) auto
  with assms(1) m have "run_state m' w = (Some z, w1)" by (simp add: refines_def)
  moreover have "run_state (f (Some z)) w1 = (Some y, w')" using r m z by simp
  ultimately show "run_state (State_Monad.bind m' g) w = (Some y, w')"
    using assms(3) [of z] by (simp add: refines_def)
qed

lemma fuel_step:
  "refines (shell_loop n E T c active) (shell_loop (Suc n) E T c active)"
  "refines (cli_Run n E T args) (cli_Run (Suc n) E T args)"
proof (induction n arbitrary: c active args)
  case 0
  {
    case 1
    show ?case by (simp add: refines_none)
  next
    case 2
    show ?case
      unfolding cli_Run.simps
      by (auto intro!: refines_bind refines_refl refines_none split: prod.split option.split)
  }
next
  case (Suc n)
  {
    case 1
    show ?case
      by (subst shell_loop.simps(2), subst shell_loop.simps(2)) (auto intro!: refines_bind refines_bind_option refines_refl Suc.IH
          simp del: shell_loop.simps cli_Run.simps split: option.split sum.split shell_step.split exit.split)
  next
    case 2
    show ?case
      unfolding cli_Run.simps
      by (auto intro!: refines_bind refines_refl Suc.IH simp del: shell_loop.simps cli_Run.simps
          split: prod.split option.split)
  }
qed

lemma refines_trans: "refines m1 m2 \<Longrightarrow> refines m2 m3 \<Longrightarrow> refines m1 m3"
  by (simp add: refines_def)

lemma fuel_more:
  assumes "n \<le> k"
  shows "refines (shell_loop n E T c active) (shell_loop k E T c active)"
    and "refines (cli_Run n E T args) (cli_Run k E T args)"
  using assms
  by (induction k rule: dec_induct) (blast intro: refines_refl refines_trans fuel_step)+

section \<open>Flags\<close>

definition is_flag :: "string \<Rightarrow> bool" where
  "is_flag a \<longleftrightarrow> HasPrefix a ''-server='' \<or> HasPrefix a ''--server='' \<or> is_port_flag a \<or>
     HasPrefix a ''-admin-secret='' \<or> HasPrefix a ''--admin-secret=''"

lemma parse_no_flags:
  "\<forall>a \<in> set as. \<not> is_flag a \<Longrightarrow> parse_flags as f = (f\<lparr>fl_remaining := fl_remaining f @ as\<rparr>, None)"
  by (induction as arbitrary: f) (auto simp: is_flag_def)

lemma takeWhile_digits: "takeWhile (\<lambda>c. digit_of c \<noteq> None) (nat_digits n) = nat_digits n"
proof -
  have "digits_val a s \<noteq> None \<Longrightarrow> \<forall>c \<in> set s. digit_of c \<noteq> None" for a s
    by (induction s arbitrary: a) (auto split: option.splits)
  then show ?thesis using digits_val_nat_digits [of n] by (auto simp: takeWhile_eq_all_conv)
qed

text \<open>No digit and no sign begins a white-space rune.\<close>

lemma seq_len_first: "(\<forall>q \<in> set qs. q \<noteq> [] \<and> hd q \<noteq> c) \<Longrightarrow> seq_len qs (c # s) = 0"
proof (induction qs)
  case (Cons q qs)
  then show ?case by (cases q) (auto simp: HasPrefix_def)
qed simp

lemma digit_not_space: "digit_of c \<noteq> None \<or> c = CHR ''-'' \<Longrightarrow> seq_len space_seqs (c # s) = 0 \<and> c \<noteq> CHR 0x0A"
proof -
  assume c: "digit_of c \<noteq> None \<or> c = CHR ''-''"
  have "\<forall>q \<in> set space_seqs. q \<noteq> [] \<and> digit_of (hd q) = None \<and> hd q \<noteq> CHR ''-''"
    by (simp add: space_seqs_def digit_of_def)
  with c have "\<forall>q \<in> set space_seqs. q \<noteq> [] \<and> hd q \<noteq> c" by metis
  moreover have "digit_of CHR 0x0A = None" by (simp add: digit_of_def)
  ultimately show ?thesis using c seq_len_first by auto
qed

lemma skip_space_number: "digit_of c \<noteq> None \<or> c = CHR ''-'' \<Longrightarrow> skip_space (c # s) = Some (c # s)"
  using digit_not_space [of c s] by (subst skip_space.simps) auto

lemma nat_digits_head: "\<exists>c s. nat_digits n = c # s \<and> digit_of c \<noteq> None"
proof -
  obtain c s where c: "nat_digits n = c # s" by (cases "nat_digits n") auto
  with digits_val_nat_digits [of n] show ?thesis by (auto split: option.splits)
qed

lemma Sscanf_Itoa: "int64 v \<Longrightarrow> Sscanf_d (Itoa v) = Some v"
proof -
  assume v: "int64 v"
  obtain c s where c: "nat_digits (nat \<bar>v\<bar>) = c # s" "digit_of c \<noteq> None" using nat_digits_head by blast
  have tw: "takeWhile (\<lambda>c. digit_of c \<noteq> None) (c # s) = c # s"
    using takeWhile_digits [of "nat \<bar>v\<bar>"] unfolding c .
  have tw': "takeWhile (\<lambda>c. \<exists>y. digit_of c = Some y) s = s"
    using tw c(2) by (auto simp: takeWhile_eq_all_conv)
  have sign: "c \<noteq> CHR ''-''" "c \<noteq> CHR ''+''" using c(2) by auto
  show ?thesis
  proof (cases "v < 0")
    case True
    then have i: "Itoa v = CHR ''-'' # c # s" using c(1) by (simp add: Itoa_def)
    have "Sscanf_d (Itoa v) = Atoi (Itoa v)"
      using tw unfolding i by (simp add: Sscanf_d_def skip_space_number Let_def)
    then show ?thesis using Atoi_Itoa [OF v] by simp
  next
    case False
    then have i: "Itoa v = c # s" using c(1) by (simp add: Itoa_def)
    have "Sscanf_d (Itoa v) = Atoi (Itoa v)"
      using c(2) sign unfolding i by (auto simp: Sscanf_d_def skip_space_number Let_def tw')
    then show ?thesis using Atoi_Itoa [OF v] by simp
  qed
qed

lemma flag_prefixes [simp]:
  "HasPrefix (''-server='' @ s) ''-server=''" "\<not> HasPrefix (''-port='' @ s) ''-server=''"
  "\<not> HasPrefix (''-port='' @ s) ''--server=''" "is_port_flag (''-port='' @ s)"
  "flag_value ''server'' (''-server='' @ s) = s" "flag_value ''port'' (''-port='' @ s) = s"
  by (simp_all add: HasPrefix_def is_port_flag_def flag_value_def TrimPrefix_def)

lemma parse_server_args:
  assumes "int64 (cl_ServerPort c)" and "\<forall>a \<in> set as. \<not> is_flag a"
  shows "parseCommonFlags E (server_args c @ as) =
    (\<lparr>fl_addr = cl_ServerAddr c, fl_port = cl_ServerPort c, fl_secret = None, fl_remaining = as\<rparr>, None)"
proof -
  have p: "parse_flags ((''-server='' @ s) # (''-port='' @ Itoa (cl_ServerPort c)) # as) f =
      parse_flags as (f\<lparr>fl_addr := s, fl_port := cl_ServerPort c\<rparr>)" for s f
    unfolding parse_flags.simps by (simp only: flag_prefixes if_True if_False Sscanf_Itoa [OF assms(1)]
        option.case de_Morgan_disj simp_thms)
  have "server_args c @ as = (''-server='' @ cl_ServerAddr c) # (''-port='' @ Itoa (cl_ServerPort c)) # as"
    by (simp add: server_args_def)
  then show ?thesis
    unfolding parseCommonFlags_def by (simp only: p parse_no_flags [OF assms(2)]) simp
qed

section \<open>The agent that a line addresses\<close>

lemma resolve_exec:
  assumes "active \<noteq> []" and "resolveShellCommand T ws active = Inr args"
    and "args \<noteq> []" and "hd args \<in> {''exec'', ''cmd''}"
  shows "(\<exists>rest. args = ''exec'' # active # rest \<and> rest \<noteq> []) \<or>
    args = ws \<and> (\<exists>a rest. tl ws = a # rest \<and> (HasPrefix a ''--'' \<or> tl_EqualFold T a active))"
proof (cases ws)
  case Nil
  with assms show ?thesis by (simp add: resolveShellCommand_def)
next
  case (Cons cmd rest)
  define plain where "plain = {''list'', ''help'', ''exit'', ''quit'', ''shell'', ''start'', ''plugin'', ''group'', ''tag''}"
  define info where "info = {''info'', ''ping''}"
  define ex where "ex = {''exec'', ''cmd''}"
  have r: "resolveShellCommand T (cmd # rest) active = Inr args" using assms(2) Cons by simp
  note def = resolveShellCommand_def list.case plain_def [symmetric] info_def [symmetric] ex_def [symmetric]
  have x: "hd args \<in> ex" using assms(4) by (simp add: ex_def)
  have d: "ex \<inter> plain = {}" "ex \<inter> info = {}" "''agent'' \<notin> ex" by (auto simp: ex_def plain_def info_def)
  show ?thesis
  proof (cases "cmd \<in> ex")
    case True
    with d have "cmd \<notin> plain" "cmd \<notin> info" by auto
    with True r assms(1) Cons show ?thesis unfolding def by (cases rest) (auto split: if_splits)
  next
    case False
    with d(3) r assms(1) x Cons show ?thesis unfolding def by (auto split: if_splits)
  qed
qed

section \<open>Properties\<close>

text \<open>
  Property C30. The exit code of every command of the table is 0 or 1, or the command panics; and
  it panics only when its last request was the one of info, the server answered it without an error,
  and the answer had no agent in it. Commands never touch the input of the shell or the secret.
\<close>

theorem cli_exit_codes:
  assumes "run_command E c args = Some m" and "run_state m w = (x, w')"
  shows "(x = Code 0 \<or> x = Code 1 \<or> x = Panic \<and> (\<exists>n a req resp. w_requests w \<le> n \<and> w_requests w' = Suc n \<and>
      cl_do (ce_lib E) (ce_do E n) c ((new_message CLIInfo)\<lparr>m_AgentID := a\<rparr>) = (Some req, Inr resp) \<and>
      m_Agent resp = None)) \<and>
    w_stdin w' = w_stdin w \<and> w_secret w' = w_secret w"
proof -
  have "exit_ok x \<or> x = Panic \<and> (\<exists>n \<ge> w_requests w. w_requests w' = Suc n \<and> no_agent E c n)"
    using exits_command [OF assms(1)] assms(2) unfolding exits_def by blast
  moreover have "same_input w w'" using keepsD [OF input_command [OF assms(1)] assms(2)] .
  ultimately show ?thesis unfolding exit_ok_def no_agent_def same_input_def by blast
qed

theorem cli_exit_codes_witness:
  "\<exists>m w' n a req resp. run_command (sample_cli Inr) sample_client [''info'', ''a''] = Some m \<and>
     run_state m (sample_world [''x'']) = (Panic, w') \<and> w_stdin w' = [''x''] \<and>
     cl_do sample_lib (sample_do Inr n) sample_client ((new_message CLIInfo)\<lparr>m_AgentID := a\<rparr>) = (Some req, Inr resp) \<and>
     m_Agent resp = None"
proof -
  let ?E = "sample_cli Inr" and ?m = "runInfo (sample_cli Inr) sample_client ''a''"
  have m: "run_command ?E sample_client [''info'', ''a''] = Some ?m" by (simp add: run_command_def)
  have t: "TrimSpace (''k/client-'' @ Itoa 1 @ ''/n'' @ Itoa 0) \<noteq> []" "TrimSpace ''k'' \<noteq> []"
    by code_simp+
  have "answer ?E 0 (\<lambda>L d. GetAgent L d sample_client ''a'') = Inr (None, [])"
    by (simp add: answer_def GetAgent_def cl_ask_def cl_do_def cl_signMessage_def sample_cli_def sample_do_def
        sample_lib_def sample_sign_def sample_client_def NewClient_def new_message_def Let_def t [simplified])
  then obtain w' where r: "run_state ?m (sample_world [''x'']) = (Panic, w')"
    by (simp add: runInfo_def run_ask sample_world_def)
  have "ce_lib ?E = sample_lib" "ce_do ?E = sample_do Inr" by (simp_all add: sample_cli_def)
  with cli_exit_codes [OF m r] m r show ?thesis by (simp add: sample_world_def) blast
qed

text \<open>
  Property C31. When the server cannot be reached, nothing is sent, and every command that made a request
  exits with code 1, whichever command it is.
\<close>

theorem cli_unreachable:
  assumes "unreachable_server E" and "run_command E c args = Some m" and "run_state m w = (x, w')"
  shows "w_sent w' = w_sent w \<and> (w_requests w' \<noteq> w_requests w \<longrightarrow> x = Code 1)"
  using offline_command [OF assms(1,2)] assms(3) unfolding offline_def by (metis fst_conv snd_conv)

definition no_route_env :: cli_env where
  "no_route_env = (sample_cli Inr)\<lparr>ce_do := (\<lambda>n. (sample_do Inr n)\<lparr>env_dial := Some (Errorf ''no route to host'')\<rparr>)\<rparr>"

theorem cli_unreachable_witness:
  "\<exists>m w'. run_command no_route_env sample_client [''tag'', ''a'', ''set'', ''x''] = Some m \<and>
     run_state m (sample_world []) = (Code 1, w') \<and> w_sent w' = [] \<and> w_requests w' = 1"
proof -
  have u: "unreachable_server no_route_env" by (simp add: unreachable_server_def no_route_env_def)
  have m: "run_command no_route_env sample_client [''tag'', ''a'', ''set'', ''x''] =
      Some (runTag no_route_env sample_client [''a'', ''set'', ''x''])" by (simp add: run_command_def)
  obtain x w' where r: "run_state (runTag no_route_env sample_client [''a'', ''set'', ''x'']) (sample_world []) = (x, w')"
    by fastforce
  have "w_requests w' = 1"
    using r by (auto simp: runTag_def run_ask run_printResult sample_world_def split: sum.splits)
  with cli_unreachable [OF u m r] m r show ?thesis by (auto simp: sample_world_def)
qed

text \<open>
  Property C32. The shell ends: it reads its input to the end or to a line that leaves it, and the fuel
  it needs is bounded by the number of lines; more fuel changes nothing.
\<close>

theorem shell_ends:
  "\<exists>x w'. \<forall>k. run_state (shell_loop (Suc (2 * length (w_stdin w)) + k) E T c active) w = (Some x, w') \<and>
     length (w_stdin w') \<le> length (w_stdin w)"
proof -
  let ?n = "Suc (2 * length (w_stdin w))"
  obtain x w' where r: "run_state (shell_loop ?n E T c active) w = (Some x, w')"
    "length (w_stdin w') \<le> length (w_stdin w)"
    using shell_returns(1) [of w ?n E T c active] unfolding returns_def by blast
  have "run_state (shell_loop (?n + k) E T c active) w = (Some x, w')" for k
    using fuel_more(1) [of ?n "?n + k" E T c active] r(1) unfolding refines_def by simp
  with r(2) show ?thesis by blast
qed

text \<open>
  A line of the shell is run on the server of the shell: the flags that the shell puts in front
  read back as its address and port, and the words of the line stay as they are, unless one of
  them is itself a flag.
\<close>

theorem shell_same_server:
  assumes "int64 (cl_ServerPort c)" and "\<forall>a \<in> set args. \<not> is_flag a"
  shows "parseCommonFlags E (server_args c @ args) =
    (\<lparr>fl_addr = cl_ServerAddr c, fl_port = cl_ServerPort c, fl_secret = None, fl_remaining = args\<rparr>, None)"
  by (rule parse_server_args [OF assms])

theorem shell_same_server_witness:
  "fl_port (fst (parseCommonFlags (sample_cli Inr) (server_args sample_client @ [''exec'', ''a'', ''dir'']))) = 9999"
proof -
  have "cl_ServerPort sample_client = 9999" by (simp add: sample_client_def NewClient_def)
  then show ?thesis
    using shell_same_server [of sample_client "[''exec'', ''a'', ''dir'']" "sample_cli Inr"]
    by (simp add: int64_def is_flag_def is_port_flag_def HasPrefix_def)
qed

text \<open>
  Property C29. While an agent is active, no line runs a command on another one by accident: what the shell
  makes of a line is a command on the active agent, or the line as it was typed, where it names
  the active agent or begins with an option such as --all.
\<close>

theorem shell_addresses_active:
  assumes "active \<noteq> []" and "resolveShellCommand T ws active = Inr args"
    and "args \<noteq> []" and "hd args \<in> {''exec'', ''cmd''}"
  shows "(\<exists>rest. args = ''exec'' # active # rest \<and> rest \<noteq> []) \<or>
    args = ws \<and> (\<exists>a rest. tl ws = a # rest \<and> (HasPrefix a ''--'' \<or> tl_EqualFold T a active))"
  by (rule resolve_exec [OF assms])

theorem shell_addresses_active_witness:
  "\<exists>rest. resolveShellCommand \<lparr>tl_Quote = (\<lambda>s. s), tl_EqualFold = (=)\<rparr> [''exec'', ''b'', ''whoami''] ''a'' =
     Inr (''exec'' # ''a'' # rest)"
proof -
  let ?T = "\<lparr>tl_Quote = (\<lambda>s. s), tl_EqualFold = (=)\<rparr>"
  have r: "resolveShellCommand ?T [''exec'', ''b'', ''whoami''] ''a'' = Inr [''exec'', ''a'', ''b'', ''whoami'']"
    by (simp add: resolveShellCommand_def HasPrefix_def)
  from shell_addresses_active [OF _ r] r show ?thesis by auto
qed

section \<open>Flags that are not meant for the client\<close>

text \<open>
  The flags are looked for among all words, also among the arguments of the remote command:
  such an argument does not reach the agent, and it sends the request to another port.
\<close>

lemma flags_swallow_arguments:
  "fst (parse_flags [''exec'', ''a'', ''nc'', ''host'', ''-port=22''] f) =
     f\<lparr>fl_port := 22, fl_remaining := fl_remaining f @ [''exec'', ''a'', ''nc'', ''host'']\<rparr>"
proof -
  have "Sscanf_d ''22'' = Some 22" by code_simp
  then show ?thesis by (simp add: HasPrefix_def is_port_flag_def flag_value_def TrimPrefix_def)
qed

text \<open>A port is read up to its first character that is no digit.\<close>

lemma port_flag_prefix: "Sscanf_d ''80x'' = Some 80" "Sscanf_d ''x80'' = None" "Sscanf_d '' +7'' = Some 7"
  by code_simp+

text \<open>A source that begins with a dash is an option for git.\<close>

lemma git_option_source: "isGitSource ''--upload-pack=x.git''"
  by code_simp

end
