(* ===== verification/Gui_Laws.thy ===== *)
theory Gui_Laws
  imports Gui_Server
begin

text \<open>
  The download of the graphical interface: it ends whatever the agent answers, a success is
  never short, and with an agent that reads the file faithfully the body is the file.
\<close>

section \<open>Offsets\<close>

lemma sint_add:
  fixes a b :: "64 word"
  assumes "0 \<le> sint a" and "0 \<le> sint b" and "sint a + sint b < 2 ^ 63"
  shows "sint (a + b) = sint a + sint b"
  using assms by (simp add: sint_word_ariths signed_take_bit_int_eq_self)

lemma sint_sub:
  fixes a b :: "64 word"
  assumes "0 \<le> sint b" and "sint b \<le> sint a"
  shows "sint (a - b) = sint a - sint b"
proof -
  have "sint a < 2 ^ 63" using sint_lt [of a] by simp
  with assms show ?thesis by (simp add: sint_word_ariths signed_take_bit_int_eq_self)
qed

lemma sint_of_int: "0 \<le> k \<Longrightarrow> k < 2 ^ 63 \<Longrightarrow> sint (word_of_int k :: 64 word) = k"
  by (simp add: int_word_sint)

lemma count_at_pos:
  assumes "0 \<le> sint offset" and "sint offset < sint len"
  shows "count_at len offset = min chunkSize (sint len - sint offset)" and "0 < count_at len offset"
  using assms by (auto simp: count_at_def Let_def sint_sub chunkSize_def)

section \<open>One round\<close>

text \<open>What a round makes of the answer: the response, and the error or the next offset.\<close>

definition stream_round ::
  "gui_env \<Rightarrow> 64 word \<Rightarrow> http_resp \<Rightarrow> download_chunk result \<Rightarrow> (http_resp \<times> 64 word) option" where
  "stream_round G offset r a =
     (case a of
        Inl e \<Rightarrow> None
      | Inr chunk \<Rightarrow>
          (if dc_Offset chunk \<noteq> offset \<or> sint (dc_Read chunk) \<le> 0 then None
           else case DecodeString (dc_Base64 chunk) of
                  Inl e \<Rightarrow> None
                | Inr data \<Rightarrow>
                    (if int (length data) \<noteq> sint (dc_Read chunk) then None
                     else case hr_Write G data r of
                            (r', Some e) \<Rightarrow> None
                          | (r', None) \<Rightarrow> Some (r', offset + dc_Read chunk))))"

definition chunk_answer ::
  "cli_env \<Rightarrow> gui_env \<Rightarrow> client \<Rightarrow> string \<Rightarrow> string \<Rightarrow> nat \<Rightarrow> int \<Rightarrow> int \<Rightarrow> download_chunk result" where
  "chunk_answer E G c agentID path n offset cnt =
     fst (run_state (downloadRemoteFileChunk E G c agentID path offset cnt) \<lparr>w_requests = n, w_clients = 0, w_sent = [],
       w_out = [], w_stdin = [], w_secret = [], w_temps = []\<rparr>)"

lemma run_chunk:
  "run_state (downloadRemoteFileChunk E G c agentID path offset cnt) w =
     (chunk_answer E G c agentID path (w_requests w) offset cnt,
      w\<lparr>w_requests := Suc (w_requests w),
        w_sent := w_sent w @ sent_by E (w_requests w) (superexec_request c agentID (chunk_script path offset cnt))\<rparr>)"
  by (simp add: downloadRemoteFileChunk_def chunk_answer_def run_script_def run_ask)

lemma run_guiLog [simp]: "w_requests (snd (run_state (guiLog G s) w)) = w_requests w"
  by (simp add: guiLog_def)

lemma stream_step:
  assumes "sint offset < sint (di_Size info)"
    and "chunk_answer E G c agentID path (w_requests w) (sint offset) (count_at (di_Size info) offset) = a"
  shows "stream_round G offset r a = None \<Longrightarrow>
      \<exists>r' e. fst (run_state (stream_loop (Suc n) E G c agentID path info offset r) w) = Some (r', Some e)"
    and "stream_round G offset r a = Some (r', offset') \<Longrightarrow>
      \<exists>w'. w_requests w' = Suc (w_requests w) \<and>
        fst (run_state (stream_loop (Suc n) E G c agentID path info offset r) w) =
        fst (run_state (stream_loop n E G c agentID path info offset' r') w')"
proof -
  show "stream_round G offset r a = None \<Longrightarrow>
      \<exists>r' e. fst (run_state (stream_loop (Suc n) E G c agentID path info offset r) w) = Some (r', Some e)"
    using assms unfolding stream_round_def
    by (auto simp: run_chunk split: sum.splits if_splits prod.splits option.splits)
  show "\<exists>w'. w_requests w' = Suc (w_requests w) \<and>
        fst (run_state (stream_loop (Suc n) E G c agentID path info offset r) w) =
        fst (run_state (stream_loop n E G c agentID path info offset' r') w')"
    if "stream_round G offset r a = Some (r', offset')"
    using assms that unfolding stream_round_def
    by (auto simp: run_chunk log_progress_def guiLog_def split: sum.splits if_splits prod.splits option.splits
        intro!: exI)
qed

lemma stream_round_some:
  assumes "stream_round G offset r a = Some (r', offset')"
  shows "\<exists>chunk data. a = Inr chunk \<and> 0 < sint (dc_Read chunk) \<and>
    int (length data) = sint (dc_Read chunk) \<and> hr_body r' = hr_body r @ data \<and> offset' = offset + dc_Read chunk"
  using assms
  by (auto simp: stream_round_def hr_Write_def hr_WriteHeader_def Let_def
      split: sum.splits if_splits prod.splits option.splits)

section \<open>The loop ends\<close>

text \<open>The two bounds that keep the 64-bit offset from wrapping: a chunk is no larger than memory.\<close>

definition chunks_bounded :: "gui_env \<Rightarrow> bool" where
  "chunks_bounded G \<longleftrightarrow> (\<forall>t chunk. ge_read_chunk G t = Inr chunk \<longrightarrow> sint (dc_Read chunk) \<le> 2 ^ 62)"

lemma chunk_answer_bounded:
  "chunks_bounded G \<Longrightarrow> chunk_answer E G c agentID path n offset cnt = Inr chunk \<Longrightarrow> sint (dc_Read chunk) \<le> 2 ^ 62"
  by (auto simp: chunk_answer_def downloadRemoteFileChunk_def run_script_def run_ask chunks_bounded_def
      split: sum.splits)

lemma stream_loop_ends:
  assumes "chunks_bounded G" and "sint (di_Size info) \<le> 2 ^ 62"
  shows "0 \<le> sint offset \<Longrightarrow> sint (di_Size info) - sint offset < int n \<Longrightarrow> 0 < n \<Longrightarrow>
    \<exists>r' e. fst (run_state (stream_loop n E G c agentID path info offset r) w) = Some (r', e) \<and>
      (e = None \<longrightarrow> sint (di_Size info) - sint offset \<le> int (length (hr_body r')) - int (length (hr_body r)))"
proof (induction n arbitrary: offset r w)
  case (Suc n)
  show ?case
  proof (cases "sint offset < sint (di_Size info)")
    case False
    then show ?thesis by simp
  next
    case True
    let ?a = "chunk_answer E G c agentID path (w_requests w) (sint offset) (count_at (di_Size info) offset)"
    show ?thesis
    proof (cases "stream_round G offset r ?a")
      case None
      from stream_step(1) [OF True refl None, of n] show ?thesis by fastforce
    next
      case (Some p)
      obtain r' offset' where p: "p = (r', offset')" by (cases p)
      obtain chunk data where round: "?a = Inr chunk" "0 < sint (dc_Read chunk)"
        "int (length data) = sint (dc_Read chunk)" "hr_body r' = hr_body r @ data" "offset' = offset + dc_Read chunk"
        using stream_round_some [OF Some [unfolded p]] by blast
      have "sint (dc_Read chunk) \<le> 2 ^ 62" by (rule chunk_answer_bounded [OF assms(1) round(1)])
      then have o: "sint offset' = sint offset + sint (dc_Read chunk)"
        unfolding round(5) using Suc.prems(1) True assms(2) round(2) by (intro sint_add) simp_all
      have n: "0 < n" using Suc.prems(2) True by linarith
      obtain w' where w': "fst (run_state (stream_loop (Suc n) E G c agentID path info offset r) w) =
        fst (run_state (stream_loop n E G c agentID path info offset' r') w')"
        using stream_step(2) [OF True refl Some [unfolded p], of n] by blast
      obtain r2 e where "fst (run_state (stream_loop n E G c agentID path info offset' r') w') = Some (r2, e)"
        "e = None \<longrightarrow> sint (di_Size info) - sint offset' \<le> int (length (hr_body r2)) - int (length (hr_body r'))"
        using Suc.IH [of offset' r' w'] Suc.prems(1,2) n o round(2) by auto
      with w' o round(3,4) show ?thesis by auto
    qed
  qed
qed simp

section \<open>A faithful agent\<close>

text \<open>It answers the script for a chunk with some bytes of the file, from the offset on.\<close>

definition faithful :: "cli_env \<Rightarrow> gui_env \<Rightarrow> client \<Rightarrow> string \<Rightarrow> string \<Rightarrow> string \<Rightarrow> bool" where
  "faithful E G c agentID path content \<longleftrightarrow>
     (\<forall>n k. k < length content \<longrightarrow>
        (\<exists>m > 0. m \<le> length content - k \<and>
           chunk_answer E G c agentID path n (int k) (min chunkSize (int (length content - k))) =
           Inr \<lparr>dc_Offset = word_of_int (int k), dc_Read = word_of_int (int m),
                dc_Base64 = EncodeToString (take m (drop k content))\<rparr>))"

definition writes_ok :: "gui_env \<Rightarrow> bool" where
  "writes_ok G \<longleftrightarrow> (\<forall>r data. snd (ge_write G r data) = None)"

lemma write_ok: "writes_ok G \<Longrightarrow> \<exists>r'. hr_Write G data r = (r', None) \<and> hr_body r' = hr_body r @ data \<and>
    hr_headers r' = hr_headers r"
proof -
  assume "writes_ok G"
  then have "snd (ge_write G (hr_WriteHeader 200 r) data) = None" by (simp add: writes_ok_def)
  then obtain n where "ge_write G (hr_WriteHeader 200 r) data = (n, None)" by (metis prod.collapse)
  then have "hr_Write G data r = ((hr_WriteHeader 200 r)\<lparr>hr_body := hr_body (hr_WriteHeader 200 r) @ data\<rparr>, None)"
    by (simp add: hr_Write_def Let_def)
  then show ?thesis by (simp add: hr_WriteHeader_def)
qed

lemma stream_loop_exact:
  assumes "faithful E G c agentID path content" and "writes_ok G"
    and "sint (di_Size info) = int (length content)"
  shows "k \<le> length content \<Longrightarrow> length content - k < n \<Longrightarrow>
    \<exists>r'. fst (run_state (stream_loop n E G c agentID path info (word_of_int (int k)) r) w) = Some (r', None) \<and>
      hr_body r' = hr_body r @ drop k content \<and> hr_headers r' = hr_headers r"
proof (induction n arbitrary: k r w)
  case (Suc n)
  have bound: "int (length content) < 2 ^ 63" unfolding assms(3) [symmetric] using sint_lt [of "di_Size info"] by simp
  have k: "sint (word_of_int (int k) :: 64 word) = int k"
    using Suc.prems(1) bound by (intro sint_of_int) linarith+
  show ?case
  proof (cases "k < length content")
    case False
    with k assms(3) show ?thesis by simp
  next
    case True
    have "\<exists>m > 0. m \<le> length content - k \<and>
        chunk_answer E G c agentID path (w_requests w) (int k) (min chunkSize (int (length content - k))) =
        Inr \<lparr>dc_Offset = word_of_int (int k), dc_Read = word_of_int (int m),
             dc_Base64 = EncodeToString (take m (drop k content))\<rparr>"
      using assms(1) True by (simp only: faithful_def)
    then obtain m where m: "0 < m" "m \<le> length content - k"
      "chunk_answer E G c agentID path (w_requests w) (int k) (min chunkSize (int (length content - k))) =
        Inr \<lparr>dc_Offset = word_of_int (int k), dc_Read = word_of_int (int m),
             dc_Base64 = EncodeToString (take m (drop k content))\<rparr>" by blast
    let ?off = "word_of_int (int k) :: 64 word" and ?data = "take m (drop k content)"
    let ?chunk = "\<lparr>dc_Offset = ?off, dc_Read = word_of_int (int m), dc_Base64 = EncodeToString ?data\<rparr>"
    have lt: "sint ?off < sint (di_Size info)" unfolding k assms(3) using True by simp
    have cnt: "count_at (di_Size info) ?off = min chunkSize (int (length content - k))"
      using count_at_pos(1) [OF _ lt] unfolding k assms(3) using True by (simp add: of_nat_diff)
    have a: "chunk_answer E G c agentID path (w_requests w) (sint ?off) (count_at (di_Size info) ?off) = Inr ?chunk"
      unfolding cnt k by (rule m(3))
    have "sint (word_of_int (int m) :: 64 word) = int m"
      using m(2) bound by (intro sint_of_int) linarith+
    then have sm: "sint (word_of_nat m :: 64 word) = int m" by simp
    obtain r1 where r1: "hr_Write G ?data r = (r1, None)" "hr_body r1 = hr_body r @ ?data" "hr_headers r1 = hr_headers r"
      using write_ok [OF assms(2)] by blast
    have "length ?data = m" using m(2) by simp
    then have "stream_round G ?off r (Inr ?chunk) = Some (r1, ?off + word_of_int (int m))"
      using m(1) r1(1) by (simp add: stream_round_def Decode_Encode sm)
    moreover have "?off + word_of_int (int m) = word_of_int (int (k + m))" by simp
    ultimately obtain w' where w': "fst (run_state (stream_loop (Suc n) E G c agentID path info ?off r) w) =
        fst (run_state (stream_loop n E G c agentID path info (word_of_int (int (k + m))) r1) w')"
      using stream_step(2) [OF lt a, of r r1 "?off + word_of_int (int m)" n] by auto
    have p: "k + m \<le> length content" "length content - (k + m) < n"
      using Suc.prems(2) m(1,2) True by linarith+
    obtain r' where "fst (run_state (stream_loop n E G c agentID path info (word_of_int (int (k + m))) r1) w') = Some (r', None)"
      "hr_body r' = hr_body r1 @ drop (k + m) content" "hr_headers r' = hr_headers r1"
      using Suc.IH [OF p] by blast
    moreover have "?data @ drop (k + m) content = drop k content"
      by (metis add.commute append_take_drop_id drop_drop)
    ultimately show ?thesis using w' r1(2,3) by simp
  qed
qed simp

section \<open>Properties\<close>

text \<open>
  Property C33. A download ends, whatever the agent answers: with enough rounds, at most one for every byte
  of the announced size, there is a result, and a result without an error is never short of
  that size. (The announced size is at most 2^62, and so is the length of a chunk.)
\<close>

theorem download_ends:
  assumes "chunks_bounded G"
    and "\<And>info. fst (run_state (downloadRemoteFileInfo E G c agentID path) w) = Inr info \<Longrightarrow>
      sint (di_Size info) \<le> 2 ^ 62 \<and> sint (di_Size info) < int fuel"
    and "0 < fuel"
  shows "\<exists>r e. fst (run_state (streamRemoteFile fuel E G c agentID path r0) w) = Some (r, e) \<and>
    (e = None \<longrightarrow> (\<exists>info. fst (run_state (downloadRemoteFileInfo E G c agentID path) w) = Inr info \<and>
       sint (di_Size info) \<le> int (length (hr_body r)) - int (length (hr_body r0))))"
proof -
  obtain a w1 where a: "run_state (downloadRemoteFileInfo E G c agentID path) w = (a, w1)" by fastforce
  show ?thesis
  proof (cases a)
    case (Inl e)
    with a show ?thesis by (simp add: streamRemoteFile_def)
  next
    case (Inr info)
    have body: "hr_body (download_headers G info r0) = hr_body r0"
      by (simp add: download_headers_def hr_Set_def)
    show ?thesis
    proof (cases "di_Size info = 0")
      case True
      with a Inr body show ?thesis by (simp add: streamRemoteFile_def Let_def guiLog_def)
    next
      case False
      obtain r e where l: "fst (run_state (stream_loop fuel E G c agentID path info 0 (download_headers G info r0)) w1) = Some (r, e)"
        "e = None \<longrightarrow> sint (di_Size info) \<le> int (length (hr_body r)) - int (length (hr_body r0))"
        using stream_loop_ends [OF assms(1), of info 0 fuel E c agentID path "download_headers G info r0" w1]
          assms(2) [of info] assms(3) a Inr body by auto
      obtain w2 where "run_state (stream_loop fuel E G c agentID path info 0 (download_headers G info r0)) w1 = (Some (r, e), w2)"
        using l(1) by (metis prod.collapse)
      then have "fst (run_state (streamRemoteFile fuel E G c agentID path r0) w) = Some (r, e)"
        using a Inr False by (simp add: streamRemoteFile_def Let_def guiLog_def split: option.split)
      with l(2) a Inr show ?thesis by auto
    qed
  qed
qed

text \<open>
  Property C12. With an agent that reads the file faithfully, in pieces of any size, and a connection that
  takes all writes, the body of the response is the content of the file, byte for byte, and the
  announced length is its length.
\<close>

theorem download_exact:
  assumes "faithful E G c agentID path content" and "writes_ok G" and "hr_status r0 = None"
    and "fst (run_state (downloadRemoteFileInfo E G c agentID path) w) = Inr info"
    and "sint (di_Size info) = int (length content)" and "length content < fuel"
  shows "\<exists>r. fst (run_state (streamRemoteFile fuel E G c agentID path r0) w) = Some (r, None) \<and>
    hr_body r = hr_body r0 @ content \<and>
    map_of (hr_headers r) ''Content-Length'' = Some (Itoa (int (length content)))"
proof -
  obtain w1 where a: "run_state (downloadRemoteFileInfo E G c agentID path) w = (Inr info, w1)"
    using assms(4) by (metis prod.collapse)
  let ?r = "download_headers G info r0"
  have h: "hr_body ?r = hr_body r0" "map_of (hr_headers ?r) ''Content-Length'' = Some (Itoa (int (length content)))"
    using assms(3,5) by (simp_all add: download_headers_def hr_Set_def update_conv')
  show ?thesis
  proof (cases "di_Size info = 0")
    case True
    then have "content = []" using assms(5) by simp
    with a True h show ?thesis by (simp add: streamRemoteFile_def Let_def guiLog_def)
  next
    case False
    obtain r where r: "fst (run_state (stream_loop fuel E G c agentID path info 0 ?r) w1) = Some (r, None)"
      "hr_body r = hr_body r0 @ content" "hr_headers r = hr_headers ?r"
      using stream_loop_exact [OF assms(1,2,5), of 0 fuel ?r w1] assms(6) h(1) by auto
    obtain w2 where "run_state (stream_loop fuel E G c agentID path info 0 ?r) w1 = (Some (r, None), w2)"
      using r(1) by (metis prod.collapse)
    then have "fst (run_state (streamRemoteFile fuel E G c agentID path r0) w) = Some (r, None)"
      using a False by (simp add: streamRemoteFile_def Let_def guiLog_def)
    with r h(2) show ?thesis by auto
  qed
qed

section \<open>A file of two bytes\<close>

text \<open>An agent that hands out the file \<open>hi\<close> byte by byte, and a decoder of its answers.\<close>

definition hi_agent :: "message \<Rightarrow> message result" where
  "hi_agent m =
     Inr ((new_message ServerExecResult)\<lparr>m_Result :=
       (if m_Args m = [''powershell'', chunk_script ''f'' 0 2] then ''0''
        else if m_Args m = [''powershell'', chunk_script ''f'' 1 1] then ''1'' else ''info'')\<rparr>)"

definition hi_env :: cli_env where
  "hi_env = (sample_cli hi_agent)\<lparr>ce_do := (\<lambda>n. sample_do hi_agent 0)\<rparr>"

definition hi_gui :: gui_env where
  "hi_gui =
     \<lparr>ge_page = [], ge_agents = (\<lambda>as. []), ge_browse = (\<lambda>b. []), ge_error = (\<lambda>e. e),
      ge_read_browse = (\<lambda>t. Inl (Errorf [])), ge_read_entries = (\<lambda>t. Inl (Errorf [])),
      ge_read_entry = (\<lambda>t. Inl (Errorf [])),
      ge_read_info = (\<lambda>t. Inr \<lparr>di_Name = ''f'', di_Path = ''f'', di_Size = 2\<rparr>),
      ge_read_chunk = (\<lambda>t. Inr (if t = ''0'' then \<lparr>dc_Offset = 0, dc_Read = 1, dc_Base64 = ''aA==''\<rparr>
                              else \<lparr>dc_Offset = 1, dc_Read = 1, dc_Base64 = ''aQ==''\<rparr>)),
      ge_quote = (\<lambda>s. s), ge_path_escape = (\<lambda>s. s), ge_time = (\<lambda>n. []), ge_write = (\<lambda>r d. (0, None))\<rparr>"

lemma hi_any: "chunk_answer hi_env hi_gui c a p n off cnt = chunk_answer hi_env hi_gui c a p 0 off cnt"
  by (simp add: chunk_answer_def downloadRemoteFileChunk_def run_script_def run_ask answer_def hi_env_def)

lemma hi_chunks:
  "chunk_answer hi_env hi_gui sample_client ''a'' ''f'' 0 0 2 = Inr \<lparr>dc_Offset = 0, dc_Read = 1, dc_Base64 = ''aA==''\<rparr>"
  "chunk_answer hi_env hi_gui sample_client ''a'' ''f'' 0 1 1 = Inr \<lparr>dc_Offset = 1, dc_Read = 1, dc_Base64 = ''aQ==''\<rparr>"
  by code_simp+

lemma hi_faithful: "faithful hi_env hi_gui sample_client ''a'' ''f'' ''hi''"
  unfolding faithful_def
proof (intro allI impI)
  fix n k :: nat
  assume "k < length ''hi''"
  then have k: "k = 0 \<or> k = 1" by auto
  have "EncodeToString (take 1 ''hi'') = ''aA==''" "EncodeToString (take 1 (drop 1 ''hi'')) = ''aQ==''" by code_simp+
  with k hi_chunks show "\<exists>m > 0. m \<le> length ''hi'' - k \<and>
      chunk_answer hi_env hi_gui sample_client ''a'' ''f'' n (int k) (min chunkSize (int (length ''hi'' - k))) =
      Inr \<lparr>dc_Offset = word_of_int (int k), dc_Read = word_of_int (int m),
           dc_Base64 = EncodeToString (take m (drop k ''hi''))\<rparr>"
    by (intro exI [of _ 1]) (auto simp: hi_any [of _ _ _ n] chunkSize_def)
qed

lemma hi_info: "fst (run_state (downloadRemoteFileInfo hi_env hi_gui sample_client ''a'' ''f'') (sample_world [])) =
  Inr \<lparr>di_Name = ''f'', di_Path = ''f'', di_Size = 2\<rparr>"
  by code_simp

theorem download_exact_witness:
  "\<exists>r. fst (run_state (streamRemoteFile 3 hi_env hi_gui sample_client ''a'' ''f'' new_resp) (sample_world [])) = Some (r, None) \<and>
     hr_body r = ''hi'' \<and> map_of (hr_headers r) ''Content-Length'' = Some ''2''"
proof -
  have "Itoa 2 = ''2''" by code_simp
  moreover have "writes_ok hi_gui" by (simp add: writes_ok_def hi_gui_def)
  ultimately show ?thesis
    using download_exact [OF hi_faithful _ _ hi_info, of new_resp 3] by (simp add: new_resp_def)
qed

theorem download_ends_witness:
  "\<exists>r e. fst (run_state (streamRemoteFile 3 hi_env hi_gui sample_client ''a'' ''f'' new_resp) (sample_world [])) = Some (r, e)"
proof -
  have "chunks_bounded hi_gui" by (auto simp: chunks_bounded_def hi_gui_def)
  from download_ends [OF this, of hi_env sample_client "''a''" "''f''" "sample_world []" 3 new_resp]
  show ?thesis by (auto simp: hi_info new_resp_def)
qed

end
