(* ===== verification/Windows_Args.thy ===== *)
theory Windows_Args
  imports Prelude
begin

text \<open>
  agent/elevate_windows.go: the agent starts itself again with administrator rights and hands
  over its arguments as one command line. The process it starts is the same Go program: on Windows
  its os.Args, which cmd/agent/main.go reads, is what the standard library of Go makes of the
  command line (readNextArg and commandLineToArgv of os/exec_windows.go).
\<close>

abbreviation bslash :: char where "bslash \<equiv> CHR 0x5C"
abbreviation dquote :: char where "dquote \<equiv> CHR 0x22"

definition needs_quotes :: "string \<Rightarrow> bool" where
  "needs_quotes a \<longleftrightarrow> CHR '' '' \<in> set a \<or> CHR 0x09 \<in> set a \<or> dquote \<in> set a"

definition quote_arg :: "string \<Rightarrow> string" where
  "quote_arg a =
     (if a = [] then [dquote, dquote]
      else if needs_quotes a then [dquote] @ replace_char dquote [bslash, dquote] a @ [dquote]
      else a)"

definition joinWindowsArgs :: "string list \<Rightarrow> string" where
  "joinWindowsArgs args = join '' '' (map quote_arg args)"

section \<open>os.Args on Windows\<close>

text \<open>
  readNextArg: the bytes of the argument so far, whether a quote is open, and the backslashes that
  wait. They count only before a quote: two of them stand for one, and an odd one makes the quote a
  letter. Two quotes inside quotes are a letter and end them.
\<close>

fun readNextArg :: "string \<Rightarrow> bool \<Rightarrow> nat \<Rightarrow> string \<Rightarrow> string \<times> string" where
  "readNextArg b inquote nslash [] = (b @ replicate nslash bslash, [])"
| "readNextArg b inquote nslash (c # cmd) =
     (if c = bslash then readNextArg b inquote (Suc nslash) cmd
      else if c = dquote then
        (let b' = b @ replicate (nslash div 2) bslash in
         if even nslash
         then (if inquote \<and> take 1 cmd = [dquote] then readNextArg (b' @ [dquote]) False 0 (tl cmd)
               else readNextArg b' (\<not> inquote) 0 cmd)
         else readNextArg (b' @ [dquote]) inquote 0 cmd)
      else if \<not> inquote \<and> (c = CHR '' '' \<or> c = CHR 0x09) then (b @ replicate nslash bslash, cmd)
      else readNextArg (b @ replicate nslash bslash @ [c]) inquote 0 cmd)"

lemma readNextArg_shorter: "length s \<le> k \<Longrightarrow> length (snd (readNextArg b q n s)) \<le> k - 1"
proof (induction k arbitrary: b q n s)
  case (Suc k)
  show ?case
  proof (cases s)
    case (Cons c cmd)
    have l: "length cmd \<le> k" "length (tl cmd) \<le> k" using Suc.prems Cons by simp_all
    have "length (snd (readNextArg b' q' n' cmd)) \<le> k" "length (snd (readNextArg b' q' n' (tl cmd))) \<le> k" for b' q' n'
      using Suc.IH [OF l(1), of b' q' n'] Suc.IH [OF l(2), of b' q' n'] by linarith+
    then show ?thesis using Cons l(1) by (simp add: Let_def)
  qed simp
qed simp

function commandLineToArgv :: "string \<Rightarrow> string list" where
  "commandLineToArgv [] = []"
| "commandLineToArgv (c # cmd) =
     (if c = CHR '' '' \<or> c = CHR 0x09 then commandLineToArgv cmd
      else fst (readNextArg [] False 0 (c # cmd)) # commandLineToArgv (snd (readNextArg [] False 0 (c # cmd))))"
  by pat_completeness auto
termination
proof (relation "measure length", goal_cases)
  case (3 c cmd)
  then show ?case using readNextArg_shorter [of "c # cmd" "Suc (length cmd)" "[]" False 0]
    by (simp del: readNextArg.simps add: less_Suc_eq_le)
qed simp_all

section \<open>What arrives\<close>

text \<open>
  joinWindowsArgs does not double backslashes. It does not have to where the argument is not put in
  quotes; where it is, no backslash may be the last character or come directly before a quote.
\<close>

fun no_slash_before_quote :: "string \<Rightarrow> bool" where
  "no_slash_before_quote [] \<longleftrightarrow> True"
| "no_slash_before_quote (c # s) \<longleftrightarrow> (c = bslash \<longrightarrow> s \<noteq> [] \<and> take 1 s \<noteq> [dquote]) \<and> no_slash_before_quote s"

definition safe_arg :: "string \<Rightarrow> bool" where
  "safe_arg a \<longleftrightarrow> (needs_quotes a \<longrightarrow> no_slash_before_quote a)"

text \<open>What follows an argument in the command line: nothing, or a space.\<close>

definition ends_arg :: "string \<Rightarrow> bool" where
  "ends_arg rest \<longleftrightarrow> rest = [] \<or> hd rest = CHR '' ''"

lemma read_end: "ends_arg rest \<Longrightarrow> readNextArg b False n rest = (b @ replicate n bslash, tl rest)"
  by (cases rest) (auto simp: ends_arg_def)

lemma read_plain:
  "\<not> needs_quotes a \<Longrightarrow> ends_arg rest \<Longrightarrow>
   readNextArg b False n (a @ rest) = (b @ replicate n bslash @ a, tl rest)"
proof (induction a arbitrary: b n)
  case (Cons c a)
  then have "\<not> needs_quotes a" "c \<noteq> CHR '' ''" "c \<noteq> CHR 0x09" "c \<noteq> dquote" by (auto simp: needs_quotes_def)
  with Cons show ?case by (simp add: replicate_append_same)
qed (simp add: read_end)

lemma read_quoted_arg:
  "no_slash_before_quote a \<Longrightarrow> (n > 0 \<Longrightarrow> a \<noteq> [] \<and> take 1 a \<noteq> [dquote]) \<Longrightarrow> ends_arg rest \<Longrightarrow>
   readNextArg b True n (replace_char dquote [bslash, dquote] a @ dquote # rest) =
   (b @ replicate n bslash @ a, tl rest)"
proof (induction a arbitrary: b n)
  case Nil
  then have "n = 0" "take 1 rest \<noteq> [dquote]" by (auto simp: ends_arg_def) (cases rest, auto simp: ends_arg_def)
  with Nil show ?case by (simp add: read_end)
next
  case (Cons c a)
  consider "c = bslash" | "c = dquote" | "c \<noteq> bslash" "c \<noteq> dquote" by blast
  then show ?case
  proof cases
    case 1
    with Cons.prems Cons.IH [of "Suc n" b] show ?thesis by (simp add: replicate_append_same)
  next
    case 2
    with Cons.prems(2) have "n = 0" by auto
    with 2 Cons.prems Cons.IH [of 0 "b @ [dquote]"] show ?thesis by simp
  next
    case 3
    with Cons.prems Cons.IH [of 0 "b @ replicate n bslash @ [c]"] show ?thesis by simp
  qed
qed

lemma read_arg:
  assumes "safe_arg a" and "ends_arg rest"
  shows "readNextArg [] False 0 (quote_arg a @ rest) = (a, tl rest)"
proof -
  have "take 1 rest \<noteq> [dquote]" using assms(2) by (cases rest) (auto simp: ends_arg_def)
  then show ?thesis
    using assms read_quoted_arg [of a 0 rest "[]"] read_plain [of a rest "[]" 0] read_end [OF assms(2)]
    by (auto simp: quote_arg_def safe_arg_def)
qed

lemma argv_arg:
  assumes "safe_arg a" and "ends_arg rest"
  shows "commandLineToArgv (quote_arg a @ rest) = a # commandLineToArgv (tl rest)"
proof -
  obtain c s where q: "quote_arg a = c # s" "c \<noteq> CHR '' ''" "c \<noteq> CHR 0x09"
    by (cases a; cases "needs_quotes a") (auto simp: quote_arg_def, auto simp: needs_quotes_def)
  then show ?thesis using read_arg [OF assms] by (simp del: readNextArg.simps)
qed

lemma args_arrive:
  assumes "list_all safe_arg args"
  shows "commandLineToArgv (joinWindowsArgs args) = args"
  using assms
proof (induction args)
  case (Cons a args)
  show ?case
  proof (cases args)
    case Nil
    with argv_arg [of a "[]"] Cons.prems show ?thesis by (simp add: joinWindowsArgs_def ends_arg_def)
  next
    case (Cons b bs)
    then have "joinWindowsArgs (a # args) = quote_arg a @ '' '' @ joinWindowsArgs args"
      by (simp add: joinWindowsArgs_def)
    with argv_arg [of a "'' '' @ joinWindowsArgs args"] Cons.IH Cons.prems show ?thesis
      by (simp add: ends_arg_def)
  qed
qed (simp add: joinWindowsArgs_def)

section \<open>Property\<close>

text \<open>
  The elevated process gets the arguments that were meant for it, unless one that has to be quoted
  has a backslash at its end or before a quote.
\<close>

theorem elevated_args_arrive:
  assumes "list_all safe_arg args"
  shows "commandLineToArgv (joinWindowsArgs args) = args"
  by (rule args_arrive [OF assms])

theorem elevated_args_arrive_witness:
  "commandLineToArgv (joinWindowsArgs [''install'', ''-dir=C:'' @ [bslash] @ ''a b'', [], ''say '' @ [dquote] @ ''hi'' @ [dquote],
      ''x'' @ [bslash]]) =
     [''install'', ''-dir=C:'' @ [bslash] @ ''a b'', [], ''say '' @ [dquote] @ ''hi'' @ [dquote], ''x'' @ [bslash]]"
  by (rule elevated_args_arrive) (simp add: safe_arg_def needs_quotes_def)

text \<open>
  A backslash before a quote is not doubled: an argument with a space and a backslash at its
  end swallows the argument that follows it.
\<close>

lemma elevated_backslash_lost:
  "commandLineToArgv (joinWindowsArgs [''my dir'' @ [bslash], ''-port=1'']) =
     [''my dir'' @ [dquote] @ '' -port=1'']"
  by code_simp

end
