(* ===== verification/Gui_Page.thy ===== *)
theory Gui_Page
  imports Gui_Server Windows_Args
begin

text \<open>
  The script of the page that cli/gui.go serves (the end of guiHTML): the list of agents, the
  breadcrumb, the table of a directory, and the name of a downloaded file. What the script gives to
  innerHTML is a text here, read back by the part of an HTML tokenizer that it needs. Strings are
  their UTF-8 bytes; the script only looks at ASCII characters of them.
\<close>

text \<open>encodeURIComponent and decodeURIComponent (which may throw), and what an object inherits under a name.\<close>

record page_env =
  pe_encode :: "string \<Rightarrow> string"
  pe_decode :: "string \<Rightarrow> string option"
  pe_inherited :: "string \<Rightarrow> string option"

definition utf8 :: "nat list \<Rightarrow> string" where
  "utf8 = map char_of"

text \<open>JavaScript's split at the characters of a class.\<close>

fun split_on :: "(char \<Rightarrow> bool) \<Rightarrow> string \<Rightarrow> string list" where
  "split_on P [] = [[]]"
| "split_on P (c # s) =
     (if P c then [] # split_on P s
      else case split_on P s of [] \<Rightarrow> [[c]] | w # ws \<Rightarrow> (c # w) # ws)"

definition or_else :: "string \<Rightarrow> string \<Rightarrow> string" where
  "or_else a b = (if a \<noteq> [] then a else b)"

section \<open>Texts of the page\<close>

text \<open>toFixed(1) of n / d: the nearest tenth, the larger one of two.\<close>

definition fixed1 :: "int \<Rightarrow> int \<Rightarrow> string" where
  "fixed1 n d = (let t = (20 * n + d) div (2 * d) in Itoa (t div 10) @ ''.'' @ Itoa (t mod 10))"

definition formatSize :: "int \<Rightarrow> string" where
  "formatSize bytes =
     (if bytes = 0 then utf8 [0xE2, 0x80, 0x94]
      else if bytes < 1024 then Itoa bytes @ '' B''
      else if bytes < 1048576 then fixed1 bytes 1024 @ '' KB''
      else fixed1 bytes 1048576 @ '' MB'')"

text \<open>The parts of a path, and the path that each of them leads to.\<close>

definition crumb_parts :: "string \<Rightarrow> string list" where
  "crumb_parts path = filter (\<lambda>p. p \<noteq> []) (split_on (\<lambda>c. c = CHR ''/'') (replace_char bslash ''/'' path))"

fun crumb_navs :: "nat \<Rightarrow> string \<Rightarrow> string list \<Rightarrow> (string \<times> string) list" where
  "crumb_navs i built [] = []"
| "crumb_navs i built (p # ps) =
     (let cap = built @ (if i = 0 then [] else [bslash]) @ (if i = 0 then p @ [bslash] else p)
      in (cap, p) # crumb_navs (Suc i) cap ps)"

definition crumb_html :: "string \<times> string \<Rightarrow> string" where
  "crumb_html c = (case c of (cap, p) \<Rightarrow>
     ''<span class=\"sep\">'' @ utf8 [0xE2, 0x80, 0xBA] @
     ''</span><span style=\"cursor:pointer;text-decoration:underline\" data-nav=\"'' @ cap @ ''\">'' @ p @ ''</span>'')"

definition updateBreadcrumb :: "string \<Rightarrow> string \<Rightarrow> string" where
  "updateBreadcrumb agentId path =
     ''<span>'' @ agentId @ ''</span><span class=\"sep\">::</span>'' @
     concat (map crumb_html (crumb_navs 0 [] (crumb_parts path)))"

definition agent_online_text :: "entry \<Rightarrow> bool" where
  "agent_online_text a \<longleftrightarrow> e_Status a = ''online'' \<or> e_Status a = []"

definition agent_html :: "entry \<Rightarrow> string" where
  "agent_html a =
     ''<div class=\"agent-id\">'' @ e_ID a @ ''</div>'' @
     ''<div class=\"agent-meta\">'' @
       ''<span class=\"dot '' @ (if agent_online_text a then [] else ''offline'') @ ''\"></span>'' @
       e_IPAddress a @ '':'' @ Itoa (e_Port a) @
       '' &nbsp;&middot;&nbsp; '' @ or_else (e_Status a) ''unknown'' @
     ''</div>''"

definition icons :: "(string \<times> string) list" where
  "icons =
     (let gear = utf8 [0xE2, 0x9A, 0x99, 0xEF, 0xB8, 0x8F]; wrench = utf8 [0xF0, 0x9F, 0x94, 0xA7];
          page = utf8 [0xF0, 0x9F, 0x93, 0x84]; book = utf8 [0xF0, 0x9F, 0x93, 0x95];
          image = utf8 [0xF0, 0x9F, 0x96, 0xBC, 0xEF, 0xB8, 0x8F]; film = utf8 [0xF0, 0x9F, 0x8E, 0xAC];
          note = utf8 [0xF0, 0x9F, 0x8E, 0xB5]; box = utf8 [0xF0, 0x9F, 0x93, 0xA6];
          clip = utf8 [0xF0, 0x9F, 0x93, 0x8B]; chart = utf8 [0xF0, 0x9F, 0x93, 0x8A];
          memo = utf8 [0xF0, 0x9F, 0x93, 0x9D]; diamond = utf8 [0xF0, 0x9F, 0x94, 0xB7];
          screen = utf8 [0xF0, 0x9F, 0x96, 0xA5, 0xEF, 0xB8, 0x8F]; log = utf8 [0xF0, 0x9F, 0x93, 0x93]
      in [(''exe'', gear), (''dll'', wrench), (''txt'', page), (''pdf'', book), (''png'', image), (''jpg'', image),
          (''jpeg'', image), (''gif'', image), (''mp4'', film), (''mp3'', note), (''zip'', box), (''rar'', box),
          (''7z'', box), (''json'', clip), (''xml'', clip), (''csv'', chart), (''xlsx'', chart), (''doc'', memo),
          (''docx'', memo), (''ps1'', diamond), (''bat'', screen), (''cmd'', screen), (''log'', log)])"

text \<open>A name that the table does not have may still be one that every object inherits.\<close>

definition getIcon :: "page_env \<Rightarrow> string \<Rightarrow> string" where
  "getIcon P name =
     (let ext = map lower_char (last (split_on (\<lambda>c. c = CHR ''.'') name)) in
      case map_of icons ext of
        Some i \<Rightarrow> i
      | None \<Rightarrow> (case pe_inherited P ext of Some t \<Rightarrow> t | None \<Rightarrow> utf8 [0xF0, 0x9F, 0x93, 0x84]))"

definition row_html :: "page_env \<Rightarrow> browse_entry \<Rightarrow> string" where
  "row_html P e =
     (let isDir = (be_Type e = ''dir'');
          ico = (if isDir then utf8 [0xF0, 0x9F, 0x93, 0x81] else getIcon P (be_Name e));
          badge = (if isDir then ''<span class=\"badge badge-dir\">Dossier</span>''
                   else ''<span class=\"badge badge-file\">Fichier</span>'');
          action = (if isDir
            then ''<button class=\"action-btn\" data-open=\"'' @ be_Path e @ ''\">Ouvrir</button>''
            else ''<button class=\"action-btn dl\" data-download=\"'' @ be_Path e @ ''\">&darr; Telecharger</button>'')
      in ''<td><div class=\"name-cell\"><span class=\"icon\">'' @ ico @ ''</span>'' @ be_Name e @ ''</div></td>'' @
         ''<td>'' @ badge @ ''</td>'' @
         ''<td><span class=\"size-val\">'' @ formatSize (sint (be_Size e)) @ ''</span></td>'' @
         ''<td>'' @ action @ ''</td>'')"

definition empty_row :: string where
  "empty_row = ''<tr><td colspan=\"4\" class=\"empty\">Dossier vide</td></tr>''"

text \<open>The line below the table.\<close>

definition plural :: "nat \<Rightarrow> string" where
  "plural n = (if n \<noteq> 1 then ''s'' else [])"

definition count_text :: "browse_entry list \<Rightarrow> string" where
  "count_text es =
     (let dirs = length (filter (\<lambda>e. be_Type e = ''dir'') es); files = length (filter (\<lambda>e. be_Type e \<noteq> ''dir'') es)
      in Itoa (int dirs) @ '' dossier'' @ plural dirs @ '', '' @ Itoa (int files) @ '' fichier'' @ plural files)"

section \<open>The name of a download\<close>

text \<open>The first place where a pattern without regard to case is followed by what \<open>f\<close> accepts.\<close>

fun match_after :: "string \<Rightarrow> (string \<Rightarrow> string option) \<Rightarrow> string \<Rightarrow> string option" where
  "match_after pat f [] = None"
| "match_after pat f (c # s) =
     (case (if HasPrefix (map lower_char (c # s)) pat then f (drop (length pat) (c # s)) else None) of
        Some r \<Rightarrow> Some r
      | None \<Rightarrow> match_after pat f s)"

definition utf_name :: "string \<Rightarrow> string option" where
  "utf_name = match_after (''filename*=utf-8'' @ quote @ quote)
     (\<lambda>s. let r = takeWhile (\<lambda>c. c \<noteq> CHR '';'') s in if r = [] then None else Some r)"

definition ascii_name :: "string \<Rightarrow> string option" where
  "ascii_name = match_after (''filename='' @ [dquote])
     (\<lambda>s. let r = takeWhile (\<lambda>c. c \<noteq> dquote) s in if r = [] \<or> length r = length s then None else Some r)"

text \<open>None when decodeURIComponent throws; then the download is not saved.\<close>

definition filenameFromDisposition :: "page_env \<Rightarrow> string \<Rightarrow> string option" where
  "filenameFromDisposition P value =
     (if value = [] then Some []
      else case utf_name value of
             Some u \<Rightarrow> pe_decode P u
           | None \<Rightarrow> Some (case ascii_name value of Some a \<Rightarrow> a | None \<Rightarrow> []))"

definition saved_name :: "page_env \<Rightarrow> string \<Rightarrow> string \<Rightarrow> string option" where
  "saved_name P disposition path =
     map_option (\<lambda>n. or_else n (or_else (last (split_on (\<lambda>c. c = bslash \<or> c = CHR ''/'') path)) ''download.bin''))
       (filenameFromDisposition P disposition)"

section \<open>The state of the page\<close>

text \<open>
  What the page shows and remembers, and the requests it waits for, with the agent and the path they
  name. \<open>pg_shown\<close> is whose directory the table shows; the script does not keep it.
\<close>

datatype fetch = Fetch_agents | Fetch_browse string string | Fetch_download string string

record page =
  pg_active :: string
  pg_parent :: string
  pg_path :: string \<comment> \<open>the input field\<close>
  pg_crumbs :: string
  pg_cards :: "(bool \<times> string) list" \<comment> \<open>active, and the markup\<close>
  pg_rows :: "string list"
  pg_left :: string
  pg_right :: string
  pg_alerts :: "string list"
  pg_saved :: "string list"
  pg_fetches :: "fetch list"
  pg_shown :: "string option"

definition fetches :: "fetch \<Rightarrow> page \<Rightarrow> page" where
  "fetches f p = p\<lparr>pg_fetches := pg_fetches p @ [f]\<rparr>"

definition fetch_url :: "page_env \<Rightarrow> fetch \<Rightarrow> string" where
  "fetch_url P f =
     (case f of
        Fetch_agents \<Rightarrow> ''/api/agents''
      | Fetch_browse a path \<Rightarrow> ''/api/browse?agent='' @ pe_encode P a @ ''&path='' @ pe_encode P path
      | Fetch_download a path \<Rightarrow> ''/api/download?agent='' @ pe_encode P a @ ''&path='' @ pe_encode P path)"

definition loadAgents :: "page \<Rightarrow> page" where
  "loadAgents p = fetches Fetch_agents p"

definition page_browse :: "string \<Rightarrow> page \<Rightarrow> page" where
  "page_browse pathOverride p =
     (if pg_active p = [] then p
      else fetches (Fetch_browse (pg_active p) (or_else pathOverride (pg_path p))) (p\<lparr>pg_left := ''Chargement...''\<rparr>))"

definition page_start :: page where
  "page_start = loadAgents
     \<lparr>pg_active = [], pg_parent = [], pg_path = ''C:'' @ [bslash], pg_crumbs = [], pg_cards = [], pg_rows = [],
      pg_left = utf8 [0xE2, 0x80, 0x94], pg_right = [], pg_alerts = [], pg_saved = [], pg_fetches = [], pg_shown = None\<rparr>"

definition click_agent :: "string \<Rightarrow> page \<Rightarrow> page" where
  "click_agent i p = page_browse [] (loadAgents (p\<lparr>pg_active := i\<rparr>))"

definition got_agents :: "entry list \<Rightarrow> page \<Rightarrow> page" where
  "got_agents agents p =
     (let p1 = p\<lparr>pg_cards := map (\<lambda>a. (e_ID a = pg_active p, agent_html a)) agents\<rparr> in
      if pg_active p1 = [] \<and> agents \<noteq> [] then click_agent (e_ID (hd agents)) p1 else p1)"

definition got_browse :: "page_env \<Rightarrow> string \<Rightarrow> string + browse_response \<Rightarrow> page \<Rightarrow> page" where
  "got_browse P whose reply p =
     (case reply of
        Inl e \<Rightarrow> p\<lparr>pg_alerts := pg_alerts p @ [e], pg_left := ''Erreur''\<rparr>
      | Inr resp \<Rightarrow>
          (let p1 = p\<lparr>pg_path := br_Path resp, pg_crumbs := updateBreadcrumb (pg_active p) (br_Path resp),
                 pg_parent := br_Parent resp, pg_shown := Some whose\<rparr> in
           if br_Entries resp = []
           then p1\<lparr>pg_rows := [empty_row], pg_left := ''0 '' @ utf8 [0xC3, 0xA9] @ ''l'' @ utf8 [0xC3, 0xA9] @ ''ments''\<rparr>
           else p1\<lparr>pg_rows := map (row_html P) (br_Entries resp), pg_left := count_text (br_Entries resp),
                    pg_right := br_Path resp\<rparr>))"

definition click_up :: "page \<Rightarrow> page" where
  "click_up p = (if pg_parent p \<noteq> [] then page_browse (pg_parent p) p else p)"

definition downloadFile :: "string \<Rightarrow> page \<Rightarrow> page" where
  "downloadFile path p =
     fetches (Fetch_download (pg_active p) path) (p\<lparr>pg_left := ''Telechargement...'', pg_right := path\<rparr>)"

text \<open>
  A file with its header, an error as JSON, or an error that is none: then res.json has used the body
  up, and res.text throws.
\<close>

datatype download_answer = File string | Json_error string | Other_error

definition got_download :: "page_env \<Rightarrow> string \<Rightarrow> download_answer \<Rightarrow> page \<Rightarrow> page" where
  "got_download P path reply p =
     (case reply of
        Json_error e \<Rightarrow> p\<lparr>pg_alerts := pg_alerts p @ [or_else e ''Download failed''], pg_left := ''Erreur''\<rparr>
      | Other_error \<Rightarrow> p
      | File disposition \<Rightarrow>
          (case saved_name P disposition path of
             None \<Rightarrow> p
           | Some name \<Rightarrow> p\<lparr>pg_saved := pg_saved p @ [name], pg_left := ''Telecharge : '' @ name\<rparr>))"

text \<open>One event: the operator acts, or the answer of the k-th request that is under way arrives.\<close>

datatype page_event =
    Click_agent string
  | Go
  | Up
  | Open string
  | Download string
  | Agents_answer nat "entry list"
  | Browse_answer nat "string + browse_response"
  | Download_answer nat download_answer

definition answered :: "nat \<Rightarrow> page \<Rightarrow> page" where
  "answered k p = p\<lparr>pg_fetches := take k (pg_fetches p) @ drop (Suc k) (pg_fetches p)\<rparr>"

definition waits_for :: "nat \<Rightarrow> page \<Rightarrow> fetch option" where
  "waits_for k p = (if k < length (pg_fetches p) then Some (pg_fetches p ! k) else None)"

fun page_step :: "page_env \<Rightarrow> page_event \<Rightarrow> page \<Rightarrow> page" where
  "page_step P (Click_agent i) p = click_agent i p"
| "page_step P Go p = page_browse [] p"
| "page_step P Up p = click_up p"
| "page_step P (Open path) p = page_browse path p"
| "page_step P (Download path) p = downloadFile path p"
| "page_step P (Agents_answer k agents) p =
     (case waits_for k p of Some Fetch_agents \<Rightarrow> got_agents agents (answered k p) | _ \<Rightarrow> p)"
| "page_step P (Browse_answer k r) p =
     (case waits_for k p of Some (Fetch_browse a path) \<Rightarrow> got_browse P a r (answered k p) | _ \<Rightarrow> p)"
| "page_step P (Download_answer k r) p =
     (case waits_for k p of Some (Fetch_download a path) \<Rightarrow> got_download P path r (answered k p) | _ \<Rightarrow> p)"

definition page_run :: "page_env \<Rightarrow> page_event list \<Rightarrow> page" where
  "page_run P es = fold (page_step P) es page_start"

section \<open>Reading markup\<close>

text \<open>
  The states of a tokenizer for HTML that matter for the start tags of a text: in text, after the
  bracket, in the name of a tag, in a tag, in a value with or without quotes, in an end tag or comment.
\<close>

datatype html_state = Text | Less | Name string | Tag | Value | Quoted char | Bare | Skipping

fun elements :: "html_state \<Rightarrow> string \<Rightarrow> string list" where
  "elements st [] = []"
| "elements Text (c # s) = (if c = CHR ''<'' then elements Less s else elements Text s)"
| "elements Less (c # s) =
     (if is_letter c then elements (Name [c]) s
      else if c = CHR ''/'' \<or> c = CHR ''!'' \<or> c = CHR ''?'' then elements Skipping s
      else if c = CHR ''<'' then elements Less s else elements Text s)"
| "elements (Name n) (c # s) =
     (if c = CHR ''>'' then n # elements Text s
      else if c = CHR '' '' \<or> c = CHR ''/'' then n # elements Tag s else elements (Name (n @ [c])) s)"
| "elements Tag (c # s) =
     (if c = CHR ''>'' then elements Text s else if c = CHR ''='' then elements Value s else elements Tag s)"
| "elements Value (c # s) =
     (if c = CHR '' '' then elements Value s
      else if c = dquote \<or> c = CHR 0x27 then elements (Quoted c) s
      else if c = CHR ''>'' then elements Text s else elements Bare s)"
| "elements (Quoted q) (c # s) = (if c = q then elements Tag s else elements (Quoted q) s)"
| "elements Bare (c # s) =
     (if c = CHR ''>'' then elements Text s else if c = CHR '' '' then elements Tag s else elements Bare s)"
| "elements Skipping (c # s) = (if c = CHR ''>'' then elements Text s else elements Skipping s)"

end
