(* ===== verification/Page_Laws.thy ===== *)
theory Page_Laws
  imports Gui_Page
begin

text \<open>Properties of the page's script: its markup, its paths, the name of a download, and its state.\<close>

definition sample_agent :: "string \<Rightarrow> entry" where
  "sample_agent i =
     \<lparr>e_ID = i, e_MachineID = i, e_Hostname = i, e_IPAddress = ''10.0.0.1'', e_Port = 2222, e_Version = ''1'',
      e_Status = ''online'', e_Connected = True, e_Commands = [], e_Tags = [], e_Groups = [], e_LastSeen = 0\<rparr>"

section \<open>Markup\<close>

lemma elements_text: "CHR ''<'' \<notin> set s \<Longrightarrow> elements Text (s @ t) = elements Text t"
  by (induction s) auto

lemma elements_quoted: "q \<notin> set s \<Longrightarrow> elements (Quoted q) (s @ t) = elements (Quoted q) t"
  by (induction s) auto

text \<open>The start tags of markup without one, and what is known after them.\<close>

definition plain :: "string \<Rightarrow> bool" where
  "plain s \<longleftrightarrow> CHR ''<'' \<notin> set s"

lemma plain_text: "plain s \<Longrightarrow> elements Text (s @ t) = elements Text t"
  by (simp add: plain_def elements_text)

lemma plain_digits: "plain (nat_digits n)"
proof (induction n rule: nat_digits.induct)
  case (1 n)
  have "CHR ''<'' \<noteq> digit_char d" if "d < 10" for d
  proof -
    have "digit_of (CHR ''<'') = None" by (simp add: digit_of_def)
    then show ?thesis using digit_of_digit_char [OF that] by auto
  qed
  then show ?case using 1 by (subst nat_digits.simps) (auto simp: plain_def)
qed

lemma plain_Itoa: "plain (Itoa n)"
  using plain_digits by (auto simp: Itoa_def plain_def)

lemma elements_agent:
  "elements Text (agent_html a) =
     ''div'' # elements Text (e_ID a @ ''</div>'' @ ''<div class=\"agent-meta\">'' @
       ''<span class=\"dot '' @ (if agent_online_text a then [] else ''offline'') @ ''\"></span>'' @
       e_IPAddress a @ '':'' @ Itoa (e_Port a) @
       '' &nbsp;&middot;&nbsp; '' @ or_else (e_Status a) ''unknown'' @ ''</div>'')"
  by (simp add: agent_html_def is_letter_def)

lemma elements_meta:
  "elements Text (''</div>'' @ ''<div class=\"agent-meta\">'' @
     ''<span class=\"dot '' @ (if b then [] else ''offline'') @ ''\"></span>'' @ s) = [''div'', ''span''] @ elements Text s"
  by (simp add: is_letter_def)

text \<open>
  The markup of an agent is its three elements and nothing else, as long as the agent's name,
  address and status have no angle bracket: the page does not escape them.
\<close>

theorem agent_markup_plain:
  assumes "plain (e_ID a)" and "plain (e_IPAddress a)" and "plain (e_Status a)"
  shows "elements Text (agent_html a) = [''div'', ''div'', ''span'']"
proof -
  have "elements Text (or_else (e_Status a) ''unknown'' @ ''</div>'') = []"
    using assms(3) by (subst plain_text) (auto simp: or_else_def plain_def is_letter_def)
  moreover have "elements Text ('' &nbsp;&middot;&nbsp; '' @ t) = elements Text t" for t
    by (rule plain_text) (simp add: plain_def)
  moreover have "elements Text ('':'' @ t) = elements Text t" for t by simp
  ultimately show ?thesis
    by (simp only: elements_agent plain_text [OF assms(1)] elements_meta plain_text [OF assms(2)] plain_text [OF plain_Itoa]) simp
qed

theorem agent_markup_plain_witness:
  "elements Text (agent_html (sample_agent ''pc'')) = [''div'', ''div'', ''span'']"
  by (rule agent_markup_plain) (simp_all add: sample_agent_def plain_def)

text \<open>
  An agent chooses its name when it registers, without any secret. One that calls itself an image
  with an error handler runs a script in the browser of the operator.
\<close>

lemma agent_markup_injected:
  "elements Text (agent_html (sample_agent ''<img src=x onerror=alert(1)>'')) = [''div'', ''img'', ''div'', ''span'']"
  by (simp add: agent_html_def sample_agent_def agent_online_text_def or_else_def is_letter_def Itoa_def nat_digits.simps
      digit_char_def)

section \<open>Paths\<close>

text \<open>The second link of the breadcrumb has two backslashes, and a share loses the two at its front.\<close>

lemma crumb_samples:
  "crumb_navs 0 [] (crumb_parts (''C:'' @ [bslash] @ ''Users'' @ [bslash] @ ''a'')) =
     [(''C:'' @ [bslash], ''C:''), (''C:'' @ [bslash, bslash] @ ''Users'', ''Users''),
      (''C:'' @ [bslash, bslash] @ ''Users'' @ [bslash] @ ''a'', ''a'')]"
  "map fst (crumb_navs 0 [] (crumb_parts ([bslash, bslash] @ ''srv'' @ [bslash] @ ''d''))) =
     [''srv'' @ [bslash], ''srv'' @ [bslash, bslash] @ ''d'']"
  by (simp_all add: crumb_parts_def Let_def)

section \<open>The name of a download\<close>

lemma match_skips:
  assumes "\<And>u v. s = u @ v \<Longrightarrow> v \<noteq> [] \<Longrightarrow> \<not> HasPrefix (map lower_char (v @ t)) pat"
  shows "match_after pat f (s @ t) = match_after pat f t"
  using assms
proof (induction s)
  case (Cons c s)
  have "match_after pat f (s @ t) = match_after pat f t"
    by (rule Cons.IH) (use Cons.prems [of "c # _"] in simp)
  moreover have "\<not> HasPrefix (map lower_char ((c # s) @ t)) pat" using Cons.prems [of "[]" "c # s"] by simp
  ultimately show ?case by simp
qed simp

lemma lower_star: "lower_char c = CHR ''*'' \<longleftrightarrow> c = CHR ''*''"
proof
  assume c: "lower_char c = CHR ''*''"
  then have n: "(of_char (lower_char c) :: nat) = 42" by simp
  show "c = CHR ''*''"
  proof (cases "65 \<le> (of_char c :: nat) \<and> (of_char c :: nat) \<le> 90")
    case True
    then have "(of_char (lower_char c) :: nat) = of_char c + 32" by (simp add: lower_char_def)
    with True n show ?thesis by simp
  next
    case False
    then have "lower_char c = c" unfolding lower_char_def by (rule if_not_P)
    with c show ?thesis by simp
  qed
qed (simp add: lower_char_def)

text \<open>The escaped name is not empty, has no semicolon, and decodes to the name.\<close>

definition escape_ok :: "gui_env \<Rightarrow> page_env \<Rightarrow> string \<Rightarrow> bool" where
  "escape_ok G P s \<longleftrightarrow> ge_path_escape G s \<noteq> [] \<and> CHR '';'' \<notin> set (ge_path_escape G s) \<and>
     pe_decode P (ge_path_escape G s) = Some s"

text \<open>The star of the pattern is only where the second name begins.\<close>

lemma no_early_match:
  assumes "CHR ''*'' \<notin> set v" and "v \<noteq> []"
  shows "\<not> HasPrefix (map lower_char (v @ ''filename*'' @ w)) (''filename*=utf-8'' @ quote @ quote)"
proof
  assume "HasPrefix (map lower_char (v @ ''filename*'' @ w)) (''filename*=utf-8'' @ quote @ quote)"
  then obtain r where r: "map lower_char (v @ ''filename*'' @ w) = (''filename*=utf-8'' @ quote @ quote) @ r"
    by (auto simp: HasPrefix_iff)
  let ?l = "v @ ''filename*'' @ w"
  have "map lower_char ?l ! 8 = CHR ''*''" unfolding r by simp
  moreover have "8 < length ?l" by simp
  ultimately have "lower_char (?l ! 8) = CHR ''*''" using nth_map by metis
  then have star: "?l ! 8 = CHR ''*''" by (simp add: lower_star)
  show False
  proof (cases "8 < length v")
    case True
    then show False using star assms(1) nth_mem by (metis nth_append)
  next
    case False
    define k where "k = 8 - length v"
    have "k < 8" using assms(2) by (cases v) (auto simp: k_def)
    have "?l ! 8 = (''filename*'' @ w) ! k" using False by (simp add: k_def nth_append)
    then have "(''filename*'' @ w) ! k = CHR ''*''" using star by (rule trans [OF sym])
    moreover have "k \<in> {0, 1, 2, 3, 4, 5, 6, 7}" using \<open>k < 8\<close> by auto
    ultimately show False by auto
  qed
qed

lemma lower_pattern:
  "lower_char CHR ''U'' = CHR ''u''" "lower_char CHR ''T'' = CHR ''t''" "lower_char CHR ''F'' = CHR ''f''"
  "lower_char CHR ''='' = CHR ''=''" "lower_char CHR ''-'' = CHR ''-''" "lower_char CHR ''8'' = CHR ''8''"
  "lower_char CHR 0x27 = CHR 0x27" "lower_char CHR ''*'' = CHR ''*''" "lower_char CHR ''f'' = CHR ''f''"
  "lower_char CHR ''i'' = CHR ''i''" "lower_char CHR ''l'' = CHR ''l''" "lower_char CHR ''e'' = CHR ''e''"
  "lower_char CHR ''n'' = CHR ''n''" "lower_char CHR ''a'' = CHR ''a''" "lower_char CHR ''m'' = CHR ''m''"
  by code_simp+

lemma replace_no_star: "CHR ''*'' \<notin> set s \<Longrightarrow> CHR ''*'' \<notin> set (replace_char dquote quote s)"
  by (induction s) auto

text \<open>
  A file is saved under its own name, with apostrophes for double quotes: the page reads back
  from the header what the server has put there, when the name has no star (which Windows does
  not allow in names).
\<close>

theorem download_name_kept:
  assumes "CHR ''*'' \<notin> set name"
    and "clean = (let c = replace_char dquote quote name in if TrimSpace c = [] then ''download.bin'' else c)"
    and "escape_ok G P clean"
  shows "saved_name P (contentDisposition G name) path = Some clean"
proof -
  have star: "CHR ''*'' \<notin> set clean" using replace_no_star [OF assms(1)] by (simp add: assms(2) Let_def)
  let ?e = "ge_path_escape G clean"
  let ?s = "''attachment; filename='' @ [dquote] @ clean @ [dquote] @ ''; ''"
  let ?w = "''=UTF-8'' @ quote @ quote @ ?e"
  have header: "contentDisposition G name = ?s @ ''filename*'' @ ?w"
    by (simp add: contentDisposition_def assms(2) Let_def)
  have all: "takeWhile (\<lambda>c. c \<noteq> CHR '';'') ?e = ?e" using assms(3) by (auto simp: escape_ok_def takeWhile_eq_all_conv)
  have "utf_name (?s @ ''filename*'' @ ?w) = utf_name (''filename*'' @ ?w)" unfolding utf_name_def
  proof (rule match_skips)
    fix u v
    assume "?s = u @ v" and v: "v \<noteq> []"
    then have "set v \<subseteq> set ?s" by auto
    then show "\<not> HasPrefix (map lower_char (v @ ''filename*'' @ ?w)) (''filename*=utf-8'' @ quote @ quote)"
      using star by (intro no_early_match v) auto
  qed
  also have "\<dots> = Some ?e"
    using assms(3) by (simp add: utf_name_def HasPrefix_def lower_pattern escape_ok_def Let_def all)
  moreover have "clean \<noteq> []" by (auto simp: assms(2) Let_def)
  ultimately show ?thesis
    using assms(3) star by (simp add: saved_name_def filenameFromDisposition_def header escape_ok_def or_else_def
      del: append.simps) 
qed

definition plain_gui :: gui_env where
  "plain_gui =
     \<lparr>ge_page = [], ge_agents = (\<lambda>as. []), ge_browse = (\<lambda>b. []), ge_error = (\<lambda>e. e), ge_read_browse = (\<lambda>t. Inl (Errorf ''eof'')),
      ge_read_entries = (\<lambda>t. Inl (Errorf ''eof'')), ge_read_entry = (\<lambda>t. Inl (Errorf ''eof'')), ge_read_info = (\<lambda>t. Inl (Errorf ''eof'')),
      ge_read_chunk = (\<lambda>t. Inl (Errorf ''eof'')), ge_quote = (\<lambda>s. s), ge_path_escape = replace_char (CHR '' '') ''%20'',
      ge_time = (\<lambda>n. []), ge_write = (\<lambda>r s. (length s, None))\<rparr>"

definition plain_page :: page_env where
  "plain_page =
     \<lparr>pe_encode = replace_char (CHR '' '') ''%20'',
      pe_decode = (\<lambda>s. Some (if s = ''my%20notes.txt'' then ''my notes.txt'' else s)), pe_inherited = (\<lambda>s. None)\<rparr>"

theorem download_name_kept_witness:
  "saved_name plain_page (contentDisposition plain_gui ''my notes.txt'') ''x'' = Some ''my notes.txt''"
proof (rule download_name_kept)
  show "''my notes.txt'' = (let c = replace_char dquote quote ''my notes.txt'' in if TrimSpace c = [] then ''download.bin'' else c)"
    by code_simp
qed (simp_all add: escape_ok_def plain_gui_def plain_page_def)

section \<open>What the table shows\<close>

text \<open>
  The operator waits: no action while a request for a directory is under way. And every such request is
  answered with a directory.
\<close>

definition browsing :: "page \<Rightarrow> bool" where
  "browsing p \<longleftrightarrow> (\<exists>a path. Fetch_browse a path \<in> set (pg_fetches p))"

fun patient :: "page_env \<Rightarrow> page_event list \<Rightarrow> page \<Rightarrow> bool" where
  "patient P [] p \<longleftrightarrow> True"
| "patient P (e # es) p \<longleftrightarrow>
     (case e of
        Browse_answer k (Inl err) \<Rightarrow> False
      | Browse_answer k (Inr resp) \<Rightarrow> True
      | Agents_answer k agents \<Rightarrow> True
      | Download_answer k r \<Rightarrow> True
      | _ \<Rightarrow> \<not> browsing p) \<and> patient P es (page_step P e p)"

fun is_browse :: "fetch \<Rightarrow> bool" where
  "is_browse (Fetch_browse a path) \<longleftrightarrow> True"
| "is_browse f \<longleftrightarrow> False"

lemma is_browse_iff: "is_browse f \<longleftrightarrow> (\<exists>a path. f = Fetch_browse a path)"
  by (cases f) auto

lemma browsing_iff: "browsing p \<longleftrightarrow> filter is_browse (pg_fetches p) \<noteq> []"
  by (auto simp: browsing_def filter_empty_conv is_browse_iff)

definition page_ok :: "page \<Rightarrow> bool" where
  "page_ok p \<longleftrightarrow>
     (filter is_browse (pg_fetches p) = [] \<or>
      (\<exists>path. filter is_browse (pg_fetches p) = [Fetch_browse (pg_active p) path] \<and> pg_active p \<noteq> [])) \<and>
     (\<forall>a. pg_shown p = Some a \<longrightarrow> a = pg_active p \<or> browsing p \<or> pg_active p = [])"

text \<open>The answer to one request takes that request out, and no other.\<close>

lemma filter_at:
  assumes "k < length xs"
  shows "filter Q xs = filter Q (take k xs) @ (if Q (xs ! k) then [xs ! k] else []) @ filter Q (drop (Suc k) xs)"
proof -
  have "filter Q xs = filter Q (take k xs @ xs ! k # drop (Suc k) xs)" using id_take_nth_drop [OF assms] by simp
  then show ?thesis by simp
qed

lemma waits_browse:
  assumes "page_ok p" and "waits_for k p = Some f"
  shows "filter is_browse (pg_fetches (answered k p)) = (if is_browse f then [] else filter is_browse (pg_fetches p))"
    and "is_browse f \<Longrightarrow> \<exists>path. f = Fetch_browse (pg_active p) path"
proof -
  have k: "k < length (pg_fetches p)" "f = pg_fetches p ! k" using assms by (auto simp: waits_for_def split: if_splits)
  note at = filter_at [OF k(1), of is_browse]
  show "filter is_browse (pg_fetches (answered k p)) = (if is_browse f then [] else filter is_browse (pg_fetches p))"
    using assms(1) at k(2) by (auto simp: page_ok_def answered_def append_eq_Cons_conv)
  assume "is_browse f"
  then have "f \<in> set (filter is_browse (pg_fetches p))" using k by simp
  then show "\<exists>path. f = Fetch_browse (pg_active p) path" using assms(1) by (auto simp: page_ok_def simp del: set_filter)
qed

lemma browse_ok: "page_ok p \<Longrightarrow> \<not> browsing p \<Longrightarrow> page_ok (page_browse path p)"
  by (auto simp: page_ok_def page_browse_def fetches_def browsing_iff)

lemma click_ok: "page_ok p \<Longrightarrow> \<not> browsing p \<Longrightarrow> page_ok (click_agent i p)"
  by (auto simp: page_ok_def click_agent_def page_browse_def loadAgents_def fetches_def browsing_iff)

lemma got_agents_ok: "page_ok p \<Longrightarrow> page_ok (got_agents agents p)"
  using click_ok [of "p\<lparr>pg_cards := map (\<lambda>a. (e_ID a = pg_active p, agent_html a)) agents\<rparr>" "e_ID (hd agents)"]
  by (auto simp: got_agents_def Let_def page_ok_def browsing_iff)

lemma step_ok:
  assumes "page_ok p" and "patient P [e] p"
  shows "page_ok (page_step P e p)"
proof (cases e)
  case (Agents_answer k agents)
  show ?thesis
  proof (cases "waits_for k p = Some Fetch_agents")
    case True
    then have "page_ok (answered k p)" using waits_browse [OF assms(1) True] assms(1)
      by (auto simp: page_ok_def browsing_iff answered_def)
    then show ?thesis by (simp add: Agents_answer True got_agents_ok)
  qed (use assms(1) in \<open>simp add: Agents_answer split: option.split fetch.split\<close>)
next
  case (Browse_answer k r)
  then obtain resp where r: "r = Inr resp" using assms(2) by (auto split: sum.splits)
  show ?thesis
  proof (cases "\<exists>a path. waits_for k p = Some (Fetch_browse a path)")
    case True
    then obtain a path where w: "waits_for k p = Some (Fetch_browse a path)" by blast
    then have "a = pg_active p" "filter is_browse (pg_fetches (answered k p)) = []"
      using waits_browse [OF assms(1) w] assms(1) by (auto simp: page_ok_def)
    then show ?thesis by (simp add: Browse_answer w r got_browse_def Let_def page_ok_def answered_def)
  qed (use assms(1) in \<open>simp add: Browse_answer split: option.split fetch.split\<close>)
next
  case (Download_answer k r)
  show ?thesis
  proof (cases "\<exists>a path. waits_for k p = Some (Fetch_download a path)")
    case True
    then obtain a path where w: "waits_for k p = Some (Fetch_download a path)" by blast
    then have "page_ok (answered k p)" using waits_browse [OF assms(1) w] assms(1)
      by (auto simp: page_ok_def browsing_iff answered_def)
    then show ?thesis
      by (simp add: Download_answer w got_download_def page_ok_def browsing_iff split: download_answer.split option.split)
  qed (use assms(1) in \<open>simp add: Download_answer split: option.split fetch.split\<close>)
next
  case (Download path)
  with assms show ?thesis by (auto simp: downloadFile_def fetches_def page_ok_def browsing_iff)
qed (use assms in \<open>auto simp: click_up_def intro: browse_ok click_ok\<close>)

lemma run_ok: "page_ok p \<Longrightarrow> patient P es p \<Longrightarrow> page_ok (fold (page_step P) es p)"
proof (induction es arbitrary: p)
  case (Cons e es)
  have "page_ok (page_step P e p)" by (rule step_ok) (use Cons.prems in auto)
  with Cons show ?case by simp
qed simp

text \<open>
  As long as the operator waits for each directory and each is answered, the table shows a directory
  of the agent that is marked as active, and the buttons of its rows ask that agent.
\<close>

theorem table_shows_active:
  assumes "patient P es page_start" and "\<not> browsing (page_run P es)" and "pg_active (page_run P es) \<noteq> []"
    and "pg_shown (page_run P es) = Some a"
  shows "pg_fetches (downloadFile path (page_run P es)) = pg_fetches (page_run P es) @ [Fetch_download a path]"
proof -
  have "page_ok page_start"
    by (simp add: page_ok_def page_start_def loadAgents_def fetches_def)
  then have "page_ok (page_run P es)" unfolding page_run_def by (rule run_ok [OF _ assms(1)])
  with assms(2-4) have "pg_active (page_run P es) = a" by (simp add: page_ok_def)
  then show ?thesis by (simp add: downloadFile_def fetches_def)
qed

definition sample_directory :: browse_response where
  "sample_directory = \<lparr>br_AgentID = ''a'', br_Path = ''D:'', br_Parent = [],
     br_Entries = [\<lparr>be_Name = ''x'', be_Path = ''D:/x'', be_Type = ''file'', be_Size = 1, be_Error = []\<rparr>]\<rparr>"

lemmas page_defs = page_run_def page_start_def loadAgents_def fetches_def page_browse_def click_agent_def got_agents_def
  got_browse_def waits_for_def answered_def or_else_def sample_agent_def sample_directory_def

theorem table_shows_active_witness:
  "last (pg_fetches (downloadFile ''D:/x'' (page_run plain_page
     [Agents_answer 0 [sample_agent ''a''], Browse_answer 1 (Inr sample_directory)]))) = Fetch_download ''a'' ''D:/x''"
  by (subst table_shows_active [of plain_page _ "''a''"]) (simp_all add: page_defs browsing_iff)

text \<open>
  When the request for the next agent fails, or is overtaken, the table keeps showing the directory
  of the agent before, and its buttons ask the new one for the files of the old one.
\<close>

lemma stale_table:
  defines "p \<equiv> page_run plain_page
    [Agents_answer 0 [sample_agent ''a'', sample_agent ''b''], Browse_answer 1 (Inr sample_directory),
     Click_agent ''b'', Browse_answer 2 (Inl ''agent b is offline''), Download ''D:/x'']"
  shows "pg_shown p = Some ''a''" and "last (pg_fetches p) = Fetch_download ''b'' ''D:/x''"
  by (simp_all add: p_def page_defs downloadFile_def)

section \<open>Sizes\<close>

text \<open>The tenths shown are the nearest to the quotient.\<close>

lemma fixed1_nearest:
  assumes "0 < d"
  shows "\<exists>t. fixed1 n d = Itoa (t div 10) @ ''.'' @ Itoa (t mod 10) \<and> 2 * \<bar>10 * n - t * d\<bar> \<le> d"
proof -
  define t where "t = (20 * n + d) div (2 * d)"
  define r where "r = (20 * n + d) mod (2 * d)"
  have r: "0 \<le> r" "r < 2 * d" using assms by (simp_all add: r_def)
  have "20 * n + d = (2 * d) * t + r" unfolding r_def t_def by (simp only: mult_div_mod_eq)
  then have "2 * (10 * n - t * d) = r - d" by (simp add: algebra_simps)
  with r have "2 * \<bar>10 * n - t * d\<bar> \<le> d" by (auto simp: abs_if)
  then show ?thesis by (auto simp: fixed1_def t_def Let_def)
qed

lemma size_samples: "formatSize 1536 = ''1.5 KB''" "formatSize 1048575 = ''1024.0 KB''"
  by code_simp+

end
