(* ===== verification/Page_Markup.thy ===== *)
theory Page_Markup
  imports Page_Laws
begin

text \<open>
  The fixed part of the page that cli/gui.go serves (guiHTML): the elements of its body as a tree, the
  style sheet as a list of rules, and the switch between the light and the dark theme. The spacing
  between elements and rules and the comments are left out. The markup that the script builds is the
  text of such trees too.
\<close>

section \<open>Trees of elements\<close>

type_synonym attributes = "(string \<times> string) list"

datatype node = Txt string | Void string attributes | Elem string attributes "node list"

definition attr_text :: "string \<times> string \<Rightarrow> string" where
  "attr_text a = '' '' @ fst a @ ''=\"'' @ snd a @ ''\"''"

fun render :: "node \<Rightarrow> string" where
  "render (Txt t) = t"
| "render (Void n as) = ''<'' @ n @ concat (map attr_text as) @ '' />''"
| "render (Elem n as ns) = ''<'' @ n @ concat (map attr_text as) @ ''>'' @ concat (map render ns) @ ''</'' @ n @ ''>''"

fun tags :: "node \<Rightarrow> string list" where
  "tags (Txt t) = []"
| "tags (Void n as) = [n]"
| "tags (Elem n as ns) = n # concat (map tags ns)"

text \<open>The elements with their attributes, in the order of the text, and getElementById.\<close>

fun nodes :: "node \<Rightarrow> node list" where
  "nodes (Txt t) = []"
| "nodes (Void n as) = [Void n as]"
| "nodes (Elem n as ns) = Elem n as ns # concat (map nodes ns)"

fun attrs_of :: "node \<Rightarrow> attributes" where
  "attrs_of (Txt t) = []"
| "attrs_of (Void n as) = as"
| "attrs_of (Elem n as ns) = as"

definition values_of :: "string \<Rightarrow> node \<Rightarrow> string list" where
  "values_of a n = List.map_filter (\<lambda>m. map_of (attrs_of m) a) (nodes n)"

definition getElementById :: "node \<Rightarrow> string \<Rightarrow> node option" where
  "getElementById n i = find (\<lambda>m. map_of (attrs_of m) ''id'' = Some i) (nodes n)"

fun text_of :: "node \<Rightarrow> string" where
  "text_of (Txt t) = t"
| "text_of (Void n as) = []"
| "text_of (Elem n as ns) = concat (map text_of ns)"

text \<open>
  Text without a bracket, names without a character that ends a name, values without a quote: then a
  reader of the text finds exactly the elements of the tree.
\<close>

definition tag_name :: "string \<Rightarrow> bool" where
  "tag_name n \<longleftrightarrow> n \<noteq> [] \<and> is_letter (hd n) \<and> CHR ''>'' \<notin> set n \<and> CHR '' '' \<notin> set n \<and> CHR ''/'' \<notin> set n"

definition attrs_ok :: "attributes \<Rightarrow> bool" where
  "attrs_ok as \<longleftrightarrow> (\<forall>(a, v) \<in> set as. CHR ''='' \<notin> set a \<and> CHR ''>'' \<notin> set a \<and> dquote \<notin> set v)"

fun node_ok :: "node \<Rightarrow> bool" where
  "node_ok (Txt t) = plain t"
| "node_ok (Void n as) = (tag_name n \<and> attrs_ok as)"
| "node_ok (Elem n as ns) = (tag_name n \<and> attrs_ok as \<and> list_all node_ok ns)"

lemma elements_name:
  assumes "CHR ''>'' \<notin> set n" and "CHR '' '' \<notin> set n" and "CHR ''/'' \<notin> set n"
  shows "elements (Name m) (n @ s) = elements (Name (m @ n)) s"
  using assms by (induction n arbitrary: m) auto

lemma elements_attr_name:
  "CHR ''='' \<notin> set a \<Longrightarrow> CHR ''>'' \<notin> set a \<Longrightarrow> elements Tag (a @ s) = elements Tag s"
  by (induction a) auto

lemma elements_attr:
  assumes "CHR ''='' \<notin> set a" and "CHR ''>'' \<notin> set a" and "dquote \<notin> set v"
  shows "elements Tag (attr_text (a, v) @ s) = elements Tag s"
  using elements_attr_name [OF assms(1,2)] elements_quoted [OF assms(3)] by (simp add: attr_text_def)

lemma elements_attrs: "attrs_ok as \<Longrightarrow> elements Tag (concat (map attr_text as) @ s) = elements Tag s"
proof (induction as)
  case (Cons p as)
  then show ?case by (cases p) (simp add: attrs_ok_def elements_attr)
qed simp

lemma elements_skip: "CHR ''>'' \<notin> set n \<Longrightarrow> elements Skipping (n @ s) = elements Skipping s"
  by (induction n) auto

lemma elements_start:
  assumes "tag_name n" and "attrs_ok as" and "s = CHR ''>'' # s' \<or> s = CHR '' '' # s'"
  shows "elements Text (''<'' @ n @ concat (map attr_text as) @ s) = n # elements Tag s"
proof -
  obtain c m where n: "n = c # m" "is_letter c" using assms(1) by (cases n) (auto simp: tag_name_def)
  have "elements Text (''<'' @ n @ t) = elements (Name n) t" for t
    using assms(1) elements_name [of m "[c]"] by (simp add: n tag_name_def)
  moreover have "elements (Name n) (concat (map attr_text as) @ s) = n # elements Tag s"
  proof (cases as)
    case Nil
    then show ?thesis using assms(3) by auto
  next
    case (Cons p ps)
    then have "elements (Name n) (concat (map attr_text as) @ s) = n # elements Tag (concat (map attr_text as) @ s)"
      by (simp add: attr_text_def)
    then show ?thesis by (simp only: elements_attrs [OF assms(2)])
  qed
  ultimately show ?thesis by simp
qed

lemma elements_render: "node_ok n \<Longrightarrow> elements Text (render n @ s) = tags n @ elements Text s"
proof (induction n arbitrary: s rule: render.induct)
  case (1 t)
  then show ?case by (simp add: plain_text)
next
  case (2 n as)
  then show ?case using elements_start [of n as "'' />'' @ s" "''/>'' @ s"] by simp
next
  case (3 n as ns)
  have kids: "elements Text (concat (map render ns) @ t) = concat (map tags ns) @ elements Text t" for t
    using 3 by (induction ns) (auto simp: list_all_iff)
  have e: "CHR ''>'' \<notin> set n" using 3(2) by (simp add: tag_name_def)
  have "elements Text (''</'' @ n @ ''>'' @ s) = elements Text s" using elements_skip [OF e, of "''>'' @ s"] by (simp add: is_letter_def)
  moreover have "elements Text (render (Elem n as ns) @ s) =
      n # elements Text (concat (map render ns) @ ''</'' @ n @ ''>'' @ s)"
    using elements_start [of n as "''>'' @ concat (map render ns) @ ''</'' @ n @ ''>'' @ s"] 3(2) by simp
  ultimately show ?case by (simp add: kids)
qed

text \<open>The bytes of a character beyond ASCII are none of the characters that the reader looks at.\<close>

lemma utf8_ascii [simp]:
  assumes "list_all (\<lambda>b. 128 \<le> b \<and> b < 256) bs" and "(of_char c :: nat) < 128"
  shows "c \<notin> set (utf8 bs)"
proof
  assume "c \<in> set (utf8 bs)"
  then obtain b where b: "b \<in> set bs" "c = char_of b" by (auto simp: utf8_def)
  with assms(1) have "128 \<le> b \<and> b < 256" by (simp add: list_all_iff)
  with b(2) assms(2) show False by simp
qed

section \<open>The body of the page\<close>

definition sidebar :: node where
  "sidebar = Elem ''aside'' []
     [Elem ''div'' [(''class'', ''sidebar-header'')]
        [Elem ''h1'' [] [Txt (utf8 [0xF0, 0x9F, 0x96, 0xA7] @ '' Trish GUI'')],
         Elem ''button'' [(''id'', ''themeBtn''), (''title'', ''Toggle theme'')] [Txt (utf8 [0xF0, 0x9F, 0x8C, 0x99])]],
      Elem ''div'' [(''class'', ''sidebar-scroll'')]
        [Elem ''div'' [(''class'', ''section-label'')] [Txt ''Agents''],
         Elem ''div'' [(''id'', ''agents'')] []]]"

definition toolbar :: node where
  "toolbar = Elem ''div'' [(''class'', ''toolbar'')]
     [Elem ''span'' [(''style'', ''font-size:15px;color:var(--muted)''), (''title'', ''Go up'')]
        [Txt (utf8 [0xF0, 0x9F, 0x93, 0x81])],
      Elem ''div'' [(''class'', ''divider'')] [],
      Void ''input'' [(''id'', ''path''), (''value'', ''C:'' @ [bslash]),
        (''placeholder'', ''Entrer un chemin'' @ utf8 [0xE2, 0x80, 0xA6])],
      Elem ''div'' [(''class'', ''divider'')] [],
      Elem ''button'' [(''class'', ''tb-btn''), (''id'', ''upBtn''), (''title'', ''Parent'')] [Txt (utf8 [0xE2, 0x86, 0x91])],
      Elem ''button'' [(''class'', ''tb-btn go''), (''id'', ''browseBtn'')] [Txt ''Go'']]"

definition entry_table :: node where
  "entry_table = Elem ''div'' [(''class'', ''panel'')]
     [Elem ''table'' []
        [Elem ''thead'' []
           [Elem ''tr'' [] [Elem ''th'' [] [Txt ''Nom''], Elem ''th'' [] [Txt ''Type''], Elem ''th'' [] [Txt ''Taille''],
              Elem ''th'' [] [Txt ''Action'']]],
         Elem ''tbody'' [(''id'', ''entries'')] []]]"

definition page_body :: node where
  "page_body = Elem ''div'' [(''class'', ''app'')]
     [sidebar,
      Elem ''main'' []
        [toolbar,
         Elem ''div'' [(''class'', ''breadcrumb''), (''id'', ''breadcrumb'')] [],
         entry_table,
         Elem ''div'' [(''class'', ''statusbar'')]
           [Elem ''span'' [(''id'', ''statusLeft'')] [Txt (utf8 [0xE2, 0x80, 0x94])],
            Elem ''span'' [(''id'', ''statusRight'')] []]]]"

lemmas body_defs = page_body_def sidebar_def toolbar_def entry_table_def

text \<open>The elements that the script asks for.\<close>

definition script_ids :: "string list" where
  "script_ids = [''themeBtn'', ''breadcrumb'', ''agents'', ''path'', ''statusLeft'', ''entries'', ''statusRight'',
     ''browseBtn'', ''upBtn'']"

text \<open>
  Every element that the script asks for is there, and once; the fields of the page start with what
  the markup says.
\<close>

lemma page_ids:
  "mset (values_of ''id'' page_body) = mset script_ids" "distinct script_ids"
  by (simp_all add: body_defs values_of_def script_ids_def map_filter_simps)

lemma page_start_markup:
  "map_option (\<lambda>n. map_of (attrs_of n) ''value'') (getElementById page_body ''path'') = Some (Some (pg_path page_start))"
  "map_option text_of (getElementById page_body ''statusLeft'') = Some (pg_left page_start)"
  "map_option text_of (getElementById page_body ''statusRight'') = Some (pg_right page_start)"
  "map_option text_of (getElementById page_body ''breadcrumb'') = Some (pg_crumbs page_start)"
  "map_option text_of (getElementById page_body ''agents'') = Some (concat (map snd (pg_cards page_start)))"
  "map_option text_of (getElementById page_body ''entries'') = Some (concat (pg_rows page_start))"
  by (simp_all add: body_defs getElementById_def page_start_def loadAgents_def fetches_def)

lemma body_elements: "elements Text (render page_body) = tags page_body"
proof -
  have "node_ok page_body"
    by (simp add: body_defs tag_name_def attrs_ok_def is_letter_def plain_def)
  from elements_render [OF this, of "[]"] show ?thesis by simp
qed

section \<open>The markup of the script\<close>

text \<open>A card of an agent, a link of the breadcrumb and a row of the table, as trees.\<close>

definition card_nodes :: "entry \<Rightarrow> node list" where
  "card_nodes a =
     [Elem ''div'' [(''class'', ''agent-id'')] [Txt (e_ID a)],
      Elem ''div'' [(''class'', ''agent-meta'')]
        [Elem ''span'' [(''class'', ''dot '' @ (if agent_online_text a then [] else ''offline''))] [],
         Txt (e_IPAddress a @ '':'' @ Itoa (e_Port a) @ '' &nbsp;&middot;&nbsp; '' @ or_else (e_Status a) ''unknown'')]]"

definition crumb_nodes :: "string \<times> string \<Rightarrow> node list" where
  "crumb_nodes c =
     [Elem ''span'' [(''class'', ''sep'')] [Txt (utf8 [0xE2, 0x80, 0xBA])],
      Elem ''span'' [(''style'', ''cursor:pointer;text-decoration:underline''), (''data-nav'', fst c)] [Txt (snd c)]]"

definition row_action :: "browse_entry \<Rightarrow> node" where
  "row_action e =
     (if be_Type e = ''dir''
      then Elem ''button'' [(''class'', ''action-btn''), (''data-open'', be_Path e)] [Txt ''Ouvrir'']
      else Elem ''button'' [(''class'', ''action-btn dl''), (''data-download'', be_Path e)] [Txt ''&darr; Telecharger''])"

definition row_nodes :: "page_env \<Rightarrow> browse_entry \<Rightarrow> node list" where
  "row_nodes P e =
     (let isDir = (be_Type e = ''dir'') in
      [Elem ''td'' []
         [Elem ''div'' [(''class'', ''name-cell'')]
            [Elem ''span'' [(''class'', ''icon'')]
               [Txt (if isDir then utf8 [0xF0, 0x9F, 0x93, 0x81] else getIcon P (be_Name e))],
             Txt (be_Name e)]],
       Elem ''td'' []
         [if isDir then Elem ''span'' [(''class'', ''badge badge-dir'')] [Txt ''Dossier'']
          else Elem ''span'' [(''class'', ''badge badge-file'')] [Txt ''Fichier'']],
       Elem ''td'' [] [Elem ''span'' [(''class'', ''size-val'')] [Txt (formatSize (sint (be_Size e)))]],
       Elem ''td'' [] [row_action e]])"

lemma script_markup:
  "concat (map render (card_nodes a)) = agent_html a"
  "concat (map render (crumb_nodes c)) = crumb_html c"
  "concat (map render (row_nodes P e)) = row_html P e"
  by (simp_all add: card_nodes_def agent_html_def crumb_nodes_def crumb_html_def row_nodes_def row_action_def row_html_def
      attr_text_def Let_def split: prod.split)

lemma elements_all: "list_all node_ok ns \<Longrightarrow> elements Text (concat (map render ns) @ s) = concat (map tags ns) @ elements Text s"
  by (induction ns) (auto simp: elements_render)

text \<open>
  A row is its nine elements, and its button carries exactly the path of the entry, when the name has
  no angle bracket and the path no quotation mark. Windows forbids both in the names of files.
\<close>

lemma icons_plain: "list_all (\<lambda>(ext, i). plain i) icons"
  by (simp add: icons_def Let_def plain_def)

lemma getIcon_plain:
  assumes "\<And>t. pe_inherited P (map lower_char (last (split_on (\<lambda>c. c = CHR ''.'') name))) = Some t \<Longrightarrow> plain t"
  shows "plain (getIcon P name)"
  using assms icons_plain
  by (auto simp: getIcon_def Let_def list_all_iff plain_def dest: map_of_SomeD split: option.split)

lemma formatSize_plain: "plain (formatSize n)"
  using plain_Itoa by (auto simp: formatSize_def fixed1_def Let_def plain_def)

lemma row_elements:
  assumes "plain (be_Name e)" and "dquote \<notin> set (be_Path e)" and "\<And>n t. pe_inherited P n = Some t \<Longrightarrow> plain t"
  shows "elements Text (row_html P e) = [''td'', ''div'', ''span'', ''td'', ''span'', ''td'', ''span'', ''td'', ''button'']"
proof -
  have "list_all node_ok (row_nodes P e)"
    using assms(1,2) getIcon_plain [of P "be_Name e"] assms(3) formatSize_plain
    by (simp add: row_nodes_def row_action_def tag_name_def attrs_ok_def is_letter_def plain_def Let_def)
  from elements_all [OF this, of "[]"] show ?thesis
    by (simp add: script_markup) (simp add: row_nodes_def row_action_def Let_def)
qed

section \<open>The style sheet\<close>

datatype css_rule = Rule string "(string \<times> string) list"

definition palette_rules :: "css_rule list" where
  "palette_rules =
    [Rule '':root'' [(''color-scheme'', ''light dark''), (''--bg'', ''#f3f6fb''), (''--panel'', ''#ffffff''),
       (''--text'', ''#15202b''), (''--muted'', ''#5f6b7a''), (''--line'', ''#d9e1ea''),
       (''--accent'', ''#0f766e''), (''--accent2'', ''#164e63''), (''--accent-hover'', ''#0d9488''),
       (''--row-hover'', ''#f0f7ff''), (''--shadow'', ''0 2px 8px rgba(0,0,0,.08)'')],
     Rule ''[data-theme=\"dark\"]'' [(''--bg'', ''#0d1117''), (''--panel'', ''#161b22''), (''--text'', ''#e6edf3''),
       (''--muted'', ''#8b949e''), (''--line'', ''#30363d''), (''--accent'', ''#2dd4bf''),
       (''--accent2'', ''#38bdf8''), (''--accent-hover'', ''#5eead4''), (''--row-hover'', ''#1c2128''),
       (''--shadow'', ''0 2px 8px rgba(0,0,0,.4)'')]]"

definition side_rules :: "css_rule list" where
  "side_rules =
    [Rule ''*'' [(''box-sizing'', ''border-box''), (''margin'', ''0''), (''padding'', ''0'')],
     Rule ''body'' [(''font-family'', (quote @ ''Segoe UI'' @ quote @ '', system-ui, sans-serif'')),
       (''background'', ''var(--bg)''), (''color'', ''var(--text)''),
       (''transition'', ''background .2s, color .2s'')],
     Rule ''.app'' [(''display'', ''grid''), (''grid-template-columns'', ''300px 1fr''),
       (''min-height'', ''100vh'')],
     Rule ''aside'' [(''border-right'', ''1px solid var(--line)''), (''background'', ''var(--panel)''),
       (''display'', ''flex''), (''flex-direction'', ''column''), (''padding'', ''0''), (''position'', ''sticky''),
       (''top'', ''0''), (''height'', ''100vh''), (''overflow'', ''hidden'')],
     Rule ''.sidebar-header'' [(''padding'', ''18px 16px 14px''), (''border-bottom'', ''1px solid var(--line)''),
       (''display'', ''flex''), (''align-items'', ''center''), (''justify-content'', ''space-between''),
       (''gap'', ''10px'')],
     Rule ''.sidebar-header h1'' [(''font-size'', ''16px''), (''font-weight'', ''700''),
       (''letter-spacing'', ''.3px'')],
     Rule ''.sidebar-scroll'' [(''flex'', ''1''), (''overflow-y'', ''auto''), (''padding'', ''12px'')],
     Rule ''.sidebar-scroll::-webkit-scrollbar'' [(''width'', ''4px'')],
     Rule ''.sidebar-scroll::-webkit-scrollbar-thumb'' [(''background'', ''var(--line)''),
       (''border-radius'', ''4px'')],
     Rule ''.section-label'' [(''font-size'', ''10px''), (''font-weight'', ''600''), (''letter-spacing'', ''1px''),
       (''text-transform'', ''uppercase''), (''color'', ''var(--muted)''), (''margin'', ''0 0 8px 4px'')],
     Rule ''#themeBtn'' [(''background'', ''none''), (''border'', ''1px solid var(--line)''),
       (''color'', ''var(--text)''), (''padding'', ''6px 10px''), (''border-radius'', ''6px''),
       (''cursor'', ''pointer''), (''font-size'', ''15px''), (''line-height'', ''1''), (''flex-shrink'', ''0'')],
     Rule ''#themeBtn:hover'' [(''background'', ''var(--row-hover)'')],
     Rule ''.agent'' [(''width'', ''100%''), (''text-align'', ''left''), (''border'', ''1px solid var(--line)''),
       (''background'', ''transparent''), (''padding'', ''10px 12px''), (''margin-bottom'', ''6px''),
       (''border-radius'', ''8px''), (''cursor'', ''pointer''), (''color'', ''var(--text)''),
       (''transition'', ''border-color .15s, background .15s, box-shadow .15s'')],
     Rule ''.agent:hover'' [(''background'', ''var(--row-hover)'')],
     Rule ''.agent.active'' [(''border-color'', ''var(--accent)''), (''background'', ''var(--row-hover)''),
       (''box-shadow'', ''0 0 0 2px color-mix(in srgb, var(--accent) 18%, transparent)'')],
     Rule ''.agent-id'' [(''font-weight'', ''600''), (''font-size'', ''13px'')],
     Rule ''.agent-meta'' [(''font-size'', ''11px''), (''color'', ''var(--muted)''), (''margin-top'', ''2px''),
       (''display'', ''flex''), (''align-items'', ''center''), (''gap'', ''6px'')],
     Rule ''.dot'' [(''width'', ''6px''), (''height'', ''6px''), (''border-radius'', ''50%''),
       (''background'', ''#22c55e''), (''display'', ''inline-block''), (''flex-shrink'', ''0'')],
     Rule ''.dot.offline'' [(''background'', ''#ef4444'')]]"

definition bar_rules :: "css_rule list" where
  "bar_rules =
    [Rule ''main'' [(''display'', ''flex''), (''flex-direction'', ''column''), (''padding'', ''20px 24px''),
       (''gap'', ''14px''), (''min-width'', ''0'')],
     Rule ''.toolbar'' [(''display'', ''flex''), (''gap'', ''8px''), (''align-items'', ''center''),
       (''background'', ''var(--panel)''), (''border'', ''1px solid var(--line)''), (''border-radius'', ''10px''),
       (''padding'', ''10px 12px''), (''box-shadow'', ''var(--shadow)'')],
     Rule ''.toolbar input'' [(''flex'', ''1''), (''border'', ''none''), (''outline'', ''none''),
       (''background'', ''transparent''), (''font'', ''inherit''), (''font-size'', ''13px''),
       (''color'', ''var(--text)''), (''font-family'', (quote @ ''Consolas'' @ quote @ '', monospace'')),
       (''min-width'', ''0'')],
     Rule ''.toolbar input::placeholder'' [(''color'', ''var(--muted)'')],
     Rule ''.divider'' [(''width'', ''1px''), (''height'', ''20px''), (''background'', ''var(--line)''),
       (''flex-shrink'', ''0'')],
     Rule ''.tb-btn'' [(''border'', ''none''), (''background'', ''none''), (''color'', ''var(--muted)''),
       (''cursor'', ''pointer''), (''padding'', ''4px 8px''), (''border-radius'', ''6px''),
       (''font-size'', ''16px''), (''line-height'', ''1''), (''transition'', ''background .15s, color .15s''),
       (''flex-shrink'', ''0'')],
     Rule ''.tb-btn:hover'' [(''background'', ''var(--row-hover)''), (''color'', ''var(--text)'')],
     Rule ''.tb-btn.go'' [(''background'', ''var(--accent)''), (''color'', ''#fff''), (''font-size'', ''13px''),
       (''font-weight'', ''600''), (''padding'', ''5px 14px''), (''font-family'', ''inherit'')],
     Rule ''.tb-btn.go:hover'' [(''background'', ''var(--accent-hover)'')]]"

definition table_rules :: "css_rule list" where
  "table_rules =
    [Rule ''.breadcrumb'' [(''font-size'', ''12px''), (''color'', ''var(--muted)''),
       (''font-family'', (quote @ ''Consolas'' @ quote @ '', monospace'')), (''padding'', ''0 2px''),
       (''display'', ''flex''), (''align-items'', ''center''), (''gap'', ''4px''), (''flex-wrap'', ''wrap'')],
     Rule ''.breadcrumb span'' [(''color'', ''var(--text)'')],
     Rule ''.breadcrumb .sep'' [(''color'', ''var(--line)'')],
     Rule ''.panel'' [(''background'', ''var(--panel)''), (''border'', ''1px solid var(--line)''),
       (''border-radius'', ''10px''), (''overflow'', ''hidden''), (''box-shadow'', ''var(--shadow)''),
       (''flex'', ''1'')],
     Rule ''table'' [(''width'', ''100%''), (''border-collapse'', ''collapse'')],
     Rule ''thead'' [(''position'', ''sticky''), (''top'', ''0''), (''background'', ''var(--panel)''),
       (''z-index'', ''1'')],
     Rule ''th'' [(''padding'', ''10px 14px''), (''border-bottom'', ''1px solid var(--line)''),
       (''font-size'', ''11px''), (''font-weight'', ''600''), (''letter-spacing'', ''.6px''),
       (''text-transform'', ''uppercase''), (''color'', ''var(--muted)''), (''text-align'', ''left'')],
     Rule ''td'' [(''padding'', ''9px 14px''), (''border-bottom'', ''1px solid var(--line)''),
       (''font-size'', ''13px'')],
     Rule ''tr:last-child td'' [(''border-bottom'', ''none'')],
     Rule ''tbody tr'' [(''transition'', ''background .1s'')],
     Rule ''tbody tr:hover'' [(''background'', ''var(--row-hover)'')],
     Rule ''.icon'' [(''font-style'', ''normal''), (''margin-right'', ''6px'')],
     Rule ''.name-cell'' [(''display'', ''flex''), (''align-items'', ''center'')],
     Rule ''.badge'' [(''display'', ''inline-block''), (''font-size'', ''10px''), (''font-weight'', ''600''),
       (''letter-spacing'', ''.5px''), (''padding'', ''2px 7px''), (''border-radius'', ''99px''),
       (''text-transform'', ''uppercase'')],
     Rule ''.badge-dir'' [(''background'', ''color-mix(in srgb, var(--accent) 14%, transparent)''),
       (''color'', ''var(--accent)'')],
     Rule ''.badge-file'' [(''background'', ''color-mix(in srgb, var(--accent2) 12%, transparent)''),
       (''color'', ''var(--accent2)'')],
     Rule ''.size-val'' [(''font-family'', (quote @ ''Consolas'' @ quote @ '', monospace'')),
       (''color'', ''var(--muted)''), (''font-size'', ''12px'')],
     Rule ''.action-btn'' [(''border'', ''1px solid var(--line)''), (''background'', ''none''),
       (''color'', ''var(--accent)''), (''cursor'', ''pointer''), (''padding'', ''4px 10px''),
       (''border-radius'', ''6px''), (''font-size'', ''12px''), (''font-weight'', ''600''),
       (''font-family'', ''inherit''), (''transition'', ''background .15s, border-color .15s'')],
     Rule ''.action-btn:hover'' [(''background'', ''color-mix(in srgb, var(--accent) 10%, transparent)''),
       (''border-color'', ''var(--accent)'')],
     Rule ''.action-btn.dl'' [(''color'', ''var(--accent2)'')],
     Rule ''.action-btn.dl:hover'' [(''background'', ''color-mix(in srgb, var(--accent2) 10%, transparent)''),
       (''border-color'', ''var(--accent2)'')],
     Rule ''.empty'' [(''padding'', ''40px''), (''text-align'', ''center''), (''color'', ''var(--muted)''),
       (''font-size'', ''14px'')],
     Rule ''.statusbar'' [(''font-size'', ''11px''), (''color'', ''var(--muted)''), (''padding'', ''0 2px''),
       (''display'', ''flex''), (''justify-content'', ''space-between'')]]"

definition style_sheet :: "css_rule list" where
  "style_sheet = palette_rules @ side_rules @ bar_rules @ table_rules"

section \<open>The theme\<close>

text \<open>The variable dark, the attribute data-theme of the root element, and the text of the button.\<close>

record theme =
  th_dark :: bool
  th_attr :: string
  th_button :: string

definition applyTheme :: "theme \<Rightarrow> theme" where
  "applyTheme t = t\<lparr>th_attr := (if th_dark t then ''dark'' else ''light''),
     th_button := (if th_dark t then utf8 [0xE2, 0x98, 0x80, 0xEF, 0xB8, 0x8F] else utf8 [0xF0, 0x9F, 0x8C, 0x99])\<rparr>"

text \<open>The start of the script, where \<open>prefers\<close> is what matchMedia says, and a click on the button.\<close>

definition theme_start :: "bool \<Rightarrow> theme" where
  "theme_start prefers = applyTheme \<lparr>th_dark = prefers, th_attr = [], th_button = utf8 [0xF0, 0x9F, 0x8C, 0x99]\<rparr>"

definition theme_click :: "theme \<Rightarrow> theme" where
  "theme_click t = applyTheme (t\<lparr>th_dark := \<not> th_dark t\<rparr>)"

text \<open>
  What a custom property is on the root element: the rules for the root and for the dark theme weigh
  the same, so the later one wins.
\<close>

fun on_root :: "theme \<Rightarrow> css_rule \<Rightarrow> (string \<times> string) list" where
  "on_root t (Rule sel ds) = (if sel = '':root'' \<or> sel = ''[data-theme=\"dark\"]'' \<and> th_attr t = ''dark'' then ds else [])"

definition root_value :: "theme \<Rightarrow> string \<Rightarrow> string option" where
  "root_value t v = map_of (concat (map (on_root t) (rev style_sheet))) v"

text \<open>The custom properties that a value refers to.\<close>

fun vars_of :: "string \<Rightarrow> string list" where
  "vars_of [] = []"
| "vars_of (c # s) =
     (if HasPrefix (c # s) ''var('' then [takeWhile (\<lambda>x. x \<noteq> CHR '')'') (drop 3 s)] else []) @ vars_of s"

fun rule_vars :: "css_rule \<Rightarrow> string list" where
  "rule_vars (Rule sel ds) = concat (map (vars_of \<circ> snd) ds)"

fun rule_selector :: "css_rule \<Rightarrow> string" where
  "rule_selector (Rule sel ds) = sel"

fun rule_declares :: "css_rule \<Rightarrow> (string \<times> string) list" where
  "rule_declares (Rule sel ds) = ds"

text \<open>The names after a dot in a selector.\<close>

definition name_char :: "char \<Rightarrow> bool" where
  "name_char c \<longleftrightarrow> is_letter c \<or> c = CHR ''-''"

fun selector_classes :: "string \<Rightarrow> string list" where
  "selector_classes [] = []"
| "selector_classes (c # s) = (if c = CHR ''.'' then [takeWhile name_char s] else []) @ selector_classes s"

definition node_classes :: "node \<Rightarrow> string list" where
  "node_classes n = filter (\<lambda>c. c \<noteq> []) (concat (map (split_on (\<lambda>c. c = CHR '' '')) (values_of ''class'' n)))"

lemma themes_of_root:
  "root_value t v = (case (if th_attr t = ''dark'' then map_of (rule_declares (palette_rules ! 1)) v else None) of
     Some x \<Rightarrow> Some x | None \<Rightarrow> map_of (rule_declares (palette_rules ! 0)) v)"
proof -
  have "concat (map (on_root t) (rev (side_rules @ bar_rules @ table_rules))) = []"
    by (simp add: side_rules_def bar_rules_def table_rules_def)
  then have "concat (map (on_root t) (rev style_sheet)) = concat (map (on_root t) (rev palette_rules))"
    by (simp add: style_sheet_def)
  then show ?thesis
    by (simp add: root_value_def palette_rules_def split: option.split)
qed

text \<open>Both themes give a value to every custom property that the style sheet uses, and no two the same.\<close>

lemma used_vars:
  "set (concat (map rule_vars style_sheet)) \<subseteq> fst ` set (rule_declares (palette_rules ! 1))"
  "set (concat (map rule_vars style_sheet)) \<subseteq> fst ` set (rule_declares (palette_rules ! 0))"
  by code_simp+

lemma map_of_declared: "v \<in> fst ` set ds \<Longrightarrow> \<exists>x. map_of ds v = Some x"
  by (metis map_of_eq_None_iff not_None_eq)

lemma palettes_agree:
  "map fst (rule_declares (palette_rules ! 0)) = ''color-scheme'' # map fst (rule_declares (palette_rules ! 1))"
  "list_all (\<lambda>(v, x). map_of (rule_declares (palette_rules ! 0)) v \<noteq> Some x) (rule_declares (palette_rules ! 1))"
  by code_simp+

lemma classes_styled:
  "set (node_classes page_body) \<subseteq> set (concat (map (selector_classes \<circ> rule_selector) style_sheet))"
  by code_simp

lemma theme_clicks:
  "th_dark ((theme_click ^^ n) (theme_start prefers)) \<longleftrightarrow> (prefers \<noteq> odd n)"
  by (induction n) (auto simp: theme_click_def applyTheme_def theme_start_def)

lemma theme_applied:
  "applyTheme ((theme_click ^^ n) (theme_start prefers)) = (theme_click ^^ n) (theme_start prefers)"
  by (induction n) (simp_all add: theme_click_def applyTheme_def theme_start_def)

lemma applyTheme_attr: "applyTheme t = t \<Longrightarrow> th_attr t = ''dark'' \<longleftrightarrow> th_dark t"
  by (cases t) (auto simp: applyTheme_def)

text \<open>
  The page has its colours in both themes: after any number of clicks, the attribute and the button show the
  theme, which is the preferred one after an even number, and every custom property that the style sheet
  uses has the value of exactly that theme's palette.
\<close>

theorem theme_switch:
  assumes "t = (theme_click ^^ n) (theme_start prefers)" and "v \<in> set (concat (map rule_vars style_sheet))"
  shows "(th_dark t \<longleftrightarrow> (prefers \<noteq> odd n)) \<and> (th_attr t = ''dark'' \<longleftrightarrow> th_dark t) \<and>
    (\<exists>x. root_value t v = Some x \<and> map_of (rule_declares (palette_rules ! (if th_dark t then 1 else 0))) v = Some x \<and>
      map_of (rule_declares (palette_rules ! (if th_dark t then 0 else 1))) v \<noteq> Some x)"
proof -
  let ?light = "rule_declares (palette_rules ! 0)" and ?dark = "rule_declares (palette_rules ! 1)"
  have a: "th_attr t = ''dark'' \<longleftrightarrow> th_dark t"
    using theme_applied [of n prefers] by (metis applyTheme_attr assms(1))
  obtain d where d: "map_of ?dark v = Some d" using map_of_declared [OF subsetD [OF used_vars(1) assms(2)]] by (elim exE)
  obtain l where l: "map_of ?light v = Some l" using map_of_declared [OF subsetD [OF used_vars(2) assms(2)]] by (elim exE)
  have "l \<noteq> d" using palettes_agree(2) map_of_SomeD [OF d] l by (auto simp: list_all_iff)
  moreover have "root_value t v = Some (if th_dark t then d else l)" using a d l by (simp add: themes_of_root)
  ultimately show ?thesis using a d l theme_clicks [of n prefers] assms(1) by (cases "th_dark t") simp_all
qed

theorem theme_switch_witness:
  "root_value ((theme_click ^^ 3) (theme_start False)) ''--bg'' = Some ''#0d1117''"
proof -
  have "''--bg'' \<in> set (concat (map rule_vars style_sheet))" by code_simp
  moreover have "map_of (rule_declares (palette_rules ! 1)) ''--bg'' = Some ''#0d1117''" by code_simp
  ultimately show ?thesis using theme_switch [OF refl, of "''--bg''" 3 False] by auto
qed

end
