(* ===== verification/Win_World.thy ===== *)
theory Win_World
  imports Storage "HOL-Library.State_Monad"
begin

text \<open>
  What the installers of both programs do to a Windows machine, as the list of their actions:
  commands, directories, files, pauses, and the start of a program with more rights. What the machine answers to an action is a function of
  the actions before it, so the model covers every behaviour of the machine. The tools of
  agent/install_windows.go and server/service_windows.go, which are the same code twice, are
  here once, with the name of the service as an argument.
\<close>

datatype win_action =
    Ran string "string list"
  | MadeDir string
  | AskedExe
  | Copied string string
  | Wrote string string
  | ReadBack string
  | Statted string
  | Removed string
  | RemovedAll string
  | Slept duration
  | Opened string
  | Elevated string string

record win =
  wn_trace :: "win_action list"
  wn_said :: "string list"

record win_env =
  we_answer :: "win_action list \<Rightarrow> win_action \<Rightarrow> string \<times> go_error option"
  we_now :: "win_action list \<Rightarrow> instant"
  we_ProgramData :: string
  we_SystemDrive :: string
  we_Join :: "string list \<Rightarrow> string"
  we_Dir :: "string \<Rightarrow> string"

text \<open>Starved: the bound on the polls of a loop was too small.\<close>

datatype outcome = Fine | Failed go_error | Starved

type_synonym 'a winm = "(win, 'a) state"

abbreviation ret :: "'a \<Rightarrow> 'a winm" where
  "ret \<equiv> State_Monad.return"

definition act :: "win_env \<Rightarrow> win_action \<Rightarrow> (string \<times> go_error option) winm" where
  "act E a = State (\<lambda>w. (we_answer E (wn_trace w) a, w\<lparr>wn_trace := wn_trace w @ [a]\<rparr>))"

definition println :: "string \<Rightarrow> unit winm" where
  "println text = State (\<lambda>w. ((), w\<lparr>wn_said := wn_said w @ [text]\<rparr>))"

text \<open>progress of both main.go, which is what the installers call with their messages.\<close>

definition say :: "string \<Rightarrow> unit winm" where
  "say text = println (''- '' @ text)"

definition now :: "win_env \<Rightarrow> instant winm" where
  "now E = State (\<lambda>w. (we_now E (wn_trace w), w))"

fun of_error :: "go_error option \<Rightarrow> outcome" where
  "of_error None = Fine"
| "of_error (Some e) = Failed e"

definition try_act :: "win_env \<Rightarrow> win_action \<Rightarrow> outcome winm" where
  "try_act E a = do { (text, e) \<leftarrow> act E a; ret (of_error e) }"

text \<open>if err := ...; err != nil { return err }\<close>

definition check :: "outcome winm \<Rightarrow> outcome winm \<Rightarrow> outcome winm" where
  "check m k = do { x \<leftarrow> m; if x = Fine then k else ret x }"

section \<open>The tools\<close>

definition runVisible :: "win_env \<Rightarrow> string \<Rightarrow> string list \<Rightarrow> outcome winm" where
  "runVisible E name args = do {
     (text, e) \<leftarrow> act E (Ran name args);
     ret (case e of
       None \<Rightarrow> Fine
     | Some err \<Rightarrow> Failed (Errorf (name @ '' ['' @ join '' '' args @ ''] failed: '' @ error_text err @
         '' ('' @ TrimSpace text @ '')''))) }"

definition runHidden :: "win_env \<Rightarrow> string \<Rightarrow> string list \<Rightarrow> outcome winm" where
  "runHidden E name args = try_act E (Ran name args)"

definition query :: "string \<Rightarrow> win_action" where
  "query svc = Ran ''sc.exe'' [''query'', svc]"

definition ensureAdmin :: "win_env \<Rightarrow> go_error \<Rightarrow> outcome winm" where
  "ensureAdmin E err = do {
     (text, e) \<leftarrow> act E (Ran ''net'' [''session'']);
     ret (if e = None then Fine else Failed err) }"

definition serviceExists :: "win_env \<Rightarrow> string \<Rightarrow> bool winm" where
  "serviceExists E svc = do { (text, e) \<leftarrow> act E (query svc); ret (e = None) }"

text \<open>strings.Split by line feeds.\<close>

fun split_lines :: "string \<Rightarrow> string \<Rightarrow> string list" where
  "split_lines cur [] = [cur]"
| "split_lines cur (c # s) = (if c = CHR 0x0A then cur # split_lines [] s else split_lines (cur @ [c]) s)"

fun find_state :: "string list \<Rightarrow> string option" where
  "find_state [] = None"
| "find_state (l # ls) =
     (let line = TrimSpace l; parts = Fields line in
      if HasPrefix line ''STATE'' \<and> length parts \<ge> 4 then Some (parts ! 3) else find_state ls)"

definition state_of_answer :: "string \<times> go_error option \<Rightarrow> string result" where
  "state_of_answer = (\<lambda>(text, e).
     case e of
       Some err \<Rightarrow> Inl (Errorf (''sc.exe query failed: '' @ error_text err @ '' ('' @ TrimSpace text @ '')''))
     | None \<Rightarrow>
         (case find_state (split_lines [] text) of
            None \<Rightarrow> Inl (Errorf ''unable to parse service state'')
          | Some s \<Rightarrow> Inr s))"

definition queryServiceState :: "win_env \<Rightarrow> string \<Rightarrow> string result winm" where
  "queryServiceState E svc = do { a \<leftarrow> act E (query svc); ret (state_of_answer a) }"

fun wait_loop :: "nat \<Rightarrow> win_env \<Rightarrow> string \<Rightarrow> string \<Rightarrow> instant \<Rightarrow> outcome winm" where
  "wait_loop 0 E svc expected deadline = ret Starved"
| "wait_loop (Suc n) E svc expected deadline = do {
     t \<leftarrow> now E;
     if t < deadline then do {
       s \<leftarrow> queryServiceState E svc;
       if s = Inr expected then ret Fine
       else do { _ \<leftarrow> act E (Slept second); wait_loop n E svc expected deadline } }
     else do {
       s \<leftarrow> queryServiceState E svc;
       ret (case s of
         Inl e \<Rightarrow> Failed e
       | Inr state \<Rightarrow> Failed (Errorf (''service '' @ svc @ '' did not reach state '' @ expected @
           '' (current='' @ state @ '')''))) } }"

definition waitForServiceState :: "nat \<Rightarrow> win_env \<Rightarrow> string \<Rightarrow> string \<Rightarrow> duration \<Rightarrow> outcome winm" where
  "waitForServiceState fuel E svc expected timeout = do {
     t \<leftarrow> now E;
     wait_loop fuel E svc expected (t + timeout) }"

definition stopServiceIfPresent :: "nat \<Rightarrow> win_env \<Rightarrow> string \<Rightarrow> outcome winm" where
  "stopServiceIfPresent fuel E svc = do {
     present \<leftarrow> serviceExists E svc;
     if \<not> present then ret Fine
     else do {
       s \<leftarrow> queryServiceState E svc;
       if s = Inr ''STOPPED'' then ret Fine
       else do {
         _ \<leftarrow> runHidden E ''sc.exe'' [''stop'', svc];
         waitForServiceState fuel E svc ''STOPPED'' (20 * second) } } }"

definition startServiceAndWait :: "nat \<Rightarrow> win_env \<Rightarrow> string \<Rightarrow> outcome winm" where
  "startServiceAndWait fuel E svc = do {
     x \<leftarrow> runVisible E ''sc.exe'' [''start'', svc];
     case x of
       Failed e \<Rightarrow>
         if Contains (ToLower (error_text e)) ''service has already been started''
         then waitForServiceState fuel E svc ''RUNNING'' (20 * second) else ret x
     | _ \<Rightarrow> waitForServiceState fuel E svc ''RUNNING'' (20 * second) }"

text \<open>The service is created, or updated when it exists.\<close>

definition register_service :: "win_env \<Rightarrow> string \<Rightarrow> string \<Rightarrow> string \<Rightarrow> outcome winm" where
  "register_service E svc display exe = do {
     present \<leftarrow> serviceExists E svc;
     let config = [''binPath='', [CHR 0x22] @ exe @ [CHR 0x22] @ '' run-service'', ''start='', ''auto'',
       ''DisplayName='', display];
     if present then do {
       say ''Service deja present: mise a jour de la configuration du service'';
       runVisible E ''sc.exe'' ([''config'', svc] @ config) }
     else do {
       say (''Creation du service Windows '' @ svc);
       runVisible E ''sc.exe'' ([''create'', svc] @ config) } }"

definition failure_actions :: "win_env \<Rightarrow> string \<Rightarrow> outcome winm" where
  "failure_actions E svc = runVisible E ''sc.exe''
     [''failure'', svc, ''reset='', ''86400'', ''actions='', ''restart/5000/restart/5000/restart/5000'']"

section \<open>Runs\<close>

lemma run_act [simp]: "run_state (act E a) w = (we_answer E (wn_trace w) a, w\<lparr>wn_trace := wn_trace w @ [a]\<rparr>)"
  and run_println [simp]: "run_state (println s) w = ((), w\<lparr>wn_said := wn_said w @ [s]\<rparr>)"
  and run_say [simp]: "run_state (say s) w = ((), w\<lparr>wn_said := wn_said w @ [''- '' @ s]\<rparr>)"
  and run_now [simp]: "run_state (now E) w = (we_now E (wn_trace w), w)"
  by (simp_all add: act_def say_def println_def now_def)

text \<open>
  A property of the actions that a computation adds. \<open>does P m\<close>: every action it adds to any
  trace satisfies P.
\<close>

definition does :: "(win_action \<Rightarrow> bool) \<Rightarrow> 'a winm \<Rightarrow> bool" where
  "does P m \<longleftrightarrow> (\<forall>w. \<exists>as. wn_trace (snd (run_state m w)) = wn_trace w @ as \<and> list_all P as)"

lemma does_ret [simp]: "does P (ret x)" and does_say [simp]: "does P (say s)"
  and does_println [simp]: "does P (println s)" and does_now [simp]: "does P (now E)"
  by (simp_all add: does_def)

lemma does_act [simp]: "does P (act E a) \<longleftrightarrow> P a"
  by (simp add: does_def)

lemma does_bind: "does P m \<Longrightarrow> (\<And>x. does P (f x)) \<Longrightarrow> does P (State_Monad.bind m f)"
  unfolding does_def run_state_bind
proof
  fix w :: win
  assume m: "\<forall>w. \<exists>as. wn_trace (snd (run_state m w)) = wn_trace w @ as \<and> list_all P as"
    and f: "\<And>x. \<forall>w. \<exists>as. wn_trace (snd (run_state (f x) w)) = wn_trace w @ as \<and> list_all P as"
  obtain x w1 where 1: "run_state m w = (x, w1)" by fastforce
  obtain as where as: "wn_trace w1 = wn_trace w @ as" "list_all P as" using m 1 by (metis snd_conv)
  obtain bs where bs: "wn_trace (snd (run_state (f x) w1)) = wn_trace w1 @ bs" "list_all P bs" using f by blast
  show "\<exists>as. wn_trace (snd (case run_state m w of (a, s') \<Rightarrow> run_state (f a) s')) = wn_trace w @ as \<and> list_all P as"
    using 1 as bs by (intro exI [of _ "as @ bs"]) simp
qed

lemma does_check: "does P m \<Longrightarrow> does P k \<Longrightarrow> does P (check m k)"
  by (simp add: check_def does_bind)

lemma does_mono: "does P m \<Longrightarrow> (\<And>a. P a \<Longrightarrow> Q a) \<Longrightarrow> does Q m"
  unfolding does_def list_all_iff by metis

lemma doesD: "does P m \<Longrightarrow> run_state m w = (x, w') \<Longrightarrow> \<exists>as. wn_trace w' = wn_trace w @ as \<and> list_all P as"
  unfolding does_def by (metis snd_conv)

lemmas does_rules = does_bind does_check

end
