(* ===== verification/Windows_Install.thy ===== *)
theory Windows_Install
  imports Win_World
begin

text \<open>
  agent/config.go, and the installers: InstallOrRepair, InstallCheck and Uninstall of
  agent/install_windows.go, InstallOrRepairService, InstallCheckService and UninstallService of
  server/service_windows.go. The progress function that main.go passes is \<open>say\<close>,
  a nil one is not modelled; the bounds on
  the polls of the waiting loops are the argument \<open>fuel\<close>.
\<close>

section \<open>Configuration of the agent\<close>

record config =
  cf_ServerAddr :: string
  cf_ServerPort :: int
  cf_ListenPort :: int
  cf_InstallDir :: string
  cf_LogDir :: string
  cf_Version :: string

definition ServiceName :: string where "ServiceName = ''TrishAgent''"
definition ServiceDisplayName :: string where "ServiceDisplayName = ''Trish Agent''"

definition program_data :: "win_env \<Rightarrow> string" where
  "program_data E =
     (if we_ProgramData E = [] then we_Join E [we_SystemDrive E @ [CHR 0x5C], ''ProgramData'']
      else we_ProgramData E)"

definition DefaultInstallDir :: "win_env \<Rightarrow> string" where
  "DefaultInstallDir E = we_Join E [program_data E, ''Trish'', ''agent'']"

definition DefaultConfigPath :: "win_env \<Rightarrow> string" where
  "DefaultConfigPath E = we_Join E [DefaultInstallDir E, ''agent-config.json'']"

definition DefaultLogDir :: "win_env \<Rightarrow> string" where
  "DefaultLogDir E = we_Join E [DefaultInstallDir E, ''logs'']"

definition DefaultExecutablePath :: "win_env \<Rightarrow> string" where
  "DefaultExecutablePath E = we_Join E [DefaultInstallDir E, ''trish-agent.exe'']"

text \<open>Validate fills in the listening port.\<close>

definition config_Validate :: "config \<Rightarrow> config result" where
  "config_Validate c =
     (if cf_ServerAddr c = [] then Inl (Errorf ''server address is required'')
      else if cf_ServerPort c \<le> 0 then Inl (Errorf ''server port is invalid'')
      else Inr (if cf_ListenPort c \<le> 0 then c\<lparr>cf_ListenPort := 2222\<rparr> else c))"

definition LoadConfig :: "config codec \<Rightarrow> win_env \<Rightarrow> string \<Rightarrow> config result winm" where
  "LoadConfig J E path = do {
     (data, e) \<leftarrow> act E (ReadBack path);
     ret (case e of Some err \<Rightarrow> Inl err | None \<Rightarrow> Unmarshal J data) }"

definition fill_config :: "win_env \<Rightarrow> string \<Rightarrow> config \<Rightarrow> config" where
  "fill_config E version c =
     (let c1 = (if cf_InstallDir c = [] then c\<lparr>cf_InstallDir := DefaultInstallDir E\<rparr> else c);
          c2 = (if cf_LogDir c1 = [] then c1\<lparr>cf_LogDir := DefaultLogDir E\<rparr> else c1)
      in if cf_Version c2 = [] then c2\<lparr>cf_Version := version\<rparr> else c2)"

definition config_Save :: "config codec \<Rightarrow> win_env \<Rightarrow> string \<Rightarrow> config \<Rightarrow> string \<Rightarrow> outcome winm" where
  "config_Save J E version c path =
     check (try_act E (MadeDir (we_Dir E path)))
       (case Marshal J (fill_config E version c) of
          Inl e \<Rightarrow> ret (Failed e)
        | Inr data \<Rightarrow> try_act E (Wrote path data))"

section \<open>Installing the agent\<close>

definition ErrAdminRequired :: go_error where
  "ErrAdminRequired = Errorf ''administrator privileges are required to install the Trish agent''"

definition IsAdminRequired :: "go_error \<Rightarrow> bool" where
  "IsAdminRequired e \<longleftrightarrow> e = ErrAdminRequired"

record install_options =
  io_ServerAddr :: string
  io_ServerPort :: int
  io_ListenPort :: int
  io_DryRun :: bool
  io_NoStart :: bool

definition install_config :: "win_env \<Rightarrow> string \<Rightarrow> install_options \<Rightarrow> config" where
  "install_config E version opts =
     \<lparr>cf_ServerAddr = io_ServerAddr opts, cf_ServerPort = io_ServerPort opts, cf_ListenPort = io_ListenPort opts,
      cf_InstallDir = DefaultInstallDir E, cf_LogDir = DefaultLogDir E, cf_Version = version\<rparr>"

definition then_exe :: "win_env \<Rightarrow> (string \<Rightarrow> outcome winm) \<Rightarrow> outcome winm" where
  "then_exe E k = do {
     (exe, e) \<leftarrow> act E AskedExe;
     case e of Some err \<Rightarrow> ret (Failed err) | None \<Rightarrow> k exe }"

text \<open>The two checks share the report on the service that is there.\<close>

definition report_service :: "win_env \<Rightarrow> string \<Rightarrow> outcome winm \<Rightarrow> outcome winm" where
  "report_service E svc k = do {
     present \<leftarrow> serviceExists E svc;
     if present then do {
       s \<leftarrow> queryServiceState E svc;
       case s of
         Inl e \<Rightarrow> ret (Failed e)
       | Inr state \<Rightarrow> do {
           say (''Service existant detecte: '' @ svc @ '' (state='' @ state @ '')'');
           k } }
     else do { say ''Aucun service existant detecte''; k } }"

definition InstallCheck :: "config codec \<Rightarrow> win_env \<Rightarrow> string \<Rightarrow> install_options \<Rightarrow> outcome winm" where
  "InstallCheck J E version opts =
     (case config_Validate (install_config E version opts) of
        Inl e \<Rightarrow> ret (Failed e)
      | Inr cfg \<Rightarrow> do {
          say ''Verification de la configuration cible'';
          say (''Serveur cible: '' @ cf_ServerAddr cfg @ '':'' @ Itoa (cf_ServerPort cfg));
          say (''Dossier d'installation: '' @ cf_InstallDir cfg);
          say (''Fichier de configuration: '' @ DefaultConfigPath E);
          say (''Fichier binaire cible: '' @ DefaultExecutablePath E);
          say ''Verification des droits administrateur...'';
          check (ensureAdmin E ErrAdminRequired)
            (then_exe E (\<lambda>exe. do {
               say (''Binaire courant: '' @ exe);
               report_service E ServiceName (do {
                 (info, e) \<leftarrow> act E (Statted (DefaultConfigPath E));
                 check
                   (if e = None then do {
                      r \<leftarrow> LoadConfig J E (DefaultConfigPath E);
                      case r of
                        Inl err \<Rightarrow> ret (Failed err)
                      | Inr installed \<Rightarrow> do {
                          say (''Configuration existante detectee pour '' @ cf_ServerAddr installed @ '':'' @
                            Itoa (cf_ServerPort installed));
                          ret Fine } }
                    else do { say ''Aucune configuration existante detectee''; ret Fine })
                   (do { say ''Install-check termine. Aucun changement n'a ete applique.''; ret Fine }) }) })) })"

definition verify_config :: "config codec \<Rightarrow> win_env \<Rightarrow> outcome winm" where
  "verify_config J E = do {
     r \<leftarrow> LoadConfig J E (DefaultConfigPath E);
     ret (case r of
       Inl e \<Rightarrow> Failed e
     | Inr installed \<Rightarrow> (case config_Validate installed of Inl e \<Rightarrow> Failed e | Inr _ \<Rightarrow> Fine)) }"

definition verify_running :: "win_env \<Rightarrow> outcome winm" where
  "verify_running E = do {
     s \<leftarrow> queryServiceState E ServiceName;
     ret (case s of
       Inl e \<Rightarrow> Failed e
     | Inr state \<Rightarrow>
         if state \<noteq> ''RUNNING''
         then Failed (Errorf (''service '' @ ServiceName @ '' not running after installation (state='' @ state @ '')''))
         else Fine) }"

definition InstallOrRepair :: "nat \<Rightarrow> config codec \<Rightarrow> win_env \<Rightarrow> string \<Rightarrow> install_options \<Rightarrow> outcome winm" where
  "InstallOrRepair fuel J E version opts =
     (case config_Validate (install_config E version opts) of
        Inl e \<Rightarrow> ret (Failed e)
      | Inr cfg \<Rightarrow>
          if io_DryRun opts then InstallCheck J E version opts
          else do {
            say ''Verification des droits administrateur...'';
            check (ensureAdmin E ErrAdminRequired) (do {
            say (''Preparation du dossier d'installation: '' @ cf_InstallDir cfg);
            check (try_act E (MadeDir (cf_InstallDir cfg))) (
            check (try_act E (MadeDir (cf_LogDir cfg))) (
            then_exe E (\<lambda>currentExe. do {
            say ''Arret preventif de l'ancien service si present...'';
            check (stopServiceIfPresent fuel E ServiceName) (do {
            say (''Copie du binaire dans '' @ DefaultExecutablePath E);
            check (try_act E (Copied currentExe (DefaultExecutablePath E))) (do {
            say (''Ecriture de la configuration: '' @ DefaultConfigPath E);
            check (config_Save J E version cfg (DefaultConfigPath E)) (
            check (register_service E ServiceName ServiceDisplayName (DefaultExecutablePath E)) (do {
            say ''Configuration du redemarrage automatique du service'';
            _ \<leftarrow> failure_actions E ServiceName;
            check (if io_NoStart opts then ret Fine
                   else do { say ''Demarrage du service''; startServiceAndWait fuel E ServiceName }) (do {
            say ''Verification de la configuration installee'';
            check (verify_config J E) (
            check (if io_NoStart opts then ret Fine
                   else do { say ''Verification de l'etat du service''; verify_running E }) (do {
            say ''Installation terminee. Le service tourne maintenant en arriere-plan.'';
            ret Fine })) }) })) }) }) }))) }) })"

definition Uninstall :: "win_env \<Rightarrow> outcome winm" where
  "Uninstall E = do {
     say ''Verification des droits administrateur...'';
     check (ensureAdmin E ErrAdminRequired) (do {
       say ''Arret du service'';
       _ \<leftarrow> runVisible E ''sc.exe'' [''stop'', ServiceName];
       present \<leftarrow> serviceExists E ServiceName;
       check
         (if present then do { say ''Suppression du service''; runVisible E ''sc.exe'' [''delete'', ServiceName] }
          else ret Fine)
         (do {
            say ''Suppression de la configuration et des binaires installes'';
            _ \<leftarrow> act E (Removed (DefaultConfigPath E));
            _ \<leftarrow> act E (Removed (DefaultExecutablePath E));
            _ \<leftarrow> act E (RemovedAll (DefaultLogDir E));
            _ \<leftarrow> act E (RemovedAll (we_Dir E (DefaultConfigPath E)));
            say ''Desinstallation terminee'';
            ret Fine }) }) }"

section \<open>Installing the server\<close>

definition ServerServiceName :: string where "ServerServiceName = ''TrishServer''"
definition ServerServiceDisplayName :: string where "ServerServiceDisplayName = ''Trish Server''"

definition server_InstallDir :: "win_env \<Rightarrow> string" where
  "server_InstallDir E = we_Join E [program_data E, ''Trish'', ''server'']"

definition server_ExecutablePath :: "win_env \<Rightarrow> string" where
  "server_ExecutablePath E = we_Join E [server_InstallDir E, ''trish-server.exe'']"

definition server_ConfigPath :: "win_env \<Rightarrow> string" where
  "server_ConfigPath E = we_Join E [server_InstallDir E, ''server-config.json'']"

definition SaveServiceConfig :: "win_env \<Rightarrow> string \<Rightarrow> outcome winm" where
  "SaveServiceConfig E data =
     check (try_act E (MadeDir (we_Dir E (server_ConfigPath E)))) (try_act E (Wrote (server_ConfigPath E) data))"

record service_options =
  so_Port :: int
  so_RegistryPath :: string
  so_LockPath :: string
  so_AdminSecret :: string
  so_ConfigData :: string
  so_NoStart :: bool

definition validateInstallOptions :: "service_options \<Rightarrow> go_error option" where
  "validateInstallOptions opts =
     (if so_Port opts \<le> 0 then Some (Errorf ''server port is invalid'')
      else if TrimSpace (so_RegistryPath opts) = [] then Some (Errorf ''server registry path is required'')
      else if TrimSpace (so_LockPath opts) = [] then Some (Errorf ''server lock path is required'')
      else if so_ConfigData opts = [] then Some (Errorf ''service config data is required'')
      else None)"

definition server_admin_error :: go_error where
  "server_admin_error = Errorf ''administrator privileges are required''"

definition InstallOrRepairService :: "nat \<Rightarrow> win_env \<Rightarrow> service_options \<Rightarrow> outcome winm" where
  "InstallOrRepairService fuel E opts =
     (case validateInstallOptions opts of
        Some e \<Rightarrow> ret (Failed e)
      | None \<Rightarrow> do {
          say ''Verification des droits administrateur...'';
          check (ensureAdmin E server_admin_error) (do {
          say (''Preparation du dossier d'installation: '' @ server_InstallDir E);
          check (try_act E (MadeDir (server_InstallDir E))) (
          then_exe E (\<lambda>currentExe. do {
          say ''Arret preventif de l'ancien service si present...'';
          check (stopServiceIfPresent fuel E ServerServiceName) (do {
          say (''Copie du binaire dans '' @ server_ExecutablePath E);
          check (try_act E (Copied currentExe (server_ExecutablePath E))) (do {
          say (''Ecriture de la configuration: '' @ server_ConfigPath E);
          check (SaveServiceConfig E (so_ConfigData opts)) (
          check (register_service E ServerServiceName ServerServiceDisplayName (server_ExecutablePath E)) (do {
          say ''Configuration du redemarrage automatique du service'';
          _ \<leftarrow> failure_actions E ServerServiceName;
          check (if so_NoStart opts then ret Fine
                 else do { say ''Demarrage du service''; startServiceAndWait fuel E ServerServiceName }) (do {
          say ''Installation terminee. Le service serveur tournera automatiquement au demarrage du PC.'';
          ret Fine }) })) }) }) })) }) })"

definition InstallCheckService :: "win_env \<Rightarrow> service_options \<Rightarrow> outcome winm" where
  "InstallCheckService E opts =
     (case validateInstallOptions opts of
        Some e \<Rightarrow> ret (Failed e)
      | None \<Rightarrow> do {
          say ''Verification des droits administrateur...'';
          check (ensureAdmin E server_admin_error)
            (then_exe E (\<lambda>currentExe. do {
               say (''Binaire courant: '' @ currentExe);
               say (''Binaire cible: '' @ server_ExecutablePath E);
               say (''Fichier de configuration: '' @ server_ConfigPath E);
               say (''Port serveur: '' @ Itoa (so_Port opts));
               say (''Registre: '' @ so_RegistryPath opts);
               say (''Lock: '' @ so_LockPath opts);
               report_service E ServerServiceName (do {
                 say ''Install-check termine. Aucun changement n'a ete applique.'';
                 ret Fine }) })) })"

definition UninstallService :: "win_env \<Rightarrow> outcome winm" where
  "UninstallService E = do {
     say ''Verification des droits administrateur...'';
     check (ensureAdmin E server_admin_error) (do {
       say ''Arret du service'';
       _ \<leftarrow> runVisible E ''sc.exe'' [''stop'', ServerServiceName];
       present \<leftarrow> serviceExists E ServerServiceName;
       check
         (if present then do { say ''Suppression du service''; runVisible E ''sc.exe'' [''delete'', ServerServiceName] }
          else ret Fine)
         (do {
            say ''Suppression de la configuration et des binaires installes'';
            _ \<leftarrow> act E (Removed (server_ConfigPath E));
            _ \<leftarrow> act E (Removed (server_ExecutablePath E));
            _ \<leftarrow> act E (RemovedAll (server_InstallDir E));
            say ''Desinstallation terminee'';
            ret Fine }) }) }"

end
