(* ===== verification/Agent_Program.thy ===== *)
theory Agent_Program
  imports Windows_Install Windows_Args Agent_Service
begin

text \<open>
  The agent program: cmd/agent/main.go, its relaunch with administrator rights
  (agent/elevate_windows.go, agent/exe.go), agent/runtime.go with the three commands every
  agent has, the command ipconfig of plugins/ipconfig, and run of agent/service_windows.go.
\<close>

section \<open>Arguments\<close>

record agent_args =
  aa_ServerAddr :: string
  aa_ServerPort :: int
  aa_ListenPort :: int
  aa_AllowLoopback :: bool

definition agent_flag :: "string \<Rightarrow> string \<Rightarrow> bool" where
  "agent_flag name a \<longleftrightarrow> HasPrefix a (''-'' @ name @ ''='') \<or> HasPrefix a (''--'' @ name @ ''='')"

definition agent_flag_value :: "string \<Rightarrow> string" where
  "agent_flag_value a = drop 1 (dropWhile (\<lambda>c. c \<noteq> CHR ''='') a)"

fun agent_apply_args :: "string list \<Rightarrow> agent_args \<Rightarrow> agent_args result" where
  "agent_apply_args [] g = Inr g"
| "agent_apply_args (a # as) g =
     (if agent_flag ''server'' a then agent_apply_args as (g\<lparr>aa_ServerAddr := agent_flag_value a\<rparr>)
      else if agent_flag ''port'' a then
        (case Atoi (agent_flag_value a) of
           None \<Rightarrow> Inl (Errorf (''invalid server port: '' @ agent_flag_value a))
         | Some n \<Rightarrow> agent_apply_args as (g\<lparr>aa_ServerPort := n\<rparr>))
      else if agent_flag ''listen'' a then
        (case Atoi (agent_flag_value a) of
           None \<Rightarrow> Inl (Errorf (''invalid listen port: '' @ agent_flag_value a))
         | Some n \<Rightarrow> agent_apply_args as (g\<lparr>aa_ListenPort := n\<rparr>))
      else if a = ''-allow-loopback-server'' \<or> a = ''--allow-loopback-server''
        then agent_apply_args as (g\<lparr>aa_AllowLoopback := True\<rparr>)
      else agent_apply_args as g)"

text \<open>The verb q of fmt is the argument \<open>Q\<close>.\<close>

definition validateInstallServer :: "(string \<Rightarrow> string) \<Rightarrow> string \<Rightarrow> bool \<Rightarrow> go_error option" where
  "validateInstallServer Q addr allowLoopback =
     (if allowLoopback then None
      else if TrimSpace (ToLower addr) \<in> {[], ''127.0.0.1'', ''localhost'', ''::1''}
      then Some (Errorf (''refusing to install agent with loopback server address '' @ Q addr @
        ''; use -server=<admin-pc-ip> or pass --allow-loopback-server for local-only testing''))
      else None)"

section \<open>Elevation\<close>

definition currentExecutable :: "win_env \<Rightarrow> string \<Rightarrow> string winm" where
  "currentExecutable E arg0 = do {
     (exe, e) \<leftarrow> act E AskedExe;
     ret (if e = None then exe else arg0) }"

text \<open>syscall.UTF16PtrFromString refuses a text with a zero byte.\<close>

definition utf16_ok :: "string \<Rightarrow> bool" where
  "utf16_ok s \<longleftrightarrow> CHR 0x00 \<notin> set s"

definition RelaunchElevated :: "win_env \<Rightarrow> string \<Rightarrow> string list \<Rightarrow> outcome winm" where
  "RelaunchElevated E arg0 args = do {
     exe \<leftarrow> currentExecutable E arg0;
     if \<not> utf16_ok exe \<or> \<not> utf16_ok (joinWindowsArgs args) then ret (Failed (Errorf ''invalid argument''))
     else try_act E (Elevated exe (joinWindowsArgs args)) }"

section \<open>Setting up the agent\<close>

text \<open>An exit code, or a bound on the polls that was too small.\<close>

datatype setup_end = Exit_code int | No_fuel

definition fatalInstall :: "win_env \<Rightarrow> go_error \<Rightarrow> setup_end winm" where
  "fatalInstall E e = do {
     println (''installation error: '' @ error_text e);
     println ''La fenetre restera ouverte 10 secondes pour laisser lire l'erreur.'';
     _ \<leftarrow> act E (Slept (10 * second));
     ret (Exit_code 1) }"

definition log_Fatal :: "win_env \<Rightarrow> go_error \<Rightarrow> setup_end winm" where
  "log_Fatal E e = do { println (error_text e); ret (Exit_code 1) }"

text \<open>How the four modes end: an error that asks for rights starts the program again with them.\<close>

definition or_elevate ::
  "win_env \<Rightarrow> string \<Rightarrow> string list \<Rightarrow> (win_env \<Rightarrow> go_error \<Rightarrow> setup_end winm) \<Rightarrow> outcome \<Rightarrow> setup_end winm" where
  "or_elevate E arg0 os_args fatal x =
     (case x of
        Fine \<Rightarrow> ret (Exit_code 0)
      | Starved \<Rightarrow> ret No_fuel
      | Failed e \<Rightarrow>
          if IsAdminRequired e then do {
            println ''Demande d'elevation administrateur...'';
            r \<leftarrow> RelaunchElevated E arg0 os_args;
            if r = Fine then ret (Exit_code 0) else fatal E e }
          else fatal E e)"

definition agent_options :: "agent_args \<Rightarrow> bool \<Rightarrow> install_options" where
  "agent_options g dry =
     \<lparr>io_ServerAddr = aa_ServerAddr g, io_ServerPort = aa_ServerPort g, io_ListenPort = aa_ListenPort g,
      io_DryRun = dry, io_NoStart = False\<rparr>"

record agent_setup =
  su_fuel :: nat
  su_codec :: "config codec"
  su_version :: string \<comment> \<open>core.Version\<close>
  su_quote :: "string \<Rightarrow> string"
  su_arg0 :: string \<comment> \<open>os.Args\<close>
  su_args :: "string list"

definition agent_runInstall :: "agent_setup \<Rightarrow> win_env \<Rightarrow> agent_args \<Rightarrow> setup_end winm" where
  "agent_runInstall U E g = do {
     println ''=== Trish Agent Setup ==='';
     case validateInstallServer (su_quote U) (aa_ServerAddr g) (aa_AllowLoopback g) of
       Some e \<Rightarrow> fatalInstall E e
     | None \<Rightarrow> do {
         x \<leftarrow> InstallOrRepair (su_fuel U) (su_codec U) E (su_version U) (agent_options g False);
         or_elevate E (su_arg0 U) (su_args U) fatalInstall x } }"

definition agent_runRepair :: "agent_setup \<Rightarrow> win_env \<Rightarrow> agent_args \<Rightarrow> setup_end winm" where
  "agent_runRepair U E g = do {
     println ''=== Trish Agent Repair ==='';
     case validateInstallServer (su_quote U) (aa_ServerAddr g) (aa_AllowLoopback g) of
       Some e \<Rightarrow> fatalInstall E e
     | None \<Rightarrow> do {
         x \<leftarrow> InstallOrRepair (su_fuel U) (su_codec U) E (su_version U) (agent_options g False);
         or_elevate E (su_arg0 U) (su_args U) fatalInstall x } }"

definition agent_runInstallCheck :: "agent_setup \<Rightarrow> win_env \<Rightarrow> agent_args \<Rightarrow> setup_end winm" where
  "agent_runInstallCheck U E g = do {
     println ''=== Trish Agent Install Check ==='';
     case validateInstallServer (su_quote U) (aa_ServerAddr g) (aa_AllowLoopback g) of
       Some e \<Rightarrow> fatalInstall E e
     | None \<Rightarrow> do {
         x \<leftarrow> InstallCheck (su_codec U) E (su_version U) (agent_options g True);
         or_elevate E (su_arg0 U) (su_args U) fatalInstall x } }"

definition agent_runUninstall :: "agent_setup \<Rightarrow> win_env \<Rightarrow> setup_end winm" where
  "agent_runUninstall U E = do {
     println ''=== Trish Agent Uninstall ==='';
     x \<leftarrow> Uninstall E;
     or_elevate E (su_arg0 U) (su_args U) log_Fatal x }"

section \<open>Commands of every agent\<close>

text \<open>What package net reports of one interface; the addresses may fail alone.\<close>

record net_iface =
  ni_Name :: string
  ni_Flags :: string
  ni_MTU :: int
  ni_HardwareAddr :: string
  ni_Addrs :: "string list result"

record net_env =
  ne_GOOS :: string
  ne_GOARCH :: string
  ne_Hostname :: "string result"
  ne_Interfaces :: "net_iface list result"

definition getHostname :: "net_env \<Rightarrow> string" where
  "getHostname N = (case ne_Hostname N of Inl e \<Rightarrow> ''unknown'' | Inr name \<Rightarrow> name)"

definition text_line :: "string \<Rightarrow> string" where
  "text_line s = s @ [CHR 0x0A]"

definition iface_text :: "net_iface \<Rightarrow> string" where
  "iface_text i =
     [CHR 0x0A] @ text_line (''Interface: '' @ ni_Name i) @ text_line (''  Status: '' @ ni_Flags i) @
     text_line (''  MTU: '' @ Itoa (ni_MTU i)) @ text_line (''  MAC: '' @ ni_HardwareAddr i) @
     (case ni_Addrs i of
        Inl e \<Rightarrow> []
      | Inr addrs \<Rightarrow> concat (map (\<lambda>a. text_line (''  Address: '' @ a)) addrs))"

definition ipconfig_Execute :: "net_env \<Rightarrow> string list \<Rightarrow> 'st \<Rightarrow> 'st \<times> exec_result" where
  "ipconfig_Execute N args st =
     (case ne_Interfaces N of
        Inl e \<Rightarrow> (st, [], Some (Errorf (''failed to get interfaces: '' @ error_text e)))
      | Inr ifs \<Rightarrow> (st,
          text_line (''System: '' @ ne_GOOS N @ '' '' @ ne_GOARCH N) @
          text_line (text_line (''Hostname: '' @ getHostname N)) @
          text_line ''Network Interfaces:'' @ text_line ''==================='' @
          concat (map iface_text ifs), None))"

text \<open>What an agent runs on: its machine, and the state that cd and dir share.\<close>

record 'st agent_machine =
  am_hostname :: string
  am_local :: "string result"
  am_now :: instant
  am_shell :: 'st \<comment> \<open>core.NewSessionState\<close>
  am_session :: "'st session_lib"
  am_paths :: filepath_lib
  am_stat :: "string \<Rightarrow> bool option"
  am_readdir :: "string \<Rightarrow> dir_file list result"
  am_net :: net_env

definition ipconfig_command :: "'st agent_machine \<Rightarrow> 'st agent_command" where
  "ipconfig_command R = \<lparr>ac_Name = ''ipconfig'', ac_Description = ''Display network configuration'',
     ac_Execute = ipconfig_Execute (am_net R)\<rparr>"

definition cd_command :: "'st agent_machine \<Rightarrow> 'st agent_command" where
  "cd_command R = \<lparr>ac_Name = ''cd'', ac_Description = ''Change directory'',
     ac_Execute = cd_Execute (am_paths R) (am_session R) (am_stat R)\<rparr>"

definition dir_command :: "'st agent_machine \<Rightarrow> 'st agent_command" where
  "dir_command R = \<lparr>ac_Name = ''dir'', ac_Description = ''List directory contents'',
     ac_Execute = dir_Execute (am_paths R) (am_session R) (am_readdir R)\<rparr>"

definition register_in :: "'st agent_command \<Rightarrow> 'st agent_service \<Rightarrow> 'st agent_service" where
  "register_in c a =
     a\<lparr>as_agent := (as_agent a)\<lparr>ca_Registry := fst (cmd_Register c (ca_Registry (as_agent a)))\<rparr>\<rparr>"

definition RegisterDefaultPlugins :: "'st agent_machine \<Rightarrow> 'st agent_service \<Rightarrow> 'st agent_service" where
  "RegisterDefaultPlugins R a =
     register_in (dir_command R) (register_in (cd_command R) (register_in (ipconfig_command R) a))"

text \<open>Start only starts the connection loop and cannot fail; the log line is left out.\<close>

definition StartWithConfig :: "'st agent_machine \<Rightarrow> config \<Rightarrow> 'st agent_service result" where
  "StartWithConfig R cfg =
     (case config_Validate cfg of
        Inl e \<Rightarrow> Inl e
      | Inr c \<Rightarrow> Inr (RegisterDefaultPlugins R
          (NewAgentService (am_hostname R) (am_local R) (am_now R) (am_shell R)
             (cf_ServerAddr c) (cf_ServerPort c) (cf_ListenPort c))))"

definition OpenLogger :: "win_env \<Rightarrow> config \<Rightarrow> (config \<times> outcome) winm" where
  "OpenLogger E cfg =
     (let cfg' = (if cf_LogDir cfg = [] then cfg\<lparr>cf_LogDir := DefaultLogDir E\<rparr> else cfg) in do {
        x \<leftarrow> check (try_act E (MadeDir (cf_LogDir cfg')))
              (try_act E (Opened (we_Join E [cf_LogDir cfg', ''agent.log''])));
        ret (cfg', x) })"

text \<open>run of agent/service_windows.go up to the point where it waits to be stopped.\<close>

definition agent_service_run :: "config codec \<Rightarrow> win_env \<Rightarrow> 'st agent_machine \<Rightarrow> 'st agent_service result winm" where
  "agent_service_run J E R = do {
     r \<leftarrow> LoadConfig J E (DefaultConfigPath E);
     case r of
       Inl e \<Rightarrow> ret (Inl e)
     | Inr cfg \<Rightarrow> do {
         (cfg', x) \<leftarrow> OpenLogger E cfg;
         ret (case x of Failed e \<Rightarrow> Inl e | _ \<Rightarrow> StartWithConfig R cfg') } }"

text \<open>The run in the foreground: RunForeground on Windows, with what it prints.\<close>

definition RunForeground :: "win_env \<Rightarrow> 'st agent_machine \<Rightarrow> config \<Rightarrow> 'st agent_service result winm" where
  "RunForeground E R cfg = do {
     (cfg', x) \<leftarrow> OpenLogger E cfg;
     case x of
       Failed e \<Rightarrow> ret (Inl e)
     | _ \<Rightarrow>
         (case StartWithConfig R cfg' of
            Inl e \<Rightarrow> ret (Inl e)
          | Inr a \<Rightarrow> do {
              println ''=== Trish Agent ==='';
              println (''Hostname: '' @ ca_Hostname (as_agent a));
              println (''Server: '' @ cf_ServerAddr cfg' @ '':'' @ Itoa (cf_ServerPort cfg'));
              println ''Mode: foreground runtime'';
              ret (Inr a) }) }"

definition nonwindows_RunForeground :: "'st agent_machine \<Rightarrow> config \<Rightarrow> 'st agent_service result" where
  "nonwindows_RunForeground R cfg = StartWithConfig R cfg"

definition nonwindows_agent_service_mode :: go_error where
  "nonwindows_agent_service_mode = Errorf ''windows service mode is only available on Windows''"

definition nonwindows_IsAdminRequired :: "go_error \<Rightarrow> bool" where
  "nonwindows_IsAdminRequired e = False"

definition nonwindows_RelaunchElevated :: "string list \<Rightarrow> go_error option" where
  "nonwindows_RelaunchElevated args = None"

section \<open>The program\<close>

datatype agent_job =
    Agent_setup "setup_end winm"
  | Agent_service_mode
  | Agent_foreground config
  | Agent_refused "string list"

definition dev_config :: "string \<Rightarrow> agent_args \<Rightarrow> config" where
  "dev_config version g =
     \<lparr>cf_ServerAddr = aa_ServerAddr g, cf_ServerPort = aa_ServerPort g, cf_ListenPort = aa_ListenPort g,
      cf_InstallDir = ''.trish-agent-dev'', cf_LogDir = ''.trish-agent-dev'' @ [bslash] @ ''logs'',
      cf_Version = version\<rparr>"

text \<open>
  main, for the defaults \<open>d\<close> that it makes from package buildcfg; a command line without a mode
  installs.
\<close>

definition agent_main :: "agent_setup \<Rightarrow> win_env \<Rightarrow> agent_args \<Rightarrow> agent_job" where
  "agent_main U E d =
     (case (case su_args U of
              [] \<Rightarrow> (''install'', [])
            | a # as \<Rightarrow> (if \<not> HasPrefix a ''-'' then (a, as) else (''install'', su_args U))) of
        (mode, args) \<Rightarrow>
          (case agent_apply_args args d of
             Inl e \<Rightarrow> Agent_refused [error_text e]
           | Inr g \<Rightarrow>
               if mode = ''install'' then Agent_setup (agent_runInstall U E g)
               else if mode = ''install-check'' then Agent_setup (agent_runInstallCheck U E g)
               else if mode = ''repair'' then Agent_setup (agent_runRepair U E g)
               else if mode = ''uninstall'' then Agent_setup (agent_runUninstall U E)
               else if mode = ''run-service'' then Agent_service_mode
               else if mode = ''run-foreground'' then Agent_foreground (dev_config (su_version U) g)
               else Agent_refused [''unknown mode: '' @ mode,
                 ''modes: install, install-check, repair, uninstall, run-service, run-foreground'']))"

text \<open>The defaults; strings.EqualFold is the argument \<open>EF\<close>, and a number that cannot be read is replaced.\<close>

definition agent_default_args ::
  "(string \<Rightarrow> string \<Rightarrow> bool) \<Rightarrow> string \<Rightarrow> string \<Rightarrow> string \<Rightarrow> string \<Rightarrow> agent_args" where
  "agent_default_args EF addr port listen allow =
     (let number = (\<lambda>v fallback. case Atoi (TrimSpace v) of None \<Rightarrow> fallback | Some n \<Rightarrow> n)
      in \<lparr>aa_ServerAddr = addr, aa_ServerPort = number port 9999, aa_ListenPort = number listen 2222,
          aa_AllowLoopback = EF (TrimSpace allow) ''true''\<rparr>)"

end
