(* ===== verification/Install_Laws.thy ===== *)
theory Install_Laws
  imports Windows_Install
begin

text \<open>
  Laws of the installers: the two checks change nothing; the binary is replaced only while the
  service is stopped, and the service is registered only after the binary and the
  configuration are in place; every wait ends; a saved configuration reads back.
\<close>

section \<open>A logic for traces\<close>

text \<open>
  \<open>valid P m Q\<close>: from a trace with P, the run ends with a result and a trace that satisfy Q.
\<close>

definition valid :: "(win_action list \<Rightarrow> bool) \<Rightarrow> 'a winm \<Rightarrow> ('a \<Rightarrow> win_action list \<Rightarrow> bool) \<Rightarrow> bool" where
  "valid P m Q \<longleftrightarrow> (\<forall>w. P (wn_trace w) \<longrightarrow> Q (fst (run_state m w)) (wn_trace (snd (run_state m w))))"

lemma validD: "valid P m Q \<Longrightarrow> run_state m w = (x, w') \<Longrightarrow> P (wn_trace w) \<Longrightarrow> Q x (wn_trace w')"
  unfolding valid_def by (metis fst_conv snd_conv)

lemma valid_ret: "(\<And>tr. P tr \<Longrightarrow> Q x tr) \<Longrightarrow> valid P (ret x) Q"
  by (simp add: valid_def)

lemma valid_act: "(\<And>tr. P tr \<Longrightarrow> Q (we_answer E tr a) (tr @ [a])) \<Longrightarrow> valid P (act E a) Q"
  by (simp add: valid_def)

lemma valid_bind:
  assumes "valid P m R" and "\<And>x. valid (R x) (f x) Q"
  shows "valid P (State_Monad.bind m f) Q"
  using assms unfolding valid_def run_state_bind by (simp add: case_prod_unfold)

lemma valid_say: "valid P k Q \<Longrightarrow> valid P (do { say s; k }) Q"
  by (rule valid_bind [where R = "\<lambda>_. P"]) (simp_all add: valid_def)

lemma valid_now: "(\<And>t. valid P (f t) Q) \<Longrightarrow> valid P (do { t \<leftarrow> now E; f t }) Q"
  by (rule valid_bind [where R = "\<lambda>_. P"]) (simp_all add: valid_def)

lemma valid_check:
  assumes "valid P m (\<lambda>x tr. if x = Fine then R tr else Q x tr)" and "valid R k Q"
  shows "valid P (check m k) Q"
  unfolding check_def using assms(2)
  by (intro valid_bind [OF assms(1)]) (auto simp: valid_def)

lemma valid_weaken:
  assumes "valid P m Q" and "\<And>tr. P' tr \<Longrightarrow> P tr" and "\<And>x tr. Q x tr \<Longrightarrow> Q' x tr"
  shows "valid P' m Q'"
  using assms unfolding valid_def by blast

lemma valid_if: "(b \<Longrightarrow> valid P m Q) \<Longrightarrow> (\<not> b \<Longrightarrow> valid P k Q) \<Longrightarrow> valid P (if b then m else k) Q"
  by simp

lemma does_valid:
  assumes "does A m" and "\<And>tr a. P tr \<Longrightarrow> A a \<Longrightarrow> P (tr @ [a])"
  shows "valid P m (\<lambda>_. P)"
  unfolding valid_def
proof (intro allI impI)
  fix w :: win
  assume p: "P (wn_trace w)"
  obtain as where as: "wn_trace (snd (run_state m w)) = wn_trace w @ as" "list_all A as"
    using assms(1) unfolding does_def by blast
  have "P (wn_trace w @ as)" using as(2) p
  proof (induction as rule: rev_induct)
    case (snoc a as)
    then have "P ((wn_trace w @ as) @ [a])" by (intro assms(2)) simp_all
    then show ?case by simp
  qed simp
  with as(1) show "P (wn_trace (snd (run_state m w)))" by simp
qed

section \<open>What the tools do\<close>

fun read_only :: "win_action \<Rightarrow> bool" where
  "read_only (Ran name args) \<longleftrightarrow>
     (name = ''net'' \<and> args = [''session'']) \<or> (name = ''sc.exe'' \<and> take 1 args = [''query''])"
| "read_only AskedExe = True"
| "read_only (ReadBack _) = True"
| "read_only (Statted _) = True"
| "read_only _ = False"

lemma read_only_query [simp]: "read_only (query svc)"
  by (simp add: query_def)

lemma tools_read_only [simp]:
  "does read_only (ensureAdmin E err)" "does read_only (serviceExists E svc)"
  "does read_only (queryServiceState E svc)" "does read_only (LoadConfig J E path)"
  "does read_only (verify_config J E)" "does read_only (verify_running E)"
  by (auto simp: ensureAdmin_def serviceExists_def queryServiceState_def LoadConfig_def
      verify_config_def verify_running_def intro!: does_bind split: prod.split)

lemma check_read_only: "does read_only (InstallCheck J E version opts)"
  unfolding InstallCheck_def then_exe_def report_service_def
  by (auto intro!: does_rules split: sum.split option.split prod.split)

lemma server_check_read_only: "does read_only (InstallCheckService E opts)"
  unfolding InstallCheckService_def then_exe_def report_service_def
  by (auto intro!: does_rules split: sum.split option.split prod.split)

lemma dry_run_read_only:
  assumes "io_DryRun opts"
  shows "does read_only (InstallOrRepair fuel J E version opts)"
proof (cases "config_Validate (install_config E version opts)")
  case (Inr cfg)
  show ?thesis unfolding InstallOrRepair_def Inr sum.case if_P [OF assms] by (rule check_read_only)
next
  case (Inl e)
  show ?thesis unfolding InstallOrRepair_def Inl sum.case by simp
qed

section \<open>The order of an installation\<close>

definition is_copy :: "win_action \<Rightarrow> bool" where
  "is_copy a \<longleftrightarrow> (case a of Copied _ _ \<Rightarrow> True | _ \<Rightarrow> False)"

definition is_write :: "win_action \<Rightarrow> bool" where
  "is_write a \<longleftrightarrow> (case a of Wrote _ _ \<Rightarrow> True | _ \<Rightarrow> False)"

definition sc_with :: "string list \<Rightarrow> win_action \<Rightarrow> bool" where
  "sc_with cmds a \<longleftrightarrow> (case a of Ran name (cmd # _) \<Rightarrow> name = ''sc.exe'' \<and> cmd \<in> set cmds | _ \<Rightarrow> False)"

definition is_register :: "win_action \<Rightarrow> bool" where
  "is_register = sc_with [''create'', ''config'']"

definition is_start :: "win_action \<Rightarrow> bool" where
  "is_start = sc_with [''start'']"

lemmas action_kinds = is_copy_def is_write_def is_register_def is_start_def sc_with_def

text \<open>An action of a kind was done, and the machine reported no error.\<close>

definition done_ok :: "win_env \<Rightarrow> (win_action \<Rightarrow> bool) \<Rightarrow> win_action list \<Rightarrow> bool" where
  "done_ok E K tr \<longleftrightarrow> (\<exists>t a u. tr = t @ a # u \<and> K a \<and> snd (we_answer E t a) = None)"

text \<open>The last action asked for the service, and it is not there or stopped.\<close>

definition reported :: "win_env \<Rightarrow> string \<Rightarrow> (string \<times> go_error option \<Rightarrow> bool) \<Rightarrow> win_action list \<Rightarrow> bool" where
  "reported E svc A tr \<longleftrightarrow> (\<exists>t. tr = t @ [query svc] \<and> A (we_answer E t (query svc)))"

definition absent_or_stopped :: "string \<times> go_error option \<Rightarrow> bool" where
  "absent_or_stopped a \<longleftrightarrow> snd a \<noteq> None \<or> state_of_answer a = Inr ''STOPPED''"

definition allowed :: "win_env \<Rightarrow> string \<Rightarrow> win_action list \<Rightarrow> win_action \<Rightarrow> bool" where
  "allowed E svc tr a \<longleftrightarrow>
     (is_copy a \<longrightarrow> reported E svc absent_or_stopped tr) \<and>
     (is_write a \<longrightarrow> done_ok E is_copy tr) \<and>
     (is_register a \<longrightarrow> done_ok E is_write tr) \<and>
     (is_start a \<longrightarrow> done_ok E is_register tr)"

definition orderly :: "win_env \<Rightarrow> string \<Rightarrow> win_action list \<Rightarrow> bool" where
  "orderly E svc tr \<longleftrightarrow> (\<forall>t a u. tr = t @ a # u \<longrightarrow> allowed E svc t a)"

lemma orderly_Nil [simp]: "orderly E svc []"
  by (simp add: orderly_def)

lemma snoc_split: "tr @ [a] = t @ b # u \<longleftrightarrow> (tr = t \<and> a = b \<and> u = []) \<or> (\<exists>u'. u = u' @ [a] \<and> tr = t @ b # u')"
proof (cases u rule: rev_cases)
  case (snoc u' c)
  then have "t @ b # u = (t @ b # u') @ [c]" by simp
  then show ?thesis using snoc by (metis append1_eq_conv append_is_Nil_conv not_Cons_self2)
qed auto

lemma orderly_snoc [simp]: "orderly E svc (tr @ [a]) \<longleftrightarrow> orderly E svc tr \<and> allowed E svc tr a"
  unfolding orderly_def snoc_split by blast

lemma done_ok_snoc [simp]: "done_ok E K (tr @ [a]) \<longleftrightarrow> done_ok E K tr \<or> K a \<and> snd (we_answer E tr a) = None"
  unfolding done_ok_def snoc_split by blast

lemma reported_snoc [simp]: "reported E svc A (tr @ [a]) \<longleftrightarrow> a = query svc \<and> A (we_answer E tr (query svc))"
  by (auto simp: reported_def)

text \<open>Actions that need no permission.\<close>

definition neutral :: "win_action \<Rightarrow> bool" where
  "neutral a \<longleftrightarrow> \<not> is_copy a \<and> \<not> is_write a \<and> \<not> is_register a \<and> \<not> is_start a"

lemma neutral_allowed: "neutral a \<Longrightarrow> allowed E svc tr a"
  by (simp add: neutral_def allowed_def)

lemma read_only_neutral: "read_only a \<Longrightarrow> neutral a"
  by (cases a) (auto simp: neutral_def action_kinds split: list.splits)

lemma neutral_query [simp]: "neutral (query svc)"
  by (simp add: read_only_neutral)

text \<open>An assertion on traces that neutral actions keep: order, and what has been done.\<close>

definition stage :: "win_env \<Rightarrow> string \<Rightarrow> (win_action \<Rightarrow> bool) list \<Rightarrow> win_action list \<Rightarrow> bool" where
  "stage E svc Ks tr \<longleftrightarrow> orderly E svc tr \<and> (\<forall>K \<in> set Ks. done_ok E K tr)"

lemma stage_neutral: "does neutral m \<Longrightarrow> valid (stage E svc Ks) m (\<lambda>_. stage E svc Ks)"
  by (rule does_valid [where A = neutral]) (auto simp: stage_def neutral_allowed)

lemma stage_read_only: "does read_only m \<Longrightarrow> valid (stage E svc Ks) m (\<lambda>_. stage E svc Ks)"
  by (rule stage_neutral) (blast intro: does_mono read_only_neutral)

section \<open>Waiting\<close>

definition reports :: "string \<Rightarrow> string \<times> go_error option \<Rightarrow> bool" where
  "reports state a \<longleftrightarrow> state_of_answer a = Inr state"

text \<open>A wait for a state does nothing but ask and sleep, and succeeds only on that report.\<close>

lemma wait_loop_reports:
  "valid (stage E svc Ks) (wait_loop n E svc expected deadline)
     (\<lambda>x tr. stage E svc Ks tr \<and> (x = Fine \<longrightarrow> reported E svc (reports expected) tr))"
proof (induction n)
  case 0
  show ?case by (simp add: valid_def)
next
  case (Suc n)
  have asks: "valid (stage E svc Ks) (queryServiceState E svc)
      (\<lambda>s tr. stage E svc Ks tr \<and> (s = Inr expected \<longrightarrow> reported E svc (reports expected) tr))"
    unfolding queryServiceState_def
    by (rule valid_bind [OF valid_act [where Q = "\<lambda>a tr. stage E svc Ks tr \<and>
          (state_of_answer a = Inr expected \<longrightarrow> reported E svc (reports expected) tr)"]])
      (auto simp: stage_def neutral_allowed reports_def valid_def)
  have sleeps: "valid (stage E svc Ks) (act E (Slept second)) (\<lambda>_. stage E svc Ks)"
    by (rule stage_neutral) (simp add: neutral_def action_kinds)
  show ?case
    unfolding wait_loop.simps
    by (intro valid_now valid_if valid_bind [OF asks])
      (auto intro: valid_ret valid_weaken [OF valid_bind [OF sleeps Suc.IH]] split: sum.split)
qed

lemma wait_reports:
  "valid (stage E svc Ks) (waitForServiceState n E svc expected timeout)
     (\<lambda>x tr. stage E svc Ks tr \<and> (x = Fine \<longrightarrow> reported E svc (reports expected) tr))"
  unfolding waitForServiceState_def by (rule valid_now [OF wait_loop_reports])

text \<open>Stopping ends well only when the service is absent or reported as stopped.\<close>

lemma stop_reports:
  "valid (stage E svc Ks) (stopServiceIfPresent n E svc)
     (\<lambda>x tr. stage E svc Ks tr \<and> (x = Fine \<longrightarrow> reported E svc absent_or_stopped tr))"
proof -
  have exists: "valid (stage E svc Ks) (serviceExists E svc)
      (\<lambda>p tr. stage E svc Ks tr \<and> (\<not> p \<longrightarrow> reported E svc absent_or_stopped tr))"
    unfolding serviceExists_def
    by (rule valid_bind [OF valid_act [where Q = "\<lambda>a tr. stage E svc Ks tr \<and>
          (snd a \<noteq> None \<longrightarrow> reported E svc absent_or_stopped tr)"]])
      (auto simp: stage_def neutral_allowed absent_or_stopped_def valid_def)
  have asks: "valid (stage E svc Ks) (queryServiceState E svc)
      (\<lambda>s tr. stage E svc Ks tr \<and> (s = Inr ''STOPPED'' \<longrightarrow> reported E svc absent_or_stopped tr))"
    unfolding queryServiceState_def
    by (rule valid_bind [OF valid_act [where Q = "\<lambda>a tr. stage E svc Ks tr \<and>
          (state_of_answer a = Inr ''STOPPED'' \<longrightarrow> reported E svc absent_or_stopped tr)"]])
      (auto simp: stage_def neutral_allowed absent_or_stopped_def valid_def)
  have stop: "valid (stage E svc Ks) (runHidden E ''sc.exe'' [''stop'', svc]) (\<lambda>_. stage E svc Ks)"
    unfolding runHidden_def try_act_def
    by (rule stage_neutral) (auto intro!: does_bind simp: neutral_def action_kinds split: prod.split)
  have wait: "valid (stage E svc Ks) (waitForServiceState n E svc ''STOPPED'' (20 * second))
      (\<lambda>x tr. stage E svc Ks tr \<and> (x = Fine \<longrightarrow> reported E svc absent_or_stopped tr))"
    by (rule valid_weaken [OF wait_reports])
      (auto simp: reported_def reports_def absent_or_stopped_def)
  show ?thesis
    unfolding stopServiceIfPresent_def
  proof (intro valid_bind [OF exists] valid_if)
    fix p assume p: "\<not> p"
    show "valid (\<lambda>tr. stage E svc Ks tr \<and> (\<not> p \<longrightarrow> reported E svc absent_or_stopped tr)) (ret Fine)
        (\<lambda>x tr. stage E svc Ks tr \<and> (x = Fine \<longrightarrow> reported E svc absent_or_stopped tr))"
      using p by (intro valid_ret) simp
  next
    fix p assume "\<not> \<not> p"
    show "valid (\<lambda>tr. stage E svc Ks tr \<and> (\<not> p \<longrightarrow> reported E svc absent_or_stopped tr))
        (do { s \<leftarrow> queryServiceState E svc;
              if s = Inr ''STOPPED'' then ret Fine
              else do { _ \<leftarrow> runHidden E ''sc.exe'' [''stop'', svc];
                        waitForServiceState n E svc ''STOPPED'' (20 * second) } })
        (\<lambda>x tr. stage E svc Ks tr \<and> (x = Fine \<longrightarrow> reported E svc absent_or_stopped tr))"
      by (rule valid_weaken [OF valid_bind [OF asks]])
        (auto intro: valid_ret valid_weaken [OF valid_bind [OF stop wait]])
  qed
qed

section \<open>Steps of an installation\<close>

text \<open>How an installation may end: in order, and where it succeeded with G.\<close>

definition ends :: "win_env \<Rightarrow> string \<Rightarrow> (win_action list \<Rightarrow> bool) \<Rightarrow> outcome \<Rightarrow> win_action list \<Rightarrow> bool" where
  "ends E svc G x tr \<longleftrightarrow> orderly E svc tr \<and> (x = Fine \<longrightarrow> G tr)"

lemma stage_check:
  assumes "valid P m (\<lambda>x tr. stage E svc Ks tr \<and> (x = Fine \<longrightarrow> R tr))" and "valid R k (ends E svc G)"
  shows "valid P (check m k) (ends E svc G)"
  by (rule valid_check [OF valid_weaken [OF assms(1)] assms(2)]) (auto simp: ends_def stage_def)

lemma stage_fails: "e \<noteq> Fine \<Longrightarrow> valid (stage E svc Ks) (ret e) (ends E svc G)"
  by (rule valid_ret) (simp add: ends_def stage_def)

lemma fine_iff [simp]: "of_error e = Fine \<longleftrightarrow> e = None"
  by (cases e) auto

text \<open>An action that is allowed adds its kind to what has been done.\<close>

lemma stage_try:
  assumes "\<And>tr. P tr \<Longrightarrow> stage E svc Ks tr \<and> allowed E svc tr a" and "K a"
  shows "valid P (try_act E a) (\<lambda>x tr. stage E svc Ks tr \<and> (x = Fine \<longrightarrow> stage E svc (K # Ks) tr))"
  unfolding try_act_def
  by (rule valid_bind [OF valid_act [where Q = "\<lambda>r tr. stage E svc Ks tr \<and> (snd r = None \<longrightarrow> stage E svc (K # Ks) tr)"]])
    (use assms in \<open>auto simp: stage_def valid_def\<close>)

lemma stage_run:
  assumes "\<And>tr. P tr \<Longrightarrow> stage E svc Ks tr \<and> allowed E svc tr (Ran name args)" and "K (Ran name args)"
  shows "valid P (runVisible E name args) (\<lambda>x tr. stage E svc Ks tr \<and> (x = Fine \<longrightarrow> stage E svc (K # Ks) tr))"
  unfolding runVisible_def
  by (rule valid_bind [OF valid_act [where Q = "\<lambda>r tr. stage E svc Ks tr \<and> (snd r = None \<longrightarrow> stage E svc (K # Ks) tr)"]])
    (use assms in \<open>auto simp: stage_def valid_def split: option.splits\<close>)

lemma allowed_start: "allowed E svc tr (Ran ''sc.exe'' [''start'', svc]) \<longleftrightarrow> done_ok E is_register tr"
proof -
  have "\<not> is_copy (Ran ''sc.exe'' [''start'', svc])" "\<not> is_write (Ran ''sc.exe'' [''start'', svc])"
    "\<not> is_register (Ran ''sc.exe'' [''start'', svc])" "is_start (Ran ''sc.exe'' [''start'', svc])"
    by (simp_all add: action_kinds)
  then show ?thesis by (simp add: allowed_def)
qed

lemma copy_step:
  "valid (\<lambda>tr. stage E svc Ks tr \<and> reported E svc absent_or_stopped tr) (try_act E (Copied src dst))
     (\<lambda>x tr. stage E svc Ks tr \<and> (x = Fine \<longrightarrow> stage E svc (is_copy # Ks) tr))"
  by (rule stage_try) (auto simp: allowed_def action_kinds)

lemma mkdir_step:
  "valid (stage E svc Ks) (try_act E (MadeDir d)) (\<lambda>x tr. stage E svc Ks tr \<and> (x = Fine \<longrightarrow> stage E svc Ks tr))"
  by (rule valid_weaken [OF stage_try [where K = "\<lambda>_. True" and P = "stage E svc Ks"]])
    (auto simp: allowed_def action_kinds stage_def)

lemma write_step:
  assumes "is_copy \<in> set Ks"
  shows "valid (stage E svc Ks) (try_act E (Wrote p d))
    (\<lambda>x tr. stage E svc Ks tr \<and> (x = Fine \<longrightarrow> stage E svc (is_write # Ks) tr))"
  by (rule stage_try) (use assms in \<open>auto simp: allowed_def action_kinds stage_def\<close>)

text \<open>Making the directory first, then something that may add a kind.\<close>

lemma after_mkdir:
  assumes "valid (stage E svc Ks) k (\<lambda>x tr. stage E svc Ks tr \<and> (x = Fine \<longrightarrow> R tr))"
  shows "valid (stage E svc Ks) (check (try_act E (MadeDir d)) k)
    (\<lambda>x tr. stage E svc Ks tr \<and> (x = Fine \<longrightarrow> R tr))"
  by (rule valid_check [OF valid_weaken [OF mkdir_step] assms]) auto

lemma config_step:
  assumes "is_copy \<in> set Ks"
  shows "valid (stage E svc Ks) (config_Save J E version c path)
    (\<lambda>x tr. stage E svc Ks tr \<and> (x = Fine \<longrightarrow> stage E svc (is_write # Ks) tr))"
  unfolding config_Save_def
  by (rule after_mkdir) (auto intro: write_step [OF assms] valid_ret split: sum.split)

lemma service_config_step:
  assumes "is_copy \<in> set Ks"
  shows "valid (stage E svc Ks) (SaveServiceConfig E data)
    (\<lambda>x tr. stage E svc Ks tr \<and> (x = Fine \<longrightarrow> stage E svc (is_write # Ks) tr))"
  unfolding SaveServiceConfig_def by (rule after_mkdir) (rule write_step [OF assms])

lemma register_step:
  assumes "is_write \<in> set Ks"
  shows "valid (stage E svc Ks) (register_service E svc display exe)
    (\<lambda>x tr. stage E svc Ks tr \<and> (x = Fine \<longrightarrow> stage E svc (is_register # Ks) tr))"
proof -
  have run: "valid (stage E svc Ks) (runVisible E ''sc.exe'' ([cmd, svc] @ config))
      (\<lambda>x tr. stage E svc Ks tr \<and> (x = Fine \<longrightarrow> stage E svc (is_register # Ks) tr))"
    if "cmd = ''config'' \<or> cmd = ''create''" for cmd config
    by (rule stage_run) (use that assms in \<open>auto simp: allowed_def action_kinds stage_def\<close>)
  have c: "valid (stage E svc Ks) (serviceExists E svc) (\<lambda>_. stage E svc Ks)"
    by (rule stage_read_only) simp
  show ?thesis
    unfolding register_service_def Let_def
    by (intro valid_bind [OF c] valid_if valid_say run) simp_all
qed

lemma start_step:
  assumes "is_register \<in> set Ks"
  shows "valid (stage E svc Ks) (startServiceAndWait n E svc)
    (\<lambda>x tr. stage E svc Ks tr \<and> (x = Fine \<longrightarrow> stage E svc Ks tr \<and> reported E svc (reports ''RUNNING'') tr))"
proof -
  have run: "valid (stage E svc Ks) (runVisible E ''sc.exe'' [''start'', svc]) (\<lambda>_. stage E svc Ks)"
    by (rule valid_weaken [OF stage_run [where K = "\<lambda>_. True" and P = "stage E svc Ks" and svc = svc and Ks = Ks]])
      (use assms in \<open>auto simp: allowed_start stage_def\<close>)
  have wait: "valid (stage E svc Ks) (waitForServiceState n E svc ''RUNNING'' t)
      (\<lambda>x tr. stage E svc Ks tr \<and> (x = Fine \<longrightarrow> stage E svc Ks tr \<and> reported E svc (reports ''RUNNING'') tr))" for t
    by (rule valid_weaken [OF wait_reports]) auto
  show ?thesis
    unfolding startServiceAndWait_def
    by (rule valid_bind [OF run]) (auto intro: wait valid_ret split: outcome.split)
qed

lemma stop_step:
  "valid (stage E svc Ks) (stopServiceIfPresent n E svc)
     (\<lambda>x tr. stage E svc Ks tr \<and> (x = Fine \<longrightarrow> stage E svc Ks tr \<and> reported E svc absent_or_stopped tr))"
  by (rule valid_weaken [OF stop_reports]) auto

lemma failure_step: "valid (stage E svc Ks) (failure_actions E svc) (\<lambda>_. stage E svc Ks)"
  unfolding failure_actions_def runVisible_def
  by (rule stage_neutral) (auto intro!: does_bind simp: neutral_def action_kinds split: prod.split)

lemma admin_step:
  "valid (stage E svc Ks) (ensureAdmin E err) (\<lambda>x tr. stage E svc Ks tr \<and> (x = Fine \<longrightarrow> stage E svc Ks tr))"
  by (rule valid_weaken [OF stage_read_only]) auto

lemma exe_step:
  assumes "\<And>exe. valid (stage E svc Ks) (k exe) (ends E svc G)"
  shows "valid (stage E svc Ks) (then_exe E k) (ends E svc G)"
proof -
  have a: "valid (stage E svc Ks) (act E AskedExe) (\<lambda>_. stage E svc Ks)" by (rule stage_read_only) simp
  show ?thesis
    unfolding then_exe_def
    by (rule valid_bind [OF a]) (auto intro: assms stage_fails split: prod.split option.split)
qed

section \<open>The installers\<close>

lemma stage_goal: "(\<And>tr. stage E svc Ks tr \<Longrightarrow> G tr) \<Longrightarrow> valid (stage E svc Ks) (ret Fine) (ends E svc G)"
  by (rule valid_ret) (simp add: ends_def stage_def)

text \<open>
  Both installers share the part from the stop of the old service to the start of the new one;
  they differ in what they write in between. What that part asks of the writer is that it
  writes only after the copy, and that its success means that something was written.
\<close>

locale config_writer =
  fixes E :: win_env and svc :: string and save :: "outcome winm"
  assumes save_step: "is_copy \<in> set Ks \<Longrightarrow> valid (stage E svc Ks) save
      (\<lambda>x tr. stage E svc Ks tr \<and> (x = Fine \<longrightarrow> stage E svc (is_write # Ks) tr))"
begin

lemma install_core:
  assumes rest: "valid (\<lambda>tr. stage E svc [is_register, is_write, is_copy] tr \<and>
      (\<not> nostart \<longrightarrow> reported E svc (reports ''RUNNING'') tr)) rest (ends E svc G)"
  shows "valid (stage E svc [])
       (check (stopServiceIfPresent fuel E svc) (do {
         say s2;
         check (try_act E (Copied src dst)) (do {
           say s3;
           check save (
           check (register_service E svc display dst) (do {
             say s4;
             _ \<leftarrow> failure_actions E svc;
             check (if nostart then ret Fine else do { say s5; startServiceAndWait fuel E svc }) rest })) }) }))
     (ends E svc G)"
proof -
  have start: "valid (stage E svc [is_register, is_write, is_copy])
      (if nostart then ret Fine else do { say s5; startServiceAndWait fuel E svc })
      (\<lambda>x tr. stage E svc [is_register, is_write, is_copy] tr \<and> (x = Fine \<longrightarrow>
        stage E svc [is_register, is_write, is_copy] tr \<and> (\<not> nostart \<longrightarrow> reported E svc (reports ''RUNNING'') tr)))"
    by (intro valid_if valid_say) (auto intro!: valid_ret valid_weaken [OF start_step])
  show ?thesis
    by (intro valid_say stage_check [OF stop_step] stage_check [OF copy_step] stage_check [OF save_step]
        stage_check [OF register_step] valid_bind [OF failure_step] stage_check [OF start] rest) simp_all
qed

end

interpretation agent_writer: config_writer E svc "config_Save J E version c path" for E svc J version c path
  by unfold_locales (rule config_step)

interpretation service_writer: config_writer E svc "SaveServiceConfig E data" for E svc data
  by unfold_locales (rule service_config_step)

lemma verify_step:
  "valid P (verify_running E)
     (\<lambda>x tr. x = Fine \<longrightarrow> reported E ServiceName (reports ''RUNNING'') tr)"
  unfolding verify_running_def queryServiceState_def
  by (auto simp: valid_def reported_def reports_def split: sum.splits if_splits)

definition running_goal :: "win_env \<Rightarrow> string \<Rightarrow> bool \<Rightarrow> win_action list \<Rightarrow> bool" where
  "running_goal E svc nostart tr \<longleftrightarrow>
     done_ok E is_register tr \<and> (\<not> nostart \<longrightarrow> reported E svc (reports ''RUNNING'') tr)"

lemma service_install_valid:
  "valid (stage E ServerServiceName []) (InstallOrRepairService fuel E opts)
     (ends E ServerServiceName (running_goal E ServerServiceName (so_NoStart opts)))"
proof -
  have rest: "valid (\<lambda>tr. stage E ServerServiceName [is_register, is_write, is_copy] tr \<and>
      (\<not> so_NoStart opts \<longrightarrow> reported E ServerServiceName (reports ''RUNNING'') tr))
    (do { say s; ret Fine }) (ends E ServerServiceName (running_goal E ServerServiceName (so_NoStart opts)))" for s
    by (intro valid_say valid_ret) (auto simp: ends_def running_goal_def stage_def)
  show ?thesis
  proof (cases "validateInstallOptions opts")
    case None
    show ?thesis
      unfolding InstallOrRepairService_def None option.case
      by (intro valid_say stage_check [OF admin_step] stage_check [OF mkdir_step] exe_step
          service_writer.install_core rest)
  next
    case (Some e)
    show ?thesis unfolding InstallOrRepairService_def Some option.case by (rule stage_fails) simp
  qed
qed

lemma agent_install_valid:
  "valid (stage E ServiceName []) (InstallOrRepair fuel J E version opts)
     (\<lambda>x tr. orderly E ServiceName tr \<and>
        (x = Fine \<and> \<not> io_DryRun opts \<longrightarrow> running_goal E ServiceName (io_NoStart opts) tr))"
proof (cases "io_DryRun opts")
  case True
  have "valid (stage E ServiceName []) (InstallCheck J E version opts) (\<lambda>_. stage E ServiceName [])"
    by (rule stage_read_only [OF check_read_only])
  with True show ?thesis
    unfolding InstallOrRepair_def
    by (auto split: sum.split intro!: valid_ret elim: valid_weaken simp: stage_def)
next
  case False
  let ?g = "ends E ServiceName (running_goal E ServiceName (io_NoStart opts))"
  let ?done = "\<lambda>tr. stage E ServiceName [is_register, is_write, is_copy] tr"
  have verify: "valid ?done (verify_config J E) (\<lambda>x tr. ?done tr \<and> (x = Fine \<longrightarrow> ?done tr))"
    by (rule valid_weaken [OF stage_read_only]) auto
  have state: "valid ?done (if io_NoStart opts then ret Fine else do { say s1; verify_running E })
      (\<lambda>x tr. ?done tr \<and> (x = Fine \<longrightarrow> ?done tr \<and>
         (\<not> io_NoStart opts \<longrightarrow> reported E ServiceName (reports ''RUNNING'') tr)))" for s1
  proof (intro valid_if valid_say)
    have "valid ?done (verify_running E) (\<lambda>_. ?done)" by (rule stage_read_only) simp
    then show "valid ?done (verify_running E) (\<lambda>x tr. ?done tr \<and> (x = Fine \<longrightarrow> ?done tr \<and>
         (\<not> io_NoStart opts \<longrightarrow> reported E ServiceName (reports ''RUNNING'') tr)))"
      using verify_step [of ?done E] unfolding valid_def by blast
  qed (auto intro: valid_ret)
  have rest: "valid (\<lambda>tr. ?done tr \<and> (\<not> io_NoStart opts \<longrightarrow> reported E ServiceName (reports ''RUNNING'') tr))
    (do { say s2;
          check (verify_config J E) (
          check (if io_NoStart opts then ret Fine else do { say s1; verify_running E })
            (do { say s3; ret Fine })) }) ?g" for s1 s2 s3
  proof (rule valid_weaken)
    show "valid ?done (do { say s2;
          check (verify_config J E) (
          check (if io_NoStart opts then ret Fine else do { say s1; verify_running E })
            (do { say s3; ret Fine })) }) ?g"
      by (intro valid_say stage_check [OF verify] stage_check [OF state] valid_ret)
        (auto simp: ends_def running_goal_def stage_def)
  qed auto
  have "valid (stage E ServiceName []) (InstallOrRepair fuel J E version opts) ?g"
  proof (cases "config_Validate (install_config E version opts)")
    case (Inr cfg)
    show ?thesis
      unfolding InstallOrRepair_def Inr sum.case if_not_P [OF False]
      by (intro valid_say stage_check [OF admin_step] stage_check [OF mkdir_step] exe_step
          agent_writer.install_core rest)
  next
    case (Inl e)
    show ?thesis unfolding InstallOrRepair_def Inl sum.case by (rule stage_fails) simp
  qed
  then show ?thesis by (rule valid_weaken) (auto simp: ends_def False)
qed

section \<open>Waits end\<close>

text \<open>Every action takes time, and a pause at least its length.\<close>

definition clock_ok :: "win_env \<Rightarrow> bool" where
  "clock_ok E \<longleftrightarrow> (\<forall>tr a. we_now E (tr @ [a]) \<ge> we_now E tr + (case a of Slept d \<Rightarrow> d | _ \<Rightarrow> 0))"

definition enough :: "outcome winm \<Rightarrow> bool" where
  "enough m \<longleftrightarrow> (\<forall>w. fst (run_state m w) \<noteq> Starved)"

lemma enough_bind: "(\<And>x. enough (f x)) \<Longrightarrow> enough (State_Monad.bind m f)"
  unfolding enough_def by (simp add: case_prod_unfold)

lemma enough_ret: "x \<noteq> Starved \<Longrightarrow> enough (ret x)"
  by (simp add: enough_def)

lemma enough_check: "enough m \<Longrightarrow> enough k \<Longrightarrow> enough (check m k)"
  unfolding enough_def check_def by (simp add: case_prod_unfold)

lemma of_error_enough [simp]: "of_error e \<noteq> Starved"
  by (cases e) auto

lemma wait_loop_enough:
  assumes "clock_ok E"
  shows "deadline \<le> we_now E (wn_trace w) + int m * second \<Longrightarrow> m < n \<Longrightarrow>
    fst (run_state (wait_loop n E svc expected deadline) w) \<noteq> Starved"
proof (induction n arbitrary: m w)
  case (Suc n)
  show ?case
  proof (cases "we_now E (wn_trace w) < deadline")
    case True
    with Suc.prems(1) have "m \<noteq> 0" by (cases m) auto
    then obtain m' where m: "m = Suc m'" by (cases m) auto
    let ?tr = "wn_trace w @ [query svc]"
    let ?w = "w\<lparr>wn_trace := ?tr @ [Slept second]\<rparr>"
    have "we_now E (?tr @ [Slept second]) \<ge> we_now E ?tr + second" "we_now E ?tr \<ge> we_now E (wn_trace w)"
      using assms [unfolded clock_ok_def, rule_format, of ?tr "Slept second"]
        assms [unfolded clock_ok_def, rule_format, of "wn_trace w" "query svc"] by (simp_all add: query_def)
    then have "deadline \<le> we_now E (wn_trace ?w) + int m' * second"
      using Suc.prems(1) m by (simp add: algebra_simps)
    then have "fst (run_state (wait_loop n E svc expected deadline) ?w) \<noteq> Starved"
      using Suc.prems(2) m by (intro Suc.IH) simp_all
    with True show ?thesis by (simp add: queryServiceState_def)
  next
    case False
    then show ?thesis by (simp add: queryServiceState_def split: sum.split)
  qed
qed simp

lemma wait_enough: "clock_ok E \<Longrightarrow> 20 < n \<Longrightarrow> enough (waitForServiceState n E svc expected (20 * second))"
  unfolding enough_def waitForServiceState_def
  using wait_loop_enough [where m = 20] by (simp add: run_state_bind)

lemma tools_enough [simp]:
  "enough (try_act E a)" "enough (runVisible E name args)" "enough (ensureAdmin E err)"
  "enough (verify_config J E)" "enough (verify_running E)" "enough (failure_actions E svc)"
  "enough (register_service E svc display exe)" "enough (config_Save J E version c path)"
  "enough (SaveServiceConfig E data)"
proof -
  show v: "enough (try_act E a)" "enough (runVisible E name args)" for a name args
    by (auto simp: try_act_def runVisible_def intro!: enough_bind enough_ret split: prod.split option.splits)
  show "enough (ensureAdmin E err)" "enough (verify_config J E)" "enough (verify_running E)"
    by (auto simp: ensureAdmin_def verify_config_def verify_running_def
        intro!: enough_bind enough_ret split: prod.splits sum.splits if_splits)
  show "enough (failure_actions E svc)" "enough (register_service E svc display exe)"
    "enough (config_Save J E version c path)" "enough (SaveServiceConfig E data)"
    by (auto simp: failure_actions_def register_service_def config_Save_def SaveServiceConfig_def Let_def
        intro!: enough_bind enough_ret enough_check v split: sum.split)
qed

lemma then_exe_enough: "(\<And>exe. enough (k exe)) \<Longrightarrow> enough (then_exe E k)"
  unfolding then_exe_def by (auto intro!: enough_bind enough_ret split: prod.split option.split)

lemma start_stop_enough:
  assumes "clock_ok E" and "20 < n"
  shows "enough (stopServiceIfPresent n E svc)" and "enough (startServiceAndWait n E svc)"
  unfolding stopServiceIfPresent_def startServiceAndWait_def
  using wait_enough [OF assms] enough_ret
  by (auto intro!: enough_bind split: outcome.split)

lemma enough_say: "enough k \<Longrightarrow> enough (do { say s; k })"
  by (rule enough_bind)

lemma enough_if: "enough m \<Longrightarrow> enough k \<Longrightarrow> enough (if b then m else k)"
  by simp

lemma check_enough: "enough (InstallCheck J E version opts)"
  unfolding InstallCheck_def report_service_def
  by (auto split: sum.split prod.split intro!: enough_bind enough_check then_exe_enough enough_ret)

lemma installers_enough:
  assumes "clock_ok E" and "20 < fuel"
  shows "enough (InstallOrRepair fuel J E version opts)" and "enough (InstallOrRepairService fuel E sopts)"
proof -
  note rules = enough_say enough_check then_exe_enough enough_if enough_bind enough_ret tools_enough
    start_stop_enough [OF assms] check_enough
  show "enough (InstallOrRepair fuel J E version opts)"
  proof (cases "config_Validate (install_config E version opts)")
    case (Inr cfg)
    show ?thesis unfolding InstallOrRepair_def Inr sum.case by (intro rules) simp_all
  next
    case (Inl e)
    show ?thesis unfolding InstallOrRepair_def Inl sum.case by (rule enough_ret) simp
  qed
  show "enough (InstallOrRepairService fuel E sopts)"
  proof (cases "validateInstallOptions sopts")
    case None
    show ?thesis unfolding InstallOrRepairService_def None option.case by (intro rules) simp_all
  next
    case (Some e)
    show ?thesis unfolding InstallOrRepairService_def Some option.case by (rule enough_ret) simp
  qed
qed

section \<open>The configuration of the agent\<close>

lemma fill_config_same [simp]:
  "cf_ServerAddr (fill_config E version c) = cf_ServerAddr c"
  "cf_ServerPort (fill_config E version c) = cf_ServerPort c"
  "cf_ListenPort (fill_config E version c) = cf_ListenPort c"
  by (simp_all add: fill_config_def Let_def)

end
