(* ===== verification/Install_Props.thy ===== *)
theory Install_Props
  imports Install_Laws
begin

text \<open>
  The properties of the installers, and a machine on which an installation succeeds.
\<close>

section \<open>A machine\<close>

text \<open>The last text that was written to a path.\<close>

fun last_written :: "string \<Rightarrow> win_action list \<Rightarrow> string option" where
  "last_written p [] = None"
| "last_written p (a # tr) =
     (case last_written p tr of
        Some d \<Rightarrow> Some d
      | None \<Rightarrow> (case a of Wrote q d \<Rightarrow> if q = p then Some d else None | _ \<Rightarrow> None))"

definition started :: "win_action list \<Rightarrow> bool" where
  "started tr \<longleftrightarrow> list_ex is_start tr"

text \<open>The service is absent until it is created and runs once it has been started.\<close>

definition tidy_machine :: win_env where
  "tidy_machine =
     \<lparr>we_answer = (\<lambda>tr a.
        case a of
          Ran name args \<Rightarrow>
            if take 1 args = [''query''] then
              (if \<not> list_ex is_register tr then ([], Some (Errorf ''exit status 1060''))
               else if started tr then (''  STATE  : 4  RUNNING'', None)
               else (''  STATE  : 1  STOPPED'', None))
            else ([], None)
        | AskedExe \<Rightarrow> (''setup.exe'', None)
        | ReadBack p \<Rightarrow> (case last_written p tr of None \<Rightarrow> ([], Some (Errorf ''no such file'')) | Some d \<Rightarrow> (d, None))
        | Statted p \<Rightarrow> ([], Some (Errorf ''no such file''))
        | _ \<Rightarrow> ([], None)),
      we_now = (\<lambda>tr. sum_list (map (\<lambda>a. case a of Slept d \<Rightarrow> max 0 d | _ \<Rightarrow> 1) tr)),
      we_ProgramData = ''C:/ProgramData'', we_SystemDrive = ''C:'',
      we_Join = join ''/'', we_Dir = (\<lambda>p. ''C:/ProgramData/Trish/agent'')\<rparr>"

definition sample_config :: config where
  "sample_config =
     \<lparr>cf_ServerAddr = ''10.0.0.1'', cf_ServerPort = 9999, cf_ListenPort = 2222, cf_InstallDir = ''d'',
      cf_LogDir = ''l'', cf_Version = ''1''\<rparr>"

definition sample_codec :: "config codec" where
  "sample_codec = \<lparr>Marshal = (\<lambda>c. Inr ''config''), Unmarshal = (\<lambda>d. Inr sample_config)\<rparr>"

definition sample_options :: install_options where
  "sample_options =
     \<lparr>io_ServerAddr = ''10.0.0.1'', io_ServerPort = 9999, io_ListenPort = 0, io_DryRun = False, io_NoStart = False\<rparr>"

definition sample_service :: service_options where
  "sample_service =
     \<lparr>so_Port = 7, so_RegistryPath = ''r'', so_LockPath = ''l'', so_AdminSecret = [], so_ConfigData = ''{}'',
      so_NoStart = False\<rparr>"

definition new_win :: win where
  "new_win = \<lparr>wn_trace = [], wn_said = []\<rparr>"

lemma tidy_install: "fst (run_state (InstallOrRepair 21 sample_codec tidy_machine ''1'' sample_options) new_win) = Fine"
  by code_simp

lemma tidy_clock: "clock_ok tidy_machine"
  by (auto simp: clock_ok_def tidy_machine_def split: win_action.split)

section \<open>Properties\<close>

text \<open>
  Property C13. Installing is orderly, whatever the machine answers: the binary is replaced only directly
  after the service manager reported the service as absent or stopped; the configuration is
  written only after the copy succeeded, the service is created or updated only after the
  configuration was written, and it is started only after that. When the installation reports
  success, the service is registered, and unless it was not to be started, the last answer of
  the service manager was that it is running.
\<close>

theorem install_order:
  assumes "wn_trace w = []" and "run_state (InstallOrRepair fuel J E version opts) w = (x, w')"
  shows "orderly E ServiceName (wn_trace w') \<and>
    (x = Fine \<and> \<not> io_DryRun opts \<longrightarrow>
       done_ok E is_register (wn_trace w') \<and>
       (\<not> io_NoStart opts \<longrightarrow> reported E ServiceName (reports ''RUNNING'') (wn_trace w')))"
  using validD [OF agent_install_valid assms(2)] assms(1) by (simp add: stage_def running_goal_def)

theorem install_order_witness:
  "\<exists>w'. run_state (InstallOrRepair 21 sample_codec tidy_machine ''1'' sample_options) new_win = (Fine, w') \<and>
     reported tidy_machine ServiceName (reports ''RUNNING'') (wn_trace w')"
proof -
  obtain w' where r: "run_state (InstallOrRepair 21 sample_codec tidy_machine ''1'' sample_options) new_win = (Fine, w')"
    using tidy_install by (metis prod.collapse)
  from install_order [OF _ r] have "reported tidy_machine ServiceName (reports ''RUNNING'') (wn_trace w')"
    by (simp add: new_win_def sample_options_def)
  with r show ?thesis by blast
qed

text \<open>The same for the server.\<close>

theorem service_install_order:
  assumes "wn_trace w = []" and "run_state (InstallOrRepairService fuel E opts) w = (x, w')"
  shows "orderly E ServerServiceName (wn_trace w') \<and>
    (x = Fine \<longrightarrow>
       done_ok E is_register (wn_trace w') \<and>
       (\<not> so_NoStart opts \<longrightarrow> reported E ServerServiceName (reports ''RUNNING'') (wn_trace w')))"
  using validD [OF service_install_valid assms(2)] assms(1)
  by (simp add: stage_def running_goal_def ends_def)

text \<open>
  The checks before an installation, and an installation that is only to be tried, change
  nothing: all they do is to ask.
\<close>

theorem install_check_reads_only:
  assumes "m \<in> {InstallCheck J E version opts, InstallCheckService E sopts,
      InstallOrRepair fuel J E version (opts\<lparr>io_DryRun := True\<rparr>)}"
    and "run_state m w = (x, w')"
  shows "\<exists>as. wn_trace w' = wn_trace w @ as \<and> list_all read_only as"
proof -
  have "does read_only (InstallOrRepair fuel J E version (opts\<lparr>io_DryRun := True\<rparr>))"
    by (rule dry_run_read_only) simp
  then have "does read_only m"
    using assms(1) by (elim insertE emptyE) (simp_all only: check_read_only server_check_read_only)
  then show ?thesis by (rule doesD [OF _ assms(2)])
qed

theorem install_check_reads_only_witness:
  "list_all read_only (wn_trace (snd (run_state (InstallCheckService tidy_machine sample_service) new_win))) \<and>
     length (wn_trace (snd (run_state (InstallCheckService tidy_machine sample_service) new_win))) = 3"
proof -
  let ?m = "InstallCheckService tidy_machine sample_service"
  have len: "length (wn_trace (snd (run_state ?m new_win))) = 3" by code_simp
  have m: "?m \<in> {InstallCheck sample_codec tidy_machine [] sample_options, ?m,
      InstallOrRepair 0 sample_codec tidy_machine [] (sample_options\<lparr>io_DryRun := True\<rparr>)}"
    by (rule insertI2) (rule insertI1)
  obtain as where as: "wn_trace (snd (run_state ?m new_win)) = wn_trace new_win @ as" "list_all read_only as"
    using install_check_reads_only [OF m prod.collapse [symmetric]] by blast
  have "wn_trace new_win @ as = as" by (simp add: new_win_def)
  with len as show ?thesis by simp
qed

text \<open>
  Property C34. No installation waits for ever: when every pause takes its time, 21 polls of the service are
  enough for each of the waits, whatever the service manager answers.
\<close>

theorem install_ends:
  assumes "clock_ok E" and "20 < fuel"
  shows "fst (run_state (InstallOrRepair fuel J E version opts) w) \<noteq> Starved \<and>
    fst (run_state (InstallOrRepairService fuel E sopts) w) \<noteq> Starved"
  using installers_enough [OF assms] by (simp add: enough_def)

theorem install_ends_witness:
  "fst (run_state (InstallOrRepairService 21 tidy_machine sample_service) new_win) \<noteq> Starved"
  using install_ends [OF tidy_clock] by simp

text \<open>
  The configuration that an installation saves is the one that the service loads, with the
  directories and the version filled in, and it is valid: on a machine that returns what was
  written, and for values that JSON represents.
\<close>

definition stores :: "win_env \<Rightarrow> string \<Rightarrow> bool" where
  "stores E path \<longleftrightarrow> (\<forall>tr d. we_answer E tr (Wrote path d) = ([], None) \<and>
     we_answer E (tr @ [Wrote path d]) (ReadBack path) = (d, None))"

theorem config_survives:
  assumes "codec_ok P J" and "P (fill_config E version cfg)" and "stores E path"
    and "snd (we_answer E (wn_trace w) (MadeDir (we_Dir E path))) = None"
    and "config_Validate opts_cfg = Inr cfg"
    and "run_state (config_Save J E version cfg path) w = (x, w1)"
    and "run_state (LoadConfig J E path) w1 = (r, w2)"
  shows "x = Fine \<and> r = Inr (fill_config E version cfg) \<and>
    config_Validate (fill_config E version cfg) = Inr (fill_config E version cfg)"
proof -
  let ?c = "fill_config E version cfg"
  obtain d where d: "Marshal J ?c = Inr d" "Unmarshal J d = Inr ?c" using assms(1,2) by (rule codec_okE)
  have "config_Validate ?c = Inr ?c"
    using assms(5) by (auto simp: config_Validate_def split: if_splits)
  moreover have 1: "x = Fine \<and> wn_trace w1 = (wn_trace w @ [MadeDir (we_Dir E path)]) @ [Wrote path d]"
    using assms(3,4,6) d by (auto simp: config_Save_def check_def try_act_def stores_def case_prod_unfold)
  moreover have "r = Inr ?c"
  proof -
    have "we_answer E (wn_trace w1) (ReadBack path) = (d, None)"
      using assms(3) 1 by (simp only: stores_def)
    then show ?thesis using assms(7) d by (simp add: LoadConfig_def)
  qed
  ultimately show ?thesis by blast
qed

lemma last_written_snoc: "last_written p (tr @ [Wrote p d]) = Some d"
  by (induction tr) auto

theorem config_survives_witness:
  "\<exists>x w1 w2. run_state (config_Save sample_codec tidy_machine ''1'' sample_config ''p'') new_win = (x, w1) \<and>
     run_state (LoadConfig sample_codec tidy_machine ''p'') w1 = (Inr sample_config, w2)"
proof -
  obtain x w1 where 1: "run_state (config_Save sample_codec tidy_machine ''1'' sample_config ''p'') new_win = (x, w1)"
    by fastforce
  obtain r w2 where 2: "run_state (LoadConfig sample_codec tidy_machine ''p'') w1 = (r, w2)" by fastforce
  have fill: "fill_config tidy_machine ''1'' sample_config = sample_config"
    by (simp add: fill_config_def sample_config_def)
  have "r = Inr (fill_config tidy_machine ''1'' sample_config)"
  proof (rule config_survives [THEN conjunct2, THEN conjunct1])
    show "codec_ok (\<lambda>c. c = sample_config) sample_codec" by (simp add: codec_ok_def sample_codec_def)
    show "stores tidy_machine ''p''" by (simp add: stores_def tidy_machine_def last_written_snoc)
    show "config_Validate sample_config = Inr sample_config" by (simp add: config_Validate_def sample_config_def)
    show "snd (we_answer tidy_machine (wn_trace new_win) (MadeDir (we_Dir tidy_machine ''p''))) = None"
      by (simp add: tidy_machine_def)
  qed (use 1 2 fill in simp_all)
  with 1 2 fill show ?thesis by auto
qed

section \<open>Uninstalling\<close>

text \<open>
  Uninstall reports success although no file could be removed: the results of the removals are
  dropped, and it does not wait for the service to end, whose binary is still in use.
\<close>

definition stubborn_machine :: win_env where
  "stubborn_machine = tidy_machine\<lparr>we_answer := (\<lambda>tr a.
     if a = Ran ''net'' [''session''] then ([], None) else ([], Some (Errorf ''access denied'')))\<rparr>"

lemma uninstall_ignores_failures: "fst (run_state (Uninstall stubborn_machine) new_win) = Fine"
  by code_simp

end
