(* ===== verification/Agent_Start.thy ===== *)
theory Agent_Start
  imports Agent_Program Install_Props
begin

text \<open>
  Setting up and starting the agent: it is not installed for a server on its own machine unless
  that is asked for; without rights nothing is changed and the program is started again with
  its own arguments; the service that was installed connects to the server it was installed for.
\<close>

lemma fatal_changes_nothing:
  "run_state (fatalInstall E e) w =
     (Exit_code 1, w\<lparr>wn_trace := wn_trace w @ [Slept (10 * second)],
        wn_said := wn_said w @ [''installation error: '' @ error_text e,
          ''La fenetre restera ouverte 10 secondes pour laisser lire l'erreur.'']\<rparr>)"
  by (simp add: fatalInstall_def)

text \<open>Without rights, an installation stops at the first check.\<close>

lemma install_no_admin:
  assumes "config_Validate (install_config E version opts) = Inr cfg" and "\<not> io_DryRun opts"
    and "we_answer E (wn_trace w) (Ran ''net'' [''session'']) = (t, Some e)"
  shows "\<exists>w1. run_state (InstallOrRepair fuel J E version opts) w = (Failed ErrAdminRequired, w1) \<and>
    wn_trace w1 = wn_trace w @ [Ran ''net'' [''session'']]"
  unfolding InstallOrRepair_def assms(1) sum.case if_not_P [OF assms(2)] check_def ensureAdmin_def
  by (simp add: assms(3) del: append.simps)

lemma relaunch:
  assumes "we_answer E tr AskedExe = (exe, None)" and "wn_trace w = tr"
    and "utf16_ok exe" and "utf16_ok (joinWindowsArgs args)"
  shows "run_state (RelaunchElevated E arg0 args) w =
    (case snd (we_answer E (tr @ [AskedExe]) (Elevated exe (joinWindowsArgs args))) of None \<Rightarrow> Fine | Some e \<Rightarrow> Failed e,
     w\<lparr>wn_trace := tr @ [AskedExe, Elevated exe (joinWindowsArgs args)]\<rparr>)"
  using assms
  by (simp add: RelaunchElevated_def currentExecutable_def try_act_def case_prod_unfold split: option.split)

lemma open_logger:
  assumes "\<forall>tr d. snd (we_answer E tr (MadeDir d)) = None" and "\<forall>tr f. snd (we_answer E tr (Opened f)) = None"
  shows "\<exists>c' w1. run_state (OpenLogger E c) w = ((c', Fine), w1) \<and> cf_ServerAddr c' = cf_ServerAddr c \<and>
    cf_ServerPort c' = cf_ServerPort c \<and> cf_ListenPort c' = cf_ListenPort c"
  using assms by (simp add: OpenLogger_def check_def try_act_def Let_def case_prod_unfold)

section \<open>The commands of an agent\<close>

lemma default_commands:
  assumes "ca_Registry (as_agent a) = NewPluginRegistry"
  shows "ca_Registry (as_agent (RegisterDefaultPlugins R a)) =
    [(''ipconfig'', ipconfig_command R), (''cd'', cd_command R), (''dir'', dir_command R)]"
  using assms
  by (simp add: RegisterDefaultPlugins_def register_in_def cmd_Register_def NewPluginRegistry_def
      ipconfig_command_def cd_command_def dir_command_def)

lemma new_agent_registry: "ca_Registry (as_agent (NewAgentService h l n s addr p q)) = NewPluginRegistry"
  by (simp add: NewAgentService_def core_Start_def NewAgent_def GetLocalIP_def Let_def split: sum.split)

lemma started_agent:
  assumes "config_Validate cfg = Inr c"
  shows "\<exists>a. StartWithConfig R cfg = Inr a \<and> as_serverAddr a = cf_ServerAddr c \<and>
    as_serverPort a = cf_ServerPort c \<and> as_listenPort a = cf_ListenPort c \<and>
    map fst (ca_Registry (as_agent a)) = [''ipconfig'', ''cd'', ''dir'']"
proof -
  have c: "cf_ServerAddr c \<noteq> []" "cf_ServerPort c > 0" "cf_ListenPort c > 0"
    using assms by (auto simp: config_Validate_def split: if_splits)
  define a0 where "a0 = NewAgentService (am_hostname R) (am_local R) (am_now R) (am_shell R)
     (cf_ServerAddr c) (cf_ServerPort c) (cf_ListenPort c)"
  have "map fst (ca_Registry (as_agent (RegisterDefaultPlugins R a0))) = [''ipconfig'', ''cd'', ''dir'']"
    unfolding a0_def by (subst default_commands [OF new_agent_registry]) simp
  moreover have "as_serverAddr (RegisterDefaultPlugins R a0) = cf_ServerAddr c"
    "as_serverPort (RegisterDefaultPlugins R a0) = cf_ServerPort c"
    "as_listenPort (RegisterDefaultPlugins R a0) = cf_ListenPort c"
    using c by (simp_all add: RegisterDefaultPlugins_def register_in_def a0_def NewAgentService_def Let_def)
  ultimately show ?thesis using assms by (simp add: StartWithConfig_def a0_def)
qed

section \<open>Properties\<close>

text \<open>
  An agent is never installed for a loopback server unless that is allowed: the program exits
  with code 1 and has touched nothing, whatever the machine answers.
\<close>

theorem loopback_refused:
  assumes "\<not> aa_AllowLoopback g"
    and "TrimSpace (ToLower (aa_ServerAddr g)) \<in> {[], ''127.0.0.1'', ''localhost'', ''::1''}"
    and "m \<in> {agent_runInstall U E g, agent_runRepair U E g, agent_runInstallCheck U E g}"
    and "run_state m w = (x, w')"
  shows "x = Exit_code 1 \<and> wn_trace w' = wn_trace w @ [Slept (10 * second)]"
proof -
  obtain e where e: "validateInstallServer (su_quote U) (aa_ServerAddr g) (aa_AllowLoopback g) = Some e"
    using assms(1,2) by (simp add: validateInstallServer_def)
  have "fst (run_state (do { println title; fatalInstall E e }) w) = Exit_code 1 \<and>
      wn_trace (snd (run_state (do { println title; fatalInstall E e }) w)) = wn_trace w @ [Slept (10 * second)]" for title
    by (simp add: fatal_changes_nothing)
  with assms(3,4) e show ?thesis
    by (elim insertE emptyE)
      (simp_all only: agent_runInstall_def agent_runRepair_def agent_runInstallCheck_def e option.case fst_conv snd_conv,
        (metis fst_conv snd_conv)+)
qed

text \<open>
  Property C25. Without administrator rights an installation whose options are valid changes
  nothing: it asks for the rights and starts its own program with them. When the system agrees, the
  program exits with code 0, and the command line it has handed over gives the new process, a Go
  program too, exactly its own arguments, as long as none that has to be quoted has a backslash at
  its end or before a quote. When the system refuses, the program exits with code 1 after its
  pause, and nothing else happens. (Texts hold no NUL, which Windows does not take.)
\<close>

theorem elevation_hands_over:
  assumes "validateInstallServer (su_quote U) (aa_ServerAddr g) (aa_AllowLoopback g) = None"
    and "config_Validate (install_config E (su_version U) (agent_options g False)) = Inr cfg"
    and "we_answer E (wn_trace w) (Ran ''net'' [''session'']) = (t, Some e)"
    and "we_answer E (wn_trace w @ [Ran ''net'' [''session'']]) AskedExe = (exe, None)"
    and "utf16_ok exe" and "utf16_ok (joinWindowsArgs (su_args U))"
    and "list_all safe_arg (su_args U)"
    and "run_state (agent_runInstall U E g) w = (x, w')"
  shows "\<exists>params. commandLineToArgv params = su_args U \<and>
    (if snd (we_answer E (wn_trace w @ [Ran ''net'' [''session''], AskedExe]) (Elevated exe params)) = None
     then x = Exit_code 0 \<and> wn_trace w' = wn_trace w @ [Ran ''net'' [''session''], AskedExe, Elevated exe params]
     else x = Exit_code 1 \<and> wn_trace w' = wn_trace w @
       [Ran ''net'' [''session''], AskedExe, Elevated exe params, Slept (10 * second)])"
proof -
  define w0 where "w0 = w\<lparr>wn_said := wn_said w @ [''=== Trish Agent Setup ==='']\<rparr>"
  have t0: "wn_trace w0 = wn_trace w" by (simp add: w0_def)
  have dry: "\<not> io_DryRun (agent_options g False)" by (simp add: agent_options_def)
  have "we_answer E (wn_trace w0) (Ran ''net'' [''session'']) = (t, Some e)" using assms(3) t0 by simp
  from install_no_admin [OF assms(2) dry this, of "su_fuel U" "su_codec U"]
  obtain w1 where i: "run_state (InstallOrRepair (su_fuel U) (su_codec U) E (su_version U) (agent_options g False)) w0 =
      (Failed ErrAdminRequired, w1)" and t1: "wn_trace w1 = wn_trace w @ [Ran ''net'' [''session'']]"
    using t0 by auto
  have "run_state (agent_runInstall U E g) w =
      run_state (or_elevate E (su_arg0 U) (su_args U) fatalInstall (Failed ErrAdminRequired)) w1"
    unfolding agent_runInstall_def assms(1) option.case run_state_bind run_println prod.case w0_def [symmetric] i ..
  with assms(8) have "run_state (or_elevate E (su_arg0 U) (su_args U) fatalInstall (Failed ErrAdminRequired)) w1 = (x, w')"
    by simp
  then have "if snd (we_answer E (wn_trace w @ [Ran ''net'' [''session''], AskedExe]) (Elevated exe (joinWindowsArgs (su_args U)))) = None
     then x = Exit_code 0 \<and> wn_trace w' = wn_trace w @ [Ran ''net'' [''session''], AskedExe, Elevated exe (joinWindowsArgs (su_args U))]
     else x = Exit_code 1 \<and> wn_trace w' = wn_trace w @
       [Ran ''net'' [''session''], AskedExe, Elevated exe (joinWindowsArgs (su_args U)), Slept (10 * second)]"
    using t1 by (auto simp: or_elevate_def IsAdminRequired_def fatal_changes_nothing
        relaunch [where tr = "wn_trace w @ [Ran ''net'' [''session'']]", OF assms(4) _ assms(5,6)] split: option.splits)
  with args_arrive [OF assms(7)] show ?thesis by (intro exI [of _ "joinWindowsArgs (su_args U)"]) simp
qed

text \<open>
  Property C39. The service of an installed agent connects to the server it was installed for and offers the
  commands ipconfig, cd and dir: when the file of its configuration holds what the installer
  wrote, and its log can be opened.
\<close>

theorem installed_agent_starts:
  assumes "config_Validate (install_config E version opts) = Inr cfg"
    and "codec_ok P J" and "P (fill_config E version cfg)"
    and "Marshal J (fill_config E version cfg) = Inr data"
    and "we_answer E (wn_trace w) (ReadBack (DefaultConfigPath E)) = (data, None)"
    and "\<forall>tr d. snd (we_answer E tr (MadeDir d)) = None" and "\<forall>tr f. snd (we_answer E tr (Opened f)) = None"
    and "run_state (agent_service_run J E R) w = (r, w')"
  shows "\<exists>a. r = Inr a \<and> as_serverAddr a = io_ServerAddr opts \<and> as_serverPort a = io_ServerPort opts \<and>
    as_listenPort a = (if io_ListenPort opts \<le> 0 then 2222 else io_ListenPort opts) \<and>
    map fst (ca_Registry (as_agent a)) = [''ipconfig'', ''cd'', ''dir'']"
proof -
  let ?c = "fill_config E version cfg"
  have "Unmarshal J data = Inr ?c" using assms(2,3,4) by (metis codec_okE sum.inject(2))
  then have load: "run_state (LoadConfig J E (DefaultConfigPath E)) w =
      (Inr ?c, w\<lparr>wn_trace := wn_trace w @ [ReadBack (DefaultConfigPath E)]\<rparr>)"
    using assms(5) by (simp add: LoadConfig_def)
  obtain c' w1 where l: "run_state (OpenLogger E ?c) (w\<lparr>wn_trace := wn_trace w @ [ReadBack (DefaultConfigPath E)]\<rparr>) =
      ((c', Fine), w1)" and same: "cf_ServerAddr c' = cf_ServerAddr cfg" "cf_ServerPort c' = cf_ServerPort cfg"
      "cf_ListenPort c' = cf_ListenPort cfg"
    using open_logger [OF assms(6,7), of ?c "w\<lparr>wn_trace := wn_trace w @ [ReadBack (DefaultConfigPath E)]\<rparr>"]
    by (elim exE conjE) (simp only: fill_config_same)
  have v: "cf_ServerAddr cfg = io_ServerAddr opts" "cf_ServerPort cfg = io_ServerPort opts"
    "io_ServerAddr opts \<noteq> []" "io_ServerPort opts > 0"
    "cf_ListenPort cfg = (if io_ListenPort opts \<le> 0 then 2222 else io_ListenPort opts)"
    using assms(1) by (auto simp: config_Validate_def install_config_def split: if_splits)
  have "r = StartWithConfig R c'"
    using assms(8) load l by (simp add: agent_service_run_def)
  moreover have "config_Validate c' = Inr c'"
    using same v by (simp add: config_Validate_def)
  ultimately show ?thesis
    using same v started_agent [of c' c' R] by auto
qed

section \<open>Witnesses\<close>

definition sample_setup :: agent_setup where
  "sample_setup = \<lparr>su_fuel = 21, su_codec = sample_codec, su_version = ''1'', su_quote = (\<lambda>s. s), su_arg0 = ''setup'',
     su_args = [''install'', ''-server=10.0.0.1'']\<rparr>"

definition sample_args :: agent_args where
  "sample_args = \<lparr>aa_ServerAddr = ''10.0.0.1'', aa_ServerPort = 7, aa_ListenPort = 0, aa_AllowLoopback = False\<rparr>"

definition user_machine :: win_env where
  "user_machine = tidy_machine\<lparr>we_answer := (\<lambda>tr a.
     case a of Ran n as \<Rightarrow> ([], Some (Errorf ''exit status 2'')) | AskedExe \<Rightarrow> (''setup.exe'', None) | _ \<Rightarrow> ([], None))\<rparr>"

definition sample_agent_machine :: "string agent_machine" where
  "sample_agent_machine =
     \<lparr>am_hostname = ''pc'', am_local = Inr ''10.0.0.2'', am_now = 0, am_shell = ''C:'',
      am_session = \<lparr>ss_CurrentDir = (\<lambda>s. s), ss_SetCurrentDir = (\<lambda>d s. d)\<rparr>,
      am_paths = \<lparr>fp_Dir = (\<lambda>p. p), fp_Join = join ''/'', fp_IsAbs = (\<lambda>p. False), fp_Clean = (\<lambda>p. p), fp_ToSlash = (\<lambda>p. p)\<rparr>,
      am_stat = (\<lambda>p. None), am_readdir = (\<lambda>p. Inr []),
      am_net = \<lparr>ne_GOOS = ''windows'', ne_GOARCH = ''amd64'', ne_Hostname = Inr ''pc'', ne_Interfaces = Inr []\<rparr>\<rparr>"

theorem loopback_refused_witness:
  "\<exists>w'. run_state (agent_runRepair sample_setup user_machine (sample_args\<lparr>aa_ServerAddr := ''LocalHost''\<rparr>)) new_win =
     (Exit_code 1, w') \<and> wn_trace w' = [Slept (10 * second)]"
proof -
  let ?g = "sample_args\<lparr>aa_ServerAddr := ''LocalHost''\<rparr>"
  obtain x w' where r: "run_state (agent_runRepair sample_setup user_machine ?g) new_win = (x, w')" by fastforce
  have l: "TrimSpace (ToLower (aa_ServerAddr ?g)) \<in> {[], ''127.0.0.1'', ''localhost'', ''::1''}"
    by (simp add: sample_args_def) code_simp
  have a: "\<not> aa_AllowLoopback ?g" by (simp add: sample_args_def)
  have m: "agent_runRepair sample_setup user_machine ?g \<in> {agent_runInstall sample_setup user_machine ?g,
      agent_runRepair sample_setup user_machine ?g, agent_runInstallCheck sample_setup user_machine ?g}"
    by (rule insertI2) (rule insertI1)
  from loopback_refused [OF a l m r] r show ?thesis by (simp add: new_win_def)
qed

theorem elevation_hands_over_witness:
  "\<exists>w' params. run_state (agent_runInstall sample_setup user_machine sample_args) new_win = (Exit_code 0, w') \<and>
     wn_trace w' = [Ran ''net'' [''session''], AskedExe, Elevated ''setup.exe'' params] \<and>
     commandLineToArgv params = [''install'', ''-server=10.0.0.1'']"
proof -
  obtain x w' where r: "run_state (agent_runInstall sample_setup user_machine sample_args) new_win = (x, w')" by fastforce
  have v: "validateInstallServer (su_quote sample_setup) (aa_ServerAddr sample_args) (aa_AllowLoopback sample_args) = None"
    by (simp add: sample_setup_def sample_args_def validateInstallServer_def) code_simp
  obtain cfg where c: "config_Validate (install_config user_machine (su_version sample_setup) (agent_options sample_args False)) = Inr cfg"
    by (simp add: config_Validate_def install_config_def agent_options_def sample_args_def)
  have u: "utf16_ok (joinWindowsArgs (su_args sample_setup))"
    by (simp add: sample_setup_def utf16_ok_def) code_simp
  have a: "we_answer user_machine (wn_trace new_win) (Ran ''net'' [''session'']) = ([], Some (Errorf ''exit status 2''))"
    "we_answer user_machine (wn_trace new_win @ [Ran ''net'' [''session'']]) AskedExe = (''setup.exe'', None)"
    by (simp_all add: user_machine_def)
  have e: "utf16_ok ''setup.exe''" by (simp add: utf16_ok_def)
  have s: "list_all safe_arg (su_args sample_setup)" by (simp add: sample_setup_def safe_arg_def needs_quotes_def)
  have "snd (we_answer user_machine tr (Elevated ''setup.exe'' params)) = None" for tr params
    by (simp add: user_machine_def)
  with elevation_hands_over [OF v c a e u s r] r show ?thesis by (auto simp: new_win_def sample_setup_def)
qed

definition config_machine :: win_env where
  "config_machine = tidy_machine\<lparr>we_answer := (\<lambda>tr x. (''config'', None))\<rparr>"

definition saved_config :: config where
  "saved_config = fill_config config_machine ''1''
     (install_config config_machine ''1'' sample_options)\<lparr>cf_ListenPort := 2222\<rparr>"

theorem installed_agent_starts_witness:
  "\<exists>a w'. run_state (agent_service_run \<lparr>Marshal = (\<lambda>c. Inr ''config''), Unmarshal = (\<lambda>d. Inr saved_config)\<rparr>
      config_machine sample_agent_machine) new_win = (Inr a, w') \<and> as_serverAddr a = ''10.0.0.1'' \<and> as_listenPort a = 2222"
proof -
  let ?J = "\<lparr>Marshal = (\<lambda>c. Inr ''config''), Unmarshal = (\<lambda>d. Inr saved_config)\<rparr>"
  let ?cfg = "(install_config config_machine ''1'' sample_options)\<lparr>cf_ListenPort := 2222\<rparr>"
  obtain r w' where r: "run_state (agent_service_run ?J config_machine sample_agent_machine) new_win = (r, w')" by fastforce
  have v: "config_Validate (install_config config_machine ''1'' sample_options) = Inr ?cfg"
    by (simp add: config_Validate_def install_config_def sample_options_def)
  have f: "fill_config config_machine ''1'' ?cfg = saved_config"
    by (simp add: saved_config_def fill_config_def Let_def install_config_def)
  have "\<exists>a. r = Inr a \<and> as_serverAddr a = io_ServerAddr sample_options \<and> as_serverPort a = io_ServerPort sample_options \<and>
    as_listenPort a = (if io_ListenPort sample_options \<le> 0 then 2222 else io_ListenPort sample_options) \<and>
    map fst (ca_Registry (as_agent a)) = [''ipconfig'', ''cd'', ''dir'']"
    by (rule installed_agent_starts [OF v, where P = "\<lambda>c. c = saved_config" and J = ?J and w = new_win
          and R = sample_agent_machine and data = "''config''" and w' = w'])
      (use r f in \<open>simp_all add: codec_ok_def config_machine_def\<close>)
  with r show ?thesis by (auto simp: sample_options_def)
qed

end
