(* ===== verification/Agent_Steps.thy ===== *)
theory Agent_Steps
  imports Prelude
begin

text \<open>
  The goroutines of agent/agent.go that write on a connection: connectAndServe, which registers
  the agent and answers messages, and the heartbeatLoop of every session, which may outlive
  its session for a while. They share the field encoder (under mu) and writeMu. A connection is a
  number; a step is one operation on a field, a mutex, a channel or a connection.
\<close>

datatype sent_kind = Registration | Beat | Reply

text \<open>
  connectAndServe: in the pause between two sessions, after the dial, after the registration,
  in its loop; and in send: with the encoder it read, and with writeMu.
\<close>

datatype serve_phase =
    Pausing | Dialed nat | Registered nat | Serving nat
  | Has_encoder nat "nat option" | Writing nat nat

text \<open>heartbeatLoop: at its select, after a tick, with the encoder it read, with writeMu, returned.\<close>

datatype beat_phase = Selecting | Ticked | Read "nat option" | Beating nat | Gone

record heartbeat =
  hb_conn :: nat \<comment> \<open>the session that started it\<close>
  hb_done :: bool \<comment> \<open>its channel done is closed\<close>
  hb_phase :: beat_phase

record agent_run =
  ag_serve :: serve_phase
  ag_encoder :: "nat option"
  ag_conns :: nat \<comment> \<open>connections so far\<close>
  ag_beats :: "heartbeat list" \<comment> \<open>the newest first\<close>
  ag_writeMu :: bool \<comment> \<open>held\<close>
  ag_quit :: bool
  ag_wire :: "(nat \<times> sent_kind) list"

definition new_agent_run :: agent_run where
  "new_agent_run = \<lparr>ag_serve = Pausing, ag_encoder = None, ag_conns = 0, ag_beats = [], ag_writeMu = False,
     ag_quit = False, ag_wire = []\<rparr>"

definition put :: "nat \<Rightarrow> sent_kind \<Rightarrow> agent_run \<Rightarrow> agent_run" where
  "put c k s = s\<lparr>ag_wire := ag_wire s @ [(c, k)]\<rparr>"

definition set_beat :: "nat \<Rightarrow> beat_phase \<Rightarrow> agent_run \<Rightarrow> agent_run" where
  "set_beat i p s = s\<lparr>ag_beats := (ag_beats s)[i := (ag_beats s ! i)\<lparr>hb_phase := p\<rparr>]\<rparr>"

definition beat_at :: "agent_run \<Rightarrow> nat \<Rightarrow> beat_phase \<Rightarrow> bool" where
  "beat_at s i p \<longleftrightarrow> i < length (ag_beats s) \<and> hb_phase (ag_beats s ! i) = p"

text \<open>close(done) for the heartbeat of the session that ends, the newest one.\<close>

definition close_done :: "agent_run \<Rightarrow> agent_run" where
  "close_done s = s\<lparr>ag_beats := (case ag_beats s of [] \<Rightarrow> [] | b # bs \<Rightarrow> b\<lparr>hb_done := True\<rparr> # bs)\<rparr>"

text \<open>
  \<open>prompt\<close>: the heartbeats of ended sessions have returned before the next dial, which comes two
  seconds or more after their channel was closed.
\<close>

inductive astep :: "bool \<Rightarrow> agent_run \<Rightarrow> agent_run \<Rightarrow> bool" for prompt :: bool where
  dial: "ag_serve s = Pausing \<Longrightarrow> \<not> ag_quit s \<Longrightarrow> prompt \<longrightarrow> (\<forall>b \<in> set (ag_beats s). hb_phase b = Gone) \<Longrightarrow>
    astep prompt s (s\<lparr>ag_serve := Dialed (ag_conns s), ag_encoder := Some (ag_conns s), ag_conns := Suc (ag_conns s)\<rparr>)"
| register: "ag_serve s = Dialed c \<Longrightarrow> astep prompt s ((put c Registration s)\<lparr>ag_serve := Registered c\<rparr>)"
| register_fails: "ag_serve s = Dialed c \<Longrightarrow> astep prompt s (s\<lparr>ag_serve := Pausing, ag_encoder := None\<rparr>)"
| refused: "ag_serve s = Registered c \<Longrightarrow> astep prompt s (s\<lparr>ag_serve := Pausing, ag_encoder := None\<rparr>)"
| accepted: "ag_serve s = Registered c \<Longrightarrow>
    astep prompt s (s\<lparr>ag_serve := Serving c, ag_beats := \<lparr>hb_conn = c, hb_done = False, hb_phase = Selecting\<rparr> # ag_beats s\<rparr>)"
| session_ends: "ag_serve s = Serving c \<Longrightarrow> astep prompt s ((close_done s)\<lparr>ag_serve := Pausing, ag_encoder := None\<rparr>)"
| reply_reads: "ag_serve s = Serving c \<Longrightarrow> astep prompt s (s\<lparr>ag_serve := Has_encoder c (ag_encoder s)\<rparr>)"
| reply_locks: "ag_serve s = Has_encoder c (Some d) \<Longrightarrow> \<not> ag_writeMu s \<Longrightarrow>
    astep prompt s (s\<lparr>ag_serve := Writing c d, ag_writeMu := True\<rparr>)"
| reply_writes: "ag_serve s = Writing c d \<Longrightarrow>
    astep prompt s ((put d Reply s)\<lparr>ag_serve := Serving c, ag_writeMu := False\<rparr>)"
| reply_fails: "ag_serve s = Writing c d \<Longrightarrow>
    astep prompt s ((close_done s)\<lparr>ag_serve := Pausing, ag_encoder := None, ag_writeMu := False\<rparr>)"
| reply_offline: "ag_serve s = Has_encoder c None \<Longrightarrow>
    astep prompt s ((close_done s)\<lparr>ag_serve := Pausing, ag_encoder := None\<rparr>)"
| tick: "beat_at s i Selecting \<Longrightarrow> astep prompt s (set_beat i Ticked s)"
| beat_ends: "beat_at s i Selecting \<Longrightarrow> hb_done (ag_beats s ! i) \<or> ag_quit s \<Longrightarrow> astep prompt s (set_beat i Gone s)"
| beat_reads: "beat_at s i Ticked \<Longrightarrow> astep prompt s (set_beat i (Read (ag_encoder s)) s)"
| beat_fails: "beat_at s i (Read None) \<Longrightarrow> astep prompt s (set_beat i Selecting s)"
| beat_locks: "beat_at s i (Read (Some d)) \<Longrightarrow> \<not> ag_writeMu s \<Longrightarrow>
    astep prompt s ((set_beat i (Beating d) s)\<lparr>ag_writeMu := True\<rparr>)"
| beat_writes: "beat_at s i (Beating d) \<Longrightarrow>
    astep prompt s ((put d Beat (set_beat i Selecting s))\<lparr>ag_writeMu := False\<rparr>)"
| beat_write_fails: "beat_at s i (Beating d) \<Longrightarrow> astep prompt s ((set_beat i Selecting s)\<lparr>ag_writeMu := False\<rparr>)"
| stop: "astep prompt s (s\<lparr>ag_quit := True\<rparr>)"

inductive areach :: "bool \<Rightarrow> agent_run \<Rightarrow> bool" for prompt :: bool where
  areach_init: "areach prompt new_agent_run"
| areach_step: "areach prompt s \<Longrightarrow> astep prompt s t \<Longrightarrow> areach prompt t"

inductive_cases astepE: "astep prompt s t"

section \<open>Who holds writeMu\<close>

definition beating :: "heartbeat \<Rightarrow> bool" where
  "beating b \<longleftrightarrow> (case hb_phase b of Beating _ \<Rightarrow> True | _ \<Rightarrow> False)"

definition replying :: "serve_phase \<Rightarrow> bool" where
  "replying p \<longleftrightarrow> (case p of Writing _ _ \<Rightarrow> True | _ \<Rightarrow> False)"

text \<open>The number of goroutines that are inside Encode with writeMu.\<close>

definition writers :: "agent_run \<Rightarrow> int" where
  "writers s = of_bool (replying (ag_serve s)) + int (length (filter beating (ag_beats s)))"

definition lock_ok :: "agent_run \<Rightarrow> bool" where
  "lock_ok s \<longleftrightarrow> writers s = of_bool (ag_writeMu s)"

lemma filter_update:
  "i < length xs \<Longrightarrow> int (length (filter P (xs[i := x]))) =
     int (length (filter P xs)) - of_bool (P (xs ! i)) + of_bool (P x)"
proof (induction xs arbitrary: i)
  case (Cons y ys)
  show ?case
  proof (cases i)
    case (Suc n)
    then show ?thesis using Cons.IH [of n] Cons.prems by auto
  qed simp
qed simp

lemma set_beat_simps [simp]:
  "ag_serve (set_beat i p s) = ag_serve s" "ag_encoder (set_beat i p s) = ag_encoder s"
  "ag_conns (set_beat i p s) = ag_conns s" "ag_writeMu (set_beat i p s) = ag_writeMu s"
  "ag_wire (set_beat i p s) = ag_wire s" "ag_quit (set_beat i p s) = ag_quit s"
  by (simp_all add: set_beat_def)

lemma close_done_simps [simp]:
  "ag_serve (close_done s) = ag_serve s" "ag_encoder (close_done s) = ag_encoder s"
  "ag_conns (close_done s) = ag_conns s" "ag_writeMu (close_done s) = ag_writeMu s" "ag_wire (close_done s) = ag_wire s"
  by (simp_all add: close_done_def)

lemma put_simps [simp]:
  "ag_serve (put c k s) = ag_serve s" "ag_encoder (put c k s) = ag_encoder s" "ag_conns (put c k s) = ag_conns s"
  "ag_writeMu (put c k s) = ag_writeMu s" "ag_beats (put c k s) = ag_beats s"
  by (simp_all add: put_def)

lemma beats_writing:
  "beat_at s i p \<Longrightarrow> int (length (filter beating (ag_beats (set_beat i q s)))) =
     int (length (filter beating (ag_beats s))) - of_bool (\<exists>d. p = Beating d) + of_bool (\<exists>d. q = Beating d)"
  by (auto simp: set_beat_def beat_at_def filter_update beating_def split: beat_phase.splits)

lemma close_writing: "length (filter beating (ag_beats (close_done s))) = length (filter beating (ag_beats s))"
  by (simp add: close_done_def beating_def split: list.split)

lemma one_beating: "beat_at s i (Beating d) \<Longrightarrow> filter beating (ag_beats s) \<noteq> []"
  by (force simp: beat_at_def beating_def filter_empty_conv in_set_conv_nth)

lemma lock_step: "lock_ok s \<Longrightarrow> astep prompt s t \<Longrightarrow> lock_ok t"
  by (elim astepE)
    (auto simp: lock_ok_def writers_def replying_def beats_writing close_writing beating_def of_bool_def
      split: if_splits serve_phase.splits dest: one_beating)

lemma lock_reach: "areach prompt s \<Longrightarrow> lock_ok s"
proof (induction rule: areach.induct)
  case areach_init
  show ?case by (simp add: lock_ok_def writers_def replying_def new_agent_run_def)
qed (rule lock_step)

section \<open>What a connection carries\<close>

definition conn_log :: "agent_run \<Rightarrow> nat \<Rightarrow> sent_kind list" where
  "conn_log s c = map snd (filter (\<lambda>m. fst m = c) (ag_wire s))"

lemma conn_log_put [simp]: "conn_log (put d k s) c = conn_log s c @ (if d = c then [k] else [])"
  by (simp add: conn_log_def put_def)

lemma conn_log_same: "ag_wire t = ag_wire s \<Longrightarrow> conn_log t c = conn_log s c"
  by (simp add: conn_log_def)

text \<open>A connection begins with its registration, and has no other.\<close>

definition starts_registered :: "sent_kind list \<Rightarrow> bool" where
  "starts_registered ks \<longleftrightarrow> ks = [] \<or> (hd ks = Registration \<and> Registration \<notin> set (tl ks))"

lemma starts_append: "starts_registered ks \<Longrightarrow> ks \<noteq> [] \<Longrightarrow> k \<noteq> Registration \<Longrightarrow> starts_registered (ks @ [k])"
  by (auto simp: starts_registered_def)

definition own_conn :: "heartbeat \<Rightarrow> bool" where
  "own_conn b \<longleftrightarrow> (case hb_phase b of Read (Some d) \<Rightarrow> d = hb_conn b | Beating d \<Rightarrow> d = hb_conn b | _ \<Rightarrow> True)"

definition in_session :: "agent_run \<Rightarrow> nat \<Rightarrow> bool" where
  "in_session s c \<longleftrightarrow> ag_encoder s = Some c \<and> (\<exists>b bs. ag_beats s = b # bs \<and> hb_conn b = c)"

definition all_gone :: "agent_run \<Rightarrow> bool" where
  "all_gone s \<longleftrightarrow> (\<forall>b \<in> set (ag_beats s). hb_phase b = Gone)"

definition serve_ok :: "agent_run \<Rightarrow> bool" where
  "serve_ok s \<longleftrightarrow>
     (case ag_serve s of
        Pausing \<Rightarrow> ag_encoder s = None
      | Dialed c \<Rightarrow> ag_encoder s = Some c \<and> Suc c = ag_conns s \<and> conn_log s c = [] \<and> all_gone s
      | Registered c \<Rightarrow> ag_encoder s = Some c \<and> conn_log s c \<noteq> [] \<and> all_gone s
      | Serving c \<Rightarrow> in_session s c
      | Has_encoder c e \<Rightarrow> in_session s c \<and> e = Some c
      | Writing c d \<Rightarrow> in_session s c \<and> d = c)"

definition beats_ok :: "agent_run \<Rightarrow> bool" where
  "beats_ok s \<longleftrightarrow> (\<forall>b \<in> set (tl (ag_beats s)). hb_phase b = Gone) \<and>
     (\<forall>b \<in> set (ag_beats s). own_conn b \<and> conn_log s (hb_conn b) \<noteq> [])"

definition logs_ok :: "agent_run \<Rightarrow> bool" where
  "logs_ok s \<longleftrightarrow> (\<forall>c. starts_registered (conn_log s c) \<and> (ag_conns s \<le> c \<longrightarrow> conn_log s c = []))"

definition agent_inv :: "agent_run \<Rightarrow> bool" where
  "agent_inv s \<longleftrightarrow> serve_ok s \<and> beats_ok s \<and> logs_ok s"

text \<open>Only the newest heartbeat can still be there.\<close>

lemma beat_newest:
  assumes "beats_ok s" and "beat_at s i p" and "p \<noteq> Gone"
  obtains b bs where "i = 0" and "ag_beats s = b # bs" and "hb_phase b = p" and "own_conn b"
    and "conn_log s (hb_conn b) \<noteq> []" and "\<forall>b' \<in> set bs. hb_phase b' = Gone \<and> own_conn b' \<and> conn_log s (hb_conn b') \<noteq> []"
proof -
  obtain b bs where bs: "ag_beats s = b # bs" using assms(2) by (cases "ag_beats s") (auto simp: beat_at_def)
  have "i = 0"
  proof (rule ccontr)
    assume "i \<noteq> 0"
    then obtain j where "i = Suc j" by (cases i) auto
    then have "ag_beats s ! i \<in> set bs" using assms(2) bs by (auto simp: beat_at_def)
    with assms bs show False by (auto simp: beats_ok_def beat_at_def)
  qed
  with assms bs show thesis by (intro that [of b bs]) (auto simp: beats_ok_def beat_at_def)
qed

lemma set_newest: "ag_beats s = b # bs \<Longrightarrow> ag_beats (set_beat 0 p s) = b\<lparr>hb_phase := p\<rparr> # bs"
  by (simp add: set_beat_def)

text \<open>A heartbeat that moves on its own keeps the invariant, if it only has its own connection.\<close>

lemma beat_moves:
  assumes inv: "agent_inv s" and at: "beat_at s i p" and p: "p \<noteq> Gone"
    and q: "\<And>b. own_conn b \<Longrightarrow> hb_phase b = p \<Longrightarrow> hd (ag_beats s) = b \<Longrightarrow> own_conn (b\<lparr>hb_phase := q\<rparr>)"
  shows "agent_inv ((set_beat i q s)\<lparr>ag_writeMu := m\<rparr>)" and "agent_inv (set_beat i q s)"
proof -
  have "beats_ok s" using inv by (simp add: agent_inv_def)
  then obtain b bs where b: "i = 0" "ag_beats s = b # bs" "hb_phase b = p" "own_conn b"
    "conn_log s (hb_conn b) \<noteq> []" "\<forall>b' \<in> set bs. hb_phase b' = Gone \<and> own_conn b' \<and> conn_log s (hb_conn b') \<noteq> []"
    using beat_newest [OF _ at p] by blast
  have beats: "ag_beats (set_beat i q s) = b\<lparr>hb_phase := q\<rparr> # bs" using b set_newest by simp
  have own: "own_conn (b\<lparr>hb_phase := q\<rparr>)" by (rule q) (simp_all add: b)
  have busy: "\<not> all_gone s" using p by (simp add: all_gone_def b)
  have serve: "serve_ok t" if "ag_serve t = ag_serve s" "ag_encoder t = ag_encoder s" "ag_conns t = ag_conns s"
    "ag_wire t = ag_wire s" "ag_beats t = b\<lparr>hb_phase := q\<rparr> # bs" for t
    using inv busy that b(2) unfolding agent_inv_def serve_ok_def in_session_def conn_log_def
    by (cases "ag_serve s") simp_all
  have rest: "beats_ok t \<and> logs_ok t" if "ag_conns t = ag_conns s"
    "ag_wire t = ag_wire s" "ag_beats t = b\<lparr>hb_phase := q\<rparr> # bs" for t
    using inv own b(2,4-6) that by (simp add: agent_inv_def beats_ok_def logs_ok_def conn_log_def)
  show "agent_inv ((set_beat i q s)\<lparr>ag_writeMu := m\<rparr>)"
    unfolding agent_inv_def by (intro conjI serve rest [THEN conjunct1] rest [THEN conjunct2]) (simp_all add: beats)
  show "agent_inv (set_beat i q s)"
    unfolding agent_inv_def by (intro conjI serve rest [THEN conjunct1] rest [THEN conjunct2]) (simp_all add: beats)
qed


text \<open>The encoder that a heartbeat finds is the one of its own session, or there is none.\<close>

lemma encoder_own:
  assumes "agent_inv s" and "ag_beats s = b # bs" and "hb_phase b \<noteq> Gone"
  shows "ag_encoder s = None \<or> ag_encoder s = Some (hb_conn b)"
  using assms by (cases "ag_serve s") (auto simp: agent_inv_def serve_ok_def in_session_def all_gone_def)

lemma put_inv:
  assumes inv: "agent_inv s" and log: "conn_log s c \<noteq> []" and k: "k \<noteq> Registration"
    and p: "\<nexists>d. ag_serve s = Dialed d"
  shows "agent_inv (put c k s)"
proof -
  have logs: "logs_ok (put c k s)" using inv log k
    by (auto simp: agent_inv_def logs_ok_def intro: starts_append)
  have beats: "beats_ok (put c k s)" using inv by (simp add: agent_inv_def beats_ok_def)
  have "serve_ok (put c k s)" using inv p
    by (cases "ag_serve s") (simp_all add: agent_inv_def serve_ok_def in_session_def all_gone_def)
  with logs beats show ?thesis by (simp add: agent_inv_def)
qed

lemma close_beats: "beats_ok s \<Longrightarrow> beats_ok (close_done s)"
  by (auto simp: beats_ok_def close_done_def own_conn_def conn_log_def
      split: list.splits beat_phase.splits option.splits)

lemma close_logs: "logs_ok s \<Longrightarrow> logs_ok (close_done s)"
  by (simp add: logs_ok_def conn_log_def)

lemma beats_same: "ag_beats t = ag_beats s \<Longrightarrow> ag_wire t = ag_wire s \<Longrightarrow> beats_ok t = beats_ok s"
  by (simp add: beats_ok_def conn_log_def)

lemma logs_same: "ag_conns t = ag_conns s \<Longrightarrow> ag_wire t = ag_wire s \<Longrightarrow> logs_ok t = logs_ok s"
  by (simp add: logs_ok_def conn_log_def)

lemma pause_inv:
  assumes "agent_inv s"
  shows "agent_inv ((close_done s)\<lparr>ag_serve := Pausing, ag_encoder := None, ag_writeMu := m\<rparr>)"
    and "agent_inv ((close_done s)\<lparr>ag_serve := Pausing, ag_encoder := None\<rparr>)"
    and "agent_inv (s\<lparr>ag_serve := Pausing, ag_encoder := None\<rparr>)"
proof -
  have s: "beats_ok s" "logs_ok s" using assms by (simp_all add: agent_inv_def)
  have "agent_inv t" if "ag_serve t = Pausing" "ag_encoder t = None" "ag_wire t = ag_wire s"
    "ag_conns t = ag_conns s" "ag_beats t = ag_beats s \<or> ag_beats t = ag_beats (close_done s)" for t
    using that s close_beats [OF s(1)] beats_same [of t s] beats_same [of t "close_done s"] logs_same [of t s]
    by (auto simp: agent_inv_def serve_ok_def)
  then show "agent_inv ((close_done s)\<lparr>ag_serve := Pausing, ag_encoder := None, ag_writeMu := m\<rparr>)"
    and "agent_inv ((close_done s)\<lparr>ag_serve := Pausing, ag_encoder := None\<rparr>)"
    and "agent_inv (s\<lparr>ag_serve := Pausing, ag_encoder := None\<rparr>)" by simp_all
qed

text \<open>A step of connectAndServe that only moves its place in the code.\<close>

lemma serve_moves:
  assumes "agent_inv s" and "serve_ok t" and "ag_beats t = ag_beats s" "ag_wire t = ag_wire s" "ag_conns t = ag_conns s"
  shows "agent_inv t"
  using assms beats_same [of t s] logs_same [of t s] by (simp add: agent_inv_def)

lemma conn_log_update [simp]:
  "conn_log (s\<lparr>ag_serve := p\<rparr>) c = conn_log s c" "conn_log (s\<lparr>ag_encoder := e\<rparr>) c = conn_log s c"
  "conn_log (s\<lparr>ag_conns := n\<rparr>) c = conn_log s c" "conn_log (s\<lparr>ag_beats := bs\<rparr>) c = conn_log s c"
  "conn_log (s\<lparr>ag_writeMu := m\<rparr>) c = conn_log s c" "conn_log (s\<lparr>ag_quit := q\<rparr>) c = conn_log s c"
  by (simp_all add: conn_log_def)

lemma inv_same:
  assumes "agent_inv s" and "ag_serve t = ag_serve s" "ag_encoder t = ag_encoder s" "ag_conns t = ag_conns s"
    "ag_beats t = ag_beats s" "ag_wire t = ag_wire s"
  shows "agent_inv t"
proof (rule serve_moves [OF assms(1)])
  show "serve_ok t" using assms
    by (cases "ag_serve s") (simp_all add: agent_inv_def serve_ok_def in_session_def all_gone_def conn_log_def)
qed (simp_all add: assms)

text \<open>Every step keeps the invariant.\<close>

lemma dial_inv:
  assumes "agent_inv s" and "all_gone s"
  shows "agent_inv (s\<lparr>ag_serve := Dialed (ag_conns s), ag_encoder := Some (ag_conns s), ag_conns := Suc (ag_conns s)\<rparr>)"
  using assms by (auto simp: agent_inv_def serve_ok_def beats_ok_def logs_ok_def all_gone_def)

lemma register_inv:
  assumes inv: "agent_inv s" and p: "ag_serve s = Dialed c"
  shows "agent_inv ((put c Registration s)\<lparr>ag_serve := Registered c\<rparr>)"
proof -
  have s: "conn_log s c = []" "Suc c = ag_conns s" "ag_encoder s = Some c" "all_gone s" "logs_ok s" "beats_ok s"
    using inv p by (simp_all add: agent_inv_def serve_ok_def)
  have "logs_ok ((put c Registration s)\<lparr>ag_serve := Registered c\<rparr>)"
    using s(1,2,5) by (auto simp: logs_ok_def starts_registered_def)
  moreover have "beats_ok ((put c Registration s)\<lparr>ag_serve := Registered c\<rparr>)"
    using s(6) by (simp add: beats_ok_def)
  ultimately show ?thesis using s by (simp add: agent_inv_def serve_ok_def all_gone_def)
qed

lemma accept_inv:
  assumes inv: "agent_inv s" and p: "ag_serve s = Registered c"
  shows "agent_inv (s\<lparr>ag_serve := Serving c, ag_beats := \<lparr>hb_conn = c, hb_done = False, hb_phase = Selecting\<rparr> # ag_beats s\<rparr>)"
  using assms by (auto simp: agent_inv_def serve_ok_def beats_ok_def logs_ok_def all_gone_def in_session_def own_conn_def)

lemma session_log: "agent_inv s \<Longrightarrow> in_session s c \<Longrightarrow> conn_log s c \<noteq> []"
  by (auto simp: agent_inv_def beats_ok_def in_session_def)

lemma beat_put_inv:
  assumes inv: "agent_inv s" and at: "beat_at s i (Beating d)"
  shows "agent_inv ((put d Beat (set_beat i Selecting s))\<lparr>ag_writeMu := m\<rparr>)"
proof -
  have ok: "beats_ok s" using inv by (simp add: agent_inv_def)
  obtain b bs where b: "ag_beats s = b # bs" "hb_phase b = Beating d" "own_conn b" "conn_log s (hb_conn b) \<noteq> []"
    by (rule beat_newest [OF ok at]) (simp, blast intro: that)
  have moved: "agent_inv (set_beat i Selecting s)"
    by (rule beat_moves [OF inv at]) (simp_all add: own_conn_def)
  have "conn_log (set_beat i Selecting s) d \<noteq> []" using b by (simp add: own_conn_def conn_log_def)
  moreover have "\<nexists>c. ag_serve s = Dialed c" using inv b by (auto simp: agent_inv_def serve_ok_def all_gone_def)
  ultimately have "agent_inv (put d Beat (set_beat i Selecting s))" using moved by (intro put_inv) auto
  then show ?thesis by (rule inv_same) simp_all
qed

lemma beat_reads_own:
  assumes "agent_inv s" and "hb_phase b = Ticked" and "hd (ag_beats s) = b" and "ag_beats s \<noteq> []"
  shows "own_conn (b\<lparr>hb_phase := Read (ag_encoder s)\<rparr>)"
proof -
  have "ag_beats s = b # tl (ag_beats s)" using assms(3,4) by (cases "ag_beats s") auto
  then show ?thesis using encoder_own [OF assms(1)] assms(2) by (fastforce simp: own_conn_def)
qed

lemma stop_inv: "agent_inv s \<Longrightarrow> agent_inv (s\<lparr>ag_quit := True\<rparr>)"
  by (rule inv_same) simp_all

lemma agent_inv_step: "agent_inv s \<Longrightarrow> astep True s t \<Longrightarrow> agent_inv t"
proof (elim astepE)
  assume inv: "agent_inv s"
  show "agent_inv t" if "t = s\<lparr>ag_serve := Dialed (ag_conns s), ag_encoder := Some (ag_conns s), ag_conns := Suc (ag_conns s)\<rparr>"
    "True \<longrightarrow> (\<forall>b\<in>set (ag_beats s). hb_phase b = Gone)"
    using that dial_inv [OF inv] by (simp add: all_gone_def)
  show "agent_inv t" if "t = put c Registration s\<lparr>ag_serve := Registered c\<rparr>" "ag_serve s = Dialed c" for c
    using that register_inv [OF inv] by simp
  show "agent_inv t" if "t = s\<lparr>ag_serve := Pausing, ag_encoder := None\<rparr>"
    using that pause_inv [OF inv] by simp
  show "agent_inv t" if "t = s\<lparr>ag_serve := Pausing, ag_encoder := None\<rparr>"
    using that pause_inv [OF inv] by simp
  show "agent_inv t" if "ag_serve s = Registered c"
    "t = s\<lparr>ag_serve := Serving c, ag_beats := \<lparr>hb_conn = c, hb_done = False, hb_phase = Selecting\<rparr> # ag_beats s\<rparr>" for c
    using that accept_inv [OF inv] by simp
  show "agent_inv t" if "t = close_done s\<lparr>ag_serve := Pausing, ag_encoder := None\<rparr>"
    using that pause_inv [OF inv] by simp
  show "agent_inv t" if "ag_serve s = Serving c" "t = s\<lparr>ag_serve := Has_encoder c (ag_encoder s)\<rparr>" for c
    unfolding that(2) by (rule serve_moves [OF inv])
      (use inv that(1) in \<open>simp_all add: agent_inv_def serve_ok_def in_session_def\<close>)
  show "agent_inv t" if "ag_serve s = Has_encoder c (Some d)" "t = s\<lparr>ag_serve := Writing c d, ag_writeMu := True\<rparr>" for c d
    unfolding that(2) by (rule serve_moves [OF inv])
      (use inv that(1) in \<open>simp_all add: agent_inv_def serve_ok_def in_session_def\<close>)
  show "agent_inv t" if p: "ag_serve s = Writing c d" and t: "t = put d Reply s\<lparr>ag_serve := Serving c, ag_writeMu := False\<rparr>" for c d
  proof -
    have ses: "in_session s c" "d = c" using inv p by (simp_all add: agent_inv_def serve_ok_def)
    then have put: "agent_inv (put d Reply s)" using p by (intro put_inv inv) (simp_all add: session_log [OF inv])
    show ?thesis unfolding t
      by (rule serve_moves [OF put]) (use ses in \<open>simp_all add: serve_ok_def in_session_def put_def\<close>)
  qed
  show "agent_inv t" if "t = close_done s\<lparr>ag_serve := Pausing, ag_encoder := None, ag_writeMu := False\<rparr>"
    using that pause_inv [OF inv] by simp
  show "agent_inv t" if "t = close_done s\<lparr>ag_serve := Pausing, ag_encoder := None\<rparr>"
    using that pause_inv [OF inv] by simp
  show "agent_inv t" if "beat_at s i Selecting" "t = set_beat i Ticked s" for i
    unfolding that(2) by (rule beat_moves(2) [OF inv that(1)]) (simp_all add: own_conn_def)
  show "agent_inv t" if "beat_at s i Selecting" "t = set_beat i Gone s" for i
    unfolding that(2) by (rule beat_moves(2) [OF inv that(1)]) (simp_all add: own_conn_def)
  show "agent_inv t" if at: "beat_at s i Ticked" and "t = set_beat i (Read (ag_encoder s)) s" for i
    unfolding that(2) using at
    by (intro beat_moves(2) [OF inv at]) (auto simp: beat_at_def intro: beat_reads_own [OF inv])
  show "agent_inv t" if "beat_at s i (Read None)" "t = set_beat i Selecting s" for i
    unfolding that(2) by (rule beat_moves(2) [OF inv that(1)]) (simp_all add: own_conn_def)
  show "agent_inv t" if "beat_at s i (Read (Some d))" "t = set_beat i (Beating d) s\<lparr>ag_writeMu := True\<rparr>" for i d
    unfolding that(2) by (rule beat_moves(1) [OF inv that(1)]) (simp_all add: own_conn_def)
  show "agent_inv t" if "beat_at s i (Beating d)" "t = put d Beat (set_beat i Selecting s)\<lparr>ag_writeMu := False\<rparr>" for i d
    unfolding that(2) by (rule beat_put_inv [OF inv that(1)])
  show "agent_inv t" if "beat_at s i (Beating d)" "t = set_beat i Selecting s\<lparr>ag_writeMu := False\<rparr>" for i d
    unfolding that(2) by (rule beat_moves(1) [OF inv that(1)]) (simp_all add: own_conn_def)
  show "agent_inv t" if "t = s\<lparr>ag_quit := True\<rparr>"
    unfolding that by (rule stop_inv [OF inv])
qed

lemma agent_inv_reach:
  assumes "areach True s"
  shows "agent_inv s"
  using assms
proof (induction rule: areach.induct)
  case areach_init
  show ?case
    by (simp add: agent_inv_def serve_ok_def beats_ok_def logs_ok_def conn_log_def new_agent_run_def starts_registered_def)
qed (rule agent_inv_step)

section \<open>Properties\<close>

text \<open>
  Property C35. As long as the heartbeats of a session have returned before the next dial, every connection
  begins with the registration and carries no other, however the goroutines interleave; an
  answer goes out on the connection its request came in on, and the goroutines that write take
  turns.
\<close>

theorem agent_registers_first:
  assumes "areach True s"
  shows "starts_registered (conn_log s c) \<and> (ag_serve s = Writing d e \<longrightarrow> e = d) \<and> 0 \<le> writers s \<and> writers s \<le> 1"
proof -
  have "agent_inv s" by (rule agent_inv_reach [OF assms])
  moreover have "lock_ok s" by (rule lock_reach [OF assms])
  ultimately show ?thesis by (auto simp: agent_inv_def logs_ok_def serve_ok_def lock_ok_def)
qed

text \<open>A session with a heartbeat and an answer, step by step.\<close>

definition agent_moves :: "(agent_run \<Rightarrow> agent_run) list" where
  "agent_moves =
     [\<lambda>s. s\<lparr>ag_serve := Dialed (ag_conns s), ag_encoder := Some (ag_conns s), ag_conns := Suc (ag_conns s)\<rparr>,
      \<lambda>s. (put 0 Registration s)\<lparr>ag_serve := Registered 0\<rparr>,
      \<lambda>s. s\<lparr>ag_serve := Serving 0, ag_beats := \<lparr>hb_conn = 0, hb_done = False, hb_phase = Selecting\<rparr> # ag_beats s\<rparr>,
      set_beat 0 Ticked,
      \<lambda>s. set_beat 0 (Read (ag_encoder s)) s,
      \<lambda>s. s\<lparr>ag_serve := Has_encoder 0 (ag_encoder s)\<rparr>,
      \<lambda>s. (set_beat 0 (Beating 0) s)\<lparr>ag_writeMu := True\<rparr>,
      \<lambda>s. (put 0 Beat (set_beat 0 Selecting s))\<lparr>ag_writeMu := False\<rparr>,
      \<lambda>s. s\<lparr>ag_serve := Writing 0 0, ag_writeMu := True\<rparr>]"

lemmas agent_run_simps = new_agent_run_def put_def set_beat_def beat_at_def close_done_def

lemma agent_moves_reach: "areach True (fold id agent_moves new_agent_run)"
  unfolding agent_moves_def
  apply (simp only: fold_Cons fold_Nil id_apply comp_apply)
  apply (rule areach_step [OF _ reply_locks])
  apply (rule areach_step [OF _ beat_writes [of _ 0]])
  apply (rule areach_step [OF _ beat_locks [of _ 0]])
  apply (rule areach_step [OF _ reply_reads])
  apply (rule areach_step [OF _ beat_reads])
  apply (rule areach_step [OF _ tick])
  apply (rule areach_step [OF _ accepted])
  apply (rule areach_step [OF _ register])
  apply (rule areach_step [OF areach_init dial])
  apply (simp_all add: agent_run_simps)
  done

theorem agent_registers_first_witness:
  "\<exists>s. areach True s \<and> ag_serve s = Writing 0 0 \<and> writers s = 1 \<and> conn_log s 0 = [Registration, Beat] \<and>
     starts_registered [Registration, Beat]"
proof -
  define s where "s = fold id agent_moves new_agent_run"
  have reach: "areach True s" unfolding s_def by (rule agent_moves_reach)
  have s: "ag_serve s = Writing 0 0" "conn_log s 0 = [Registration, Beat]" "ag_writeMu s"
    by (simp_all add: s_def agent_moves_def agent_run_simps conn_log_def)
  have "writers s \<noteq> 0" using s by (simp add: writers_def replying_def)
  with agent_registers_first [OF reach, of 0 0 0] s reach show ?thesis by (intro exI [of _ s]) auto
qed

text \<open>
  Nothing in the code waits for the heartbeat of the session before: one that is held up between
  its tick and its reading of the encoder for longer than the pause finds the encoder of the next
  connection, and the server, which takes the first message for the registration, refuses the
  agent. The registration is also written without writeMu.
\<close>

definition late_moves :: "(agent_run \<Rightarrow> agent_run) list" where
  "late_moves = take 4 agent_moves @
     [\<lambda>s. (close_done s)\<lparr>ag_serve := Pausing, ag_encoder := None\<rparr>,
      \<lambda>s. s\<lparr>ag_serve := Dialed (ag_conns s), ag_encoder := Some (ag_conns s), ag_conns := Suc (ag_conns s)\<rparr>,
      \<lambda>s. set_beat 0 (Read (ag_encoder s)) s,
      \<lambda>s. (set_beat 0 (Beating 1) s)\<lparr>ag_writeMu := True\<rparr>,
      \<lambda>s. (put 1 Beat (set_beat 0 Selecting s))\<lparr>ag_writeMu := False\<rparr>]"

lemma late_moves_reach: "areach False (fold id late_moves new_agent_run)"
  unfolding late_moves_def agent_moves_def
  apply (simp only: fold_Cons fold_Nil id_apply comp_apply take_Suc_Cons take_0 append.simps numeral_eq_Suc pred_numeral_simps
      BitM.simps numeral_One)
  apply (rule areach_step [OF _ beat_writes [of _ 0]])
  apply (rule areach_step [OF _ beat_locks [of _ 0]])
  apply (rule areach_step [OF _ beat_reads])
  apply (rule areach_step [OF _ dial])
  apply (rule areach_step [OF _ session_ends [of _ 0]])
  apply (rule areach_step [OF _ tick])
  apply (rule areach_step [OF _ accepted])
  apply (rule areach_step [OF _ register])
  apply (rule areach_step [OF areach_init dial])
  apply (simp_all add: agent_run_simps)
  done

lemma late_heartbeat_first: "\<exists>s. areach False s \<and> conn_log s 1 = [Beat] \<and> ag_serve s = Dialed 1"
  by (rule exI [of _ "fold id late_moves new_agent_run"])
    (simp add: late_moves_reach, simp add: late_moves_def agent_moves_def agent_run_simps conn_log_def)

end
