(* ===== verification/Server_Program.thy ===== *)
theory Server_Program
  imports Windows_Install Server_Core Process_Lock
begin

text \<open>
  The server program: cmd/server/main.go with the defaults of buildcfg/defaults.go, the start
  of a server from its parts (lock file, stores, listener), and run of
  server/service_windows.go, which starts it from the configuration that the installer saved.
\<close>

section \<open>Defaults of the build\<close>

text \<open>The variables of package buildcfg, which the linker can set to other values.\<close>

record build_config =
  bc_Version :: string
  bc_ServerAddr :: string
  bc_ServerPort :: string
  bc_AgentListenPort :: string
  bc_ServerRegistry :: string
  bc_ServerLock :: string
  bc_AdminSecret :: string
  bc_AllowLoopbackServer :: string

definition build_defaults :: build_config where
  "build_defaults =
     \<lparr>bc_Version = ''1.23.00406'', bc_ServerAddr = ''127.0.0.1'', bc_ServerPort = ''9999'',
      bc_AgentListenPort = ''2222'', bc_ServerRegistry = [], bc_ServerLock = [], bc_AdminSecret = [],
      bc_AllowLoopbackServer = ''false''\<rparr>"

definition mustAtoi :: "string \<Rightarrow> int \<Rightarrow> int" where
  "mustAtoi value fallback = (case Atoi (TrimSpace value) of None \<Rightarrow> fallback | Some n \<Rightarrow> n)"

section \<open>Arguments\<close>

record runtime_config =
  rc_Port :: int
  rc_RegistryPath :: string
  rc_LockPath :: string
  rc_AdminSecret :: string

text \<open>A file in the directory .trish of the user's home, which may not be known.\<close>

definition in_home :: "filepath_lib \<Rightarrow> string result \<Rightarrow> string \<Rightarrow> string" where
  "in_home P home name = (case home of Inl e \<Rightarrow> name | Inr h \<Rightarrow> fp_Join P [h, ''.trish'', name])"

definition defaultRegistryPath :: "filepath_lib \<Rightarrow> string result \<Rightarrow> string" where
  "defaultRegistryPath P home = in_home P home ''registry.json''"

definition defaultLockPath :: "filepath_lib \<Rightarrow> string result \<Rightarrow> string" where
  "defaultLockPath P home = in_home P home ''server.lock''"

definition defaultRuntimeConfig :: "build_config \<Rightarrow> filepath_lib \<Rightarrow> string result \<Rightarrow> runtime_config" where
  "defaultRuntimeConfig B P home =
     \<lparr>rc_Port = mustAtoi (bc_ServerPort B) 9999,
      rc_RegistryPath =
        (if TrimSpace (bc_ServerRegistry B) \<noteq> [] then bc_ServerRegistry B else defaultRegistryPath P home),
      rc_LockPath = (if TrimSpace (bc_ServerLock B) \<noteq> [] then bc_ServerLock B else defaultLockPath P home),
      rc_AdminSecret = bc_AdminSecret B\<rparr>"

text \<open>A flag with one or two dashes, and what stands after its first equals sign.\<close>

definition has_flag :: "string \<Rightarrow> string \<Rightarrow> bool" where
  "has_flag name a \<longleftrightarrow> HasPrefix a (''-'' @ name @ ''='') \<or> HasPrefix a (''--'' @ name @ ''='')"

definition after_equals :: "string \<Rightarrow> string" where
  "after_equals a = drop 1 (dropWhile (\<lambda>c. c \<noteq> CHR ''='') a)"

text \<open>log.Fatalf on a bad port ends the program: Inl.\<close>

fun applyArgs :: "string list \<Rightarrow> runtime_config \<Rightarrow> runtime_config result" where
  "applyArgs [] cfg = Inr cfg"
| "applyArgs (a # as) cfg =
     (if has_flag ''port'' a then
        (case Atoi (after_equals a) of
           None \<Rightarrow> Inl (Errorf (''invalid port: '' @ after_equals a))
         | Some n \<Rightarrow> applyArgs as (cfg\<lparr>rc_Port := n\<rparr>))
      else if has_flag ''registry'' a then applyArgs as (cfg\<lparr>rc_RegistryPath := after_equals a\<rparr>)
      else if has_flag ''lock'' a then applyArgs as (cfg\<lparr>rc_LockPath := after_equals a\<rparr>)
      else if has_flag ''admin-secret'' a then applyArgs as (cfg\<lparr>rc_AdminSecret := after_equals a\<rparr>)
      else applyArgs as cfg)"

text \<open>The mode is the first argument, unless that is a flag.\<close>

definition take_mode :: "string \<Rightarrow> string list \<Rightarrow> string \<times> string list" where
  "take_mode mode args =
     (case args of
        [] \<Rightarrow> (mode, [])
      | a # as \<Rightarrow> (if \<not> HasPrefix a ''-'' then (a, as) else (mode, args)))"

section \<open>Setting up the service\<close>

text \<open>How the program ends: with an exit code, or because a bound on the polls was too small.\<close>

datatype program_end = Exits int | OutOfFuel

definition fatalServer :: "win_env \<Rightarrow> go_error \<Rightarrow> program_end winm" where
  "fatalServer E e = do {
     println (''server error: '' @ error_text e);
     println ''La fenetre restera ouverte 10 secondes pour laisser lire l'erreur.'';
     _ \<leftarrow> act E (Slept (10 * second));
     ret (Exits 1) }"

definition or_fatal :: "win_env \<Rightarrow> outcome \<Rightarrow> program_end winm" where
  "or_fatal E x = (case x of Fine \<Rightarrow> ret (Exits 0) | Failed e \<Rightarrow> fatalServer E e | Starved \<Rightarrow> ret OutOfFuel)"

definition setup_options :: "runtime_config \<Rightarrow> string \<Rightarrow> service_options" where
  "setup_options cfg data =
     \<lparr>so_Port = rc_Port cfg, so_RegistryPath = rc_RegistryPath cfg, so_LockPath = rc_LockPath cfg,
      so_AdminSecret = rc_AdminSecret cfg, so_ConfigData = data, so_NoStart = False\<rparr>"

definition server_runInstall :: "nat \<Rightarrow> runtime_config codec \<Rightarrow> win_env \<Rightarrow> runtime_config \<Rightarrow> program_end winm" where
  "server_runInstall fuel J E cfg = do {
     println ''=== Trish Server Setup ==='';
     case Marshal J cfg of
       Inl e \<Rightarrow> fatalServer E e
     | Inr data \<Rightarrow> do { x \<leftarrow> InstallOrRepairService fuel E (setup_options cfg data); or_fatal E x } }"

definition server_runInstallCheck :: "runtime_config codec \<Rightarrow> win_env \<Rightarrow> runtime_config \<Rightarrow> program_end winm" where
  "server_runInstallCheck J E cfg = do {
     println ''=== Trish Server Install Check ==='';
     case Marshal J cfg of
       Inl e \<Rightarrow> fatalServer E e
     | Inr data \<Rightarrow> do { x \<leftarrow> InstallCheckService E (setup_options cfg data); or_fatal E x } }"

definition server_runRepair :: "nat \<Rightarrow> runtime_config codec \<Rightarrow> win_env \<Rightarrow> runtime_config \<Rightarrow> program_end winm" where
  "server_runRepair fuel J E cfg = do {
     println ''=== Trish Server Repair ==='';
     case Marshal J cfg of
       Inl e \<Rightarrow> fatalServer E e
     | Inr data \<Rightarrow> do { x \<leftarrow> InstallOrRepairService fuel E (setup_options cfg data); or_fatal E x } }"

definition server_runUninstall :: "win_env \<Rightarrow> program_end winm" where
  "server_runUninstall E = do {
     println ''=== Trish Server Uninstall ==='';
     x \<leftarrow> UninstallService E;
     or_fatal E x }"

section \<open>Starting the server\<close>

text \<open>
  What a start meets: the attempts at the lock, the loading of the registry, the directory of the
  stores, the listener, and the removal of the lock file.
\<close>

record 'r start_env =
  st_lock :: "lock_env list"
  st_pid :: int
  st_lib :: "'r srv_lib"
  st_registry :: "string \<Rightarrow> disk \<Rightarrow> 'r result"
  st_mkdir :: "go_error option"
  st_listen :: "int \<Rightarrow> go_error option"
  st_release :: lock_env

type_synonym 'r start_result = "(disk \<times> (process_lock \<times> 'r server) result) option"

text \<open>None: AcquireProcessLock made more attempts than there are environments.\<close>

definition startServer :: "'r start_env \<Rightarrow> runtime_config \<Rightarrow> disk \<Rightarrow> 'r start_result" where
  "startServer S cfg fs =
     (case AcquireProcessLock (st_lock S) (st_pid S) (rc_LockPath cfg) fs of
        None \<Rightarrow> None
      | Some (fs1, Inl e) \<Rightarrow> Some (fs1, Inl e)
      | Some (fs1, Inr lock) \<Rightarrow>
          (case NewServer (st_lib S) (st_registry S) (st_mkdir S) (rc_RegistryPath cfg) (rc_AdminSecret cfg) fs1 of
             Inl e \<Rightarrow> Some (lock_Release (st_release S) (Some lock) fs1, Inl e)
           | Inr srv \<Rightarrow>
               (case st_listen S (rc_Port cfg) of
                  Some e \<Rightarrow> Some (lock_Release (st_release S) (Some lock) fs1, Inl e)
                | None \<Rightarrow> Some (fs1, Inr (lock, srv)))))"

text \<open>runServerForeground: what it prints; it serves until it is killed, or exits with code 1.\<close>

definition runServerForeground :: "'r start_env \<Rightarrow> runtime_config \<Rightarrow> disk \<Rightarrow> (disk \<times> string list \<times> int option) option" where
  "runServerForeground S cfg fs =
     (case startServer S cfg fs of
        None \<Rightarrow> None
      | Some (fs', Inl e) \<Rightarrow> Some (fs',
          [''server startup error: '' @ error_text e,
           ''La fenetre restera ouverte 10 secondes pour laisser lire l'erreur.''], Some 1)
      | Some (fs', Inr _) \<Rightarrow> Some (fs',
          [''=== Trish Server ==='', ''Listening on :'' @ Itoa (rc_Port cfg),
           ''Registry: '' @ rc_RegistryPath cfg, ''Lock: '' @ rc_LockPath cfg], None))"

text \<open>
  run of server/service_windows.go up to the point where it waits to be stopped; an error of
  reading the file is the argument \<open>rd\<close>. The deferred calls release the lock on every error,
  and after Stop when the service is stopped.
\<close>

definition check_config :: "runtime_config \<Rightarrow> go_error option" where
  "check_config cfg =
     (if TrimSpace (rc_RegistryPath cfg) = [] then Some (Errorf ''server registry path is required'')
      else if TrimSpace (rc_LockPath cfg) = [] then Some (Errorf ''server lock path is required'')
      else if rc_Port cfg \<le> 0 then Some (Errorf ''server port is invalid'')
      else None)"

definition service_run ::
  "go_error option \<Rightarrow> runtime_config codec \<Rightarrow> 'r start_env \<Rightarrow> string \<Rightarrow> disk \<Rightarrow> 'r start_result" where
  "service_run rd J S path fs =
     (case (case rd of Some e \<Rightarrow> Inl e | None \<Rightarrow> read_file path fs) of
        Inl e \<Rightarrow> Some (fs, Inl e)
      | Inr cfgData \<Rightarrow>
          (case Unmarshal J cfgData of
             Inl e \<Rightarrow> Some (fs, Inl e)
           | Inr cfg \<Rightarrow>
               (case check_config cfg of
                  Some e \<Rightarrow> Some (fs, Inl e)
                | None \<Rightarrow>
                    (case AcquireProcessLock (st_lock S) (st_pid S) (rc_LockPath cfg) fs of
                       None \<Rightarrow> None
                     | Some (fs1, Inl e) \<Rightarrow> Some (fs1, Inl e)
                     | Some (fs1, Inr lock) \<Rightarrow>
                         (let deferred = lock_Release (st_release S) (Some lock) in
                          case NewServer (st_lib S) (st_registry S) (st_mkdir S) (rc_RegistryPath cfg)
                                 (rc_AdminSecret cfg) fs1 of
                            Inl e \<Rightarrow> Some (deferred fs1, Inl e)
                          | Inr srv \<Rightarrow>
                              (case st_listen S (rc_Port cfg) of
                                 Some e \<Rightarrow> Some (deferred fs1, Inl e)
                               | None \<Rightarrow> Some (fs1, Inr (lock, srv))))))))"

text \<open>The release of a server that has started: release of main.go, and the deferred calls of run.\<close>

definition stop_server :: "lock_env \<Rightarrow> process_lock \<Rightarrow> disk \<Rightarrow> disk" where
  "stop_server v lock fs = lock_Release v (Some lock) fs"

section \<open>The program\<close>

datatype server_job =
    Setup "program_end winm"
  | RunService
  | Foreground runtime_config
  | Refused "string list"

text \<open>main: what is to be done for the arguments, before it is done.\<close>

definition server_main ::
  "nat \<Rightarrow> runtime_config codec \<Rightarrow> win_env \<Rightarrow> build_config \<Rightarrow> filepath_lib \<Rightarrow> string result \<Rightarrow> string list \<Rightarrow> server_job" where
  "server_main fuel J E B P home args0 =
     (case take_mode ''run-foreground'' args0 of (mode, args) \<Rightarrow>
        (case applyArgs args (defaultRuntimeConfig B P home) of
           Inl e \<Rightarrow> Refused [error_text e]
         | Inr cfg \<Rightarrow>
             if mode = ''install'' then Setup (server_runInstall fuel J E cfg)
             else if mode = ''install-check'' then Setup (server_runInstallCheck J E cfg)
             else if mode = ''repair'' then Setup (server_runRepair fuel J E cfg)
             else if mode = ''uninstall'' then Setup (server_runUninstall E)
             else if mode = ''run-service'' then RunService
             else if mode = ''run-foreground'' then Foreground cfg
             else Refused [''unknown mode: '' @ mode,
               ''modes: install, install-check, repair, uninstall, run-service, run-foreground'']))"

section \<open>Other systems\<close>

text \<open>server/service_nonwindows.go: the same operations where there are no Windows services.\<close>

definition nonwindows_service_mode :: go_error where
  "nonwindows_service_mode = Errorf ''windows service mode is only available on Windows''"

definition nonwindows_installation :: go_error where
  "nonwindows_installation = Errorf ''windows service installation is only available on Windows''"

definition nonwindows_InstallOrRepairService :: "service_options \<Rightarrow> go_error option" where
  "nonwindows_InstallOrRepairService opts = Some nonwindows_installation"

definition nonwindows_InstallCheckService :: "service_options \<Rightarrow> go_error option" where
  "nonwindows_InstallCheckService opts = Some nonwindows_installation"

definition nonwindows_UninstallService :: "go_error option" where
  "nonwindows_UninstallService = Some nonwindows_installation"

definition nonwindows_SaveServiceConfig :: "string \<Rightarrow> go_error option" where
  "nonwindows_SaveServiceConfig data = Some nonwindows_installation"

definition nonwindows_DefaultConfigPath :: string where
  "nonwindows_DefaultConfigPath = []"

end
