(* ===== verification/Server_Start.thy ===== *)
theory Server_Start
  imports Server_Program Install_Props Server_Laws
begin

text \<open>
  Starting the server: a start that fails leaves no lock behind, a start that succeeds keeps
  others out, and the service that the installer sets up starts as the program does in the
  foreground with the same arguments.
\<close>

section \<open>Locks\<close>

lemma acquired_lock:
  "AcquireProcessLock vs pid path fs = Some (fs1, Inr lock) \<Longrightarrow>
   fs1 path = Some (Itoa pid) \<and> pl_path lock = path"
  by (induction vs pid path fs rule: AcquireProcessLock.induct)
    (auto split: option.splits if_splits prod.splits sum.splits bool.splits)

lemma released_lock:
  "le_remove v = None \<Longrightarrow> pl_path lock \<noteq> [] \<Longrightarrow> lock_Release v (Some lock) fs = fs(pl_path lock := None)"
  by (simp add: lock_Release_def lock_remove_def)

lemma start_success:
  assumes "startServer S cfg fs = Some (fs1, Inr (lock, srv))"
  shows "fs1 (rc_LockPath cfg) = Some (Itoa (st_pid S)) \<and> pl_path lock = rc_LockPath cfg \<and>
    NewServer (st_lib S) (st_registry S) (st_mkdir S) (rc_RegistryPath cfg) (rc_AdminSecret cfg) fs1 = Inr srv \<and>
    st_listen S (rc_Port cfg) = None"
  using assms acquired_lock unfolding startServer_def
  by (auto split: option.splits prod.splits sum.splits)

section \<open>The installer and the service\<close>

text \<open>The installer refuses what the service would refuse.\<close>

lemma validate_iff_check:
  "validateInstallOptions (setup_options cfg data) = None \<longleftrightarrow> check_config cfg = None \<and> data \<noteq> []"
  by (auto simp: validateInstallOptions_def setup_options_def check_config_def split: if_splits)

text \<open>The one thing an installation of the server writes.\<close>

abbreviation writes_config :: "win_env \<Rightarrow> service_options \<Rightarrow> win_action \<Rightarrow> bool" where
  "writes_config E opts a \<equiv> is_write a \<longrightarrow> a = Wrote (server_ConfigPath E) (so_ConfigData opts)"

lemma no_write [simp]:
  "\<not> is_write (Ran n as)" "\<not> is_write (MadeDir d)" "\<not> is_write AskedExe" "\<not> is_write (Copied s d)"
  "\<not> is_write (Slept t)" "\<not> is_write (query svc)"
  by (simp_all add: is_write_def query_def)

lemma does_if: "does P m \<Longrightarrow> does P k \<Longrightarrow> does P (if b then m else k)"
  by simp

lemma wait_writes: "does (writes_config E opts) (wait_loop n E svc expected deadline)"
proof (induction n)
  case (Suc n)
  then show ?case by (auto simp: queryServiceState_def intro!: does_bind)
qed simp

lemma tools_write [simp]:
  "does (writes_config E opts) (ensureAdmin E err)" "does (writes_config E opts) (stopServiceIfPresent n E svc)"
  "does (writes_config E opts) (startServiceAndWait n E svc)" "does (writes_config E opts) (failure_actions E svc)"
  "does (writes_config E opts) (register_service E svc display exe)"
  "does (writes_config E opts) (try_act E (MadeDir d))" "does (writes_config E opts) (try_act E (Copied s d))"
  "does (writes_config E opts) (SaveServiceConfig E (so_ConfigData opts))"
proof -
  have wait: "does (writes_config E opts) (waitForServiceState n E svc expected t)" for n svc expected t
    unfolding waitForServiceState_def by (intro does_bind wait_writes) simp
  have run: "does (writes_config E opts) (runVisible E name args)" "does (writes_config E opts) (runHidden E name args)"
    for name args by (auto simp: runVisible_def runHidden_def try_act_def intro!: does_bind split: prod.split)
  show "does (writes_config E opts) (ensureAdmin E err)" "does (writes_config E opts) (failure_actions E svc)"
    "does (writes_config E opts) (try_act E (MadeDir d))" "does (writes_config E opts) (try_act E (Copied s d))"
    "does (writes_config E opts) (SaveServiceConfig E (so_ConfigData opts))"
    by (auto simp: ensureAdmin_def failure_actions_def try_act_def SaveServiceConfig_def
        intro!: does_bind does_check run split: prod.split)
  show "does (writes_config E opts) (stopServiceIfPresent n E svc)"
    "does (writes_config E opts) (startServiceAndWait n E svc)"
    "does (writes_config E opts) (register_service E svc display exe)"
    by (auto simp: stopServiceIfPresent_def startServiceAndWait_def register_service_def serviceExists_def
        queryServiceState_def Let_def intro!: does_bind does_if run wait split: outcome.split)
qed

lemma does_exe: "P AskedExe \<Longrightarrow> (\<And>exe. does P (k exe)) \<Longrightarrow> does P (then_exe E k)"
  unfolding then_exe_def by (auto intro!: does_bind split: prod.split option.split)

lemma service_install_writes: "does (writes_config E opts) (InstallOrRepairService fuel E opts)"
proof (cases "validateInstallOptions opts")
  case None
  show ?thesis
    unfolding InstallOrRepairService_def None option.case
    by (intro does_check does_exe does_if tools_write does_bind [where m = "say _"]
        does_bind [where m = "failure_actions _ _"] does_say does_ret) simp_all
next
  case (Some e)
  show ?thesis unfolding InstallOrRepairService_def Some option.case by simp
qed

lemma registered_wrote: "orderly E svc tr \<Longrightarrow> done_ok E is_register tr \<Longrightarrow> done_ok E is_write tr"
  unfolding orderly_def done_ok_def allowed_def by (metis append.assoc append_Cons)

lemma done_ok_all: "done_ok E K tr \<Longrightarrow> list_all (\<lambda>a. K a \<longrightarrow> L a) tr \<Longrightarrow> done_ok E L tr"
  unfolding done_ok_def list_all_iff by fastforce

lemma installed_config:
  assumes "wn_trace w = []" and "run_state (InstallOrRepairService fuel E opts) w = (Fine, w')"
  shows "done_ok E (\<lambda>a. a = Wrote (server_ConfigPath E) (so_ConfigData opts)) (wn_trace w')"
proof -
  have "orderly E ServerServiceName (wn_trace w') \<and> done_ok E is_register (wn_trace w')"
    using validD [OF service_install_valid assms(2)] assms(1)
    by (simp add: stage_def running_goal_def ends_def)
  then have "done_ok E is_write (wn_trace w')" using registered_wrote by blast
  moreover have "list_all (writes_config E opts) (wn_trace w')"
    using doesD [OF service_install_writes assms(2)] assms(1) by auto
  ultimately show ?thesis by (rule done_ok_all)
qed

lemma installed_valid:
  "run_state (InstallOrRepairService fuel E opts) w = (Fine, w') \<Longrightarrow> validateInstallOptions opts = None"
  by (cases "validateInstallOptions opts") (simp_all add: InstallOrRepairService_def)

text \<open>run starts the server exactly as the program does, once the configuration is read and checked.\<close>

lemma service_run_start:
  assumes "read_file path fs = Inr data" and "Unmarshal J data = Inr cfg" and "check_config cfg = None"
  shows "service_run None J S path fs = startServer S cfg fs"
  unfolding service_run_def startServer_def Let_def using assms by simp

lemma exits_0: "run_state (or_fatal E x) w = (Exits 0, w') \<Longrightarrow> x = Fine \<and> w = w'"
  by (cases x) (simp_all add: or_fatal_def fatalServer_def)

section \<open>Properties\<close>

text \<open>
  A start that fails leaves no lock of its own behind: either the lock was not to be had and
  nothing was done after that, or its file is gone again.
\<close>

theorem failed_start_unlocks:
  assumes "startServer S cfg fs = Some (fs', Inl e)"
    and "le_remove (st_release S) = None" and "rc_LockPath cfg \<noteq> []"
  shows "AcquireProcessLock (st_lock S) (st_pid S) (rc_LockPath cfg) fs = Some (fs', Inl e) \<or>
    fs' (rc_LockPath cfg) = None"
  using assms acquired_lock released_lock unfolding startServer_def
  by (auto split: option.splits prod.splits sum.splits)

text \<open>
  Property C24. A server that has started keeps others out: while tasklist shows its process, no other start
  with the same lock gets further than the lock, and it changes no file. After the server has
  been stopped the lock is free again.
\<close>

theorem start_exclusive:
  assumes "startServer S cfg fs = Some (fs1, Inr (lock, srv))"
    and "0 \<le> st_pid S" and "int64 (st_pid S)" and "rc_LockPath cfg \<noteq> []"
    and "st_lock S' = calm t # vs" and "reports_running t (st_pid S)" and "rc_LockPath cfg' = rc_LockPath cfg"
  shows "startServer S' cfg' fs1 =
      Some (fs1, Inl (Errorf (''server already running (lock: '' @ rc_LockPath cfg @ '')''))) \<and>
    stop_server (calm t') lock fs1 = fs1(rc_LockPath cfg := None)"
proof -
  note s = start_success [OF assms(1)]
  have "AcquireProcessLock (st_lock S') (st_pid S') (rc_LockPath cfg') fs1 =
      Some (fs1, Inl (Errorf (''server already running (lock: '' @ rc_LockPath cfg @ '')'')))"
    unfolding assms(5,7)
    using acquire_running [of fs1 "rc_LockPath cfg" "Itoa (st_pid S)" "st_pid S" t] s
      lock_content [OF assms(2,3)] assms(6) by blast
  then show ?thesis
    using s assms(4) released_lock [of "calm t'" lock fs1] by (simp add: startServer_def stop_server_def)
qed

text \<open>
  Property C23. What the installer sets up is what was asked for: when the installation of the server ends
  well, its configuration has been written, and a service that finds it starts exactly the
  server that the program would start in the foreground.
\<close>

theorem installed_service_starts:
  assumes "wn_trace w = []" and "run_state (server_runInstall fuel J E cfg) w = (Exits 0, w')"
    and "codec_ok P J" and "P cfg"
  shows "\<exists>data. done_ok E (\<lambda>a. a = Wrote (server_ConfigPath E) data) (wn_trace w') \<and>
    (\<forall>fs S. fs (server_ConfigPath E) = Some data \<longrightarrow>
       service_run None J S (server_ConfigPath E) fs = startServer S cfg fs)"
proof -
  obtain data where d: "Marshal J cfg = Inr data" "Unmarshal J data = Inr cfg" using assms(3,4) by (rule codec_okE)
  let ?o = "setup_options cfg data"
  define w0 where "w0 = w\<lparr>wn_said := wn_said w @ [''=== Trish Server Setup ==='']\<rparr>"
  obtain x w1 where r: "run_state (InstallOrRepairService fuel E ?o) w0 = (x, w1)" by fastforce
  have "run_state (or_fatal E x) w1 = (Exits 0, w')"
    using assms(2) unfolding server_runInstall_def d(1) sum.case run_state_bind run_println prod.case
      w0_def [symmetric] r .
  then have "x = Fine \<and> w1 = w'" by (rule exits_0)
  with r have r: "run_state (InstallOrRepairService fuel E ?o) w0 = (Fine, w')" by simp
  have "so_ConfigData ?o = data" by (simp add: setup_options_def)
  then have "done_ok E (\<lambda>a. a = Wrote (server_ConfigPath E) data) (wn_trace w')"
    using installed_config [OF _ r] assms(1) by (simp add: w0_def)
  moreover have "check_config cfg = None" using installed_valid [OF r] validate_iff_check by blast
  moreover have "service_run None J S (server_ConfigPath E) fs = startServer S cfg fs"
    if "check_config cfg = None" "fs (server_ConfigPath E) = Some data" for fs S
    by (rule service_run_start [OF _ d(2) that(1)]) (simp add: read_file_def that(2))
  ultimately show ?thesis by blast
qed

section \<open>Witnesses\<close>

definition server_codec :: "runtime_config codec" where
  "server_codec = \<lparr>Marshal = (\<lambda>c. Inr ''config''),
     Unmarshal = (\<lambda>d. Inr \<lparr>rc_Port = 7, rc_RegistryPath = ''r'', rc_LockPath = ''l'', rc_AdminSecret = []\<rparr>)\<rparr>"

definition server_config :: runtime_config where
  "server_config = \<lparr>rc_Port = 7, rc_RegistryPath = ''r'', rc_LockPath = ''l'', rc_AdminSecret = []\<rparr>"

theorem installed_service_starts_witness:
  "\<exists>w'. run_state (server_runInstall 21 server_codec tidy_machine server_config) new_win = (Exits 0, w') \<and>
     (\<exists>data. done_ok tidy_machine (\<lambda>a. a = Wrote (server_ConfigPath tidy_machine) data) (wn_trace w'))"
proof -
  have "fst (run_state (server_runInstall 21 server_codec tidy_machine server_config) new_win) = Exits 0"
    by code_simp
  then obtain w' where r: "run_state (server_runInstall 21 server_codec tidy_machine server_config) new_win = (Exits 0, w')"
    by (metis prod.collapse)
  have "codec_ok (\<lambda>c. c = server_config) server_codec" by (simp add: codec_ok_def server_codec_def server_config_def)
  from installed_service_starts [OF _ r this] r show ?thesis by (auto simp: new_win_def)
qed

text \<open>A machine with nothing on its disk, where port 7 is free.\<close>

definition sample_start :: "int \<Rightarrow> entry gomap start_env" where
  "sample_start pid =
     \<lparr>st_lock = [calm (\<lambda>p. Inr [])], st_pid = pid, st_lib = sample_bundle, st_registry = (\<lambda>p fs. Inr []),
      st_mkdir = None, st_listen = (\<lambda>p. if p = 7 then None else Some (Errorf ''port in use'')),
      st_release = calm (\<lambda>p. Inr [])\<rparr>"

lemma sample_starts: "\<exists>srv. startServer (sample_start 42) server_config (\<lambda>p. None) =
  Some ((\<lambda>p. None)(''l'' := Some (Itoa 42)), Inr (\<lparr>pl_path = ''l''\<rparr>, srv))"
  by (simp add: startServer_def sample_start_def server_config_def NewServer_def sample_bundle_def
      newPluginStore_def newGroupStore_def defaultPluginStorePath_def defaultGroupStorePath_def
      ps_load_def gs_load_def read_file_def)

text \<open>tasklist shows the process 42.\<close>

definition tasks_42 :: "int \<Rightarrow> string result" where
  "tasks_42 p = Inr ([CHR 0x22] @ ''42'' @ [CHR 0x22])"

theorem start_exclusive_witness:
  "\<exists>fs1. startServer ((sample_start 43)\<lparr>st_lock := [calm tasks_42]\<rparr>) server_config fs1 =
     Some (fs1, Inl (Errorf (''server already running (lock: l)'')))"
proof -
  obtain srv where s: "startServer (sample_start 42) server_config (\<lambda>p. None) =
      Some ((\<lambda>p. None)(''l'' := Some (Itoa 42)), Inr (\<lparr>pl_path = ''l''\<rparr>, srv))" using sample_starts by blast
  have r: "reports_running tasks_42 (st_pid (sample_start 42))" by (simp add: sample_start_def) code_simp
  have "startServer ((sample_start 43)\<lparr>st_lock := [calm tasks_42]\<rparr>) server_config
      ((\<lambda>p. None)(''l'' := Some (Itoa 42))) = Some ((\<lambda>p. None)(''l'' := Some (Itoa 42)),
      Inl (Errorf (''server already running (lock: '' @ rc_LockPath server_config @ '')'')))"
    by (rule start_exclusive [OF s _ _ _ _ r, THEN conjunct1])
      (simp_all add: sample_start_def int64_def server_config_def)
  then show ?thesis by (intro exI) (simp add: server_config_def)
qed

theorem failed_start_unlocks_witness:
  "\<exists>fs' e. startServer (sample_start 42) (server_config\<lparr>rc_Port := 8\<rparr>) (\<lambda>p. None) = Some (fs', Inl e) \<and> fs' ''l'' = None"
proof -
  let ?cfg = "server_config\<lparr>rc_Port := 8\<rparr>"
  obtain fs' where s: "startServer (sample_start 42) ?cfg (\<lambda>p. None) = Some (fs', Inl (Errorf ''port in use''))"
    by (simp add: startServer_def sample_start_def server_config_def NewServer_def sample_bundle_def
      newPluginStore_def newGroupStore_def defaultPluginStorePath_def defaultGroupStorePath_def
      ps_load_def gs_load_def read_file_def)
  have "AcquireProcessLock (st_lock (sample_start 42)) (st_pid (sample_start 42)) (rc_LockPath ?cfg) (\<lambda>p. None) \<noteq>
      Some (fs', Inl (Errorf ''port in use''))" by (simp add: sample_start_def)
  with failed_start_unlocks [OF s] s show ?thesis by (auto simp: sample_start_def server_config_def)
qed

section \<open>Arguments\<close>

text \<open>The four flags set the four fields, whatever they were before.\<close>

lemma server_flags:
  assumes "int64 n"
  shows "applyArgs [''-port='' @ Itoa n, ''-registry='' @ r, ''--lock='' @ l, ''-admin-secret='' @ s] cfg =
    Inr \<lparr>rc_Port = n, rc_RegistryPath = r, rc_LockPath = l, rc_AdminSecret = s\<rparr>"
  using Atoi_Itoa [OF assms] by (simp add: has_flag_def HasPrefix_def after_equals_def)

end
