(* ===== verification/Server_Tools.thy ===== *)
theory Server_Tools
  imports Windows_Install
begin

text \<open>
  The tools that server/service_windows.go has a second time, translated from there: the two
  files hold copies that nothing keeps in step. Then copyFile, which both installers use and
  which Win_World takes as one action.
\<close>

section \<open>The tools of the server\<close>

definition server_ensureAdmin :: "win_env \<Rightarrow> outcome winm" where
  "server_ensureAdmin E = do {
     (text, e) \<leftarrow> act E (Ran ''net'' [''session'']);
     case e of Some err \<Rightarrow> ret (Failed (Errorf ''administrator privileges are required'')) | None \<Rightarrow> ret Fine }"

definition server_serviceExists :: "win_env \<Rightarrow> bool winm" where
  "server_serviceExists E = do {
     (text, e) \<leftarrow> act E (Ran ''sc.exe'' [''query'', ServerServiceName]);
     ret (e = None) }"

definition server_queryServiceState :: "win_env \<Rightarrow> string result winm" where
  "server_queryServiceState E = do {
     (output, e) \<leftarrow> act E (Ran ''sc.exe'' [''query'', ServerServiceName]);
     case e of
       Some err \<Rightarrow> ret (Inl (Errorf (''sc.exe query failed: '' @ error_text err @ '' ('' @ TrimSpace output @ '')'')))
     | None \<Rightarrow>
         (case find_state (split_lines [] output) of
            Some state \<Rightarrow> ret (Inr state)
          | None \<Rightarrow> ret (Inl (Errorf ''unable to parse service state''))) }"

fun server_wait_loop :: "nat \<Rightarrow> win_env \<Rightarrow> string \<Rightarrow> instant \<Rightarrow> outcome winm" where
  "server_wait_loop 0 E expected deadline = ret Starved"
| "server_wait_loop (Suc n) E expected deadline = do {
     t \<leftarrow> now E;
     if t < deadline then do {
       s \<leftarrow> server_queryServiceState E;
       case s of
         Inr state \<Rightarrow>
           if state = expected then ret Fine
           else do { _ \<leftarrow> act E (Slept (1 * second)); server_wait_loop n E expected deadline }
       | Inl e \<Rightarrow> do { _ \<leftarrow> act E (Slept (1 * second)); server_wait_loop n E expected deadline } }
     else do {
       s \<leftarrow> server_queryServiceState E;
       case s of
         Inl e \<Rightarrow> ret (Failed e)
       | Inr state \<Rightarrow> ret (Failed (Errorf (''service '' @ ServerServiceName @ '' did not reach state '' @ expected @
           '' (current='' @ state @ '')''))) } }"

definition server_waitForServiceState :: "nat \<Rightarrow> win_env \<Rightarrow> string \<Rightarrow> duration \<Rightarrow> outcome winm" where
  "server_waitForServiceState fuel E expected timeout = do {
     t \<leftarrow> now E;
     server_wait_loop fuel E expected (t + timeout) }"

definition server_runVisible :: "win_env \<Rightarrow> string \<Rightarrow> string list \<Rightarrow> outcome winm" where
  "server_runVisible E name args = do {
     (output, e) \<leftarrow> act E (Ran name args);
     case e of
       Some err \<Rightarrow> ret (Failed (Errorf (name @ '' ['' @ join '' '' args @ ''] failed: '' @ error_text err @
         '' ('' @ TrimSpace output @ '')'')))
     | None \<Rightarrow> ret Fine }"

definition server_runHidden :: "win_env \<Rightarrow> string \<Rightarrow> string list \<Rightarrow> outcome winm" where
  "server_runHidden E name args = do { (output, e) \<leftarrow> act E (Ran name args); ret (of_error e) }"

definition server_stopServiceIfPresent :: "nat \<Rightarrow> win_env \<Rightarrow> outcome winm" where
  "server_stopServiceIfPresent fuel E = do {
     present \<leftarrow> server_serviceExists E;
     if \<not> present then ret Fine
     else do {
       s \<leftarrow> server_queryServiceState E;
       if s = Inr ''STOPPED'' then ret Fine
       else do {
         _ \<leftarrow> server_runHidden E ''sc.exe'' [''stop'', ServerServiceName];
         server_waitForServiceState fuel E ''STOPPED'' (20 * second) } } }"

definition server_startServiceAndWait :: "nat \<Rightarrow> win_env \<Rightarrow> outcome winm" where
  "server_startServiceAndWait fuel E = do {
     x \<leftarrow> server_runVisible E ''sc.exe'' [''start'', ServerServiceName];
     case x of
       Failed e \<Rightarrow>
         if \<not> Contains (ToLower (error_text e)) ''service has already been started'' then ret x
         else server_waitForServiceState fuel E ''RUNNING'' (20 * second)
     | _ \<Rightarrow> server_waitForServiceState fuel E ''RUNNING'' (20 * second) }"

section \<open>The copies agree\<close>

lemma same_runs: "(\<And>w. run_state m w = run_state m' w) \<Longrightarrow> m = m'"
  by (intro state.expand ext)

lemma server_query_same: "server_queryServiceState E = queryServiceState E ServerServiceName"
  by (rule same_runs)
    (simp add: server_queryServiceState_def queryServiceState_def state_of_answer_def query_def run_state_bind
      split: prod.split option.split)

lemma server_tools_same:
  "server_ensureAdmin E = ensureAdmin E server_admin_error"
  "server_serviceExists E = serviceExists E ServerServiceName"
  "server_runVisible E = runVisible E"
  "server_runHidden E = runHidden E"
proof -
  show "server_ensureAdmin E = ensureAdmin E server_admin_error"
    by (rule same_runs)
      (simp add: server_ensureAdmin_def ensureAdmin_def server_admin_error_def run_state_bind split: prod.split option.split)
  show "server_serviceExists E = serviceExists E ServerServiceName"
    by (simp add: server_serviceExists_def serviceExists_def query_def)
  show "server_runVisible E = runVisible E"
    by (intro ext same_runs)
      (simp add: server_runVisible_def runVisible_def run_state_bind split: prod.split option.split)
  show "server_runHidden E = runHidden E"
    by (intro ext) (simp add: server_runHidden_def runHidden_def try_act_def)
qed

lemma server_wait_same: "server_wait_loop n E expected deadline = wait_loop n E ServerServiceName expected deadline"
proof (induction n)
  case (Suc n)
  show ?case
    by (rule same_runs) (simp add: server_query_same Suc run_state_bind split: prod.split sum.split)
qed simp

text \<open>
  The tools of the server do what the tools of the agent do for the name of the server's service,
  whatever the machine answers: what is proved of the installers holds for the code of both files.
\<close>

theorem server_copies_agree:
  "server_ensureAdmin E = ensureAdmin E server_admin_error \<and>
   server_serviceExists E = serviceExists E ServerServiceName \<and>
   server_queryServiceState E = queryServiceState E ServerServiceName \<and>
   server_waitForServiceState fuel E expected timeout = waitForServiceState fuel E ServerServiceName expected timeout \<and>
   server_stopServiceIfPresent fuel E = stopServiceIfPresent fuel E ServerServiceName \<and>
   server_startServiceAndWait fuel E = startServiceAndWait fuel E ServerServiceName"
proof (intro conjI server_tools_same server_query_same)
  have wait: "server_waitForServiceState fuel E = waitForServiceState fuel E ServerServiceName"
    by (intro ext) (simp add: server_waitForServiceState_def waitForServiceState_def server_wait_same)
  show "server_waitForServiceState fuel E expected timeout = waitForServiceState fuel E ServerServiceName expected timeout"
    by (simp add: wait)
  show "server_stopServiceIfPresent fuel E = stopServiceIfPresent fuel E ServerServiceName"
    unfolding server_stopServiceIfPresent_def stopServiceIfPresent_def server_tools_same server_query_same wait by (rule refl)
  show "server_startServiceAndWait fuel E = startServiceAndWait fuel E ServerServiceName"
    unfolding server_startServiceAndWait_def startServiceAndWait_def server_tools_same wait
    by (intro arg_cong [where f = "State_Monad.bind _"] ext) (simp split: outcome.split)
qed

section \<open>Copying the program\<close>

text \<open>What the calls of copyFile meet: opening, creating, an error after some bytes, and closing.\<close>

record copy_env =
  cp_open :: "go_error option"
  cp_create :: "go_error option"
  cp_read :: "(nat \<times> go_error) option"
  cp_close :: "go_error option"

definition copyFile :: "copy_env \<Rightarrow> string \<Rightarrow> string \<Rightarrow> disk \<Rightarrow> disk \<times> go_error option" where
  "copyFile v src dst fs =
     (case (case cp_open v of Some e \<Rightarrow> Inl e | None \<Rightarrow> read_file src fs) of
        Inl e \<Rightarrow> (fs, Some e)
      | Inr content \<Rightarrow>
          (case cp_create v of
             Some e \<Rightarrow> (fs, Some e)
           | None \<Rightarrow>
               (let fs1 = fs(dst := Some []); available = (if src = dst then [] else content) in
                case cp_read v of
                  Some (n, e) \<Rightarrow> (fs1(dst := Some (take n available)), Some e)
                | None \<Rightarrow> (fs1(dst := Some available), cp_close v))))"

text \<open>The installer of the agent has the same function.\<close>

definition agent_copyFile :: "copy_env \<Rightarrow> string \<Rightarrow> string \<Rightarrow> disk \<Rightarrow> disk \<times> go_error option" where
  "agent_copyFile v src dst fs = copyFile v src dst fs"

text \<open>A copy without an error is exact, and no other file is touched.\<close>

lemma copy_exact:
  assumes "copyFile v src dst fs = (fs', None)" and "src \<noteq> dst"
  shows "fs src \<noteq> None \<and> fs' = fs(dst := fs src)"
  using assms by (auto simp: copyFile_def read_file_def Let_def split: option.splits sum.splits prod.splits)

text \<open>
  The target is emptied before anything is copied: an error after that leaves a truncated program
  where the service expects its own, and a program that is copied onto itself is lost without any
  error (Windows refuses to open a program that runs, so there a repair by the installed program fails).
\<close>

lemma copy_truncates:
  "fs src = Some content \<Longrightarrow> src \<noteq> dst \<Longrightarrow>
   copyFile \<lparr>cp_open = None, cp_create = None, cp_read = Some (n, e), cp_close = None\<rparr> src dst fs =
     (fs(dst := Some (take n content)), Some e)"
  by (simp add: copyFile_def read_file_def)

lemma copy_onto_itself:
  "fs p = Some content \<Longrightarrow>
   copyFile \<lparr>cp_open = None, cp_create = None, cp_read = None, cp_close = None\<rparr> p p fs = (fs(p := Some []), None)"
  by (simp add: copyFile_def read_file_def)

end
