(* ===== verification/Service_Status.thy ===== *)
theory Service_Status
  imports Prelude
begin

text \<open>
  The life of a Windows service, which agent/service_windows.go and server/service_windows.go
  have in the same words: serviceMain, the goroutine it starts for run, and the control handler
  run at the same time, and each tells the service manager its state by setStatus. One step
  is one call of the system or one operation on a channel. What run does before it waits for
  the stop channel is one step that fails or succeeds.
\<close>

datatype service_state = StartPending | Running | StopPending | StoppedState

text \<open>What setStatus sends; controls are accepted only while the service says it runs.\<close>

fun state_code :: "service_state \<Rightarrow> 32 word" where
  "state_code StoppedState = 1"
| "state_code StartPending = 2"
| "state_code StopPending = 3"
| "state_code Running = 4"

definition accepted_controls :: "service_state \<Rightarrow> 32 word" where
  "accepted_controls st = (if st = Running then or 1 4 else 0)"

text \<open>serviceMain before each of its calls, and after the last.\<close>

datatype main_phase = Entering | Announced | Spawned | Waiting | Returned

text \<open>The goroutine: run is at work, waits for the stop channel, has ended; then the status is sent and doneCh closed.\<close>

datatype run_phase =
    NotStarted | Starting | Serving
  | Ended "go_error option" | Told "go_error option" | Closed "go_error option"

text \<open>serviceControlHandler: not called, called, and after it reported that it stops.\<close>

datatype ctl_phase = Quiet | Called | Stopping

record service =
  sc_main :: main_phase
  sc_run :: run_phase
  sc_ctl :: ctl_phase
  sc_stop :: bool \<comment> \<open>stopCh is closed\<close>
  sc_reports :: "service_state list" \<comment> \<open>what setStatus sent, in order\<close>

definition new_service :: service where
  "new_service = \<lparr>sc_main = Entering, sc_run = NotStarted, sc_ctl = Quiet, sc_stop = False, sc_reports = []\<rparr>"

definition setStatus :: "service_state \<Rightarrow> service \<Rightarrow> service" where
  "setStatus st s = s\<lparr>sc_reports := sc_reports s @ [st]\<rparr>"

text \<open>stopOnce makes the second stop do nothing.\<close>

definition service_stop :: "service \<Rightarrow> service" where
  "service_stop s = (if sc_stop s then s else s\<lparr>sc_stop := True\<rparr>)"

definition accepts_stop :: "service \<Rightarrow> bool" where
  "accepts_stop s \<longleftrightarrow> sc_reports s \<noteq> [] \<and> and (accepted_controls (last (sc_reports s))) 1 \<noteq> 0"

lemma accepts_running [simp]: "accepts_stop s \<longleftrightarrow> sc_reports s \<noteq> [] \<and> last (sc_reports s) = Running"
  by (auto simp: accepts_stop_def accepted_controls_def)

inductive sstep :: "service \<Rightarrow> service \<Rightarrow> bool" where
  announce: "sc_main s = Entering \<Longrightarrow> sstep s ((setStatus StartPending s)\<lparr>sc_main := Announced\<rparr>)"
| spawn: "sc_main s = Announced \<Longrightarrow> sstep s (s\<lparr>sc_main := Spawned, sc_run := Starting\<rparr>)"
| say_running: "sc_main s = Spawned \<Longrightarrow> sstep s ((setStatus Running s)\<lparr>sc_main := Waiting\<rparr>)"
| main_returns: "sc_main s = Waiting \<Longrightarrow> sc_run s = Closed e \<Longrightarrow> sstep s (s\<lparr>sc_main := Returned\<rparr>)"
| run_fails: "sc_run s = Starting \<Longrightarrow> sstep s (s\<lparr>sc_run := Ended (Some e)\<rparr>)"
| run_serves: "sc_run s = Starting \<Longrightarrow> sstep s (s\<lparr>sc_run := Serving\<rparr>)"
| run_stops: "sc_run s = Serving \<Longrightarrow> sc_stop s \<Longrightarrow> sstep s (s\<lparr>sc_run := Ended None\<rparr>)"
| say_stopped: "sc_run s = Ended e \<Longrightarrow> sstep s ((setStatus StoppedState s)\<lparr>sc_run := Told e\<rparr>)"
| close_done: "sc_run s = Told e \<Longrightarrow> sstep s (s\<lparr>sc_run := Closed e\<rparr>)"
| control: "sc_ctl s = Quiet \<Longrightarrow> accepts_stop s \<Longrightarrow> sc_main s \<noteq> Returned \<Longrightarrow> sstep s (s\<lparr>sc_ctl := Called\<rparr>)"
| say_stopping: "sc_ctl s = Called \<Longrightarrow> sstep s ((setStatus StopPending s)\<lparr>sc_ctl := Stopping\<rparr>)"
| stop_it: "sc_ctl s = Stopping \<Longrightarrow> sstep s ((service_stop s)\<lparr>sc_ctl := Quiet\<rparr>)"

inductive sreach :: "service \<Rightarrow> bool" where
  sreach_init: "sreach new_service"
| sreach_step: "sreach s \<Longrightarrow> sstep s t \<Longrightarrow> sreach t"

inductive_cases sstepE: "sstep s t"

text \<open>What RunServiceMode returns after serviceMain: runErr.\<close>

definition run_error :: "service \<Rightarrow> go_error option" where
  "run_error s = (case sc_run s of Ended e \<Rightarrow> e | Told e \<Rightarrow> e | Closed e \<Rightarrow> e | _ \<Rightarrow> None)"

section \<open>What is sent in which state\<close>

definition told :: "run_phase \<Rightarrow> bool" where
  "told r \<longleftrightarrow> (case r of Told _ \<Rightarrow> True | Closed _ \<Rightarrow> True | _ \<Rightarrow> False)"

definition before_running :: "service \<Rightarrow> bool" where
  "before_running s \<longleftrightarrow> sc_ctl s = Quiet \<and> \<not> sc_stop s \<and>
     (case sc_main s of
        Entering \<Rightarrow> sc_run s = NotStarted \<and> sc_reports s = []
      | Announced \<Rightarrow> sc_run s = NotStarted \<and> sc_reports s = [StartPending]
      | Spawned \<Rightarrow> sc_run s \<noteq> NotStarted \<and>
          sc_reports s = (if told (sc_run s) then [StartPending, StoppedState] else [StartPending])
      | _ \<Rightarrow> False)"

definition while_running :: "service \<Rightarrow> bool" where
  "while_running s \<longleftrightarrow> sc_main s = Waiting \<and> sc_run s \<noteq> NotStarted \<and> \<not> told (sc_run s) \<and>
     (case sc_ctl s of
        Quiet \<Rightarrow> sc_reports s = (if sc_stop s then [StartPending, Running, StopPending] else [StartPending, Running])
      | Called \<Rightarrow> \<not> sc_stop s \<and> sc_reports s = [StartPending, Running]
      | Stopping \<Rightarrow> \<not> sc_stop s \<and> sc_reports s = [StartPending, Running, StopPending])"

definition after_stopped :: "service \<Rightarrow> bool" where
  "after_stopped s \<longleftrightarrow> sc_main s \<in> {Waiting, Returned} \<and> told (sc_run s) \<and>
     (case sc_ctl s of
        Quiet \<Rightarrow> sc_reports s \<in>
          (if sc_stop s then {[StartPending, Running, StopPending, StoppedState],
                              [StartPending, Running, StoppedState, StopPending],
                              [StartPending, StoppedState, Running, StopPending]}
           else {[StartPending, Running, StoppedState], [StartPending, StoppedState, Running]})
      | Called \<Rightarrow> \<not> sc_stop s \<and>
          sc_reports s \<in> {[StartPending, Running, StoppedState], [StartPending, StoppedState, Running]}
      | Stopping \<Rightarrow> \<not> sc_stop s \<and>
          sc_reports s \<in> {[StartPending, Running, StopPending, StoppedState],
                          [StartPending, Running, StoppedState, StopPending],
                          [StartPending, StoppedState, Running, StopPending]})"

definition service_inv :: "service \<Rightarrow> bool" where
  "service_inv s \<longleftrightarrow> (before_running s \<or> while_running s \<or> after_stopped s) \<and>
     (sc_main s = Returned \<longrightarrow> (\<exists>e. sc_run s = Closed e)) \<and>
     (sc_run s \<in> {Ended None, Told None, Closed None} \<longrightarrow> sc_stop s)"

lemmas service_inv_defs = service_inv_def before_running_def while_running_def after_stopped_def told_def

lemma service_inv_step:
  assumes "service_inv s" and "sstep s t"
  shows "service_inv t"
proof -
  obtain m r c b rs where s: "s = \<lparr>sc_main = m, sc_run = r, sc_ctl = c, sc_stop = b, sc_reports = rs\<rparr>"
    by (cases s)
  from assms show ?thesis
    unfolding s
    by (elim sstepE, simp_all add: service_inv_defs setStatus_def service_stop_def
        split: main_phase.splits ctl_phase.splits run_phase.splits if_splits, auto)
qed

lemma service_inv_reach: "sreach s \<Longrightarrow> service_inv s"
proof (induction rule: sreach.induct)
  case sreach_init
  show ?case by (simp add: service_inv_defs new_service_def)
qed (rule service_inv_step)

section \<open>Properties\<close>

text \<open>
  Property C37. When serviceMain has returned, the program has sent each state at most once, stopped among
  them, in one of five orders, and RunServiceMode returns the error of run; without an error
  only if a stop was asked for. In three of the orders stopped is not the last: when run ends
  before serviceMain has said that the service runs, and when a control was on its way.
\<close>

theorem service_histories:
  assumes "sreach s" and "sc_main s = Returned"
  shows "sc_reports s \<in>
      {[StartPending, Running, StoppedState], [StartPending, Running, StopPending, StoppedState],
       [StartPending, Running, StoppedState, StopPending], [StartPending, StoppedState, Running],
       [StartPending, StoppedState, Running, StopPending]} \<and>
    sc_run s = Closed (run_error s) \<and> (run_error s = None \<longrightarrow> sc_stop s)"
  using service_inv_reach [OF assms(1)] assms(2)
  by (auto simp: service_inv_defs run_error_def split: ctl_phase.splits run_phase.splits if_splits)

text \<open>
  A configuration that cannot be read makes run fail at once, and the service manager may be
  told that the service has stopped before it is told that it runs.
\<close>

lemma service_status_race:
  "\<exists>s. sreach s \<and> sc_main s = Returned \<and> run_error s = Some e \<and>
     sc_reports s = [StartPending, StoppedState, Running]"
proof -
  let ?s = "\<lambda>m r rs. \<lparr>sc_main = m, sc_run = r, sc_ctl = Quiet, sc_stop = False, sc_reports = rs\<rparr>"
  note step = sreach_step
  have "sreach (?s Entering NotStarted [])" using sreach_init by (simp add: new_service_def)
  then have "sreach (?s Announced NotStarted [StartPending])"
    by (rule step) (use announce [of "?s Entering NotStarted []"] in \<open>simp add: setStatus_def\<close>)
  then have "sreach (?s Spawned Starting [StartPending])"
    by (rule step) (use spawn [of "?s Announced NotStarted [StartPending]"] in simp)
  then have "sreach (?s Spawned (Ended (Some e)) [StartPending])"
    by (rule step) (use run_fails [of "?s Spawned Starting [StartPending]"] in simp)
  then have "sreach (?s Spawned (Told (Some e)) [StartPending, StoppedState])"
    by (rule step) (use say_stopped [of "?s Spawned (Ended (Some e)) [StartPending]" "Some e"] in \<open>simp add: setStatus_def\<close>)
  then have "sreach (?s Spawned (Closed (Some e)) [StartPending, StoppedState])"
    by (rule step) (use close_done [of "?s Spawned (Told (Some e)) [StartPending, StoppedState]" "Some e"] in simp)
  then have "sreach (?s Waiting (Closed (Some e)) [StartPending, StoppedState, Running])"
    by (rule step) (use say_running [of "?s Spawned (Closed (Some e)) [StartPending, StoppedState]"]
        in \<open>simp add: setStatus_def\<close>)
  then have "sreach (?s Returned (Closed (Some e)) [StartPending, StoppedState, Running])"
    by (rule step) (use main_returns [of "?s Waiting (Closed (Some e)) [StartPending, StoppedState, Running]" "Some e"] in simp)
  then show ?thesis by (intro exI [of _ "?s Returned (Closed (Some e)) [StartPending, StoppedState, Running]"])
    (simp add: run_error_def)
qed

theorem service_histories_witness:
  "\<exists>s. sreach s \<and> sc_reports s = [StartPending, StoppedState, Running] \<and>
     sc_run s = Closed (Some (Errorf ''server port is invalid''))"
proof -
  obtain s where s: "sreach s" "sc_main s = Returned" "run_error s = Some (Errorf ''server port is invalid'')"
    "sc_reports s = [StartPending, StoppedState, Running]"
    using service_status_race by blast
  with service_histories [OF s(1,2)] show ?thesis by auto
qed

text \<open>How much a service still has to do.\<close>

definition work_left :: "service \<Rightarrow> nat" where
  "work_left s =
     (case sc_main s of Entering \<Rightarrow> 4 | Announced \<Rightarrow> 3 | Spawned \<Rightarrow> 2 | Waiting \<Rightarrow> 1 | Returned \<Rightarrow> 0) +
     (case sc_run s of NotStarted \<Rightarrow> 5 | Starting \<Rightarrow> 4 | Serving \<Rightarrow> 3 | Ended _ \<Rightarrow> 2 | Told _ \<Rightarrow> 1 | Closed _ \<Rightarrow> 0) +
     (case sc_ctl s of Quiet \<Rightarrow> (if sc_stop s then 0 else 3) | Called \<Rightarrow> 2 | Stopping \<Rightarrow> 1)"

lemma no_second_stop: "service_inv s \<Longrightarrow> sc_ctl s = Quiet \<Longrightarrow> accepts_stop s \<Longrightarrow> \<not> sc_stop s"
  by (auto simp: service_inv_defs split: main_phase.splits if_splits)

lemma announced_idle: "service_inv s \<Longrightarrow> sc_main s = Announced \<Longrightarrow> sc_run s = NotStarted"
  by (simp add: service_inv_defs)

lemma step_works: "service_inv s \<Longrightarrow> sstep s t \<Longrightarrow> work_left t < work_left s"
  using no_second_stop [of s] announced_idle [of s]
  by (elim sstepE) (simp_all add: work_left_def setStatus_def service_stop_def)

lemma runs_bounded: "(sstep ^^ n) new_service s \<Longrightarrow> service_inv s \<and> n + work_left s \<le> 12"
proof (induction n arbitrary: s)
  case 0
  then show ?case using service_inv_reach [OF sreach_init] by (auto simp: work_left_def new_service_def)
next
  case (Suc n)
  then obtain r where r: "(sstep ^^ n) new_service r" "sstep r s" by auto
  with Suc.IH [OF r(1)] show ?case using step_works [of r s] service_inv_step [of r s] by auto
qed

text \<open>
  Property C38. No run of a service has more than 12 steps, and where it cannot go on serviceMain has
  returned: no order of its parts leaves it waiting for ever. (The arrival of a stop is a step;
  a service that serves is waiting for it.)
\<close>

theorem service_runs_end:
  assumes "(sstep ^^ n) new_service s"
  shows "n \<le> 12 \<and> ((\<nexists>t. sstep s t) \<longrightarrow> sc_main s = Returned)"
proof -
  note inv = runs_bounded [OF assms]
  have "sc_main s = Returned" if no: "\<And>t. \<not> sstep s t"
  proof (rule ccontr)
    assume main: "sc_main s \<noteq> Returned"
    then have w: "sc_main s = Waiting" using no announce spawn say_running by (cases "sc_main s") metis+
    have ctl: "sc_ctl s = Quiet" using no say_stopping stop_it by (cases "sc_ctl s") metis+
    have "sc_run s = Serving \<and> \<not> sc_stop s"
    proof (cases "sc_run s")
      case NotStarted
      with inv w show ?thesis by (auto simp: service_inv_defs)
    qed (use no w run_fails run_serves run_stops say_stopped close_done main_returns in metis)+
    then have "sc_reports s = [StartPending, Running]" using inv w ctl by (auto simp: service_inv_defs)
    then have "sstep s (s\<lparr>sc_ctl := Called\<rparr>)" by (intro control ctl main) simp
    with no show False by blast
  qed
  with inv show ?thesis by auto
qed

theorem service_runs_end_witness:
  "(sstep ^^ 1) new_service (new_service\<lparr>sc_main := Announced, sc_reports := [StartPending]\<rparr>) \<and> (1 :: nat) \<le> 12"
proof -
  have "(sstep ^^ 1) new_service (new_service\<lparr>sc_main := Announced, sc_reports := [StartPending]\<rparr>)"
    using announce [of new_service] by (simp add: new_service_def setStatus_def eq_OO)
  from this service_runs_end [OF this] show ?thesis by blast
qed

end
