(* ===== verification/Service_Api.thy ===== *)
theory Service_Api
  imports Service_Status
begin

text \<open>
  The calls of both services into the service manager: the status they send, the handler of
  controls, and RunServiceMode, which hands the process over to the manager. The agent's file
  calls it RunAsWindowsService and has RunServiceMode call that; the server's file calls it
  RunServiceMode.
\<close>

section \<open>The status\<close>

text \<open>SERVICE_STATUS, and what setStatus fills in.\<close>

record service_status =
  serviceType :: "32 word"
  currentState :: "32 word"
  controlsAccepted :: "32 word"
  win32ExitCode :: "32 word"
  serviceSpecificExitCode :: "32 word"
  checkPoint :: "32 word"
  waitHint :: "32 word"

definition status_record :: "32 word \<Rightarrow> 32 word \<Rightarrow> service_status" where
  "status_record st accepted =
     \<lparr>serviceType = 0x10, currentState = st, controlsAccepted = accepted, win32ExitCode = 0,
      serviceSpecificExitCode = 0, checkPoint = 0, waitHint = 3000\<rparr>"

definition sent_status :: "service_state \<Rightarrow> service_status" where
  "sent_status st = status_record (state_code st) (accepted_controls st)"

text \<open>
  Every status says that the service ended without an error, also the last one of a service whose
  run failed: the manager sees a regular end and does not take the failure actions that the
  installer has set up.
\<close>

lemma no_failure_told: "win32ExitCode (sent_status st) = 0"
  by (simp add: sent_status_def status_record_def)

lemma accepted_codes: "controlsAccepted (sent_status st) = (if st = Running then 5 else 0)"
  by (simp add: sent_status_def status_record_def accepted_controls_def)

lemma state_code_inj: "state_code st = state_code st' \<Longrightarrow> st = st'"
  by (cases st; cases st') simp_all

section \<open>Controls\<close>

text \<open>serviceControlHandler as a whole: stop and shutdown, and nothing else.\<close>

definition serviceControlHandler :: "32 word \<Rightarrow> service \<Rightarrow> service" where
  "serviceControlHandler control s =
     (if control = 1 \<or> control = 5 then service_stop (setStatus StopPending s) else s)"

text \<open>Its two operations are the two steps of the handler; other controls do nothing.\<close>

lemma handler_steps:
  assumes "sc_ctl s = Called" and "control = 1 \<or> control = 5"
  shows "(sstep ^^ 2) s ((serviceControlHandler control s)\<lparr>sc_ctl := Quiet\<rparr>)"
proof -
  let ?t = "(setStatus StopPending s)\<lparr>sc_ctl := Stopping\<rparr>"
  have "sstep s ?t" by (rule say_stopping [OF assms(1)])
  moreover have "sstep ?t ((service_stop ?t)\<lparr>sc_ctl := Quiet\<rparr>)" by (rule stop_it) simp
  moreover have "(service_stop ?t)\<lparr>sc_ctl := Quiet\<rparr> = (serviceControlHandler control s)\<lparr>sc_ctl := Quiet\<rparr>"
    using assms(2) by (simp add: serviceControlHandler_def service_stop_def setStatus_def)
  ultimately show ?thesis by (auto simp: numeral_2_eq_2 relcompp_apply)
qed

section \<open>RunServiceMode\<close>

text \<open>
  StartServiceCtrlDispatcher returns when serviceMain has: whether the call succeeded, its error,
  and the service as it is then. A name with a zero character is no UTF-16 string.
\<close>

record dispatcher_call =
  dc_ok :: bool
  dc_errno :: "go_error option"
  dc_service :: service

definition run_dispatched :: "string \<Rightarrow> dispatcher_call \<Rightarrow> go_error option" where
  "run_dispatched name c =
     (if CHR 0x00 \<in> set name then Some (Errorf ''invalid argument'')
      else if \<not> dc_ok c then
        (case dc_errno c of
           Some e \<Rightarrow> Some e
         | None \<Rightarrow> Some (Errorf ''failed to start service control dispatcher''))
      else run_error (dc_service c))"

definition RunAsWindowsService :: "dispatcher_call \<Rightarrow> go_error option" where
  "RunAsWindowsService c = run_dispatched ''TrishAgent'' c"

definition agent_RunServiceMode :: "dispatcher_call \<Rightarrow> go_error option" where
  "agent_RunServiceMode c = RunAsWindowsService c"

definition server_RunServiceMode :: "dispatcher_call \<Rightarrow> go_error option" where
  "server_RunServiceMode c = run_dispatched ''TrishServer'' c"

text \<open>
  A service program ends without an error only after the service manager has asked it to stop,
  and then it has said that it stops and that it has stopped.
\<close>

lemma service_mode_fine:
  assumes "server_RunServiceMode c = None \<or> agent_RunServiceMode c = None"
    and "dc_ok c \<Longrightarrow> sreach (dc_service c) \<and> sc_main (dc_service c) = Returned"
  shows "sc_stop (dc_service c) \<and> {StopPending, StoppedState} \<subseteq> set (sc_reports (dc_service c))"
proof -
  have ok: "dc_ok c" "run_error (dc_service c) = None"
    using assms(1) by (auto simp: server_RunServiceMode_def agent_RunServiceMode_def RunAsWindowsService_def
        run_dispatched_def split: if_splits option.splits)
  then have "sreach (dc_service c)" "sc_main (dc_service c) = Returned" using assms(2) by auto
  from service_inv_reach [OF this(1)] this(2) ok(2) show ?thesis
    by (auto simp: service_inv_defs run_error_def split: ctl_phase.splits run_phase.splits if_splits)
qed

end
