(* ===== verification/Spec2Isabelle.thy ===== *)
theory Spec2Isabelle
  imports Round_Trip Whole_Laws Dispatch_Steps Process_Lock Cli_Main Gui_Laws Page_Markup Agent_Start Agent_Steps Server_Start Server_Run
    Server_Tools Service_Api
begin

text \<open>
  Trish administers machines from a shell: an agent on every machine keeps a connection to one
  server, and a client (a command line, its interactive shell, or a small web page) sends
  signed requests to the server, which answers them from its registry and stores or passes
  them on to an agent and returns its reply. This library models the Go sources under src/.

  Parts, theories and sources.

  Shared. Prelude: strings and errors of Go, maps with their iteration order, instants,
  integers. Go_Format: fmt.Errorf with a text for its format. Storage: files and codecs. Wire:
  the records of package core (entry, message, manifest, package), their signature and
  authentication, and the registry of agents. Package core's protocol, the registry, the
  plugin packages and core.SessionState are not in the repository (core is an ignored
  directory); they are arguments: core_lib, registry_lib, session_lib. What is asked of them is
  a named hypothesis where it is needed (signing_ok, registry_ok, codec_ok, type_text_ok,
  command_names_ok). Nothing is asked of core.Validate: the invariant of the plugin store says of a
  package that it is a result of Validate (validated); only the restart of the store speaks of
  packages that Validate accepts again as they are (settled), since load validates them again.

  Server. Group_Store, Plugin_Store and Plugin_Laws: server/group_store.go and
  server/plugin_store.go with the files they write. Session_Manager and Dispatch_Steps:
  server/session.go, as functions and as goroutines whose operations on mutex, channel and timer
  interleave in any order. Admin_Auth: authentication and nonces. Server_Core and Server_Laws:
  the handlers of server/server.go; a handler is one function of the state, its environment
  srv_env holds the clock, identifiers, outcomes of writes and what happens while it waits.
  Server_Steps and Server_Run: the accept loop, the handlers of all connections, the sweep and
  Stop as steps in any order, with a request that waits for an agent cut in two at its wait.
  Power_Shell: the script that runs a plugin; the reader of PowerShell literals is an argument, for
  which reader_ok states the rules of the language.
  Process_Lock: server/lock.go, as a function of one process and as system calls of several.
  Server_Program and Server_Start: cmd/server/main.go, buildcfg/defaults.go, and run of
  server/service_windows.go, which compose lock, stores and listener.

  Agent. Command_Registry: core/plugin_registry.go, plugins/cd, plugins/dir. Event_Bus:
  core/events.go. Agent_Service and Agent_Laws: core/agent.go and agent/agent.go.
  Agent_Steps: sessions, heartbeats and answers as goroutines that share an encoder and a mutex.
  Agent_Program and Agent_Start: cmd/agent/main.go, agent/runtime.go, agent/exe.go,
  plugins/ipconfig, agent/elevate_windows.go.

  Client. Core_Client: core/client.go; a request returns what it sent and its result. Cli_Style:
  cli/style.go. Cli_World: terminal, requests, secret and temporary directories as the state of
  a monad, in which the commands of Cli_Commands (cli/terminal.go, cli/agent_groups.go) and
  Cli_Plugin (cli/plugin.go) are written as in the source; Cli_Shell adds flags, the table of
  commands and the interactive shell, Gui_Server the handlers of cli/gui.go, Gui_Page the script
  of the page it serves, and Page_Markup its elements, its style sheet and its switch of themes. Cli_Laws, Gui_Laws, Page_Laws, Shell_Laws and Cli_Main hold their
  properties.

  Windows. Windows_Args: command lines, and os.Args as the standard library of Go splits them. Win_World: a machine as the list of the actions done to
  it, with any answers; Windows_Install: agent/config.go, agent/install_windows.go and the
  installer of server/service_windows.go over it; Install_Laws a logic of traces, Install_Props
  the properties. Server_Tools: the tools that server/service_windows.go has a second time, shown to
  be the same, and copyFile. Service_Status: the life of a service, which agent/service_windows.go
  and server/service_windows.go share, as steps of serviceMain, run and the control handler;
  Service_Api: what they send to the service manager, and RunServiceMode.

  End_To_End composes server and agent for one command, and Round_Trip adds the client in front of
  them: the command line and the graphical interface, with the deadline of the client. Whole_System has one server, any
  number of agents and anybody else as steps over the messages that are on the connections;
  Whole_Laws shows that agents run only what signed requests have asked of them, each command at
  most once, and that what comes back is what the agent has made of that command.

  Groups of lemmas. Invariants of the stores and of the pending commands, kept by every
  operation and by every interleaving; refinement of the stores by what a restart reads back;
  one reply per request, its content and its effect for every message type; authentication:
  what is accepted, no replay, the size of the table of nonces; trust: which requests may run
  superexec; quoting of scripts and command lines against the rules by which they are read; exclusion
  by the lock and by a start of the server; one live session for an agent; the markup and the
  names that the page makes of what agents say; the client: exit codes, errors, output, what was
  sent; ends of the shell, of downloads, of waits, of services, each with its bound.

  Interfaces. Three locales: name_set (Group_Store), command_catalog (Plugin_Store) and
  client_request (Cli_World); each is interpreted where it is declared, on the group store, the
  plugin store and each of the twenty requests of the client.

  Bounds. AcquireProcessLock: one attempt per element of a list, two are enough if nobody else
  creates the file. A dispatch: at most six steps per goroutine. The shell: two per line of
  input and one. A download: more rounds than the file has bytes. Waits for a service: 21
  polls when pauses take their time. A service: twelve steps. Go_Format and the parsers:
  termination by the length of the text.

  Abstractions. The registry's operations are atomic inside a handler, and errors of sends on
  a connection are ignored, as the code does. Publish of the event bus is one step, though it holds
  the mutex for reading only: publish_interleaved of Event_Bus shows that each channel cannot tell
  the difference. A shell inside the shell reads the lines that
  follow. Time.Format, JSON, strconv.Quote, strings.EqualFold, filepath and package net are
  arguments. The installers of both Windows programs use one model of the tools, with the name
  of the service as an argument; Server_Tools justifies that. The time stamps of package log are
  left out. A step of Server_Steps is one operation on the registry or on the session manager, or
  a whole request of an administrator up to its wait. Agent_Steps assumes for its property that
  the heartbeats of a session have returned before the next dial, two seconds later or more; a
  lemma shows what happens otherwise.

  Not modelled: the dispatch of net/http, TCP, the Windows API, the service manager, the shells and
  the browser themselves, which are not part of the program and appear as arguments or as steps;
  what a browser makes of the style sheet, but for the values of its custom properties; the time
  stamps and the text of the logs. The functions of package core that the repository does not
  contain are arguments, as said above.
\<close>

end
